(* ===== verification/Gateway_Prelude.thy ===== *)
theory Gateway_Prelude
  imports Main "HOL-Library.Word" "HOL-Library.Code_Target_Nat"
begin

text \<open>
  Shared vocabulary of the development: the names of the model's types, fixed-width integers and
  Go's integer division, Go error values with \<^verbatim>\<open>errors.Is\<close> and \<^verbatim>\<open>errors.Join\<close>, results of fallible
  calls, and the generic lemmas the component theories share.

  A Go \<^verbatim>\<open>string\<close> and a \<^verbatim>\<open>[]byte\<close> are both sequences of bytes, so both are the HOL type
  \<open>string\<close> (a list of 8-bit characters); \<open>length\<close> is Go's \<^verbatim>\<open>len\<close>.
\<close>

named_theorems gw_defs \<open>definitions unfolded when a component operation is executed symbolically\<close>
named_theorems gw_inv \<open>preservation lemmas of component invariants\<close>

section \<open>Names of the model's types\<close>

type_synonym tenant_id = string
type_synonym connection_id = string
type_synonym message_id = string
type_synonym line_id = string
type_synonym media_id = string
type_synonym owner_id = string

text \<open>
  A \<^verbatim>\<open>time.Duration\<close> is an int64 number of nanoseconds and is modelled by \<open>int\<close>; where the code
  multiplies durations the wrap-around is written out with \<open>wrap64\<close>. Database instants
  (\<^verbatim>\<open>timestamptz\<close>) are integers in microseconds, fencing tokens and revisions are naturals.
\<close>

type_synonym duration = int
type_synonym instant = int
type_synonym token = nat

definition wrap64 :: "int \<Rightarrow> int" where
  "wrap64 i = (i + 2 ^ 63) mod 2 ^ 64 - 2 ^ 63"

lemma wrap64_id [simp]: "- (2 ^ 63) \<le> i \<Longrightarrow> i < 2 ^ 63 \<Longrightarrow> wrap64 i = i"
  by (simp add: wrap64_def)

lemma wrap64_range: "- (2 ^ 63) \<le> wrap64 i \<and> wrap64 i < 2 ^ 63"
proof -
  have "0 \<le> (i + 2 ^ 63) mod 2 ^ 64" and "(i + 2 ^ 63) mod 2 ^ 64 < (2 ^ 64 :: int)"
    by (auto intro: pos_mod_sign pos_mod_bound)
  then show ?thesis by (simp add: wrap64_def)
qed

abbreviation (input) nanosecond :: duration where "nanosecond \<equiv> 1"
abbreviation (input) millisecond :: duration where "millisecond \<equiv> 1000000"
abbreviation (input) second :: duration where "second \<equiv> 1000000000"
abbreviation (input) minute :: duration where "minute \<equiv> 60000000000"
abbreviation (input) hour :: duration where "hour \<equiv> 3600000000000"

text \<open>Go's integer division truncates towards zero.\<close>

definition go_div :: "int \<Rightarrow> int \<Rightarrow> int" where
  "go_div a b = sgn a * sgn b * (\<bar>a\<bar> div \<bar>b\<bar>)"

lemma go_div_pos [simp]: "0 \<le> a \<Longrightarrow> 0 < b \<Longrightarrow> go_div a b = a div b"
  by (cases "a = 0") (simp_all add: go_div_def)

text \<open>Go's remainder has the sign of the dividend.\<close>

definition go_mod :: "int \<Rightarrow> int \<Rightarrow> int" where
  "go_mod a b = a - go_div a b * b"

lemma go_mod_pos [simp]: "0 \<le> a \<Longrightarrow> 0 < b \<Longrightarrow> go_mod a b = a mod b"
  by (simp add: go_mod_def minus_div_mult_eq_mod)

section \<open>Go error values\<close>

text \<open>
  The sentinel errors of the packages the development models, one constructor per
  \<^verbatim>\<open>errors.New\<close> variable; the packages whose sentinels clash with others have a type of their own.
  An unnamed \<^verbatim>\<open>errors.New(text)\<close> or a database failure is \<open>Opaque\<close>;
  \<^verbatim>\<open>fmt.Errorf("...: %w", err)\<close> is \<open>Wrap\<close>; \<^verbatim>\<open>errors.Join\<close> is \<open>Joined\<close>.
\<close>

datatype pairing_sentinel =
    ErrInvalidDependencies | PairingInvalidConnectionState | ErrAttemptActive | ErrAttemptBusy
  | ErrAttemptSuperseded | ErrAttemptNotFound | ErrAttemptExpired | ErrUnknownDevice
  | ErrInvalidProviderData | ErrProviderOperation | ErrSessionPersistence | ErrInvalidCookieBundle

datatype postgres_sentinel =
    ErrConnectionQuotaExceeded | ErrTenantSuspended | ErrInvalidFingerprint
  | ErrEncryptedSessionNotFound | ErrConnectionLeaseLost | ErrConnectionNotFound
  | ErrInvalidTenantAdminInput | ErrTenantNotFound | ErrTenantPairingActive

datatype ingress_sentinel = ErrConflictingEnvelope | ErrInvalidProviderResponseID | ErrProviderResponseCapacity

datatype sentinel =
    ContextCanceled | ContextDeadlineExceeded
  | ErrInvalidTenantID | ErrInvalidIdentifier | ErrInvalidPhoneNumber | ErrInvalidLabelSlug
  | ErrInvalidConnectionState | ErrTenantBoundary | ErrConnectionBoundary | ErrInvalidMessageState
  | ErrInvalidConfig | ErrLeaseUnavailable | ErrProviderAuthorization | ErrProviderTransient
  | ErrProviderPermanentConfig | ErrProviderPermanentProtocol | ErrProviderUnavailable
  | ErrProviderJoinTimeout | ErrSharedInfrastructure | ErrStaleGeneration
  | ErrInvalidLease | ErrInvalidEncryptedSession | ErrNoRows
  | ErrInvalidCommand | ErrInvalidRoute | ErrIdempotencyConflict | ErrNotFound
  | ErrDispatchFenceLost | ErrCanonicalLaneBusy | ErrBackfillPoisoned
  | ErrInvalidConsumer | ErrInvalidOutboxWorker
  | ErrInvalidWorker | ErrWebhookClaimLost | ErrInvalidEndpoint | ErrEndpointQuotaExceeded
  | ErrInvalidManager | ErrInvalidScope | ErrInvalidEnvelope | ErrEncrypt | ErrDecrypt
  | ErrKeyWrapper | ErrStore
  | ErrInvalidSupervisor | ErrUnsafeDestination | ErrUnmappedCommandRecord | ErrInvalidFranzConfig
  | Pairing pairing_sentinel | Postgres postgres_sentinel | Ingress ingress_sentinel

datatype err = Sentinel sentinel | Opaque string | Wrap string err | Joined "err list"

text \<open>\<^verbatim>\<open>errors.Is(err, target)\<close> walks the tree of wrapped and joined errors; nil is no error.\<close>

fun errors_is :: "err \<Rightarrow> sentinel \<Rightarrow> bool" where
  "errors_is (Sentinel s) t = (s = t)"
| "errors_is (Opaque _) t = False"
| "errors_is (Wrap _ e) t = errors_is e t"
| "errors_is (Joined es) t = list_ex (\<lambda>e. errors_is e t) es"

type_synonym goerror = "err option"

definition Is :: "goerror \<Rightarrow> sentinel \<Rightarrow> bool" where
  "Is e t = (case e of None \<Rightarrow> False | Some x \<Rightarrow> errors_is x t)"

text \<open>\<^verbatim>\<open>errors.Join\<close> drops nil values and is nil when every value is nil.\<close>

definition errors_Join :: "goerror list \<Rightarrow> goerror" where
  "errors_Join es =
     (let present = List.map_filter (\<lambda>e. e) es
      in if present = [] then None else Some (Joined present))"

lemma Is_None [simp]: "Is None t = False"
  by (simp add: Is_def)

lemma Is_Sentinel [simp]: "Is (Some (Sentinel s)) t = (s = t)"
  by (simp add: Is_def)

lemma Is_Opaque [simp]: "\<not> Is (Some (Opaque m)) t"
  by (simp add: Is_def)

lemma Is_Wrap [simp]: "Is (Some (Wrap m e)) t = errors_is e t"
  by (simp add: Is_def)

lemma list_ex_map_filter_Is:
  "list_ex (\<lambda>x. errors_is x t) (List.map_filter (\<lambda>e. e) es) = (\<exists>e\<in>set es. Is e t)"
  by (induction es) (auto simp: Is_def List.map_filter_def split: option.splits)

lemma map_filter_Nil_iff: "List.map_filter (\<lambda>e. e) es = [] \<longleftrightarrow> (\<forall>e\<in>set es. e = None)"
  by (induction es) (auto simp: List.map_filter_def)

lemma Is_errors_Join [simp]: "Is (errors_Join es) t = (\<exists>e\<in>set es. Is e t)"
proof (cases "List.map_filter (\<lambda>e. e) es = []")
  case True
  then show ?thesis using list_ex_map_filter_Is [of t es] by (simp add: errors_Join_def)
next
  case False
  then have "Is (errors_Join es) t = list_ex (\<lambda>x. errors_is x t) (List.map_filter (\<lambda>e. e) es)"
    by (simp add: errors_Join_def Is_def)
  then show ?thesis by (simp only: list_ex_map_filter_Is)
qed

lemma errors_Join_None [simp]: "errors_Join es = None \<longleftrightarrow> (\<forall>e\<in>set es. e = None)"
  by (simp add: errors_Join_def Let_def map_filter_Nil_iff)

text \<open>
  A Go call that returns \<^verbatim>\<open>(value, error)\<close> with a zero value on error is a sum: \<open>Inl\<close> the error,
  \<open>Inr\<close> the value.
\<close>

type_synonym 'a result = "err + 'a"

definition bind_res :: "'a result \<Rightarrow> ('a \<Rightarrow> 'b result) \<Rightarrow> 'b result" where
  "bind_res r f = (case r of Inl e \<Rightarrow> Inl e | Inr a \<Rightarrow> f a)"

lemma bind_res_simps [simp]: "bind_res (Inl e) f = Inl e" "bind_res (Inr a) f = f a"
  by (simp_all add: bind_res_def)

lemma bind_res_Inr: "bind_res r f = Inr b \<longleftrightarrow> (\<exists>a. r = Inr a \<and> f a = Inr b)"
  by (cases r) simp_all

end
