(* ===== verification/Go_Strings.thy ===== *)
theory Go_Strings
  imports Gateway_Prelude
begin

text \<open>
  The string functions of Go's standard library the gateway's validators call: UTF-8 decoding
  (\<^verbatim>\<open>utf8.DecodeRune\<close>, \<^verbatim>\<open>utf8.ValidString\<close>, \<^verbatim>\<open>range\<close> over a string), the Unicode classes
  \<^verbatim>\<open>IsSpace\<close>, \<^verbatim>\<open>IsControl\<close>, \<^verbatim>\<open>Cf\<close> and \<^verbatim>\<open>Co\<close>, \<^verbatim>\<open>strings.TrimSpace\<close>, and the fixed-width
  big-endian encodings of \<^verbatim>\<open>encoding/binary\<close>.
\<close>

section \<open>Bytes and runes\<close>

abbreviation byte_of :: "char \<Rightarrow> nat" where
  "byte_of c \<equiv> of_char c"

lemma byte_of_less [simp]: "byte_of c < 256"
  by (simp add: of_char_def)

abbreviation is_cont :: "nat \<Rightarrow> bool" where
  "is_cont b \<equiv> 0x80 \<le> b \<and> b \<le> 0xBF"

text \<open>
  \<^verbatim>\<open>utf8.DecodeRuneInString\<close> on a non-empty string: the rune and its width, and
  \<open>(0xFFFD, 1)\<close> for an invalid encoding.
\<close>

fun decode_bytes :: "nat list \<Rightarrow> nat \<times> nat" where
  "decode_bytes [] = (0xFFFD, 0)"
| "decode_bytes (b0 # r) =
    (if b0 < 0x80 then (b0, 1)
     else if 0xC2 \<le> b0 \<and> b0 \<le> 0xDF then
       (case r of
          b1 # _ \<Rightarrow> if is_cont b1 then ((b0 - 0xC0) * 64 + (b1 - 0x80), 2) else (0xFFFD, 1)
        | _ \<Rightarrow> (0xFFFD, 1))
     else if 0xE0 \<le> b0 \<and> b0 \<le> 0xEF then
       (case r of
          b1 # b2 # _ \<Rightarrow>
            if (if b0 = 0xE0 then 0xA0 else 0x80) \<le> b1 \<and> b1 \<le> (if b0 = 0xED then 0x9F else 0xBF)
               \<and> is_cont b2
            then ((b0 - 0xE0) * 4096 + (b1 - 0x80) * 64 + (b2 - 0x80), 3) else (0xFFFD, 1)
        | _ \<Rightarrow> (0xFFFD, 1))
     else if 0xF0 \<le> b0 \<and> b0 \<le> 0xF4 then
       (case r of
          b1 # b2 # b3 # _ \<Rightarrow>
            if (if b0 = 0xF0 then 0x90 else 0x80) \<le> b1 \<and> b1 \<le> (if b0 = 0xF4 then 0x8F else 0xBF)
               \<and> is_cont b2 \<and> is_cont b3
            then ((b0 - 0xF0) * 262144 + (b1 - 0x80) * 4096 + (b2 - 0x80) * 64 + (b3 - 0x80), 4)
            else (0xFFFD, 1)
        | _ \<Rightarrow> (0xFFFD, 1))
     else (0xFFFD, 1))"

lemma decode_bytes_width: "bs \<noteq> [] \<Longrightarrow> 1 \<le> snd (decode_bytes bs) \<and> snd (decode_bytes bs) \<le> length bs"
  by (cases bs) (auto split: list.splits)

declare decode_bytes.simps(2) [simp del]

text \<open>\<^verbatim>\<open>for _, r := range s\<close>: the decoded runes in order.\<close>

function rune_list :: "nat list \<Rightarrow> (nat \<times> nat) list" where
  "rune_list bs = (if bs = [] then [] else decode_bytes bs # rune_list (drop (snd (decode_bytes bs)) bs))"
  by pat_completeness auto
termination
proof (relation "measure length")
  fix bs :: "nat list" assume "bs \<noteq> []"
  then show "(drop (snd (decode_bytes bs)) bs, bs) \<in> measure length"
    using decode_bytes_width [of bs] by simp
qed simp

declare rune_list.simps [simp del]

definition runes :: "string \<Rightarrow> nat list" where
  "runes s = map fst (rune_list (map of_char s))"

text \<open>\<^verbatim>\<open>utf8.ValidString\<close>: a width-one rune is a byte below 0x80, everything else is well formed.\<close>

definition valid_utf8 :: "string \<Rightarrow> bool" where
  "valid_utf8 s = list_all (\<lambda>(r, w). w = 1 \<longrightarrow> r < 0x80) (rune_list (map of_char s))"

section \<open>Unicode classes\<close>

definition unicode_IsSpace :: "nat \<Rightarrow> bool" where
  "unicode_IsSpace r =
     ((0x09 \<le> r \<and> r \<le> 0x0D) \<or> r = 0x20 \<or> r = 0x85 \<or> r = 0xA0 \<or> r = 0x1680 \<or>
      (0x2000 \<le> r \<and> r \<le> 0x200A) \<or> r = 0x2028 \<or> r = 0x2029 \<or> r = 0x202F \<or> r = 0x205F \<or> r = 0x3000)"

definition unicode_IsControl :: "nat \<Rightarrow> bool" where
  "unicode_IsControl r = (r \<le> 0x1F \<or> (0x7F \<le> r \<and> r \<le> 0x9F))"

definition in_ranges :: "(nat \<times> nat) list \<Rightarrow> nat \<Rightarrow> bool" where
  "in_ranges rs r = list_ex (\<lambda>(lo, hi). lo \<le> r \<and> r \<le> hi) rs"

definition unicode_Cf :: "nat \<Rightarrow> bool" where
  "unicode_Cf = in_ranges
     [(0xAD, 0xAD), (0x600, 0x605), (0x61C, 0x61C), (0x6DD, 0x6DD), (0x70F, 0x70F), (0x890, 0x891),
      (0x8E2, 0x8E2), (0x180E, 0x180E), (0x200B, 0x200F), (0x202A, 0x202E), (0x2060, 0x2064),
      (0x2066, 0x206F), (0xFEFF, 0xFEFF), (0xFFF9, 0xFFFB), (0x110BD, 0x110BD), (0x110CD, 0x110CD),
      (0x13430, 0x1343F), (0x1BCA0, 0x1BCA3), (0x1D173, 0x1D17A), (0xE0001, 0xE0001),
      (0xE0020, 0xE007F)]"

definition unicode_Co :: "nat \<Rightarrow> bool" where
  "unicode_Co = in_ranges [(0xE000, 0xF8FF), (0xF0000, 0xFFFFD), (0x100000, 0x10FFFD)]"

section \<open>strings.TrimSpace\<close>

text \<open>
  The UTF-8 encodings of the \<^verbatim>\<open>IsSpace\<close> runes. \<^verbatim>\<open>TrimSpace\<close> drops such encodings from the left
  and then from the right; a byte that is not part of one of them stops the trimming.
\<close>

definition space_encodings :: "nat list list" where
  "space_encodings =
     [[0x09], [0x0A], [0x0B], [0x0C], [0x0D], [0x20], [0xC2, 0x85], [0xC2, 0xA0],
      [0xE1, 0x9A, 0x80], [0xE2, 0x80, 0x80], [0xE2, 0x80, 0x81], [0xE2, 0x80, 0x82],
      [0xE2, 0x80, 0x83], [0xE2, 0x80, 0x84], [0xE2, 0x80, 0x85], [0xE2, 0x80, 0x86],
      [0xE2, 0x80, 0x87], [0xE2, 0x80, 0x88], [0xE2, 0x80, 0x89], [0xE2, 0x80, 0x8A],
      [0xE2, 0x80, 0xA8], [0xE2, 0x80, 0xA9], [0xE2, 0x80, 0xAF], [0xE2, 0x81, 0x9F],
      [0xE3, 0x80, 0x80]]"

definition has_prefix :: "nat list \<Rightarrow> string \<Rightarrow> bool" where
  "has_prefix e s = (e \<noteq> [] \<and> map of_char (take (length e) s) = e)"

function strip_left :: "nat list list \<Rightarrow> string \<Rightarrow> string" where
  "strip_left encs s =
     (case find (\<lambda>e. has_prefix e s) encs of
        None \<Rightarrow> s
      | Some e \<Rightarrow> strip_left encs (drop (length e) s))"
  by pat_completeness auto
termination
proof (relation "measure (\<lambda>(encs, s). length s)")
  fix encs :: "nat list list" and s e
  assume "find (\<lambda>e. has_prefix e s) encs = Some e"
  then have p: "has_prefix e s" by (auto simp: find_Some_iff)
  then have "e \<noteq> []" "s \<noteq> []" by (auto simp: has_prefix_def)
  then show "((encs, drop (length e) s), (encs, s)) \<in> measure (\<lambda>(encs, s). length s)"
    by simp
qed simp

declare strip_left.simps [simp del]

definition TrimSpace :: "string \<Rightarrow> string" where
  "TrimSpace s =
     rev (strip_left (map rev space_encodings) (rev (strip_left space_encodings s)))"

lemma strip_left_stops:
  assumes "\<forall>e\<in>set encs. e \<noteq> [] \<longrightarrow> hd e \<noteq> byte_of c"
  shows "strip_left encs (c # cs) = c # cs"
proof -
  have "\<not> has_prefix e (c # cs)" if "e \<in> set encs" for e
    by (cases e) (use that assms in \<open>force simp: has_prefix_def\<close>)+
  then have "find (\<lambda>e. has_prefix e (c # cs)) encs = None"
    by (simp add: find_None_iff)
  then show ?thesis by (simp add: strip_left.simps)
qed

lemma TrimSpace_graphic:
  assumes "\<forall>c\<in>set s. 0x21 \<le> byte_of c \<and> byte_of c < 0x7F"
  shows "TrimSpace s = s"
proof (cases "s = []")
  case True
  then show ?thesis
    by (simp add: TrimSpace_def strip_left.simps space_encodings_def has_prefix_def)
next
  case False
  then obtain c cs where s: "s = c # cs" by (cases s) auto
  from False obtain d ds where r: "rev s = d # ds" by (cases "rev s") auto
  have "0x21 \<le> byte_of c \<and> byte_of c < 0x7F" using assms s by simp
  then have l: "strip_left space_encodings s = s"
    unfolding s by (intro strip_left_stops) (auto simp: space_encodings_def)
  have "d \<in> set s" using r by (metis list.set_intros(1) set_rev)
  with assms have "0x21 \<le> byte_of d \<and> byte_of d < 0x7F" by simp
  then have "strip_left (map rev space_encodings) (rev s) = rev s"
    unfolding r by (intro strip_left_stops) (auto simp: space_encodings_def)
  with l show ?thesis by (simp add: TrimSpace_def)
qed

text \<open>\<^verbatim>\<open>strings.ContainsAny(s, chars)\<close> for ASCII \<^verbatim>\<open>chars\<close>.\<close>

definition ContainsAny :: "string \<Rightarrow> string \<Rightarrow> bool" where
  "ContainsAny s cs = list_ex (\<lambda>c. c \<in> set cs) s"

section \<open>Big-endian encodings\<close>

text \<open>\<^verbatim>\<open>binary.BigEndian.PutUint32\<close> and \<^verbatim>\<open>PutUint64\<close> of a value reduced to the width.\<close>

fun be_bytes :: "nat \<Rightarrow> nat \<Rightarrow> string" where
  "be_bytes 0 n = []"
| "be_bytes (Suc k) n = be_bytes k (n div 256) @ [char_of (n mod 256)]"

definition put_uint32 :: "nat \<Rightarrow> string" where
  "put_uint32 n = be_bytes 4 n"

definition put_uint64 :: "nat \<Rightarrow> string" where
  "put_uint64 n = be_bytes 8 n"

lemma length_be_bytes [simp]: "length (be_bytes k n) = k"
  by (induction k arbitrary: n) simp_all

lemma be_bytes_inj: "m < 256 ^ k \<Longrightarrow> n < 256 ^ k \<Longrightarrow> be_bytes k m = be_bytes k n \<Longrightarrow> m = n"
proof (induction k arbitrary: m n)
  case 0
  then show ?case by simp
next
  case (Suc k)
  from Suc.prems(3) have hd: "be_bytes k (m div 256) = be_bytes k (n div 256)"
    and tl: "char_of (m mod 256) = (char_of (n mod 256) :: char)" by simp_all
  from Suc.prems have "m div 256 < 256 ^ k" "n div 256 < 256 ^ k"
    by (simp_all add: less_mult_imp_div_less mult.commute)
  with hd have d: "m div 256 = n div 256" by (rule Suc.IH [rotated 2])
  from tl have "m mod 256 = n mod 256"
    by (metis mod_mod_trivial of_char_of)
  with d show ?case by (metis div_mult_mod_eq)
qed

text \<open>
  A length-prefixed field, and a sequence of them: the framing that the partition key, the
  request digest and the associated data of an envelope all use.
\<close>

definition framed :: "nat \<Rightarrow> string \<Rightarrow> string" where
  "framed k v = be_bytes k (length v) @ v"

lemma framed_append_inj:
  assumes "framed k v @ x = framed k w @ y" "length v < 256 ^ k" "length w < 256 ^ k"
  shows "v = w \<and> x = y"
proof -
  from assms(1) have "be_bytes k (length v) = be_bytes k (length w)" and rest: "v @ x = w @ y"
    by (simp_all add: framed_def append_eq_append_conv)
  with assms(2,3) have "length v = length w" by (blast intro: be_bytes_inj)
  with rest show ?thesis by (simp add: append_eq_append_conv)
qed

lemma framed_neq_Nil: "0 < k \<Longrightarrow> framed k v \<noteq> []"
  by (cases k) (simp_all add: framed_def)

lemma concat_framed_inj:
  assumes "concat (map (framed k) vs) = concat (map (framed k) ws)"
    "\<forall>v\<in>set vs. length v < 256 ^ k" "\<forall>w\<in>set ws. length w < 256 ^ k" "0 < k"
  shows "vs = ws"
  using assms(1-3)
proof (induction vs arbitrary: ws)
  case Nil
  then show ?case
    using framed_neq_Nil [OF \<open>0 < k\<close>] by (cases ws) simp_all
next
  case (Cons v vs)
  show ?case
  proof (cases ws)
    case Nil
    with Cons.prems show ?thesis using framed_neq_Nil [OF \<open>0 < k\<close>] by simp
  next
    case (Cons w ws')
    with Cons.prems have "framed k v @ concat (map (framed k) vs) = framed k w @ concat (map (framed k) ws')"
      by simp
    then have "v = w \<and> concat (map (framed k) vs) = concat (map (framed k) ws')"
      by (rule framed_append_inj) (use Cons.prems \<open>ws = w # ws'\<close> in simp_all)
    with Cons.IH [of ws'] Cons.prems \<open>ws = w # ws'\<close> show ?thesis by simp
  qed
qed

end
