(* ===== verification/Domain_Types.thy ===== *)
theory Domain_Types
  imports Go_Strings
begin

text \<open>
  The \<^verbatim>\<open>domain\<close> package (\<^verbatim>\<open>internal/gateway/domain\<close>): connection and message states, provider
  identifiers, E.164 phone numbers, lines and contacts, with the laws the other components rest
  on: canonical phone numbers, the byte-level safety of provider identifiers, and the fold that
  derives the visible state of a message from its immutable history.
\<close>

section \<open>Connections and lines\<close>

text \<open>A Go string type with named constants; any other string is \<open>ConnectionStateOther\<close>.\<close>

datatype ConnectionState =
    ConnectionStateUnpaired | ConnectionStatePairing | ConnectionStateConnected
  | ConnectionStateDegraded | ConnectionStateReauthorizationRequired
  | ConnectionStateSuspended | ConnectionStateDisconnected
  | ConnectionStateOther string

definition ConnectionState_Validate :: "ConnectionState \<Rightarrow> goerror" where
  "ConnectionState_Validate st =
     (case st of ConnectionStateOther s \<Rightarrow> Some (Wrap s (Sentinel ErrInvalidConnectionState)) | _ \<Rightarrow> None)"

record Connection =
  connection_ID :: connection_id
  connection_TenantID :: tenant_id
  connection_Name :: string
  connection_State :: ConnectionState

record Line =
  line_ID :: line_id
  line_TenantID :: tenant_id
  line_ConnectionID :: connection_id
  line_ProviderParticipantID :: string
  line_ProviderOutgoingID :: string
  line_DisplayName :: string

definition Line_ValidateFor :: "Line \<Rightarrow> Connection \<Rightarrow> goerror" where
  "Line_ValidateFor line c =
     (if line_TenantID line = '''' \<or> connection_TenantID c = ''''
         \<or> line_TenantID line \<noteq> connection_TenantID c
      then Some (Wrap (line_ID line) (Sentinel ErrTenantBoundary))
      else if line_ConnectionID line = '''' \<or> connection_ID c = ''''
         \<or> line_ConnectionID line \<noteq> connection_ID c
      then Some (Wrap (line_ID line) (Sentinel ErrConnectionBoundary))
      else None)"

section \<open>Provider identifiers\<close>

definition ProviderPageCursorID :: string where
  "ProviderPageCursorID = ''_provider_page''"

definition MaxProviderConversationIDBytes :: nat where
  "MaxProviderConversationIDBytes = 512"

definition MaxProviderResponseIDBytes :: nat where
  "MaxProviderResponseIDBytes = 256"

definition unsafeProviderIdentifierRune :: "nat \<Rightarrow> bool" where
  "unsafeProviderIdentifierRune r =
     (unicode_IsControl r \<or> unicode_IsSpace r \<or> unicode_Cf r \<or> unicode_Co r \<or>
      (0xFDD0 \<le> r \<and> r \<le> 0xFDEF) \<or> (r \<le> 0x10FFFF \<and> r mod 0x10000 div 2 = 0x7FFF))"

definition ValidProviderIdentifier :: "string \<Rightarrow> bool" where
  "ValidProviderIdentifier v =
     (if v = '''' \<or> v = ProviderPageCursorID \<or> length v > MaxProviderConversationIDBytes
         \<or> \<not> valid_utf8 v \<or> TrimSpace v \<noteq> v then False
      else \<not> list_ex unsafeProviderIdentifierRune (runes v))"

definition ValidProviderConversationID :: "string \<Rightarrow> bool" where
  "ValidProviderConversationID v = ValidProviderIdentifier v"

definition ValidProviderResponseID :: "string \<Rightarrow> bool" where
  "ValidProviderResponseID v =
     (if v = '''' \<or> length v > MaxProviderResponseIDBytes \<or> \<not> valid_utf8 v \<or> TrimSpace v \<noteq> v
      then False
      else \<not> list_ex unsafeProviderIdentifierRune (runes v))"

section \<open>Phone numbers and contacts\<close>

record E164Phone = phone_value :: string

definition is_digit :: "char \<Rightarrow> bool" where
  "is_digit c = (byte_of CHR ''0'' \<le> byte_of c \<and> byte_of c \<le> byte_of CHR ''9'')"

definition is_separator :: "char \<Rightarrow> bool" where
  "is_separator c = (c = CHR '' '' \<or> c = CHR 0x09 \<or> c = CHR ''('' \<or> c = CHR '')''
     \<or> c = CHR ''-'' \<or> c = CHR ''.'')"

fun e164_digits :: "string \<Rightarrow> string option" where
  "e164_digits [] = Some []"
| "e164_digits (c # cs) =
     (if is_digit c then map_option (Cons c) (e164_digits cs)
      else if is_separator c then e164_digits cs
      else None)"

definition ParseE164 :: "string \<Rightarrow> E164Phone result" where
  "ParseE164 s =
     (let input = TrimSpace s; bad = Inl (Wrap input (Sentinel ErrInvalidPhoneNumber)) in
      case input of
        c # c' # rest \<Rightarrow>
          if c \<noteq> CHR ''+'' then bad
          else (case e164_digits (c' # rest) of
                  None \<Rightarrow> bad
                | Some ds \<Rightarrow>
                    if length ds < 2 \<or> length ds > 15 \<or> hd ds = CHR ''0'' then bad
                    else Inr \<lparr> phone_value = CHR ''+'' # ds \<rparr>)
      | _ \<Rightarrow> bad)"

record Contact =
  contact_ID :: string
  contact_TenantID :: tenant_id
  contact_Phone :: E164Phone
  contact_Alias :: string
  contact_ProviderDisplayName :: string
  contact_LabelIDs :: "string list"

definition EffectiveDisplayName :: "Contact \<Rightarrow> string" where
  "EffectiveDisplayName c =
     (let alias = TrimSpace (contact_Alias c); providerName = TrimSpace (contact_ProviderDisplayName c)
      in if alias \<noteq> '''' then alias
         else if providerName \<noteq> '''' then providerName
         else phone_value (contact_Phone c))"

section \<open>Message states\<close>

datatype MessageState =
    MessageStateQueued | MessageStateDispatching | MessageStateProviderAccepted
  | MessageStateAwaitingPhone | MessageStateSent | MessageStateDelivered | MessageStateRead
  | MessageStateUncertain | MessageStateFailed | MessageStateOther string

definition MessageState_Validate :: "MessageState \<Rightarrow> goerror" where
  "MessageState_Validate st =
     (case st of MessageStateOther s \<Rightarrow> Some (Wrap s (Sentinel ErrInvalidMessageState)) | _ \<Rightarrow> None)"

definition messageStateRank :: "MessageState \<Rightarrow> int \<times> bool" where
  "messageStateRank st =
     (case st of
        MessageStateQueued \<Rightarrow> (0, True)
      | MessageStateDispatching \<Rightarrow> (1, True)
      | MessageStateProviderAccepted \<Rightarrow> (2, True)
      | MessageStateAwaitingPhone \<Rightarrow> (3, True)
      | MessageStateSent \<Rightarrow> (4, True)
      | MessageStateDelivered \<Rightarrow> (5, True)
      | MessageStateRead \<Rightarrow> (6, True)
      | MessageStateUncertain \<Rightarrow> (2, True)
      | MessageStateFailed \<Rightarrow> (7, True)
      | MessageStateOther _ \<Rightarrow> (0, False))"

definition messageStateRankMust :: "MessageState \<Rightarrow> int" where
  "messageStateRankMust st = fst (messageStateRank st)"

text \<open>The loop body of \<^verbatim>\<open>DeriveMessageState\<close> on the pair \<^verbatim>\<open>(current, currentRank)\<close>.\<close>

definition derive_step :: "MessageState \<Rightarrow> MessageState \<times> int \<Rightarrow> MessageState \<times> int" where
  "derive_step observed cr =
     (case cr of (current, currentRank) \<Rightarrow>
       case messageStateRank observed of (rank, valid) \<Rightarrow>
         if \<not> valid then cr
         else if observed = MessageStateUncertain then
           (if currentRank < messageStateRankMust MessageStateSent
            then (observed, messageStateRankMust MessageStateUncertain) else cr)
         else if observed = MessageStateFailed then
           (if currentRank < messageStateRankMust MessageStateSent
            then (observed, messageStateRankMust MessageStateFailed) else cr)
         else if current = MessageStateUncertain \<or> (current \<noteq> MessageStateFailed \<and> rank \<ge> currentRank)
         then (observed, rank) else cr)"

definition DeriveMessageState :: "MessageState list \<Rightarrow> MessageState" where
  "DeriveMessageState history = fst (fold derive_step history (MessageStateOther '''', -1))"


section \<open>Facts about decoding\<close>

lemma decode_bytes_ascii: "b < 0x80 \<Longrightarrow> decode_bytes (b # r) = (b, 1)"
  by (simp add: decode_bytes.simps)

lemma decode_bytes_multi:
  assumes "snd (decode_bytes (b # r)) \<noteq> 1"
  shows "\<forall>x\<in>set (take (snd (decode_bytes (b # r))) (b # r)). 0x80 \<le> x"
proof (cases "b < 0x80")
  case True
  with assms show ?thesis by (simp add: decode_bytes.simps)
next
  case False
  consider "0xC2 \<le> b \<and> b \<le> 0xDF" | "0xE0 \<le> b \<and> b \<le> 0xEF" | "0xF0 \<le> b \<and> b \<le> 0xF4"
    using assms False by (simp add: decode_bytes.simps split: if_splits)
  then show ?thesis
  proof cases
    case 1
    with assms show ?thesis
      by (simp add: decode_bytes.simps split: list.splits if_splits)
  next
    case 2
    with assms show ?thesis
      by (simp add: decode_bytes.simps del: One_nat_def split: list.splits if_split_asm)
  next
    case 3
    with assms show ?thesis
      by (simp add: decode_bytes.simps del: One_nat_def split: list.splits if_split_asm)
  qed
qed

text \<open>In valid UTF-8 every byte below 0x80 is a rune of its own.\<close>

lemma ascii_byte_is_rune:
  assumes "list_all (\<lambda>(r, w). w = 1 \<longrightarrow> r < 0x80) (rune_list bs)" "x \<in> set bs" "x < 0x80"
  shows "x \<in> fst ` set (rune_list bs)"
  using assms
proof (induction bs rule: rune_list.induct)
  case (1 bs)
  then obtain b r where bs: "bs = b # r" by (cases bs) auto
  let ?w = "snd (decode_bytes bs)"
  have unf: "rune_list bs = decode_bytes bs # rune_list (drop ?w bs)"
    by (subst rune_list.simps) (simp add: bs)
  have split: "set bs = set (take ?w bs) \<union> set (drop ?w bs)"
    by (metis append_take_drop_id set_append)
  from \<open>x \<in> set bs\<close> consider "x \<in> set (drop ?w bs)" | "x \<in> set (take ?w bs)" unfolding split by auto
  then show ?case
  proof cases
    case 1
    have "list_all (\<lambda>(r, w). w = 1 \<longrightarrow> r < 0x80) (rune_list (drop ?w bs))"
      using "1.prems"(1) unfolding unf by simp
    with 1 "1.IH" \<open>x < 0x80\<close> bs have "x \<in> fst ` set (rune_list (drop ?w bs))" by blast
    then show ?thesis unfolding unf by simp
  next
    case 2
    show ?thesis
    proof (cases "b < 0x80")
      case True
      then have "decode_bytes bs = (b, 1)" unfolding bs by (rule decode_bytes_ascii)
      with 2 show ?thesis unfolding unf by (simp add: bs)
    next
      case False
      have "?w \<noteq> 1"
      proof
        assume "?w = 1"
        with "1.prems"(1) have "fst (decode_bytes bs) < 0x80" by (auto simp: unf case_prod_beta)
        with \<open>?w = 1\<close> False show False
          by (auto simp: bs decode_bytes.simps split: if_splits list.splits)
      qed
      with decode_bytes_multi [of b r] 2 \<open>x < 0x80\<close> show ?thesis by (auto simp: bs)
    qed
  qed
qed

lemma safe_runes_bytes:
  assumes "valid_utf8 s" "\<not> list_ex unsafeProviderIdentifierRune (runes s)" "c \<in> set s"
  shows "0x21 \<le> byte_of c \<and> byte_of c \<noteq> 0x7F"
proof (cases "byte_of c < 0x80")
  case True
  with assms have "byte_of c \<in> fst ` set (rune_list (map of_char s))"
    by (intro ascii_byte_is_rune) (auto simp: valid_utf8_def)
  with assms(2) have "\<not> unsafeProviderIdentifierRune (byte_of c)"
    by (auto simp: runes_def list_ex_iff)
  then show ?thesis
    by (auto simp: unsafeProviderIdentifierRune_def unicode_IsControl_def unicode_IsSpace_def)
qed simp

section \<open>Phone numbers\<close>

lemma e164_digits_all: "e164_digits s = Some ds \<Longrightarrow> list_all is_digit ds"
  by (induction s arbitrary: ds) (auto split: if_splits)

lemma e164_digits_id: "list_all is_digit ds \<Longrightarrow> e164_digits ds = Some ds"
  by (induction ds) auto

lemma is_digit_graphic: "is_digit c \<Longrightarrow> 0x21 \<le> byte_of c \<and> byte_of c < 0x7F"
  by (simp add: is_digit_def)

lemma ParseE164_shape:
  assumes "ParseE164 s = Inr p"
  obtains ds where "p = \<lparr>phone_value = CHR ''+'' # ds\<rparr>" "list_all is_digit ds"
    "2 \<le> length ds" "length ds \<le> 15" "hd ds \<noteq> CHR ''0''"
proof -
  obtain r ds where "e164_digits r = Some ds" "p = \<lparr>phone_value = CHR ''+'' # ds\<rparr>"
    "\<not> length ds < 2" "\<not> 15 < length ds" "hd ds \<noteq> CHR ''0''"
    using assms
    by (auto simp: ParseE164_def Let_def simp del: e164_digits.simps
        split: list.splits option.splits if_split_asm)
  with that e164_digits_all show ?thesis by simp
qed

lemma ParseE164_canonical_input:
  assumes "list_all is_digit ds" "2 \<le> length ds" "length ds \<le> 15" "hd ds \<noteq> CHR ''0''"
  shows "ParseE164 (CHR ''+'' # ds) = Inr \<lparr>phone_value = CHR ''+'' # ds\<rparr>"
proof -
  have "TrimSpace (CHR ''+'' # ds) = CHR ''+'' # ds"
    using assms(1) is_digit_graphic by (intro TrimSpace_graphic) (auto simp: list_all_iff)
  moreover obtain d ds' where "ds = d # ds'" using assms(2) by (cases ds) auto
  ultimately show ?thesis
    using assms e164_digits_id [OF assms(1)] by (auto simp: ParseE164_def Let_def)
qed

text \<open>
  Every number \<^verbatim>\<open>ParseE164\<close> accepts is canonical E.164: a plus sign, then 2 to 15 decimal
  digits of which the first is not zero; and parsing the canonical form gives the same number
  again, so the stored value is a fixed point of the parser.
\<close>

theorem ParseE164_canonical:
  assumes "ParseE164 s = Inr p"
  shows "(\<exists>ds. phone_value p = CHR ''+'' # ds \<and> list_all is_digit ds \<and> 2 \<le> length ds
            \<and> length ds \<le> 15 \<and> hd ds \<noteq> CHR ''0'')
         \<and> ParseE164 (phone_value p) = Inr p"
proof -
  obtain ds where p: "p = \<lparr>phone_value = CHR ''+'' # ds\<rparr>" and ds: "list_all is_digit ds"
    "2 \<le> length ds" "length ds \<le> 15" "hd ds \<noteq> CHR ''0''"
    using assms by (rule ParseE164_shape)
  then show ?thesis using ParseE164_canonical_input [OF ds] by auto
qed

lemma ParseE164_example: "ParseE164 '' +1 (415) 555-0100 '' = Inr \<lparr>phone_value = ''+14155550100''\<rparr>"
  by code_simp

theorem ParseE164_canonical_witness:
  "ParseE164 '' +1 (415) 555-0100 '' = Inr \<lparr>phone_value = ''+14155550100''\<rparr>
   \<and> ParseE164 ''+14155550100'' = Inr \<lparr>phone_value = ''+14155550100''\<rparr>"
  using ParseE164_canonical [OF ParseE164_example] ParseE164_example by simp

section \<open>Provider identifiers are safe byte strings\<close>

text \<open>
  Every identifier the two trust boundaries accept is bounded, is never the reserved page
  cursor, and contains no ASCII control byte, no ASCII white space and no DEL: the check on
  decoded runes leaves no way to smuggle such a byte through an encoding.
\<close>

theorem provider_identifiers_safe:
  assumes "ValidProviderIdentifier v" "ValidProviderResponseID w"
  shows "length v \<le> 512 \<and> v \<noteq> '''' \<and> v \<noteq> ''_provider_page'' \<and> length w \<le> 256 \<and> w \<noteq> ''''
    \<and> (\<forall>c\<in>set v \<union> set w. 0x21 \<le> byte_of c \<and> byte_of c \<noteq> 0x7F)"
  using assms safe_runes_bytes [of v] safe_runes_bytes [of w]
  by (auto simp: ValidProviderIdentifier_def ValidProviderResponseID_def ProviderPageCursorID_def
      MaxProviderConversationIDBytes_def MaxProviderResponseIDBytes_def split: if_splits)

lemma provider_identifiers_example: "ValidProviderIdentifier ''conv-42'' \<and> ValidProviderResponseID ''r_1''"
  by code_simp

theorem provider_identifiers_safe_witness:
  "list_all (\<lambda>c. 0x21 \<le> byte_of c \<and> byte_of c \<noteq> 0x7F) (''conv-42'' @ ''r_1'')"
  using provider_identifiers_safe [of "''conv-42''" "''r_1''"] provider_identifiers_example
  unfolding list_all_iff set_append by blast

section \<open>Deriving the message state\<close>

text \<open>
  Along the fold the pair is either the initial one or a valid state with its own rank, and from
  rank \<^verbatim>\<open>sent\<close> on the rank never falls.
\<close>

definition derive_inv :: "MessageState \<times> int \<Rightarrow> bool" where
  "derive_inv cr = (cr = (MessageStateOther '''', -1)
     \<or> (snd (messageStateRank (fst cr)) \<and> snd cr = messageStateRankMust (fst cr)))"

lemma derive_step_inv: "derive_inv cr \<Longrightarrow> derive_inv (derive_step s cr)"
  by (cases cr; cases s)
    (auto simp: derive_inv_def derive_step_def messageStateRank_def messageStateRankMust_def)

lemma derive_fold_inv: "derive_inv cr \<Longrightarrow> derive_inv (fold derive_step h cr)"
  by (induction h arbitrary: cr) (simp_all add: derive_step_inv)

lemma derive_step_mono: "derive_inv cr \<Longrightarrow> 4 \<le> snd cr \<Longrightarrow> snd cr \<le> snd (derive_step s cr)"
  by (cases cr; cases s)
    (auto simp: derive_inv_def derive_step_def messageStateRank_def messageStateRankMust_def)

lemma derive_fold_mono: "derive_inv cr \<Longrightarrow> 4 \<le> snd cr \<Longrightarrow> snd cr \<le> snd (fold derive_step h cr)"
proof (induction h arbitrary: cr)
  case (Cons s h)
  note m = derive_step_mono [OF Cons.prems, of s]
  also have "snd (derive_step s cr) \<le> snd (fold derive_step h (derive_step s cr))"
    using m Cons.prems by (intro Cons.IH derive_step_inv) simp_all
  finally show ?case by simp
qed simp

lemma derive_fold_rank:
  "derive_inv cr \<Longrightarrow> 4 \<le> snd (fold derive_step h cr)
   \<Longrightarrow> snd (fold derive_step h cr) = messageStateRankMust (fst (fold derive_step h cr))"
  using derive_fold_inv [of cr h] by (auto simp: derive_inv_def)

lemma derive_initial_inv: "derive_inv (MessageStateOther '''', -1)"
  by (simp add: derive_inv_def)

lemma derive_rank_eq:
  "4 \<le> messageStateRankMust (DeriveMessageState h)
   \<Longrightarrow> snd (fold derive_step h (MessageStateOther '''', -1)) = messageStateRankMust (DeriveMessageState h)"
  using derive_fold_inv [OF derive_initial_inv, of h]
  by (auto simp: DeriveMessageState_def derive_inv_def messageStateRankMust_def messageStateRank_def)

lemma derive_append_mono:
  assumes "4 \<le> messageStateRankMust (DeriveMessageState h)"
  shows "messageStateRankMust (DeriveMessageState h) \<le> messageStateRankMust (DeriveMessageState (h @ k))"
proof -
  let ?cr = "fold derive_step h (MessageStateOther '''', -1)"
  from derive_rank_eq [OF assms] have eq: "snd ?cr = messageStateRankMust (DeriveMessageState h)" .
  with assms have m: "snd ?cr \<le> snd (fold derive_step k ?cr)" 
    using derive_fold_inv [OF derive_initial_inv] by (intro derive_fold_mono) simp_all
  have "snd (fold derive_step k ?cr) = messageStateRankMust (fst (fold derive_step k ?cr))"
    using m eq assms derive_fold_inv [OF derive_initial_inv] by (intro derive_fold_rank) auto
  then show ?thesis using m eq by (simp add: DeriveMessageState_def)
qed

text \<open>
  C27. Carrier evidence is never lost: once a history derives a state of rank \<^verbatim>\<open>sent\<close> or above,
  every extension of the history derives a state of at least that rank, so no late or replayed
  receipt lowers it (\<^verbatim>\<open>failed\<close> has the highest rank and is absorbing).
\<close>

theorem DeriveMessageState_mono:
  assumes "4 \<le> messageStateRankMust (DeriveMessageState h)"
  shows "messageStateRankMust (DeriveMessageState h) \<le> messageStateRankMust (DeriveMessageState (h @ k))
    \<and> (DeriveMessageState h = MessageStateFailed \<longrightarrow> DeriveMessageState (h @ k) = MessageStateFailed)"
proof
  show m: "messageStateRankMust (DeriveMessageState h) \<le> messageStateRankMust (DeriveMessageState (h @ k))"
    using assms by (rule derive_append_mono)
  show "DeriveMessageState h = MessageStateFailed \<longrightarrow> DeriveMessageState (h @ k) = MessageStateFailed"
    using m by (cases "DeriveMessageState (h @ k)") (auto simp: messageStateRankMust_def messageStateRank_def)
qed

lemma DeriveMessageState_example:
  "DeriveMessageState [MessageStateQueued, MessageStateUncertain, MessageStateDelivered] = MessageStateDelivered"
  by code_simp

theorem DeriveMessageState_mono_witness:
  "messageStateRankMust MessageStateDelivered
   \<le> messageStateRankMust (DeriveMessageState ([MessageStateQueued, MessageStateUncertain, MessageStateDelivered]
        @ [MessageStateSent, MessageStateFailed]))"
  using DeriveMessageState_mono [of "[MessageStateQueued, MessageStateUncertain, MessageStateDelivered]"
      "[MessageStateSent, MessageStateFailed]"]
  by (simp only: DeriveMessageState_example) (simp add: messageStateRankMust_def messageStateRank_def)

lemma derive_step_evidence:
  assumes "derive_inv cr" "fst cr \<noteq> MessageStateFailed"
    "s = MessageStateSent \<or> s = MessageStateDelivered \<or> s = MessageStateRead"
  shows "messageStateRankMust s \<le> snd (derive_step s cr)"
  using assms by (cases cr) (auto simp: derive_step_def derive_inv_def messageStateRank_def messageStateRankMust_def)

lemma derive_fold_not_failed:
  "MessageStateFailed \<notin> set h \<Longrightarrow> fst cr \<noteq> MessageStateFailed
   \<Longrightarrow> fst (fold derive_step h cr) \<noteq> MessageStateFailed"
proof (induction h arbitrary: cr)
  case (Cons s h)
  then have "fst (derive_step s cr) \<noteq> MessageStateFailed"
    by (auto simp: derive_step_def split: prod.splits)
  with Cons show ?case by simp
qed simp

text \<open>
  Provider evidence is reflected whatever the order it arrives in: if a history holds a
  \<^verbatim>\<open>sent\<close>, \<^verbatim>\<open>delivered\<close> or \<^verbatim>\<open>read\<close> observation and no failure, the derived state ranks at least
  as high, also when the observation came after an \<^verbatim>\<open>uncertain\<close> outcome or before older states.
\<close>

theorem DeriveMessageState_evidence:
  assumes "s \<in> set h" "MessageStateFailed \<notin> set h"
    "s = MessageStateSent \<or> s = MessageStateDelivered \<or> s = MessageStateRead"
  shows "messageStateRankMust s \<le> messageStateRankMust (DeriveMessageState h)"
proof -
  obtain h1 h2 where h: "h = h1 @ s # h2" using assms(1) by (auto dest: split_list)
  let ?cr = "fold derive_step h1 (MessageStateOther '''', -1)"
  have inv: "derive_inv ?cr" using derive_initial_inv by (rule derive_fold_inv)
  have "fst ?cr \<noteq> MessageStateFailed" using assms(2) h by (intro derive_fold_not_failed) auto
  with inv have e: "messageStateRankMust s \<le> snd (derive_step s ?cr)"
    using assms(3) by (intro derive_step_evidence)
  moreover have four: "4 \<le> messageStateRankMust s"
    using assms(3) by (auto simp: messageStateRankMust_def messageStateRank_def)
  ultimately have "messageStateRankMust s \<le> snd (fold derive_step h2 (derive_step s ?cr))"
    using derive_fold_mono [of "derive_step s ?cr" h2] derive_step_inv [OF inv] by fastforce
  moreover from this four inv have "snd (fold derive_step h2 (derive_step s ?cr))
      = messageStateRankMust (fst (fold derive_step h2 (derive_step s ?cr)))"
    by (intro derive_fold_rank derive_step_inv) auto
  ultimately show ?thesis by (simp add: DeriveMessageState_def h)
qed

theorem DeriveMessageState_evidence_witness:
  "messageStateRankMust MessageStateSent
     \<le> messageStateRankMust (DeriveMessageState [MessageStateUncertain, MessageStateSent, MessageStateQueued])"
  by (rule DeriveMessageState_evidence) simp_all

end
