(* ===== verification/Event_Contract.thy ===== *)
theory Event_Contract
  imports Domain_Types "HOL-Library.Char_ord" "HOL-Library.List_Lexorder" "HOL-Library.Product_Lexorder"
begin

text \<open>
  The public event body (\<^verbatim>\<open>eventcontract/envelope.go\<close>): validation and canonicalisation of an
  event before it is encoded. \<^verbatim>\<open>json.Marshal\<close> and the RFC 3339 rendering of a time are arguments of
  the model; a zero \<^verbatim>\<open>time.Time\<close> is \<open>None\<close>. \<^verbatim>\<open>sort.Strings\<close> orders byte strings, \<^verbatim>\<open>sort.Slice\<close>
  orders media by position and identifier.
\<close>

section \<open>Events\<close>

record event_media =
  em_ID :: string
  em_Position :: int
  em_Status :: string
  em_MIMEType :: string
  em_Size :: int
  em_DisplayFilename :: string
  em_MetadataPath :: string
  em_ContentPath :: string

datatype json_scalar = JString string | JNumber int

record event_envelope =
  ee_EventID :: string
  ee_Type :: string
  ee_Version :: int
  ee_OccurredAt :: "instant option"
  ee_OccurredAtText :: string
  ee_IngestedAt :: "instant option"
  ee_IngestedAtText :: string
  ee_TenantID :: string
  ee_ConnectionID :: string
  ee_ConversationID :: string
  ee_MessageID :: string
  ee_ProviderMessageID :: string
  ee_ProviderTmpID :: string
  ee_Direction :: string
  ee_Provenance :: string
  ee_ProviderStatus :: string
  ee_Actionable :: bool
  ee_Sender :: string
  ee_Recipients :: "string list"
  ee_Text :: string
  ee_Transport :: string
  ee_Status :: string
  ee_State :: string
  ee_MediaID :: string
  ee_MetadataPath :: string
  ee_ContentPath :: string
  ee_Media :: "event_media list"
  ee_ProviderResponseID :: string
  ee_Reason :: string
  ee_Data :: "(string \<times> json_scalar) list"

section \<open>Validation\<close>

definition validToken :: "string \<Rightarrow> nat \<Rightarrow> bool" where
  "validToken v limit =
     (length v > 0 \<and> length v \<le> limit \<and> valid_utf8 v \<and> TrimSpace v = v
      \<and> \<not> ContainsAny v [CHR 0x00, CHR 0x0D, CHR 0x0A])"

definition validOptionalToken :: "string \<Rightarrow> nat \<Rightarrow> bool" where
  "validOptionalToken v limit = (v = '''' \<or> validToken v limit)"

definition validOptionalText :: "string \<Rightarrow> nat \<Rightarrow> bool" where
  "validOptionalText v limit = (length v \<le> limit \<and> valid_utf8 v \<and> \<not> ContainsAny v [CHR 0x00])"

definition event_fields_ok :: "event_envelope \<Rightarrow> bool" where
  "event_fields_ok i =
     (validToken (ee_EventID i) 256 \<and> validToken (ee_Type i) 128 \<and> ee_OccurredAt i \<noteq> None \<and>
      validToken (ee_TenantID i) 256 \<and> validOptionalToken (ee_ConnectionID i) 256 \<and>
      validOptionalToken (ee_ConversationID i) MaxProviderConversationIDBytes \<and>
      validOptionalToken (ee_MessageID i) 256 \<and>
      validOptionalToken (ee_ProviderMessageID i) MaxProviderConversationIDBytes \<and>
      validOptionalToken (ee_ProviderTmpID i) MaxProviderConversationIDBytes \<and>
      validOptionalToken (ee_MediaID i) 256 \<and>
      validOptionalText (ee_MetadataPath i) 1024 \<and> validOptionalText (ee_ContentPath i) 1024 \<and>
      validOptionalToken (ee_Reason i) 128 \<and> validOptionalText (ee_Text i) 4194304)"

definition event_direction_ok :: "event_envelope \<Rightarrow> bool" where
  "event_direction_ok i =
     (ee_Direction i = '''' \<or> ee_Direction i = ''inbound'' \<or> ee_Direction i = ''outbound''
      \<or> ee_Direction i = ''unknown'')"

definition event_actionable_ok :: "event_envelope \<Rightarrow> bool" where
  "event_actionable_ok i =
     (\<not> (ee_Actionable i \<and> ee_Type i \<noteq> ''message.received'') \<and>
      \<not> (ee_Type i = ''message.received'' \<and>
         (\<not> ee_Actionable i \<or> ee_IngestedAt i = None \<or> ee_ConnectionID i = '''' \<or>
          ee_ConversationID i = '''' \<or> ee_ProviderMessageID i = '''' \<or>
          ee_Direction i \<noteq> ''inbound'' \<or> ee_Provenance i \<noteq> ''provider_live'')))"

definition event_media_ok :: "event_media \<Rightarrow> bool" where
  "event_media_ok x =
     (validToken (em_ID x) 256 \<and> 0 \<le> em_Position x \<and> em_Position x \<le> 255 \<and>
      (em_Status x = ''pending'' \<or> em_Status x = ''ready'' \<or> em_Status x = ''failed'') \<and> 0 \<le> em_Size x \<and>
      validOptionalText (em_MIMEType x) 255 \<and> validOptionalText (em_DisplayFilename x) 255 \<and>
      validOptionalText (em_MetadataPath x) 1024 \<and> validOptionalText (em_ContentPath x) 1024)"

section \<open>Canonicalisation\<close>

text \<open>The sender, empty or parsed; the recipients, parsed, without repetitions, in the given order.\<close>

definition canonical_sender :: "string \<Rightarrow> string option" where
  "canonical_sender s =
     (if s = '''' then Some '''' else case ParseE164 s of Inl _ \<Rightarrow> None | Inr p \<Rightarrow> Some (phone_value p))"

fun canonical_recipients :: "string list \<Rightarrow> string list \<Rightarrow> string list option" where
  "canonical_recipients acc [] = Some acc"
| "canonical_recipients acc (raw # rest) =
     (case ParseE164 raw of
        Inl _ \<Rightarrow> None
      | Inr p \<Rightarrow> canonical_recipients
                   (if phone_value p \<in> set acc then acc else acc @ [phone_value p]) rest)"

definition media_key :: "event_media \<Rightarrow> int \<times> string" where
  "media_key x = (em_Position x, em_ID x)"

definition event_canonical :: "(instant \<Rightarrow> string) \<Rightarrow> event_envelope \<Rightarrow> event_envelope result" where
  "event_canonical fmt i =
     (let bad = Inl (Sentinel ErrInvalidEnvelope) in
      if ee_Version i \<noteq> 0 \<and> ee_Version i \<noteq> 1 then bad
      else if \<not> event_fields_ok i then bad
      else if \<not> event_direction_ok i then bad
      else if \<not> validOptionalToken (ee_Provenance i) 128 \<or> \<not> validOptionalToken (ee_ProviderStatus i) 128 then bad
      else if \<not> event_actionable_ok i then bad
      else case canonical_sender (ee_Sender i) of None \<Rightarrow> bad
      | Some sender \<Rightarrow>
        (case canonical_recipients [] (ee_Recipients i) of None \<Rightarrow> bad
         | Some recipients \<Rightarrow>
           if \<not> list_all event_media_ok (ee_Media i) then bad
           else Inr (i \<lparr> ee_Sender := sender,
                  ee_Version := 1,
                  ee_OccurredAtText := (case ee_OccurredAt i of None \<Rightarrow> '''' | Some x \<Rightarrow> fmt x),
                  ee_IngestedAtText := (case ee_IngestedAt i of None \<Rightarrow> ee_IngestedAtText i | Some x \<Rightarrow> fmt x),
                  ee_Recipients := sort recipients,
                  ee_Media := sort_key media_key (ee_Media i) \<rparr>)))"

definition event_Marshal ::
  "(event_envelope \<Rightarrow> string result) \<Rightarrow> (instant \<Rightarrow> string) \<Rightarrow> event_envelope \<Rightarrow> string result" where
  "event_Marshal json fmt i = bind_res (event_canonical fmt i) json"

section \<open>Canonical recipients\<close>

lemma canonical_recipients_distinct:
  "canonical_recipients acc raws = Some rs \<Longrightarrow> distinct acc \<Longrightarrow> distinct rs"
  by (induction acc raws rule: canonical_recipients.induct) (auto split: sum.splits if_splits)

lemma canonical_recipients_set:
  "canonical_recipients acc raws = Some rs \<Longrightarrow>
   set rs = set acc \<union> {phone_value p |p. \<exists>raw\<in>set raws. ParseE164 raw = Inr p}"
proof (induction acc raws rule: canonical_recipients.induct)
  case (2 acc raw rest)
  then obtain p where p: "ParseE164 raw = Inr p" by (auto split: sum.splits)
  let ?acc = "if phone_value p \<in> set acc then acc else acc @ [phone_value p]"
  have "set rs = set ?acc \<union> {phone_value q |q. \<exists>r\<in>set rest. ParseE164 r = Inr q}"
    using 2 p by simp
  moreover have "set ?acc = insert (phone_value p) (set acc)" by auto
  ultimately show ?case using p by auto
qed simp

lemma canonical_recipients_total:
  "(\<forall>raw\<in>set raws. \<exists>p. ParseE164 raw = Inr p) \<Longrightarrow> \<exists>rs. canonical_recipients acc raws = Some rs"
  by (induction acc raws rule: canonical_recipients.induct) auto

lemma event_canonical_recipients:
  assumes "event_canonical fmt i = Inr c"
  shows "sorted (ee_Recipients c) \<and> distinct (ee_Recipients c)
    \<and> set (ee_Recipients c) = {phone_value p |p. \<exists>raw\<in>set (ee_Recipients i). ParseE164 raw = Inr p}"
proof -
  obtain rs where r: "canonical_recipients [] (ee_Recipients i) = Some rs" "ee_Recipients c = sort rs"
    using assms by (auto simp: event_canonical_def Let_def split: if_splits option.splits)
  then show ?thesis
    using canonical_recipients_distinct [OF r(1)] canonical_recipients_set [OF r(1)] by simp
qed

text \<open>
  The encoded recipients do not depend on how a caller wrote them: if two events are accepted
  and their recipient lists denote the same set of phone numbers (in any order, formatting or
  repetition), then their canonical recipient lists are equal, sorted and free of duplicates.
\<close>

theorem event_recipients_canonical:
  assumes "event_canonical fmt i = Inr c" "event_canonical fmt j = Inr d"
    "{p. \<exists>raw\<in>set (ee_Recipients i). ParseE164 raw = Inr p} = {p. \<exists>raw\<in>set (ee_Recipients j). ParseE164 raw = Inr p}"
  shows "ee_Recipients c = ee_Recipients d \<and> sorted (ee_Recipients c) \<and> distinct (ee_Recipients c)"
proof -
  have eq: "{phone_value p |p. \<exists>raw\<in>set (ee_Recipients x). ParseE164 raw = Inr p}
      = phone_value ` {p. \<exists>raw\<in>set (ee_Recipients x). ParseE164 raw = Inr p}" for x :: event_envelope
    by auto
  have "set (ee_Recipients c) = set (ee_Recipients d)"
    using event_canonical_recipients [OF assms(1)] event_canonical_recipients [OF assms(2)] assms(3) eq by simp
  then show ?thesis
    using event_canonical_recipients [OF assms(1)] event_canonical_recipients [OF assms(2)]
    by (blast intro: sorted_distinct_set_unique)
qed

definition demo_event :: "string list \<Rightarrow> event_envelope" where
  "demo_event rs = \<lparr> ee_EventID = ''evt_1'', ee_Type = ''message.updated'', ee_Version = 0,
     ee_OccurredAt = Some 1, ee_OccurredAtText = '''', ee_IngestedAt = None, ee_IngestedAtText = '''',
     ee_TenantID = ''t1'', ee_ConnectionID = ''c1'', ee_ConversationID = '''', ee_MessageID = '''',
     ee_ProviderMessageID = '''', ee_ProviderTmpID = '''', ee_Direction = ''outbound'', ee_Provenance = '''',
     ee_ProviderStatus = '''', ee_Actionable = False, ee_Sender = '''', ee_Recipients = rs, ee_Text = ''hi'',
     ee_Transport = '''', ee_Status = '''', ee_State = '''', ee_MediaID = '''', ee_MetadataPath = '''',
     ee_ContentPath = '''', ee_Media = [], ee_ProviderResponseID = '''', ee_Reason = '''', ee_Data = [] \<rparr>"

lemma demo_numbers:
  "ParseE164 ''+1 415 555 0100'' = Inr \<lparr>phone_value = ''+14155550100''\<rparr>"
  "ParseE164 ''+14155550100'' = Inr \<lparr>phone_value = ''+14155550100''\<rparr>"
  "ParseE164 ''+442071838750'' = Inr \<lparr>phone_value = ''+442071838750''\<rparr>"
  by code_simp+

lemma demo_tokens:
  "validToken ''evt_1'' 256" "validToken ''message.updated'' 128" "validToken ''t1'' 256" "validToken ''c1'' 256"
  "validOptionalText '''' 1024" "validOptionalText ''hi'' 4194304"
  by code_simp+

lemma demo_event_accepted:
  assumes "canonical_recipients [] rs = Some out"
  shows "\<exists>c. event_canonical fmt (demo_event rs) = Inr c"
  using assms demo_tokens
  by (simp add: event_canonical_def demo_event_def event_fields_ok_def event_direction_ok_def event_actionable_ok_def
      validOptionalToken_def canonical_sender_def)

theorem event_recipients_canonical_witness:
  "\<exists>c d. event_canonical (\<lambda>_. ''now'') (demo_event [''+1 415 555 0100'', ''+442071838750'']) = Inr c
     \<and> event_canonical (\<lambda>_. ''now'') (demo_event [''+442071838750'', ''+14155550100'', ''+1 415 555 0100'']) = Inr d
     \<and> ee_Recipients c = ee_Recipients d"
proof -
  obtain c where c: "event_canonical (\<lambda>_. ''now'') (demo_event [''+1 415 555 0100'', ''+442071838750'']) = Inr c"
    using demo_event_accepted [of "[''+1 415 555 0100'', ''+442071838750'']"] by (auto simp: demo_numbers)
  obtain d where d: "event_canonical (\<lambda>_. ''now'') (demo_event [''+442071838750'', ''+14155550100'', ''+1 415 555 0100'']) = Inr d"
    using demo_event_accepted [of "[''+442071838750'', ''+14155550100'', ''+1 415 555 0100'']"] by (auto simp: demo_numbers)
  have "ee_Recipients c = ee_Recipients d"
    using event_recipients_canonical [OF c d] by (auto simp: demo_event_def demo_numbers)
  with c d show ?thesis by blast
qed

section \<open>Canonical events are fixed points\<close>

lemma ParseE164_again:
  assumes "ParseE164 s = Inr p"
  shows "ParseE164 (phone_value p) = Inr \<lparr>phone_value = phone_value p\<rparr> \<and> phone_value p \<noteq> ''''"
  using assms by (rule ParseE164_shape) (simp add: ParseE164_canonical_input)

lemma canonical_recipients_id:
  assumes "\<forall>r\<in>set rs. ParseE164 r = Inr \<lparr>phone_value = r\<rparr>" "distinct (acc @ rs)"
  shows "canonical_recipients acc rs = Some (acc @ rs)"
  using assms by (induction rs arbitrary: acc) auto

lemma canonical_sender_again: "canonical_sender s = Some t \<Longrightarrow> canonical_sender t = Some t"
  using ParseE164_again by (fastforce simp: canonical_sender_def split: if_splits sum.splits)

lemma event_canonical_recipients_again:
  assumes "event_canonical fmt i = Inr c"
  shows "canonical_recipients [] (ee_Recipients c) = Some (ee_Recipients c)"
proof -
  have "\<forall>r\<in>set (ee_Recipients c). ParseE164 r = Inr \<lparr>phone_value = r\<rparr>"
    using event_canonical_recipients [OF assms] ParseE164_again by force
  then have "canonical_recipients [] (ee_Recipients c) = Some ([] @ ee_Recipients c)"
    using event_canonical_recipients [OF assms] by (intro canonical_recipients_id) simp_all
  then show ?thesis by simp
qed

lemma event_canonical_shape:
  assumes "event_canonical fmt i = Inr c"
  obtains sender rs where "canonical_sender (ee_Sender i) = Some sender"
    "c = i \<lparr> ee_Sender := sender, ee_Version := 1,
           ee_OccurredAtText := (case ee_OccurredAt i of None \<Rightarrow> '''' | Some x \<Rightarrow> fmt x),
           ee_IngestedAtText := (case ee_IngestedAt i of None \<Rightarrow> ee_IngestedAtText i | Some x \<Rightarrow> fmt x),
           ee_Recipients := sort rs, ee_Media := sort_key media_key (ee_Media i) \<rparr>"
    "event_fields_ok i" "event_direction_ok i" "validOptionalToken (ee_Provenance i) 128"
    "validOptionalToken (ee_ProviderStatus i) 128" "event_actionable_ok i" "list_all event_media_ok (ee_Media i)"
  using assms by (auto simp: event_canonical_def Let_def split: if_splits option.splits)

text \<open>
  Canonicalisation is idempotent: an event that was accepted once is accepted again and
  unchanged, so re-encoding a stored event yields the same bytes for every JSON encoder that is a
  function of the envelope.
\<close>

theorem event_canonical_idempotent:
  assumes "event_canonical fmt i = Inr c"
  shows "event_canonical fmt c = Inr c \<and> event_Marshal json fmt c = event_Marshal json fmt i"
proof -
  obtain sender rs where s: "canonical_sender (ee_Sender i) = Some sender"
    and c: "c = i \<lparr> ee_Sender := sender, ee_Version := 1,
           ee_OccurredAtText := (case ee_OccurredAt i of None \<Rightarrow> '''' | Some x \<Rightarrow> fmt x),
           ee_IngestedAtText := (case ee_IngestedAt i of None \<Rightarrow> ee_IngestedAtText i | Some x \<Rightarrow> fmt x),
           ee_Recipients := sort rs, ee_Media := sort_key media_key (ee_Media i) \<rparr>"
    and ok: "event_fields_ok i" "event_direction_ok i" "validOptionalToken (ee_Provenance i) 128"
    "validOptionalToken (ee_ProviderStatus i) 128" "event_actionable_ok i" "list_all event_media_ok (ee_Media i)"
    using assms by (rule event_canonical_shape)
  have r: "canonical_recipients [] (sort rs) = Some (sort rs)"
    using event_canonical_recipients_again [OF assms] by (simp add: c)
  have "event_fields_ok c" "event_direction_ok c" "event_actionable_ok c"
    using ok by (simp_all add: c event_fields_ok_def event_direction_ok_def event_actionable_ok_def)
  moreover have "list_all event_media_ok (ee_Media c)" using ok(6) by (simp add: c list_all_iff)
  ultimately have "event_canonical fmt c = Inr c"
    using ok(3,4) canonical_sender_again [OF s] r
    by (simp add: event_canonical_def c sort_key_id_if_sorted split: option.splits)
  with assms show ?thesis by (simp add: event_Marshal_def)
qed

theorem event_canonical_idempotent_witness:
  "\<exists>c. event_canonical (\<lambda>_. ''now'') (demo_event [''+1 415 555 0100'']) = Inr c
     \<and> event_canonical (\<lambda>_. ''now'') c = Inr c"
proof -
  obtain c where c: "event_canonical (\<lambda>_. ''now'') (demo_event [''+1 415 555 0100'']) = Inr c"
    using demo_event_accepted [of "[''+1 415 555 0100'']"] by (auto simp: demo_numbers)
  with event_canonical_idempotent [OF c] show ?thesis by blast
qed

end
