(* ===== verification/Aead_GCM.thy ===== *)
theory Aead_GCM
  imports Go_Strings
begin

text \<open>
  The part of Go's \<^verbatim>\<open>crypto/cipher\<close> the session envelopes use: \<^verbatim>\<open>cipher.NewGCM\<close> over a 128-bit
  block cipher. The block cipher and the GHASH function are arguments of the model (any functions
  of the right types); counter mode, the tag and the order of the checks are written out, so that
  \<^verbatim>\<open>Open\<close> undoing \<^verbatim>\<open>Seal\<close> is a theorem and not an assumption.
\<close>

section \<open>Bytes\<close>

unbundle bit_operations_syntax

definition xor_byte :: "char \<Rightarrow> char \<Rightarrow> char" where
  "xor_byte a b = char_of (of_char a XOR of_char b :: nat)"

lemma xor_byte_cancel [simp]: "xor_byte (xor_byte a b) b = a"
proof -
  have take_bit_nat_eq_self: "take_bit 8 (of_char c :: nat) = of_char c" for c
    by (simp add: take_bit_nat_eq_self_iff)
  have "take_bit 8 (of_char a XOR of_char b :: nat) = of_char a XOR of_char b"
    by (simp add: take_bit_xor take_bit_nat_eq_self)
  then have "of_char (xor_byte a b) = (of_char a XOR of_char b :: nat)"
    by (simp add: xor_byte_def take_bit_eq_mod)
  then show ?thesis
    by (simp add: xor_byte_def [of "xor_byte a b"] xor.assoc)
qed

section \<open>Galois counter mode\<close>

text \<open>
  \<open>blk\<close> is the keyed block function (\<^verbatim>\<open>aes.NewCipher\<close>), \<open>ghash\<close> the authenticator on the hash key,
  the additional data and the ciphertext.
\<close>

record gcm_suite =
  blk :: "string \<Rightarrow> 128 word \<Rightarrow> 128 word"
  ghash :: "128 word \<Rightarrow> string \<Rightarrow> string \<Rightarrow> 128 word"

definition block_of :: "string \<Rightarrow> nat \<Rightarrow> 128 word" where
  "block_of nonce i = word_of_nat (fold (\<lambda>c n. n * 256 + of_char c) (nonce @ be_bytes 4 i) 0)"

definition keystream :: "gcm_suite \<Rightarrow> string \<Rightarrow> string \<Rightarrow> nat \<Rightarrow> string" where
  "keystream g key nonce n =
     take n (concat (map (\<lambda>i. be_bytes 16 (unat (blk g key (block_of nonce (i + 2))))) [0..<n div 16 + 1]))"

definition ctr_xor :: "gcm_suite \<Rightarrow> string \<Rightarrow> string \<Rightarrow> string \<Rightarrow> string" where
  "ctr_xor g key nonce text = map2 xor_byte text (keystream g key nonce (length text))"

definition gcm_tag :: "gcm_suite \<Rightarrow> string \<Rightarrow> string \<Rightarrow> string \<Rightarrow> string \<Rightarrow> string" where
  "gcm_tag g key nonce ad ct =
     be_bytes 16 (unat (ghash g (blk g key 0) ad ct XOR blk g key (block_of nonce 1)))"

definition gcm_Seal :: "gcm_suite \<Rightarrow> string \<Rightarrow> string \<Rightarrow> string \<Rightarrow> string \<Rightarrow> string" where
  "gcm_Seal g key nonce plaintext ad =
     (let ct = ctr_xor g key nonce plaintext in ct @ gcm_tag g key nonce ad ct)"

definition gcm_Open :: "gcm_suite \<Rightarrow> string \<Rightarrow> string \<Rightarrow> string \<Rightarrow> string \<Rightarrow> string option" where
  "gcm_Open g key nonce sealed ad =
     (if length sealed < 16 then None
      else let ct = take (length sealed - 16) sealed; tag = drop (length sealed - 16) sealed
           in if tag \<noteq> gcm_tag g key nonce ad ct then None else Some (ctr_xor g key nonce ct))"

lemma length_concat_be_bytes: "length (concat (map (\<lambda>i. be_bytes 16 (f i)) xs)) = 16 * length xs"
  by (induction xs) simp_all

lemma length_keystream [simp]: "length (keystream g key nonce n) = n"
  by (simp add: keystream_def length_concat_be_bytes del: upt_Suc)

lemma length_ctr_xor [simp]: "length (ctr_xor g key nonce text) = length text"
  by (simp add: ctr_xor_def)

lemma length_gcm_tag [simp]: "length (gcm_tag g key nonce ad ct) = 16"
  by (simp add: gcm_tag_def)

lemma length_gcm_Seal [simp]: "length (gcm_Seal g key nonce p ad) = length p + 16"
  by (simp add: gcm_Seal_def Let_def)

lemma ctr_xor_involution [simp]: "ctr_xor g key nonce (ctr_xor g key nonce text) = text"
  by (rule nth_equalityI) (simp_all add: ctr_xor_def)

section \<open>The contract of an authenticated cipher\<close>

locale aead =
  fixes seal :: "string \<Rightarrow> string \<Rightarrow> string \<Rightarrow> string \<Rightarrow> string"
    and unseal :: "string \<Rightarrow> string \<Rightarrow> string \<Rightarrow> string \<Rightarrow> string option"
  assumes unseal_seal [simp]: "unseal key nonce (seal key nonce p ad) ad = Some p"
    and length_seal [simp]: "length (seal key nonce p ad) = length p + 16"
begin

text \<open>A fixed key, nonce and context never map two messages to one ciphertext.\<close>

lemma seal_inj: "seal key nonce p ad = seal key nonce q ad \<Longrightarrow> p = q"
  by (metis option.inject unseal_seal)

end

interpretation gcm: aead "gcm_Seal g" "gcm_Open g" for g
proof
  fix key nonce p ad
  show "gcm_Open g key nonce (gcm_Seal g key nonce p ad) ad = Some p"
    by (simp add: gcm_Open_def gcm_Seal_def Let_def)
qed simp

end
