(* ===== verification/Session_Envelope.thy ===== *)
theory Session_Envelope
  imports Aead_GCM
begin

text \<open>
  Envelope encryption of provider sessions (\<^verbatim>\<open>session/envelope.go\<close>) and its two key wrappers
  (\<^verbatim>\<open>session/localkey/wrapper.go\<close>, \<^verbatim>\<open>session/awskms/wrapper.go\<close>). Randomness is an argument: the
  bytes the reader holds, of which \<^verbatim>\<open>io.ReadFull\<close> takes a prefix or fails. The KMS service is an argument of its wrapper.
\<close>

section \<open>Envelopes and scopes\<close>

abbreviation (input) EnvelopeVersion :: int where "EnvelopeVersion \<equiv> 1"
abbreviation (input) dekSize :: nat where "dekSize \<equiv> 32"
abbreviation (input) gcmNonceSize :: nat where "gcmNonceSize \<equiv> 12"
abbreviation (input) gcmTagSize :: nat where "gcmTagSize \<equiv> 16"
abbreviation (input) maxScopeIDSize :: nat where "maxScopeIDSize \<equiv> 128"
abbreviation (input) maxProviderSize :: nat where "maxProviderSize \<equiv> 64"
abbreviation (input) maxKeyIDSize :: nat where "maxKeyIDSize \<equiv> 256"
abbreviation (input) maxWrappedSize :: nat where "maxWrappedSize \<equiv> 16 * 1024"
abbreviation (input) maxCiphertextSize :: nat where "maxCiphertextSize \<equiv> 4 * 1024 * 1024"
abbreviation (input) maxPlaintextSize :: nat where "maxPlaintextSize \<equiv> maxCiphertextSize - gcmTagSize"

record Scope =
  scope_TenantID :: string
  scope_ConnectionID :: string
  scope_Provider :: string

record WrappedKey =
  wk_KeyID :: string
  wk_KeyVersion :: int
  wk_Ciphertext :: string

record Envelope =
  env_Revision :: nat
  env_Version :: int
  env_Provider :: string
  env_Ciphertext :: string
  env_WrappedDEK :: string
  env_Nonce :: string
  env_KeyID :: string
  env_KeyVersion :: int

definition Envelope_Validate :: "Envelope \<Rightarrow> goerror" where
  "Envelope_Validate e =
     (if env_Version e \<noteq> EnvelopeVersion \<or> length (env_Provider e) = 0 \<or> length (env_Provider e) > maxProviderSize \<or>
         length (env_Ciphertext e) < gcmTagSize \<or> length (env_Ciphertext e) > maxCiphertextSize \<or>
         length (env_WrappedDEK e) = 0 \<or> length (env_WrappedDEK e) > maxWrappedSize \<or>
         length (env_Nonce e) \<noteq> gcmNonceSize \<or>
         length (env_KeyID e) = 0 \<or> length (env_KeyID e) > maxKeyIDSize \<or> env_KeyVersion e \<le> 0
      then Some (Sentinel ErrInvalidEnvelope) else None)"

definition Scope_valid :: "Scope \<Rightarrow> bool" where
  "Scope_valid s =
     (length (scope_TenantID s) > 0 \<and> length (scope_TenantID s) \<le> maxScopeIDSize \<and>
      length (scope_ConnectionID s) > 0 \<and> length (scope_ConnectionID s) \<le> maxScopeIDSize \<and>
      length (scope_Provider s) > 0 \<and> length (scope_Provider s) \<le> maxProviderSize)"

definition associatedData :: "int \<Rightarrow> Scope \<Rightarrow> string" where
  "associatedData version s =
     put_uint32 (nat (version mod 2 ^ 32))
     @ concat (map (framed 4) [scope_TenantID s, scope_ConnectionID s, scope_Provider s])"

section \<open>The manager\<close>

definition ReadFull :: "nat \<Rightarrow> string \<Rightarrow> string option" where
  "ReadFull n src = (if length src < n then None else Some (take n src))"

lemma ReadFull_length: "ReadFull n src = Some bs \<Longrightarrow> length bs = n"
  by (auto simp: ReadFull_def split: if_splits)

text \<open>
  A \<^verbatim>\<open>KeyWrapper\<close> is a pair of functions; wrapping also takes the random bytes it reads. An AES key
  is accepted by \<^verbatim>\<open>aes.NewCipher\<close> when it has 16, 24 or 32 bytes.
\<close>

record KeyWrapper =
  kw_WrapKey :: "string \<Rightarrow> string \<Rightarrow> WrappedKey result"
  kw_UnwrapKey :: "WrappedKey \<Rightarrow> string result"

definition aes_key_ok :: "string \<Rightarrow> bool" where
  "aes_key_ok k = (length k = 16 \<or> length k = 24 \<or> length k = 32)"

definition wrapped_ok :: "WrappedKey \<Rightarrow> bool" where
  "wrapped_ok w = (length (wk_KeyID w) \<noteq> 0 \<and> length (wk_KeyID w) \<le> maxKeyIDSize \<and> wk_KeyVersion w > 0
     \<and> length (wk_Ciphertext w) \<noteq> 0 \<and> length (wk_Ciphertext w) \<le> maxWrappedSize)"

record seal_random =
  rnd_dek :: string
  rnd_wrap :: string
  rnd_nonce :: string

definition Manager_Seal :: "gcm_suite \<Rightarrow> KeyWrapper \<Rightarrow> Scope \<Rightarrow> string \<Rightarrow> seal_random \<Rightarrow> Envelope result" where
  "Manager_Seal g wrapper s plaintext rnd =
     (if \<not> Scope_valid s \<or> length plaintext = 0 \<or> length plaintext > maxPlaintextSize
      then Inl (Sentinel ErrInvalidScope)
      else case ReadFull dekSize (rnd_dek rnd) of None \<Rightarrow> Inl (Sentinel ErrEncrypt)
      | Some dek \<Rightarrow>
        (case kw_WrapKey wrapper (rnd_wrap rnd) dek of Inl _ \<Rightarrow> Inl (Sentinel ErrKeyWrapper)
         | Inr wrapped \<Rightarrow>
           if \<not> wrapped_ok wrapped then Inl (Sentinel ErrKeyWrapper)
           else if \<not> aes_key_ok dek then Inl (Sentinel ErrEncrypt)
           else (case ReadFull gcmNonceSize (rnd_nonce rnd) of None \<Rightarrow> Inl (Sentinel ErrEncrypt)
             | Some nonce \<Rightarrow>
               (let envelope = \<lparr> env_Revision = 0, env_Version = EnvelopeVersion,
                      env_Provider = scope_Provider s,
                      env_Ciphertext = gcm_Seal g dek nonce plaintext (associatedData EnvelopeVersion s),
                      env_WrappedDEK = wk_Ciphertext wrapped, env_Nonce = nonce,
                      env_KeyID = wk_KeyID wrapped, env_KeyVersion = wk_KeyVersion wrapped \<rparr>
                in if Envelope_Validate envelope \<noteq> None then Inl (Sentinel ErrEncrypt)
                   else Inr envelope))))"

definition manager_open :: "gcm_suite \<Rightarrow> KeyWrapper \<Rightarrow> Scope \<Rightarrow> Envelope \<Rightarrow> (string \<times> string) result" where
  "manager_open g wrapper s e =
     (if \<not> Scope_valid s \<or> Envelope_Validate e \<noteq> None \<or> env_Provider e \<noteq> scope_Provider s
      then Inl (Sentinel ErrDecrypt)
      else case kw_UnwrapKey wrapper \<lparr> wk_KeyID = env_KeyID e, wk_KeyVersion = env_KeyVersion e,
                                      wk_Ciphertext = env_WrappedDEK e \<rparr> of
             Inl _ \<Rightarrow> Inl (Sentinel ErrKeyWrapper)
           | Inr dek \<Rightarrow>
             if length dek \<noteq> dekSize then Inl (Sentinel ErrKeyWrapper)
             else if \<not> aes_key_ok dek \<or> length (env_Nonce e) \<noteq> gcmNonceSize then Inl (Sentinel ErrDecrypt)
             else (case gcm_Open g dek (env_Nonce e) (env_Ciphertext e) (associatedData (env_Version e) s) of
                     None \<Rightarrow> Inl (Sentinel ErrDecrypt)
                   | Some plaintext \<Rightarrow>
                     if length plaintext = 0 \<or> length plaintext > maxPlaintextSize
                     then Inl (Sentinel ErrDecrypt)
                     else Inr (plaintext, dek)))"

definition Manager_Open :: "gcm_suite \<Rightarrow> KeyWrapper \<Rightarrow> Scope \<Rightarrow> Envelope \<Rightarrow> string result" where
  "Manager_Open g wrapper s e =
     (case manager_open g wrapper s e of Inl x \<Rightarrow> Inl x | Inr (plaintext, _) \<Rightarrow> Inr plaintext)"

definition Manager_Rewrap ::
  "gcm_suite \<Rightarrow> KeyWrapper \<Rightarrow> Scope \<Rightarrow> Envelope \<Rightarrow> string \<Rightarrow> (Envelope \<times> bool) result" where
  "Manager_Rewrap g wrapper s e rnd =
     (case manager_open g wrapper s e of Inl x \<Rightarrow> Inl x
      | Inr (_, dek) \<Rightarrow>
        (case kw_WrapKey wrapper rnd dek of Inl _ \<Rightarrow> Inl (Sentinel ErrKeyWrapper)
         | Inr wrapped \<Rightarrow>
           if \<not> wrapped_ok wrapped then Inl (Sentinel ErrKeyWrapper)
           else if wk_KeyID wrapped = env_KeyID e \<and> wk_KeyVersion wrapped = env_KeyVersion e
           then Inr (e, False)
           else Inr (e \<lparr> env_KeyID := wk_KeyID wrapped, env_KeyVersion := wk_KeyVersion wrapped,
                         env_WrappedDEK := wk_Ciphertext wrapped \<rparr>, True)))"

section \<open>The key wrappers\<close>

definition localkey_WrapKey :: "gcm_suite \<Rightarrow> string \<Rightarrow> bool \<Rightarrow> string \<Rightarrow> string \<Rightarrow> WrappedKey result" where
  "localkey_WrapKey g master ctxLive rnd plaintext =
     (if length plaintext \<noteq> 32 \<or> \<not> ctxLive then Inl (Sentinel ErrKeyWrapper)
      else case ReadFull 12 rnd of
        None \<Rightarrow> Inl (Sentinel ErrKeyWrapper)
      | Some nonce \<Rightarrow>
          Inr \<lparr> wk_KeyID = ''local-development'', wk_KeyVersion = 1,
                wk_Ciphertext = nonce @ gcm_Seal g master nonce plaintext ''local-development'' \<rparr>)"

definition localkey_UnwrapKey :: "gcm_suite \<Rightarrow> string \<Rightarrow> bool \<Rightarrow> WrappedKey \<Rightarrow> string result" where
  "localkey_UnwrapKey g master ctxLive w =
     (if \<not> ctxLive \<or> wk_KeyID w \<noteq> ''local-development'' \<or> wk_KeyVersion w \<noteq> 1
         \<or> length (wk_Ciphertext w) \<noteq> 12 + 32 + 16 then Inl (Sentinel ErrKeyWrapper)
      else case gcm_Open g master (take 12 (wk_Ciphertext w)) (drop 12 (wk_Ciphertext w)) ''local-development'' of
             None \<Rightarrow> Inl (Sentinel ErrKeyWrapper)
           | Some plaintext \<Rightarrow> if length plaintext \<noteq> 32 then Inl (Sentinel ErrKeyWrapper) else Inr plaintext)"

definition localkey :: "gcm_suite \<Rightarrow> string \<Rightarrow> KeyWrapper" where
  "localkey g master = \<lparr> kw_WrapKey = localkey_WrapKey g master True,
     kw_UnwrapKey = localkey_UnwrapKey g master True \<rparr>"

text \<open>The AWS client: the ciphertext blob, or the plaintext, of one call; \<open>Inl\<close> an API error.\<close>

record kms_client =
  kms_Encrypt :: "string \<Rightarrow> string \<Rightarrow> string result"
  kms_Decrypt :: "string \<Rightarrow> string \<Rightarrow> string result"

record kms_wrapper =
  kms_client :: kms_client
  kms_keys :: "int \<Rightarrow> string"
  kms_currentVersion :: int

definition awskms_WrapKey :: "kms_wrapper \<Rightarrow> string \<Rightarrow> string \<Rightarrow> WrappedKey result" where
  "awskms_WrapKey w rnd plaintextKey =
     (if length plaintextKey \<noteq> 32 then Inl (Sentinel ErrKeyWrapper)
      else let keyID = kms_keys w (kms_currentVersion w) in
        case kms_Encrypt (kms_client w) keyID plaintextKey of
          Inl _ \<Rightarrow> Inl (Sentinel ErrKeyWrapper)
        | Inr blob \<Rightarrow>
            if length blob = 0 \<or> length blob > 16 * 1024 then Inl (Sentinel ErrKeyWrapper)
            else Inr \<lparr> wk_KeyID = keyID, wk_KeyVersion = kms_currentVersion w, wk_Ciphertext = blob \<rparr>)"

definition awskms_UnwrapKey :: "kms_wrapper \<Rightarrow> WrappedKey \<Rightarrow> string result" where
  "awskms_UnwrapKey w k =
     (if wk_KeyVersion k < 1 \<or> kms_keys w (wk_KeyVersion k) \<noteq> wk_KeyID k
         \<or> length (wk_Ciphertext k) = 0 \<or> length (wk_Ciphertext k) > 16 * 1024
      then Inl (Sentinel ErrKeyWrapper)
      else case kms_Decrypt (kms_client w) (wk_KeyID k) (wk_Ciphertext k) of
             Inl _ \<Rightarrow> Inl (Sentinel ErrKeyWrapper)
           | Inr plaintext \<Rightarrow>
               if length plaintext \<noteq> 32 then Inl (Sentinel ErrKeyWrapper) else Inr plaintext)"

definition validKeyID_rune :: "nat \<Rightarrow> bool" where
  "validKeyID_rune r = ((0x61 \<le> r \<and> r \<le> 0x7A) \<or> (0x41 \<le> r \<and> r \<le> 0x5A) \<or> (0x30 \<le> r \<and> r \<le> 0x39)
     \<or> r \<in> of_char ` set ''_:/.-'')"

definition validKeyID :: "string \<Rightarrow> bool" where
  "validKeyID keyID =
     (if TrimSpace keyID \<noteq> keyID \<or> length keyID < 1 \<or> length keyID > 2048 then False
      else list_all validKeyID_rune (runes keyID))"

text \<open>
  \<^verbatim>\<open>New\<close>: \<open>kc_Load\<close> is the client given in the configuration, or what loading the AWS default
  configuration returned.
\<close>

record kms_config =
  kc_KeyID :: string
  kc_KeyVersion :: int
  kc_KeyIDs :: "(int \<times> string) list"
  kc_CurrentVersion :: int
  kc_OperationTimeout :: duration
  kc_Load :: "kms_client result"

definition awskms_New :: "kms_config \<Rightarrow> kms_wrapper option" where
  "awskms_New c =
     (let timeout = (if kc_OperationTimeout c = 0 then 10 * second else kc_OperationTimeout c) in
      if timeout < second \<or> timeout > minute then None
      else if list_ex (\<lambda>(version, keyID). version < 1 \<or> \<not> validKeyID keyID) (kc_KeyIDs c) then None
      else let single = (kc_KeyID c \<noteq> '''' \<or> kc_KeyVersion c \<noteq> 0) in
        if single \<and> (kc_KeyIDs c \<noteq> [] \<or> kc_KeyVersion c < 1 \<or> \<not> validKeyID (kc_KeyID c)) then None
        else
          let keys = (if single then [(kc_KeyVersion c, kc_KeyID c)] else kc_KeyIDs c);
              current = (if single then kc_KeyVersion c else kc_CurrentVersion c);
              look = (\<lambda>v. case map_of keys v of None \<Rightarrow> '''' | Some k \<Rightarrow> k)
          in if keys = [] \<or> current < 1 \<or> look current = '''' then None
             else case kc_Load c of
                    Inl _ \<Rightarrow> None
                  | Inr cl \<Rightarrow> Some \<lparr> kms_client = cl, kms_keys = look, kms_currentVersion = current \<rparr>)"

definition awskms :: "kms_wrapper \<Rightarrow> KeyWrapper" where
  "awskms w = \<lparr> kw_WrapKey = awskms_WrapKey w, kw_UnwrapKey = awskms_UnwrapKey w \<rparr>"

section \<open>The contract of a key wrapper\<close>

text \<open>
  The \<^verbatim>\<open>KeyWrapper\<close> interface as the manager relies on it: a data key of 32 bytes that was wrapped
  is what unwrapping returns, also after the current key version has moved on.
\<close>

locale key_wrapper =
  fixes w :: KeyWrapper
  assumes unwrap_wrap: "length k = 32 \<Longrightarrow> kw_WrapKey w rnd k = Inr wk \<Longrightarrow> kw_UnwrapKey w wk = Inr k"
begin

lemma Seal_shape:
  assumes "Manager_Seal g w s p rnd = Inr e"
  obtains dek nonce wk where
    "Scope_valid s" "p \<noteq> []" "length p \<le> maxPlaintextSize" "length dek = 32"
    "kw_WrapKey w (rnd_wrap rnd) dek = Inr wk" "Envelope_Validate e = None"
    "e = \<lparr> env_Revision = 0, env_Version = 1, env_Provider = scope_Provider s,
           env_Ciphertext = gcm_Seal g dek nonce p (associatedData 1 s),
           env_WrappedDEK = wk_Ciphertext wk, env_Nonce = nonce,
           env_KeyID = wk_KeyID wk, env_KeyVersion = wk_KeyVersion wk \<rparr>"
proof -
  from assms obtain dek nonce wk where "ReadFull 32 (rnd_dek rnd) = Some dek"
    "kw_WrapKey w (rnd_wrap rnd) dek = Inr wk" "Scope_valid s" "p \<noteq> []" "length p \<le> maxPlaintextSize"
    "Envelope_Validate e = None"
    "e = \<lparr> env_Revision = 0, env_Version = 1, env_Provider = scope_Provider s,
           env_Ciphertext = gcm_Seal g dek nonce p (associatedData 1 s),
           env_WrappedDEK = wk_Ciphertext wk, env_Nonce = nonce,
           env_KeyID = wk_KeyID wk, env_KeyVersion = wk_KeyVersion wk \<rparr>"
    by (auto simp: Manager_Seal_def Let_def split: if_splits option.splits sum.splits)
  then show ?thesis using that ReadFull_length by blast
qed

lemma Envelope_Validate_revision [simp]: "Envelope_Validate (e \<lparr> env_Revision := r \<rparr>) = Envelope_Validate e"
  by (simp add: Envelope_Validate_def)

lemma manager_open_revision [simp]: "manager_open g w s (e \<lparr> env_Revision := r \<rparr>) = manager_open g w s e"
  by (simp add: manager_open_def cong: if_cong sum.case_cong option.case_cong)

lemma Manager_Open_revision [simp]: "Manager_Open g w s (e \<lparr> env_Revision := r \<rparr>) = Manager_Open g w s e"
  by (simp add: Manager_Open_def)

lemma open_Seal:
  assumes "Manager_Seal g w s p rnd = Inr e"
  shows "Manager_Open g w s (e \<lparr> env_Revision := r \<rparr>) = Inr p"
proof -
  obtain dek nonce wk where f: "Scope_valid s" "p \<noteq> []" "length p \<le> maxPlaintextSize" "length dek = 32"
    "kw_WrapKey w (rnd_wrap rnd) dek = Inr wk" "Envelope_Validate e = None"
    "e = \<lparr> env_Revision = 0, env_Version = 1, env_Provider = scope_Provider s,
           env_Ciphertext = gcm_Seal g dek nonce p (associatedData 1 s),
           env_WrappedDEK = wk_Ciphertext wk, env_Nonce = nonce,
           env_KeyID = wk_KeyID wk, env_KeyVersion = wk_KeyVersion wk \<rparr>"
    using assms by (rule Seal_shape)
  have "kw_UnwrapKey w wk = Inr dek" using f(4,5) by (rule unwrap_wrap)
  moreover have "length nonce = 12" using f(6,7) by (auto simp: Envelope_Validate_def split: if_splits)
  ultimately have "Manager_Open g w s e = Inr p" using f
    by (cases wk) (simp add: Manager_Open_def manager_open_def aes_key_ok_def)
  then show ?thesis by simp
qed

lemma Rewrap_opens:
  assumes "Manager_Rewrap g w s e rnd = Inr (e', changed)"
  shows "\<exists>p. Manager_Open g w s e = Inr p \<and> Manager_Open g w s e' = Inr p
    \<and> env_Ciphertext e' = env_Ciphertext e \<and> env_Revision e' = env_Revision e \<and> Envelope_Validate e' = None"
proof -
  from assms obtain p dek where o: "manager_open g w s e = Inr (p, dek)"
    by (auto simp: Manager_Rewrap_def split: sum.splits)
  then have v: "Scope_valid s" "Envelope_Validate e = None" "env_Provider e = scope_Provider s" "length dek = 32"
    by (auto simp: manager_open_def split: if_splits sum.splits option.splits)
  show ?thesis
  proof (cases changed)
    case False
    with assms o v show ?thesis
      by (auto simp: Manager_Rewrap_def Manager_Open_def split: sum.splits if_splits)
  next
    case True
    with assms o obtain wk where wk: "kw_WrapKey w rnd dek = Inr wk" "wrapped_ok wk"
      and e': "e' = e \<lparr> env_KeyID := wk_KeyID wk, env_KeyVersion := wk_KeyVersion wk, env_WrappedDEK := wk_Ciphertext wk \<rparr>"
      by (auto simp: Manager_Rewrap_def split: sum.splits if_splits)
    have u: "kw_UnwrapKey w wk = Inr dek" using v(4) wk(1) by (rule unwrap_wrap)
    have v': "Envelope_Validate e' = None"
      using v(2) wk(2) by (auto simp: e' Envelope_Validate_def wrapped_ok_def split: if_splits)
    have "manager_open g w s e' = Inr (p, dek)"
      using o u v v' by (cases wk) (auto simp: manager_open_def e' split: if_splits sum.splits option.splits)
    with o v' show ?thesis by (simp add: Manager_Open_def e')
  qed
qed

end

lemma localkey_unwrap_wrap:
  assumes "length k = 32" "localkey_WrapKey g master True rnd k = Inr wk"
  shows "localkey_UnwrapKey g master True wk = Inr k"
proof -
  from assms obtain nonce where n: "ReadFull 12 rnd = Some nonce"
    and wk: "wk = \<lparr> wk_KeyID = ''local-development'', wk_KeyVersion = 1,
        wk_Ciphertext = nonce @ gcm_Seal g master nonce k ''local-development'' \<rparr>"
    by (auto simp: localkey_WrapKey_def split: option.splits if_splits)
  from n have "length nonce = 12" by (rule ReadFull_length)
  with assms(1) wk show ?thesis by (simp add: localkey_UnwrapKey_def)
qed

interpretation local: key_wrapper "localkey g master" for g master
  by unfold_locales (simp add: localkey_def localkey_unwrap_wrap)

text \<open>
  The KMS wrapper meets the contract when the service decrypts what it encrypted under the same
  key identifier and the configured current version is positive, as \<^verbatim>\<open>New\<close> checks.
\<close>

lemma awskms_key_wrapper:
  assumes "\<And>keyID k blob. kms_Encrypt (kms_client w) keyID k = Inr blob \<Longrightarrow> kms_Decrypt (kms_client w) keyID blob = Inr k"
    and "1 \<le> kms_currentVersion w"
  shows "key_wrapper (awskms w)"
  using assms
  by unfold_locales
    (auto simp: awskms_def awskms_WrapKey_def awskms_UnwrapKey_def Let_def split: if_splits sum.splits)

lemma awskms_New_version: "awskms_New c = Some w \<Longrightarrow> 1 \<le> kms_currentVersion w"
  by (auto simp: awskms_New_def Let_def split: if_splits sum.splits)

section \<open>Properties\<close>

text \<open>
  C24. A sealed session opens to the plaintext that was sealed: for every block cipher, every key
  wrapper that unwraps what it wrapped, and every stored revision number, \<^verbatim>\<open>Open\<close> with the same
  scope returns exactly the bytes given to \<^verbatim>\<open>Seal\<close>.
\<close>

theorem session_open_seal:
  assumes "key_wrapper w" "Manager_Seal g w s p rnd = Inr e"
  shows "Manager_Open g w s (e \<lparr> env_Revision := r \<rparr>) = Inr p"
  using assms by (rule key_wrapper.open_Seal)

definition demo_suite :: gcm_suite where
  "demo_suite = \<lparr> blk = (\<lambda>k b. b + word_of_nat (length k)), ghash = (\<lambda>h ad ct. h + word_of_nat (length ad + length ct)) \<rparr>"

definition demo_scope :: Scope where
  "demo_scope = \<lparr> scope_TenantID = ''t1'', scope_ConnectionID = ''c1'', scope_Provider = ''gmessages'' \<rparr>"

definition demo_random :: seal_random where
  "demo_random = \<lparr> rnd_dek = replicate 32 (CHR ''d''), rnd_wrap = replicate 12 (CHR ''w''),
     rnd_nonce = replicate 12 (CHR ''n'') \<rparr>"

lemma demo_seal_succeeds:
  "\<exists>e. Manager_Seal demo_suite (localkey demo_suite (replicate 32 (CHR ''m''))) demo_scope ''secret'' demo_random = Inr e"
  by (simp add: Manager_Seal_def demo_suite_def demo_scope_def demo_random_def Scope_valid_def localkey_def
      localkey_WrapKey_def ReadFull_def wrapped_ok_def aes_key_ok_def Envelope_Validate_def)

theorem session_open_seal_witness:
  "\<exists>e. Manager_Seal demo_suite (localkey demo_suite (replicate 32 (CHR ''m''))) demo_scope ''secret'' demo_random = Inr e
     \<and> Manager_Open demo_suite (localkey demo_suite (replicate 32 (CHR ''m''))) demo_scope (e \<lparr> env_Revision := 7 \<rparr>) = Inr ''secret''"
proof -
  obtain e where e: "Manager_Seal demo_suite (localkey demo_suite (replicate 32 (CHR ''m''))) demo_scope ''secret'' demo_random = Inr e"
    using demo_seal_succeeds by blast
  show ?thesis
    using e session_open_seal [OF local.key_wrapper_axioms e, of 7] by blast
qed

text \<open>
  The associated data binds an envelope to exactly one scope: for valid scopes and 32-bit
  versions, equal associated data means equal version, tenant, connection and provider, so no
  choice of identifiers makes two scopes share a context.
\<close>

theorem associatedData_injective:
  assumes "associatedData v s = associatedData v' s'" "Scope_valid s" "Scope_valid s'"
    "0 \<le> v" "v < 2 ^ 32" "0 \<le> v'" "v' < 2 ^ 32"
  shows "v = v' \<and> s = s'"
proof -
  let ?f = "\<lambda>s. [scope_TenantID s, scope_ConnectionID s, scope_Provider s]"
  have "put_uint32 (nat v) = put_uint32 (nat v')"
    and c: "concat (map (framed 4) (?f s)) = concat (map (framed 4) (?f s'))"
    using assms(1,4-7) by (simp_all add: associatedData_def put_uint32_def append_eq_append_conv)
  then have "nat v = nat v'"
    using assms(4-7) by (intro be_bytes_inj [of _ 4]) (simp_all add: put_uint32_def)
  moreover have "?f s = ?f s'"
    using c assms(2,3) by (intro concat_framed_inj [of 4]) (auto simp: Scope_valid_def)
  ultimately show ?thesis using assms(4,6) by (cases s; cases s') simp
qed

theorem associatedData_injective_witness:
  "associatedData 1 demo_scope \<noteq> associatedData 1 (demo_scope \<lparr> scope_ConnectionID := ''c2'' \<rparr>)"
proof
  assume "associatedData 1 demo_scope = associatedData 1 (demo_scope \<lparr> scope_ConnectionID := ''c2'' \<rparr>)"
  then have "demo_scope = demo_scope \<lparr> scope_ConnectionID := ''c2'' \<rparr>"
    using associatedData_injective [of 1 demo_scope 1 "demo_scope \<lparr> scope_ConnectionID := ''c2'' \<rparr>"]
    by (simp add: Scope_valid_def demo_scope_def)
  then show False by (simp add: demo_scope_def)
qed

text \<open>
  Key rotation never changes the session: whenever \<^verbatim>\<open>Rewrap\<close> succeeds, the envelope it returns
  is valid, keeps the ciphertext and the revision, and opens to the same plaintext as before.
\<close>

theorem rewrap_preserves_session:
  assumes "key_wrapper w" "Manager_Rewrap g w s e rnd = Inr (e', changed)"
  shows "\<exists>p. Manager_Open g w s e = Inr p \<and> Manager_Open g w s e' = Inr p
    \<and> env_Ciphertext e' = env_Ciphertext e \<and> env_Revision e' = env_Revision e \<and> Envelope_Validate e' = None"
  using assms by (rule key_wrapper.Rewrap_opens)

definition demo_kms :: "int \<Rightarrow> kms_wrapper" where
  "demo_kms current = \<lparr> kms_client = \<lparr> kms_Encrypt = (\<lambda>keyID k. Inr (keyID @ k)),
       kms_Decrypt = (\<lambda>keyID b. Inr (drop (length keyID) b)) \<rparr>,
     kms_keys = (\<lambda>v. if v = 1 then ''key-a'' else if v = 2 then ''key-b'' else ''''),
     kms_currentVersion = current \<rparr>"

definition demo_envelope :: Envelope where
  "demo_envelope = \<lparr> env_Revision = 3, env_Version = 1, env_Provider = ''gmessages'',
     env_Ciphertext = gcm_Seal demo_suite (replicate 32 (CHR ''d'')) (replicate 12 (CHR ''n'')) ''secret''
       (associatedData 1 demo_scope),
     env_WrappedDEK = ''key-a'' @ replicate 32 (CHR ''d''), env_Nonce = replicate 12 (CHR ''n''),
     env_KeyID = ''key-a'', env_KeyVersion = 1 \<rparr>"

lemma demo_kms_wrapper: "key_wrapper (awskms (demo_kms 2))"
  by (rule awskms_key_wrapper) (auto simp: demo_kms_def)

lemma demo_rewrap:
  "\<exists>e'. Manager_Rewrap demo_suite (awskms (demo_kms 2)) demo_scope demo_envelope '''' = Inr (e', True)"
  by (simp add: Manager_Rewrap_def manager_open_def demo_envelope_def demo_scope_def Scope_valid_def
      Envelope_Validate_def awskms_def awskms_UnwrapKey_def awskms_WrapKey_def demo_kms_def aes_key_ok_def
      wrapped_ok_def)

theorem rewrap_preserves_session_witness:
  "\<exists>e' p. Manager_Rewrap demo_suite (awskms (demo_kms 2)) demo_scope demo_envelope '''' = Inr (e', True)
     \<and> Manager_Open demo_suite (awskms (demo_kms 2)) demo_scope demo_envelope = Inr p
     \<and> Manager_Open demo_suite (awskms (demo_kms 2)) demo_scope e' = Inr p"
proof -
  obtain e' where e': "Manager_Rewrap demo_suite (awskms (demo_kms 2)) demo_scope demo_envelope '''' = Inr (e', True)"
    using demo_rewrap by blast
  show ?thesis using e' rewrap_preserves_session [OF demo_kms_wrapper e'] by blast
qed

lemma validKeyID_rune_ascii: "validKeyID_rune r \<Longrightarrow> 0x21 \<le> r \<and> r < 0x7F"
  by (auto simp: validKeyID_rune_def)

lemma ascii_runes: "list_all (\<lambda>c. byte_of c < 0x80) s \<Longrightarrow> runes s = map of_char s"
proof (induction s)
  case Nil
  then show ?case by (simp add: runes_def rune_list.simps)
next
  case (Cons c s)
  then show ?case by (simp add: runes_def rune_list.simps [of "_ # _"] decode_bytes.simps)
qed

lemma validKeyID_ascii:
  assumes "list_all (\<lambda>c. validKeyID_rune (of_char c)) keyID" "keyID \<noteq> ''''" "length keyID \<le> 2048"
  shows "validKeyID keyID"
proof -
  have g: "list_all (\<lambda>c. 0x21 \<le> byte_of c \<and> byte_of c < 0x7F) keyID"
    using assms(1) validKeyID_rune_ascii by (auto simp: list_all_iff)
  then have "runes keyID = map of_char keyID" by (intro ascii_runes) (auto simp: list_all_iff)
  then show ?thesis
    using assms TrimSpace_graphic [of keyID] g by (cases keyID) (auto simp: validKeyID_def list_all_iff)
qed

lemma long_key_refused: "256 < length (kms_keys w (kms_currentVersion w)) \<Longrightarrow> Manager_Seal g (awskms w) s p rnd \<noteq> Inr e"
  by (auto simp: Manager_Seal_def awskms_def awskms_WrapKey_def wrapped_ok_def Let_def split: option.splits sum.splits if_splits)

text \<open>
  C39. The KMS wrapper accepts key identifiers that no envelope can hold. A configuration with one
  key whose identifier has between 257 and 2048 allowed characters is accepted by \<^verbatim>\<open>New\<close>; and
  with the wrapper it returns no \<^verbatim>\<open>Seal\<close> ever succeeds, because a wrapped key may carry an
  identifier of at most 256 bytes.
\<close>

theorem awskms_long_key_never_seals:
  assumes "256 < length (kc_KeyID c)" "length (kc_KeyID c) \<le> 2048" "list_all (\<lambda>x. validKeyID_rune (of_char x)) (kc_KeyID c)"
    "1 \<le> kc_KeyVersion c" "kc_KeyIDs c = []" "kc_OperationTimeout c = 0" "kc_Load c = Inr client"
  shows "\<exists>w. awskms_New c = Some w \<and> (\<forall>g s p rnd e. Manager_Seal g (awskms w) s p rnd \<noteq> Inr e)"
proof -
  have "validKeyID (kc_KeyID c)" using assms(1-3) by (intro validKeyID_ascii) auto
  moreover have "kc_KeyID c \<noteq> ''''" using assms(1) by auto
  ultimately obtain w where w: "awskms_New c = Some w" "kms_keys w (kms_currentVersion w) = kc_KeyID c"
    using assms(4-7) by (auto simp: awskms_New_def Let_def)
  then show ?thesis using long_key_refused [of w] assms(1) by auto
qed

definition long_kms_config :: kms_config where
  "long_kms_config = \<lparr> kc_KeyID = replicate 300 (CHR ''k''), kc_KeyVersion = 1, kc_KeyIDs = [], kc_CurrentVersion = 0,
     kc_OperationTimeout = 0, kc_Load = Inr \<lparr> kms_Encrypt = (\<lambda>_ k. Inr k), kms_Decrypt = (\<lambda>_ b. Inr b) \<rparr> \<rparr>"

theorem awskms_long_key_never_seals_witness:
  "\<exists>w. awskms_New long_kms_config = Some w \<and> (\<forall>e. Manager_Seal demo_suite (awskms w) demo_scope ''secret'' demo_random \<noteq> Inr e)"
proof -
  have "list_all (\<lambda>x. validKeyID_rune (of_char x)) (kc_KeyID long_kms_config)"
    by (simp add: long_kms_config_def list_all_iff validKeyID_rune_def)
  then show ?thesis using awskms_long_key_never_seals [of long_kms_config] by (auto simp: long_kms_config_def)
qed

end
