(* ===== verification/Repository.thy ===== *)
theory Repository
  imports Domain_Types Session_Envelope
begin

text \<open>
  The PostgreSQL database behind \<^verbatim>\<open>store/postgres\<close> and the transaction wrapper of \<^verbatim>\<open>db.go\<close>.

  A table is a map from its primary key to a row. Every repository method runs its statements in
  one transaction that first locks the connection (or tenant) row it works on, so a method is one
  atomic step on the database. \<^verbatim>\<open>clock_timestamp()\<close> is read once per method and passed as \<open>now\<close>;
  no assumption is made that it is monotone between methods. A \<open>fault\<close> says how the transaction
  ended: normally, rolled back by an error of the database (also a violated unique index that has no check of its own), or
  committed with the acknowledgement lost.
\<close>

section \<open>Rows\<close>

type_synonym ckey = "tenant_id \<times> connection_id"

record tenant_row =
  tn_name :: string
  tn_status :: string
  tn_max_connections :: int

record connection_row =
  cn_name :: string
  cn_state :: ConnectionState
  cn_fingerprint :: "string option"
  cn_reauth_event :: "string option"
  cn_pairing_prior :: "ConnectionState option"
  cn_pairing_attempt :: "string option"
  cn_pairing_started :: "instant option"
  cn_suspend_prior :: "ConnectionState option"
  cn_updated :: instant

record lease_row =
  ls_owner :: "string option"
  ls_token :: token
  ls_expires :: instant
  ls_updated :: instant

record health_row =
  hr_token :: token
  hr_actor_state :: string
  hr_connection_state :: ConnectionState
  hr_connected_at :: "instant option"
  hr_last_frame_at :: "instant option"
  hr_last_phone_response_at :: "instant option"
  hr_reconnect_count :: nat
  hr_backoff_micros :: int
  hr_reason :: string
  hr_requires_reauth :: bool
  hr_updated :: instant

record line_row =
  ln_connection :: connection_id
  ln_participant :: string
  ln_outgoing :: string
  ln_phone :: string
  ln_display :: string
  ln_carrier :: string
  ln_color :: string
  ln_rcs :: bool
  ln_sim_number :: int
  ln_sim_payload :: int
  ln_source :: string
  ln_active :: bool

record event_row =
  ev_type :: string
  ev_aggregate_type :: string
  ev_aggregate_id :: string
  ev_connection :: "connection_id option"
  ev_conversation :: string
  ev_body :: string

record outbox_row =
  ob_tenant :: tenant_id
  ob_id :: string
  ob_event :: string
  ob_destination :: string
  ob_available :: instant
  ob_claimed_by :: "string option"
  ob_claim_expires :: "instant option"
  ob_attempts :: nat
  ob_published :: "instant option"

record admin_event_row =
  ae_action :: string
  ae_actor :: string
  ae_name :: string
  ae_max_connections :: int

text \<open>
  The tables the connection operations use. The message tables extend this record.
\<close>

record gateway_db =
  db_tenants :: "tenant_id \<rightharpoonup> tenant_row"
  db_connections :: "ckey \<rightharpoonup> connection_row"
  db_sessions :: "ckey \<rightharpoonup> Envelope"
  db_leases :: "ckey \<rightharpoonup> lease_row"
  db_health :: "ckey \<rightharpoonup> health_row"
  db_lines :: "tenant_id \<times> line_id \<rightharpoonup> line_row"
  db_events :: "tenant_id \<times> string \<rightharpoonup> event_row"
  db_outbox :: "outbox_row list"
  db_admin_events :: "tenant_id \<times> string \<rightharpoonup> admin_event_row"

section \<open>Transactions\<close>

datatype fault = NoFault | Aborted err | CommitLost err

definition acknowledged :: "fault \<Rightarrow> bool" where
  "acknowledged f = (case f of CommitLost _ \<Rightarrow> False | _ \<Rightarrow> True)"

text \<open>
  \<^verbatim>\<open>inTenant\<close>: an operation returns an error, which rolls everything back, or a value and the new
  database. \<^verbatim>\<open>Aborted\<close> is a failure of \<^verbatim>\<open>BeginTx\<close>, of setting the tenant context, of a statement or
  of the commit; \<^verbatim>\<open>CommitLost\<close> is a commit that took effect although it returned an error.
\<close>

definition inTenant ::
  "fault \<Rightarrow> tenant_id \<Rightarrow> ('db \<Rightarrow> ('a \<times> 'db) result) \<Rightarrow> 'db \<Rightarrow> 'a result \<times> 'db" where
  "inTenant f tenantID operation db =
     (if tenantID = '''' then (Inl (Sentinel ErrInvalidTenantID), db)
      else case f of
        Aborted e \<Rightarrow> (Inl e, db)
      | NoFault \<Rightarrow> (case operation db of Inl e \<Rightarrow> (Inl e, db) | Inr (v, db') \<Rightarrow> (Inr v, db'))
      | CommitLost e \<Rightarrow>
          (case operation db of
             Inl e' \<Rightarrow> (Inl e', db)
           | Inr (v, db') \<Rightarrow> (Inl (Wrap ''commit tenant transaction'' e), db')))"

definition inTenantExec ::
  "fault \<Rightarrow> tenant_id \<Rightarrow> ('db \<Rightarrow> 'db result) \<Rightarrow> 'db \<Rightarrow> goerror \<times> 'db" where
  "inTenantExec f tenantID operation db =
     (case inTenant f tenantID (\<lambda>db. case operation db of Inl e \<Rightarrow> Inl e | Inr db' \<Rightarrow> Inr ((), db')) db of
        (Inl e, db') \<Rightarrow> (Some e, db') | (Inr _, db') \<Rightarrow> (None, db'))"

definition requireAffected :: "nat \<Rightarrow> err \<Rightarrow> goerror" where
  "requireAffected count notFound = (if count = 0 then Some notFound else None)"

text \<open>
  What a transaction keeps: a reflexive relation between the database before and after that every
  successful operation establishes is kept by the transaction under every fault.
\<close>

lemma inTenant_rel:
  assumes "inTenant f t operation db = (r, db')" "R db db"
    "\<And>v db''. t \<noteq> '''' \<Longrightarrow> operation db = Inr (v, db'') \<Longrightarrow> R db db''"
  shows "R db db'"
  using assms by (auto simp: inTenant_def split: if_splits fault.splits sum.splits)

lemma inTenantExec_rel:
  assumes "inTenantExec f t operation db = (r, db')" "R db db"
    "\<And>db''. t \<noteq> '''' \<Longrightarrow> operation db = Inr db'' \<Longrightarrow> R db db''"
  shows "R db db'"
proof -
  let ?op = "\<lambda>db. case operation db of Inl e \<Rightarrow> Inl e | Inr db' \<Rightarrow> Inr ((), db')"
  obtain r' where "inTenant f t ?op db = (r', db')"
    using assms(1) by (auto simp: inTenantExec_def split: prod.splits sum.splits)
  then show ?thesis
    using assms(2,3) by (rule inTenant_rel) (auto split: sum.splits)
qed

lemma inTenant_value:
  assumes "inTenant f t operation db = (Inr v, db')"
  shows "t \<noteq> '''' \<and> f = NoFault \<and> operation db = Inr (v, db')"
  using assms by (auto simp: inTenant_def split: if_splits fault.splits sum.splits)

lemma inTenantExec_ok:
  assumes "inTenantExec f t operation db = (None, db')"
  shows "t \<noteq> '''' \<and> f = NoFault \<and> operation db = Inr db'"
  using assms
  by (auto simp: inTenantExec_def inTenant_def split: prod.splits if_splits fault.splits sum.splits)

lemma inTenant_NoFault [simp]:
  "t \<noteq> '''' \<Longrightarrow> inTenant NoFault t operation db =
     (case operation db of Inl e \<Rightarrow> (Inl e, db) | Inr (v, db') \<Rightarrow> (Inr v, db'))"
  by (simp add: inTenant_def)

section \<open>CHECK constraints of the connections table\<close>

text \<open>
  SQL conditions have three values; \<open>None\<close> is NULL. A CHECK constraint rejects a row only when its
  condition is false, so a NULL condition is accepted.
\<close>

type_synonym tri = "bool option"

definition tri_and :: "tri \<Rightarrow> tri \<Rightarrow> tri" where
  "tri_and a b = (if a = Some False \<or> b = Some False then Some False
     else if a = Some True \<and> b = Some True then Some True else None)"

definition tri_or :: "tri \<Rightarrow> tri \<Rightarrow> tri" where
  "tri_or a b = (if a = Some True \<or> b = Some True then Some True
     else if a = Some False \<and> b = Some False then Some False else None)"

definition check_ok :: "tri \<Rightarrow> bool" where
  "check_ok c = (c \<noteq> Some False)"

definition fingerprint_32 :: "connection_row \<Rightarrow> tri" where
  "fingerprint_32 r = map_option (\<lambda>f. length f = 32) (cn_fingerprint r)"

definition connections_fingerprint_matches_state :: "connection_row \<Rightarrow> tri" where
  "connections_fingerprint_matches_state r =
     (let st = (\<lambda>s. Some (cn_state r = s)); isnull = Some (cn_fingerprint r = None) in
      tri_or (tri_and (st ConnectionStateUnpaired) isnull)
     (tri_or (tri_and (st ConnectionStatePairing) (tri_or isnull (fingerprint_32 r)))
     (tri_or (tri_and (st ConnectionStateSuspended)
                (tri_or (fingerprint_32 r)
                   (tri_and (map_option (\<lambda>s. s = ConnectionStateUnpaired) (cn_suspend_prior r)) isnull)))
             (tri_and (Some (cn_state r = ConnectionStateConnected \<or> cn_state r = ConnectionStateDegraded
                        \<or> cn_state r = ConnectionStateReauthorizationRequired
                        \<or> cn_state r = ConnectionStateDisconnected))
                (fingerprint_32 r)))))"

definition connections_reauthorization_event_required :: "connection_row \<Rightarrow> tri" where
  "connections_reauthorization_event_required r =
     tri_or (Some (cn_state r \<noteq> ConnectionStateReauthorizationRequired))
       (tri_and (Some (cn_reauth_event r \<noteq> None))
          (map_option (\<lambda>e. list_ex (\<lambda>c. c \<noteq> CHR '' '') e) (cn_reauth_event r)))"

definition pairing_id_char :: "char \<Rightarrow> bool" where
  "pairing_id_char c =
     ((byte_of CHR ''a'' \<le> byte_of c \<and> byte_of c \<le> byte_of CHR ''z'')
      \<or> (byte_of CHR ''A'' \<le> byte_of c \<and> byte_of c \<le> byte_of CHR ''Z'')
      \<or> (byte_of CHR ''0'' \<le> byte_of c \<and> byte_of c \<le> byte_of CHR ''9'')
      \<or> c = CHR ''-'' \<or> c = CHR ''_'')"

text \<open>\<^verbatim>\<open>pairing.ValidPairingID\<close> and the regular expression of the constraint accept the same strings.\<close>

definition ValidPairingID :: "string \<Rightarrow> bool" where
  "ValidPairingID v = (if length v < 8 \<or> length v > 128 then False else list_all pairing_id_char v)"

definition pairable :: "ConnectionState \<Rightarrow> bool" where
  "pairable s = (s = ConnectionStateUnpaired \<or> s = ConnectionStateReauthorizationRequired)"

definition connections_pairing_metadata_required :: "connection_row \<Rightarrow> tri" where
  "connections_pairing_metadata_required r =
     tri_or
       (tri_and (Some (cn_state r = ConnectionStatePairing))
       (tri_and (Some (cn_pairing_attempt r \<noteq> None))
       (tri_and (map_option ValidPairingID (cn_pairing_attempt r))
       (tri_and (map_option pairable (cn_pairing_prior r))
                (Some (cn_pairing_started r \<noteq> None))))))
       (Some (cn_state r \<noteq> ConnectionStatePairing \<and> cn_pairing_attempt r = None
              \<and> cn_pairing_prior r = None \<and> cn_pairing_started r = None))"

definition connections_tenant_suspension_state :: "connection_row \<Rightarrow> tri" where
  "connections_tenant_suspension_state r =
     Some (cn_suspend_prior r = None \<or> cn_state r = ConnectionStateSuspended)"

definition connection_row_ok :: "connection_row \<Rightarrow> bool" where
  "connection_row_ok r =
     (ConnectionState_Validate (cn_state r) = None
      \<and> check_ok (map_option (\<lambda>f. length f \<ge> 16) (cn_fingerprint r))
      \<and> check_ok (connections_fingerprint_matches_state r)
      \<and> check_ok (connections_reauthorization_event_required r)
      \<and> check_ok (connections_pairing_metadata_required r)
      \<and> check_ok (connections_tenant_suspension_state r))"

lemmas row_check_defs = connection_row_ok_def ConnectionState_Validate_def check_ok_def
  connections_fingerprint_matches_state_def fingerprint_32_def tri_and_def tri_or_def
  connections_reauthorization_event_required_def connections_pairing_metadata_required_def
  connections_tenant_suspension_state_def pairable_def

definition unique_violation :: err where
  "unique_violation = Opaque ''duplicate key value violates unique constraint''"

definition check_violation :: err where
  "check_violation = Opaque ''check constraint violated''"

definition fk_violation :: err where
  "fk_violation = Opaque ''foreign key constraint violated''"

definition put_connection :: "ckey \<Rightarrow> connection_row \<Rightarrow> 'z gateway_db_scheme \<Rightarrow> 'z gateway_db_scheme result" where
  "put_connection k r db =
     (if connection_row_ok r then Inr (db \<lparr> db_connections := (db_connections db)(k \<mapsto> r) \<rparr>)
      else Inl check_violation)"

text \<open>
  A device fingerprint belongs to one connection of a tenant; NULL fingerprints do not collide. The
  statements that write the fingerprint column are checked against this unique index.
\<close>

definition fingerprint_taken :: "ckey \<Rightarrow> string option \<Rightarrow> 'z gateway_db_scheme \<Rightarrow> bool" where
  "fingerprint_taken k fp db \<longleftrightarrow>
     fp \<noteq> None \<and> (\<exists>c r. c \<noteq> snd k \<and> db_connections db (fst k, c) = Some r \<and> cn_fingerprint r = fp)"

definition put_fingerprint :: "ckey \<Rightarrow> connection_row \<Rightarrow> 'z gateway_db_scheme \<Rightarrow> 'z gateway_db_scheme result" where
  "put_fingerprint k r db =
     (if connection_row_ok r \<and> fingerprint_taken k (cn_fingerprint r) db then Inl unique_violation else put_connection k r db)"

text \<open>An UPDATE of several connection rows; one violating row fails the whole statement.\<close>

definition update_connections ::
  "(ckey \<Rightarrow> connection_row \<Rightarrow> bool) \<Rightarrow> (connection_row \<Rightarrow> connection_row)
   \<Rightarrow> 'z gateway_db_scheme \<Rightarrow> 'z gateway_db_scheme result" where
  "update_connections P g db =
     (if \<forall>k r. db_connections db k = Some r \<and> P k r \<longrightarrow> connection_row_ok (g r)
      then Inr (db \<lparr> db_connections := (\<lambda>k. map_option (\<lambda>r. if P k r then g r else r) (db_connections db k)) \<rparr>)
      else Inl check_violation)"

section \<open>Lease ownership\<close>

text \<open>
  The \<^verbatim>\<open>owned_lease\<close> subquery that every fenced statement starts with: the connection row exists,
  the lease row carries the caller's owner and token, and it has not expired. A released lease has
  a NULL owner, which equals no owner.
\<close>

definition owned_lease :: "'z gateway_db_scheme \<Rightarrow> ckey \<Rightarrow> owner_id \<Rightarrow> token \<Rightarrow> instant \<Rightarrow> bool" where
  "owned_lease db k owner tok now =
     (db_connections db k \<noteq> None \<and>
      (case db_leases db k of
         None \<Rightarrow> False
       | Some l \<Rightarrow> ls_owner l = Some owner \<and> ls_token l = tok \<and> ls_expires l > now))"

text \<open>The \<^verbatim>\<open>locked_lease\<close> subquery of the statements that read the lease row alone.\<close>

definition locked_lease :: "'z gateway_db_scheme \<Rightarrow> ckey \<Rightarrow> owner_id \<Rightarrow> token \<Rightarrow> instant \<Rightarrow> bool" where
  "locked_lease db k owner tok now =
     (case db_leases db k of
        None \<Rightarrow> False
      | Some l \<Rightarrow> ls_owner l = Some owner \<and> ls_token l = tok \<and> ls_expires l > now)"

lemma owned_lease_locked: "owned_lease db k owner tok now \<longleftrightarrow> db_connections db k \<noteq> None \<and> locked_lease db k owner tok now"
  by (simp add: owned_lease_def locked_lease_def)

definition micros :: "duration \<Rightarrow> int" where
  "micros d = go_div d 1000"

section \<open>Outbox rows\<close>

text \<open>
  An event has at most one outbox row per destination; a row is also identified by its outbox id.
  Its other columns take their defaults on insertion.
\<close>

definition outbox_of :: "'z gateway_db_scheme \<Rightarrow> tenant_id \<Rightarrow> string \<Rightarrow> string \<Rightarrow> outbox_row option" where
  "outbox_of db tenantID eventID destination =
     find (\<lambda>r. ob_tenant r = tenantID \<and> ob_event r = eventID \<and> ob_destination r = destination) (db_outbox db)"

definition new_outbox :: "instant \<Rightarrow> tenant_id \<Rightarrow> string \<Rightarrow> string \<Rightarrow> string \<Rightarrow> outbox_row" where
  "new_outbox now tenantID outboxID eventID destination =
     \<lparr> ob_tenant = tenantID, ob_id = outboxID, ob_event = eventID, ob_destination = destination, ob_available = now,
       ob_claimed_by = None, ob_claim_expires = None, ob_attempts = 0, ob_published = None \<rparr>"

definition insert_outbox ::
  "instant \<Rightarrow> tenant_id \<Rightarrow> string \<Rightarrow> string \<Rightarrow> string \<Rightarrow> 'z gateway_db_scheme \<Rightarrow> 'z gateway_db_scheme result" where
  "insert_outbox now tenantID outboxID eventID destination db =
     (if outbox_of db tenantID eventID destination \<noteq> None
         \<or> list_ex (\<lambda>r. ob_tenant r = tenantID \<and> ob_id r = outboxID) (db_outbox db)
      then Inl unique_violation
      else Inr (db \<lparr> db_outbox := db_outbox db @ [new_outbox now tenantID outboxID eventID destination] \<rparr>))"

lemma insert_outbox_Inr:
  "insert_outbox now t i e d db = Inr db' \<longleftrightarrow>
     outbox_of db t e d = None \<and> (\<forall>r \<in> set (db_outbox db). \<not> (ob_tenant r = t \<and> ob_id r = i))
     \<and> db' = db \<lparr> db_outbox := db_outbox db @ [new_outbox now t i e d] \<rparr>"
  by (auto simp: insert_outbox_def list_ex_iff)

lemma find_append: "find P (xs @ ys) = (case find P xs of None \<Rightarrow> find P ys | Some x \<Rightarrow> Some x)"
  by (induction xs) auto

lemma outbox_of_add:
  "outbox_of (db \<lparr> db_outbox := db_outbox db @ [new_outbox now t i e d] \<rparr>) t' e' d' =
     (case outbox_of db t' e' d' of
        None \<Rightarrow> if t' = t \<and> e' = e \<and> d' = d then Some (new_outbox now t i e d) else None
      | Some r \<Rightarrow> Some r)"
  by (auto simp: outbox_of_def find_append new_outbox_def split: option.splits)

end
