(* ===== verification/Connection_Store.thy ===== *)
theory Connection_Store
  imports Repository Event_Contract
begin

text \<open>
  The connection operations of the PostgreSQL repository (\<^verbatim>\<open>store/postgres/connections.go\<close>):
  encrypted sessions with their revision, the durable half of the pairing protocol, the
  reauthorisation transition with its event, and the authenticated line snapshot of a connection.
  The encoder of event bodies is the pair \<open>enc\<close> of \<^verbatim>\<open>json.Marshal\<close> and the time format.
\<close>

type_synonym codec = "(event_envelope \<Rightarrow> string result) \<times> (instant \<Rightarrow> string)"

section \<open>Reading a connection\<close>

definition GetConnection ::
  "fault \<Rightarrow> tenant_id \<Rightarrow> connection_id \<Rightarrow> 'z gateway_db_scheme \<Rightarrow> Connection result \<times> 'z gateway_db_scheme" where
  "GetConnection f tenantID connectionID db =
     (if tenantID = '''' then (Inl (Sentinel ErrInvalidTenantID), db)
      else if connectionID = '''' then (Inl (Sentinel ErrInvalidIdentifier), db)
      else inTenant f tenantID (\<lambda>db.
        case db_connections db (tenantID, connectionID) of
          None \<Rightarrow> Inl (Sentinel (Postgres ErrConnectionNotFound))
        | Some r \<Rightarrow>
            (case ConnectionState_Validate (cn_state r) of
               Some e \<Rightarrow> Inl (Wrap ''stored connection state'' e)
             | None \<Rightarrow> Inr (\<lparr> connection_ID = connectionID, connection_TenantID = tenantID,
                              connection_Name = cn_name r, connection_State = cn_state r \<rparr>, db))) db)"

definition validFingerprintForState :: "ConnectionState \<Rightarrow> string \<Rightarrow> bool" where
  "validFingerprintForState st fingerprint =
     (case st of
        ConnectionStateUnpaired \<Rightarrow> length fingerprint = 0
      | ConnectionStatePairing \<Rightarrow> length fingerprint = 0 \<or> length fingerprint = 32
      | _ \<Rightarrow> length fingerprint = 32)"

section \<open>Saving a connection\<close>

text \<open>
  \<open>tenant_connections\<close> is the \<^verbatim>\<open>count(*)\<close> of the quota query. A missing tenant row makes the
  sub-selects NULL, which \<^verbatim>\<open>Scan\<close> refuses.
\<close>

definition tenant_connections :: "'z gateway_db_scheme \<Rightarrow> tenant_id \<Rightarrow> int" where
  "tenant_connections db t = int (card {c. db_connections db (t, c) \<noteq> None})"

definition SaveConnection ::
  "fault \<Rightarrow> instant \<Rightarrow> tenant_id \<Rightarrow> Connection \<Rightarrow> string \<Rightarrow> 'z gateway_db_scheme \<Rightarrow> goerror \<times> 'z gateway_db_scheme" where
  "SaveConnection f now tenantID c fingerprint db =
     (if tenantID = '''' then (Some (Sentinel ErrInvalidTenantID), db)
      else if connection_ID c = '''' then (Some (Sentinel ErrInvalidIdentifier), db)
      else if connection_TenantID c \<noteq> tenantID then (Some (Sentinel ErrTenantBoundary), db)
      else if ConnectionState_Validate (connection_State c) \<noteq> None
        then (ConnectionState_Validate (connection_State c), db)
      else if connection_State c = ConnectionStatePairing \<or> connection_State c = ConnectionStateReauthorizationRequired
        then (Some (Sentinel (Pairing PairingInvalidConnectionState)), db)
      else if \<not> validFingerprintForState (connection_State c) fingerprint
        then (Some (Sentinel (Postgres ErrInvalidFingerprint)), db)
      else inTenantExec f tenantID (\<lambda>db.
        case db_tenants db tenantID of
          None \<Rightarrow> Inl (Wrap ''check connection quota'' (Opaque ''converting NULL''))
        | Some tn \<Rightarrow>
            let k = (tenantID, connection_ID c); existing = db_connections db k;
                fp = (if length fingerprint = 0 then None else Some fingerprint) in
            if tn_status tn = ''suspended'' then Inl (Sentinel (Postgres ErrTenantSuspended))
            else if tn_status tn \<noteq> ''active'' then Inl (Opaque ''stored tenant status is invalid'')
            else if tn_max_connections tn < 1 \<or> tn_max_connections tn > 128
              then Inl (Opaque ''stored tenant connection quota is invalid'')
            else if existing = None \<and> tenant_connections db tenantID \<ge> tn_max_connections tn
              then Inl (Sentinel (Postgres ErrConnectionQuotaExceeded))
            else case existing of
              None \<Rightarrow> put_fingerprint k \<lparr> cn_name = connection_Name c, cn_state = connection_State c,
                 cn_fingerprint = fp, cn_reauth_event = None, cn_pairing_prior = None,
                 cn_pairing_attempt = None, cn_pairing_started = None, cn_suspend_prior = None,
                 cn_updated = now \<rparr> db
            | Some r \<Rightarrow>
                if connection_State c = ConnectionStateUnpaired \<and> fp = None
                then Inl (Wrap ''save connection'' (Opaque ''duplicate key''))
                else put_fingerprint k (r \<lparr> cn_name := connection_Name c, cn_state := connection_State c,
                   cn_fingerprint := fp, cn_updated := now \<rparr>) db) db)"

section \<open>Encrypted sessions\<close>

text \<open>
  The stored envelope carries the row's revision column. \<open>upsert_session\<close> is the statement that
  \<^verbatim>\<open>SaveEncryptedSession\<close> and \<^verbatim>\<open>CommitPairedSession\<close> share.
\<close>

definition upsert_session :: "ckey \<Rightarrow> Envelope \<Rightarrow> 'z gateway_db_scheme \<Rightarrow> 'z gateway_db_scheme result" where
  "upsert_session k e db =
     (if db_connections db k = None then Inl fk_violation
      else let rev = (case db_sessions db k of None \<Rightarrow> 1 | Some old \<Rightarrow> env_Revision old + 1)
           in Inr (db \<lparr> db_sessions := (db_sessions db)(k \<mapsto> e \<lparr> env_Revision := rev \<rparr>) \<rparr>))"

definition SaveEncryptedSession ::
  "fault \<Rightarrow> tenant_id \<Rightarrow> connection_id \<Rightarrow> Envelope \<Rightarrow> 'z gateway_db_scheme \<Rightarrow> goerror \<times> 'z gateway_db_scheme" where
  "SaveEncryptedSession f tenantID connectionID e db =
     (if tenantID = '''' then (Some (Sentinel ErrInvalidTenantID), db)
      else if connectionID = '''' then (Some (Sentinel ErrInvalidIdentifier), db)
      else if Envelope_Validate e \<noteq> None then (Some (Sentinel ErrInvalidEncryptedSession), db)
      else inTenantExec f tenantID (\<lambda>db. upsert_session (tenantID, connectionID) e db) db)"

definition LoadEncryptedSession ::
  "fault \<Rightarrow> tenant_id \<Rightarrow> connection_id \<Rightarrow> 'z gateway_db_scheme \<Rightarrow> Envelope result \<times> 'z gateway_db_scheme" where
  "LoadEncryptedSession f tenantID connectionID db =
     (if connectionID = '''' then (Inl (Sentinel ErrInvalidIdentifier), db)
      else inTenant f tenantID (\<lambda>db.
        case db_sessions db (tenantID, connectionID) of
          None \<Rightarrow> Inl (Sentinel (Postgres ErrEncryptedSessionNotFound))
        | Some e \<Rightarrow> if Envelope_Validate e \<noteq> None then Inl (Sentinel ErrInvalidEncryptedSession)
                     else Inr (e, db)) db)"

definition cas_session :: "ckey \<Rightarrow> nat \<Rightarrow> Envelope \<Rightarrow> 'z gateway_db_scheme \<Rightarrow> bool \<times> 'z gateway_db_scheme" where
  "cas_session k expectedRevision e db =
     (case db_sessions db k of
        None \<Rightarrow> (False, db)
      | Some old \<Rightarrow>
          if env_Revision old = expectedRevision
          then (True, db \<lparr> db_sessions := (db_sessions db)(k \<mapsto> e \<lparr> env_Revision := env_Revision old + 1 \<rparr>) \<rparr>)
          else (False, db))"

definition CompareAndSwapEncryptedSession ::
  "fault \<Rightarrow> tenant_id \<Rightarrow> connection_id \<Rightarrow> nat \<Rightarrow> Envelope \<Rightarrow> 'z gateway_db_scheme \<Rightarrow> bool result \<times> 'z gateway_db_scheme" where
  "CompareAndSwapEncryptedSession f tenantID connectionID expectedRevision e db =
     (if tenantID = '''' \<or> connectionID = '''' \<or> expectedRevision = 0 \<or> Envelope_Validate e \<noteq> None
      then (Inl (Sentinel ErrInvalidEncryptedSession), db)
      else inTenant f tenantID (\<lambda>db. Inr (cas_session (tenantID, connectionID) expectedRevision e db)) db)"

section \<open>State transitions and pairing\<close>

definition TransitionConnection ::
  "fault \<Rightarrow> instant \<Rightarrow> tenant_id \<Rightarrow> connection_id \<Rightarrow> ConnectionState list \<Rightarrow> ConnectionState
   \<Rightarrow> 'z gateway_db_scheme \<Rightarrow> goerror \<times> 'z gateway_db_scheme" where
  "TransitionConnection f now tenantID connectionID from to db =
     (let invalid = Sentinel (Pairing PairingInvalidConnectionState); k = (tenantID, connectionID) in
      if tenantID = '''' \<or> connectionID = '''' \<or> length from = 0 \<or> ConnectionState_Validate to \<noteq> None
         \<or> to = ConnectionStatePairing \<or> to = ConnectionStateReauthorizationRequired then (Some invalid, db)
      else if list_ex (\<lambda>s. ConnectionState_Validate s \<noteq> None) from then (Some invalid, db)
      else inTenantExec f tenantID (\<lambda>db.
        case db_connections db k of
          None \<Rightarrow> Inl invalid
        | Some r \<Rightarrow>
            if cn_state r \<notin> set from then Inl invalid
            else put_connection k (r \<lparr> cn_state := to, cn_updated := now \<rparr>) db) db)"

definition ValidAttemptTTL :: "duration \<Rightarrow> bool" where
  "ValidAttemptTTL ttl = (ttl > 0 \<and> ttl \<le> 24 * hour)"

definition pairing_stale :: "instant \<Rightarrow> duration \<Rightarrow> connection_row \<Rightarrow> bool" where
  "pairing_stale now ttl r =
     (cn_state r = ConnectionStatePairing
      \<and> (case cn_pairing_started r of None \<Rightarrow> False | Some s \<Rightarrow> s < now - micros ttl)
      \<and> (case cn_pairing_prior r of None \<Rightarrow> False | Some p \<Rightarrow> pairable p))"

definition beginPairingSQL :: "instant \<Rightarrow> duration \<Rightarrow> string \<Rightarrow> connection_row \<Rightarrow> connection_row option" where
  "beginPairingSQL now ttl attemptID r =
     (if pairable (cn_state r) \<or> pairing_stale now ttl r
      then Some (r \<lparr> cn_state := ConnectionStatePairing,
                     cn_pairing_prior := (if cn_state r = ConnectionStatePairing then cn_pairing_prior r
                                          else Some (cn_state r)),
                     cn_pairing_attempt := Some attemptID, cn_pairing_started := Some now,
                     cn_updated := now \<rparr>)
      else None)"

definition BeginPairing ::
  "fault \<Rightarrow> instant \<Rightarrow> tenant_id \<Rightarrow> connection_id \<Rightarrow> string \<Rightarrow> duration
   \<Rightarrow> 'z gateway_db_scheme \<Rightarrow> ConnectionState result \<times> 'z gateway_db_scheme" where
  "BeginPairing f now tenantID connectionID attemptID ttl db =
     (let invalid = Sentinel (Pairing PairingInvalidConnectionState); k = (tenantID, connectionID) in
      if tenantID = '''' \<or> connectionID = '''' \<or> \<not> ValidPairingID attemptID \<or> \<not> ValidAttemptTTL ttl
      then (Inl invalid, db)
      else inTenant f tenantID (\<lambda>db.
        if map_option tn_status (db_tenants db tenantID) \<noteq> Some ''active''
        then Inl (Sentinel (Postgres ErrTenantSuspended))
        else case db_connections db k of
          None \<Rightarrow> Inl invalid
        | Some r \<Rightarrow>
            (case beginPairingSQL now ttl attemptID r of
               Some r' \<Rightarrow>
                 (case put_connection k r' db of
                    Inl e \<Rightarrow> Inl (Wrap ''begin pairing'' e)
                  | Inr db' \<Rightarrow>
                      (case cn_pairing_prior r' of
                         None \<Rightarrow> Inl (Wrap ''begin pairing'' (Opaque ''converting NULL''))
                       | Some prior \<Rightarrow> Inr (prior, db')))
             | None \<Rightarrow>
                 if cn_state r = ConnectionStatePairing then Inl (Sentinel (Pairing ErrAttemptActive))
                 else Inl invalid)) db)"

definition clear_pairing :: "instant \<Rightarrow> ConnectionState \<Rightarrow> connection_row \<Rightarrow> connection_row" where
  "clear_pairing now st r = r \<lparr> cn_state := st, cn_pairing_prior := None, cn_pairing_started := None,
     cn_pairing_attempt := None, cn_updated := now \<rparr>"

definition RestorePairing ::
  "fault \<Rightarrow> instant \<Rightarrow> tenant_id \<Rightarrow> connection_id \<Rightarrow> string
   \<Rightarrow> 'z gateway_db_scheme \<Rightarrow> ConnectionState result \<times> 'z gateway_db_scheme" where
  "RestorePairing f now tenantID connectionID attemptID db =
     (let k = (tenantID, connectionID); superseded = Inl (Sentinel (Pairing ErrAttemptSuperseded)) in
      if tenantID = '''' \<or> connectionID = '''' \<or> \<not> ValidPairingID attemptID
      then (Inl (Sentinel (Pairing PairingInvalidConnectionState)), db)
      else inTenant f tenantID (\<lambda>db.
        case db_connections db k of
          None \<Rightarrow> superseded
        | Some r \<Rightarrow>
            (case cn_pairing_prior r of
               None \<Rightarrow> superseded
             | Some prior \<Rightarrow>
                 if cn_state r = ConnectionStatePairing \<and> cn_pairing_attempt r = Some attemptID \<and> pairable prior
                 then (case put_connection k (clear_pairing now prior r) db of
                         Inl e \<Rightarrow> Inl (Wrap ''restore pairing'' e)
                       | Inr db' \<Rightarrow> Inr (prior, db'))
                 else superseded)) db)"

text \<open>\<^verbatim>\<open>ReconcileStalePairings\<close> restores every stale attempt of the tenant and returns their number.\<close>

definition ReconcileStalePairings ::
  "fault \<Rightarrow> instant \<Rightarrow> tenant_id \<Rightarrow> duration \<Rightarrow> 'z gateway_db_scheme \<Rightarrow> nat result \<times> 'z gateway_db_scheme" where
  "ReconcileStalePairings f now tenantID ttl db =
     (if tenantID = '''' \<or> \<not> ValidAttemptTTL ttl
      then (Inl (Sentinel (Pairing PairingInvalidConnectionState)), db)
      else inTenant f tenantID (\<lambda>db.
        let stale = (\<lambda>k r. fst k = tenantID \<and> pairing_stale now ttl r) in
        case update_connections stale (\<lambda>r. clear_pairing now (the (cn_pairing_prior r)) r) db of
          Inl e \<Rightarrow> Inl (Wrap ''reconcile stale pairings'' e)
        | Inr db' \<Rightarrow> Inr (card {c. \<exists>r. db_connections db (tenantID, c) = Some r \<and> pairing_stale now ttl r}, db')) db)"

definition CommitPairedSession ::
  "fault \<Rightarrow> instant \<Rightarrow> tenant_id \<Rightarrow> connection_id \<Rightarrow> string \<Rightarrow> Envelope \<Rightarrow> string
   \<Rightarrow> 'z gateway_db_scheme \<Rightarrow> goerror \<times> 'z gateway_db_scheme" where
  "CommitPairedSession f now tenantID connectionID attemptID e fingerprint db =
     (let k = (tenantID, connectionID) in
      if tenantID = '''' \<or> connectionID = '''' \<or> \<not> ValidPairingID attemptID \<or> Envelope_Validate e \<noteq> None
         \<or> length fingerprint \<noteq> 32 then (Some (Sentinel ErrInvalidEncryptedSession), db)
      else inTenantExec f tenantID (\<lambda>db.
        case upsert_session k e db of
          Inl x \<Rightarrow> Inl (Wrap ''commit encrypted session'' x)
        | Inr db1 \<Rightarrow>
            (case db_connections db1 k of
               None \<Rightarrow> Inl (Sentinel (Pairing ErrAttemptSuperseded))
             | Some r \<Rightarrow>
                 if cn_state r = ConnectionStatePairing \<and> cn_pairing_attempt r = Some attemptID
                 then (case put_fingerprint k ((clear_pairing now ConnectionStateConnected r)
                              \<lparr> cn_fingerprint := Some fingerprint, cn_reauth_event := None \<rparr>) db1 of
                         Inl x \<Rightarrow> Inl (Wrap ''commit connected state'' x)
                       | Inr db2 \<Rightarrow> Inr db2)
                 else Inl (Sentinel (Pairing ErrAttemptSuperseded)))) db)"

section \<open>Reauthorisation\<close>

text \<open>\<^verbatim>\<open>insertReauthorizationEvent\<close>: the event, its identity check, and one outbox row per destination.\<close>

definition reauthorization_envelope :: "instant \<Rightarrow> tenant_id \<Rightarrow> connection_id \<Rightarrow> string \<Rightarrow> event_envelope" where
  "reauthorization_envelope wall tenantID connectionID eventID =
     \<lparr> ee_EventID = eventID, ee_Type = ''connection.reauthorization_required'', ee_Version = 0,
       ee_OccurredAt = Some wall, ee_OccurredAtText = '''', ee_IngestedAt = None, ee_IngestedAtText = '''',
       ee_TenantID = tenantID, ee_ConnectionID = connectionID, ee_ConversationID = '''', ee_MessageID = '''',
       ee_ProviderMessageID = '''', ee_ProviderTmpID = '''', ee_Direction = '''', ee_Provenance = '''',
       ee_ProviderStatus = '''', ee_Actionable = False, ee_Sender = '''', ee_Recipients = [], ee_Text = '''',
       ee_Transport = '''', ee_Status = ''reauthorization-required'', ee_State = ''reauthorization-required'',
       ee_MediaID = '''', ee_MetadataPath = '''', ee_ContentPath = '''', ee_Media = [],
       ee_ProviderResponseID = '''', ee_Reason = '''', ee_Data = [] \<rparr>"

definition ensure_event :: "tenant_id \<times> string \<Rightarrow> event_row \<Rightarrow> 'z gateway_db_scheme \<Rightarrow> 'z gateway_db_scheme" where
  "ensure_event k row db =
     (if db_events db k = None then db \<lparr> db_events := (db_events db)(k \<mapsto> row) \<rparr> else db)"

definition ensure_outbox ::
  "instant \<Rightarrow> tenant_id \<Rightarrow> string \<Rightarrow> string \<Rightarrow> 'z gateway_db_scheme \<Rightarrow> 'z gateway_db_scheme result" where
  "ensure_outbox now tenantID eventID destination db =
     (if outbox_of db tenantID eventID destination \<noteq> None then Inr db
      else insert_outbox now tenantID (eventID @ '':'' @ destination) eventID destination db)"

definition insertReauthorizationEvent ::
  "codec \<Rightarrow> instant \<Rightarrow> instant \<Rightarrow> tenant_id \<Rightarrow> connection_id \<Rightarrow> string \<Rightarrow> 'z gateway_db_scheme \<Rightarrow> 'z gateway_db_scheme result" where
  "insertReauthorizationEvent enc now wall tenantID connectionID eventID db =
     (case event_Marshal (fst enc) (snd enc) (reauthorization_envelope wall tenantID connectionID eventID) of
        Inl e \<Rightarrow> Inl (Wrap ''encode reauthorization event'' e)
      | Inr body \<Rightarrow>
          let db1 = ensure_event (tenantID, eventID)
                \<lparr> ev_type = ''connection.reauthorization_required'', ev_aggregate_type = ''connection'',
                  ev_aggregate_id = connectionID,
                  ev_connection = (if connectionID = '''' then None else Some connectionID),
                  ev_conversation = '''', ev_body = body \<rparr> db
          in case db_events db1 (tenantID, eventID) of
               None \<Rightarrow> Inl (Wrap ''validate reauthorization event'' (Sentinel ErrNoRows))
             | Some stored \<Rightarrow>
                 if ev_type stored \<noteq> ''connection.reauthorization_required''
                    \<or> ev_aggregate_type stored \<noteq> ''connection'' \<or> ev_aggregate_id stored \<noteq> connectionID
                    \<or> (case ev_connection stored of None \<Rightarrow> '''' | Some c \<Rightarrow> c) \<noteq> connectionID
                 then Inl (Opaque ''reauthorization event identity conflict'')
                 else case bind_res (ensure_outbox now tenantID eventID ''webhook'' db1) (ensure_outbox now tenantID eventID ''kafka'') of
                        Inl e \<Rightarrow> Inl (Wrap ''ensure reauthorization outbox'' e)
                      | Inr db2 \<Rightarrow> Inr db2)"

record AuthorizationTransition =
  at_Transitioned :: bool
  at_EventID :: string

text \<open>The fence of a lease: the owner is cleared and the token moves on, when there is an owner.\<close>

definition fence_lease :: "instant \<Rightarrow> lease_row \<Rightarrow> lease_row" where
  "fence_lease now l = l \<lparr> ls_owner := None, ls_token := ls_token l + 1, ls_expires := now, ls_updated := now \<rparr>"

definition fence_owned :: "instant \<Rightarrow> ckey \<Rightarrow> 'z gateway_db_scheme \<Rightarrow> 'z gateway_db_scheme" where
  "fence_owned now k db =
     (case db_leases db k of
        None \<Rightarrow> db
      | Some l \<Rightarrow> if ls_owner l = None then db
                   else db \<lparr> db_leases := (db_leases db)(k \<mapsto> fence_lease now l) \<rparr>)"

definition reauthorizable :: "ConnectionState \<Rightarrow> bool" where
  "reauthorizable st = (st = ConnectionStateConnected \<or> st = ConnectionStateDegraded
     \<or> st = ConnectionStateDisconnected \<or> st = ConnectionStateSuspended
     \<or> st = ConnectionStateReauthorizationRequired)"

definition MarkReauthorizationRequired ::
  "codec \<Rightarrow> fault \<Rightarrow> instant \<Rightarrow> instant \<Rightarrow> string \<Rightarrow> tenant_id \<Rightarrow> connection_id
   \<Rightarrow> 'z gateway_db_scheme \<Rightarrow> AuthorizationTransition result \<times> 'z gateway_db_scheme" where
  "MarkReauthorizationRequired enc f now wall newEventID tenantID connectionID db =
     (let k = (tenantID, connectionID) in
      if tenantID = '''' \<or> connectionID = '''' then (Inl (Sentinel ErrInvalidIdentifier), db)
      else inTenant f tenantID (\<lambda>db.
        case db_connections db k of
          None \<Rightarrow> Inl (Sentinel (Postgres ErrConnectionNotFound))
        | Some r \<Rightarrow>
            let stored = (case cn_reauth_event r of None \<Rightarrow> '''' | Some e \<Rightarrow> e) in
            if cn_state r = ConnectionStateReauthorizationRequired \<and> stored \<noteq> ''''
            then bind_res (insertReauthorizationEvent enc now wall tenantID connectionID stored (fence_owned now k db))
                   (\<lambda>db'. Inr (\<lparr> at_Transitioned = False, at_EventID = stored \<rparr>, db'))
            else if \<not> reauthorizable (cn_state r) then Inl (Sentinel (Pairing PairingInvalidConnectionState))
            else if newEventID = '''' then Inl (Opaque ''generate authorization event ID'')
            else case put_connection k (r \<lparr> cn_state := ConnectionStateReauthorizationRequired,
                        cn_reauth_event := Some newEventID, cn_updated := now \<rparr>) db of
                   Inl e \<Rightarrow> Inl (Wrap ''mark reauthorization required'' e)
                 | Inr db1 \<Rightarrow>
                     bind_res (insertReauthorizationEvent enc now wall tenantID connectionID newEventID (fence_owned now k db1))
                       (\<lambda>db'. Inr (\<lparr> at_Transitioned = True, at_EventID = newEventID \<rparr>, db'))) db)"

section \<open>Lines\<close>

record LineRecord =
  lrec_Line :: Line
  lrec_Phone :: E164Phone
  lrec_CarrierName :: string
  lrec_ColorHex :: string
  lrec_RCSEnabled :: bool
  lrec_ProviderSIMNumber :: int
  lrec_ProviderSIMPayloadType :: int
  lrec_DiscoverySource :: string

definition validLineMetadata :: "string \<Rightarrow> nat \<Rightarrow> bool" where
  "validLineMetadata v limit =
     (length v \<le> limit \<and> valid_utf8 v \<and> \<not> ContainsAny v [CHR 0x00, CHR 0x0D, CHR 0x0A])"

definition line_record_invalid :: "LineRecord \<Rightarrow> bool" where
  "line_record_invalid rec =
     (let line = lrec_Line rec in
      line_ID line = '''' \<or> line_ProviderParticipantID line = '''' \<or> line_ProviderOutgoingID line = ''''
      \<or> phone_value (lrec_Phone rec) = '''' \<or> \<not> validLineMetadata (line_DisplayName line) 255
      \<or> \<not> validLineMetadata (lrec_CarrierName rec) 255 \<or> \<not> validLineMetadata (lrec_ColorHex rec) 64
      \<or> lrec_DiscoverySource rec \<noteq> ''authenticated_google_settings'')"

fun validate_line_records :: "Connection \<Rightarrow> LineRecord list \<Rightarrow> goerror" where
  "validate_line_records c [] = None"
| "validate_line_records c (rec # rest) =
     (if line_record_invalid rec then Some (Sentinel ErrInvalidIdentifier)
      else case Line_ValidateFor (lrec_Line rec) c of Some e \<Rightarrow> Some e | None \<Rightarrow> validate_line_records c rest)"

definition validateLineReplacement :: "tenant_id \<Rightarrow> connection_id \<Rightarrow> LineRecord list \<Rightarrow> goerror" where
  "validateLineReplacement tenantID connectionID records =
     (if tenantID = '''' then Some (Sentinel ErrInvalidTenantID)
      else if connectionID = '''' then Some (Sentinel ErrInvalidIdentifier)
      else if length records > 16 then Some (Sentinel ErrInvalidIdentifier)
      else validate_line_records \<lparr> connection_ID = connectionID, connection_TenantID = tenantID,
             connection_Name = '''', connection_State = ConnectionStateOther '''' \<rparr> records)"

definition line_row_of :: "connection_id \<Rightarrow> LineRecord \<Rightarrow> line_row" where
  "line_row_of connectionID rec =
     \<lparr> ln_connection = connectionID, ln_participant = line_ProviderParticipantID (lrec_Line rec),
       ln_outgoing = line_ProviderOutgoingID (lrec_Line rec), ln_phone = phone_value (lrec_Phone rec),
       ln_display = line_DisplayName (lrec_Line rec), ln_carrier = lrec_CarrierName rec,
       ln_color = lrec_ColorHex rec, ln_rcs = lrec_RCSEnabled rec,
       ln_sim_number = lrec_ProviderSIMNumber rec, ln_sim_payload = lrec_ProviderSIMPayloadType rec,
       ln_source = lrec_DiscoverySource rec, ln_active = True \<rparr>"

text \<open>
  The upsert of one record affects no row when the line identifier belongs to another connection.
\<close>

fun upsert_lines :: "tenant_id \<Rightarrow> connection_id \<Rightarrow> LineRecord list \<Rightarrow> 'z gateway_db_scheme \<Rightarrow> 'z gateway_db_scheme result" where
  "upsert_lines t c [] db = Inr db"
| "upsert_lines t c (rec # rest) db =
     (let k = (t, line_ID (lrec_Line rec));
          write = upsert_lines t c rest (db \<lparr> db_lines := (db_lines db)(k \<mapsto> line_row_of c rec) \<rparr>) in
      case db_lines db k of
        None \<Rightarrow> write
      | Some old \<Rightarrow> if ln_connection old = c then write
                     else Inl (Wrap (line_ID (lrec_Line rec)) (Opaque ''belongs to another connection'')))"

definition retire_lines :: "tenant_id \<Rightarrow> connection_id \<Rightarrow> line_id list \<Rightarrow> 'z gateway_db_scheme \<Rightarrow> 'z gateway_db_scheme" where
  "retire_lines t c current db =
     db \<lparr> db_lines := (\<lambda>k. case db_lines db k of
            None \<Rightarrow> None
          | Some l \<Rightarrow> if fst k = t \<and> ln_connection l = c \<and> ln_active l \<and> snd k \<notin> set current
                       then Some (l \<lparr> ln_active := False \<rparr>) else Some l) \<rparr>"

definition replaceLineRows :: "tenant_id \<Rightarrow> connection_id \<Rightarrow> LineRecord list \<Rightarrow> 'z gateway_db_scheme \<Rightarrow> 'z gateway_db_scheme result" where
  "replaceLineRows t c records db =
     bind_res (upsert_lines t c records db)
       (\<lambda>db'. Inr (retire_lines t c (map (\<lambda>rec. line_ID (lrec_Line rec)) records) db'))"

definition ReplaceLines ::
  "fault \<Rightarrow> tenant_id \<Rightarrow> connection_id \<Rightarrow> LineRecord list \<Rightarrow> 'z gateway_db_scheme \<Rightarrow> goerror \<times> 'z gateway_db_scheme" where
  "ReplaceLines f tenantID connectionID records db =
     (case validateLineReplacement tenantID connectionID records of
        Some e \<Rightarrow> (Some e, db)
      | None \<Rightarrow> inTenantExec f tenantID (\<lambda>db.
          if db_connections db (tenantID, connectionID) = None then Inl (Sentinel (Postgres ErrConnectionNotFound))
          else replaceLineRows tenantID connectionID records db) db)"

definition ReplaceLinesFenced ::
  "fault \<Rightarrow> instant \<Rightarrow> tenant_id \<Rightarrow> connection_id \<Rightarrow> owner_id \<Rightarrow> token \<Rightarrow> LineRecord list
   \<Rightarrow> 'z gateway_db_scheme \<Rightarrow> goerror \<times> 'z gateway_db_scheme" where
  "ReplaceLinesFenced f now tenantID connectionID ownerID fencingToken records db =
     (if ownerID = '''' \<or> fencingToken = 0 then (Some (Sentinel ErrInvalidLease), db)
      else case validateLineReplacement tenantID connectionID records of
        Some e \<Rightarrow> (Some e, db)
      | None \<Rightarrow> inTenantExec f tenantID (\<lambda>db.
          if \<not> owned_lease db (tenantID, connectionID) ownerID fencingToken now
          then Inl (Sentinel (Postgres ErrConnectionLeaseLost))
          else replaceLineRows tenantID connectionID records db) db)"

section \<open>Line snapshots are exact\<close>

lemma upsert_lines_frame:
  assumes "upsert_lines t c recs db = Inr db'"
  shows "db_connections db' = db_connections db \<and> db_leases db' = db_leases db \<and> db_sessions db' = db_sessions db"
  using assms
  by (induction t c recs db rule: upsert_lines.induct) (auto simp: Let_def split: option.splits if_splits)

lemma upsert_lines_lookup:
  assumes "upsert_lines t c recs db = Inr db'"
  shows "db_lines db' k =
    (if fst k = t \<and> snd k \<in> line_ID ` lrec_Line ` set recs
     then Some (line_row_of c (last (filter (\<lambda>r. line_ID (lrec_Line r) = snd k) recs)))
     else db_lines db k)"
  using assms
proof (induction t c recs db rule: upsert_lines.induct)
  case (2 t c rec rest db)
  let ?k = "(t, line_ID (lrec_Line rec))"
  have "upsert_lines t c rest (db \<lparr> db_lines := (db_lines db)(?k \<mapsto> line_row_of c rec) \<rparr>) = Inr db'"
    using "2.prems" by (auto simp: Let_def split: option.splits if_splits)
  moreover from this have "db_lines db' k =
    (if fst k = t \<and> snd k \<in> line_ID ` lrec_Line ` set rest
     then Some (line_row_of c (last (filter (\<lambda>r. line_ID (lrec_Line r) = snd k) rest)))
     else ((db_lines db)(?k \<mapsto> line_row_of c rec)) k)"
    using "2.IH" "2.prems" by (auto simp: Let_def split: option.splits if_splits)
  ultimately show ?case
    by (cases k) (auto simp: filter_empty_conv image_iff)
qed simp

lemma upsert_lines_connection:
  assumes "upsert_lines t c recs db = Inr db'" "rec \<in> set recs" "db_lines db (t, line_ID (lrec_Line rec)) = Some old"
  shows "ln_connection old = c"
  using assms
proof (induction t c recs db arbitrary: old rule: upsert_lines.induct)
  case (2 t c rec' rest db)
  show ?case
  proof (cases "line_ID (lrec_Line rec) = line_ID (lrec_Line rec')")
    case True
    with "2.prems" show ?thesis by (auto simp: Let_def split: if_splits)
  next
    case False
    then have "rec \<in> set rest" using "2.prems"(2) by auto
    moreover have "((db_lines db)((t, line_ID (lrec_Line rec')) \<mapsto> line_row_of c rec')) (t, line_ID (lrec_Line rec)) = Some old"
      using False "2.prems"(3) by simp
    ultimately show ?thesis
      using "2.IH" "2.prems"(1) by (auto simp: Let_def split: option.splits if_splits)
  qed
qed simp

definition active_lines :: "'z gateway_db_scheme \<Rightarrow> tenant_id \<Rightarrow> connection_id \<Rightarrow> line_id set" where
  "active_lines db t c = {l. \<exists>r. db_lines db (t, l) = Some r \<and> ln_connection r = c \<and> ln_active r}"

lemma replaceLineRows_lookup:
  assumes "replaceLineRows t c recs db = Inr db'"
  obtains f where "\<And>l. ln_connection (f l) = c \<and> ln_active (f l)"
    and "\<And>t' l. db_lines db' (t', l) =
      (if t' = t \<and> l \<in> line_ID ` lrec_Line ` set recs then Some (f l)
       else map_option (\<lambda>r. if t' = t \<and> ln_connection r = c then r \<lparr> ln_active := False \<rparr> else r) (db_lines db (t', l)))"
    and "\<And>l r. l \<in> line_ID ` lrec_Line ` set recs \<Longrightarrow> db_lines db (t, l) = Some r \<Longrightarrow> ln_connection r = c"
proof -
  obtain db1 where u: "upsert_lines t c recs db = Inr db1"
    and db': "db' = retire_lines t c (map (\<lambda>rec. line_ID (lrec_Line rec)) recs) db1"
    using assms by (auto simp: replaceLineRows_def bind_res_Inr)
  let ?f = "\<lambda>l. line_row_of c (last (filter (\<lambda>r. line_ID (lrec_Line r) = l) recs))"
  have "db_lines db' (t', l) =
      (if t' = t \<and> l \<in> line_ID ` lrec_Line ` set recs then Some (?f l)
       else map_option (\<lambda>r. if t' = t \<and> ln_connection r = c then r \<lparr> ln_active := False \<rparr> else r) (db_lines db (t', l)))"
    for t' l
    unfolding db' retire_lines_def
    by (cases "db_lines db (t', l)")
      (auto simp: upsert_lines_lookup [OF u] line_row_of_def image_image)
  then show ?thesis
    using that [of ?f] upsert_lines_connection [OF u] by (force simp: line_row_of_def)
qed

lemma replaceLineRows_exact:
  assumes "replaceLineRows t c recs db = Inr db'"
  shows "active_lines db' t c = line_ID ` lrec_Line ` set recs"
    and "(t', c') \<noteq> (t, c) \<Longrightarrow> active_lines db' t' c' = active_lines db t' c'"
proof -
  obtain f where f: "\<And>l. ln_connection (f l) = c \<and> ln_active (f l)"
    and look: "\<And>t' l. db_lines db' (t', l) =
      (if t' = t \<and> l \<in> line_ID ` lrec_Line ` set recs then Some (f l)
       else map_option (\<lambda>r. if t' = t \<and> ln_connection r = c then r \<lparr> ln_active := False \<rparr> else r) (db_lines db (t', l)))"
    and old: "\<And>l r. l \<in> line_ID ` lrec_Line ` set recs \<Longrightarrow> db_lines db (t, l) = Some r \<Longrightarrow> ln_connection r = c"
    using assms by (rule replaceLineRows_lookup) blast
  let ?ids = "line_ID ` lrec_Line ` set recs"
  have "l \<in> active_lines db' t c \<longleftrightarrow> l \<in> ?ids" for l
    by (cases "l \<in> ?ids"; cases "db_lines db (t, l)") (simp_all add: active_lines_def look f)
  then show "active_lines db' t c = ?ids" by blast
  assume ne: "(t', c') \<noteq> (t, c)"
  have "l \<in> active_lines db' t' c' \<longleftrightarrow> l \<in> active_lines db t' c'" for l
    using ne f [of l] old [of l]
    by (cases "t' = t \<and> l \<in> ?ids"; cases "db_lines db (t', l)") (auto simp: active_lines_def look)
  then show "active_lines db' t' c' = active_lines db t' c'" by blast
qed

text \<open>
  A line snapshot is applied exactly and only by the current lease holder: when the fenced
  replacement succeeds, the caller owned the unexpired lease, the active lines of the connection
  are exactly the lines of the snapshot, and no other connection's active lines changed.
\<close>

theorem ReplaceLinesFenced_exact:
  assumes "ReplaceLinesFenced f now t c owner tok recs db = (None, db')"
  shows "owned_lease db (t, c) owner tok now \<and> active_lines db' t c = line_ID ` lrec_Line ` set recs
    \<and> ((t', c') \<noteq> (t, c) \<longrightarrow> active_lines db' t' c' = active_lines db t' c')"
proof -
  have "owned_lease db (t, c) owner tok now" and r: "replaceLineRows t c recs db = Inr db'"
    using assms
    by (auto simp: ReplaceLinesFenced_def split: if_splits option.splits dest!: inTenantExec_ok)
  then show ?thesis using replaceLineRows_exact [OF r] by blast
qed

section \<open>A concrete database\<close>

definition demo_fingerprint :: string where
  "demo_fingerprint = replicate 32 (CHR ''f'')"

definition demo_connection :: connection_row where
  "demo_connection = \<lparr> cn_name = ''phone'', cn_state = ConnectionStateConnected,
     cn_fingerprint = Some demo_fingerprint, cn_reauth_event = None, cn_pairing_prior = None,
     cn_pairing_attempt = None, cn_pairing_started = None, cn_suspend_prior = None, cn_updated = 0 \<rparr>"

definition demo_lease :: lease_row where
  "demo_lease = \<lparr> ls_owner = Some ''replica-a'', ls_token = 4, ls_expires = 1000, ls_updated = 0 \<rparr>"

definition demo_session :: Envelope where
  "demo_session = \<lparr> env_Revision = 3, env_Version = 1, env_Provider = ''gmessages'',
     env_Ciphertext = replicate 20 (CHR ''c''), env_WrappedDEK = ''k'', env_Nonce = replicate 12 (CHR ''n''),
     env_KeyID = ''key'', env_KeyVersion = 1 \<rparr>"

definition demo_db :: gateway_db where
  "demo_db = \<lparr> db_tenants = [''t1'' \<mapsto> \<lparr> tn_name = ''one'', tn_status = ''active'', tn_max_connections = 4 \<rparr>],
     db_connections = [(''t1'', ''c1'') \<mapsto> demo_connection,
       (''t1'', ''c2'') \<mapsto> demo_connection \<lparr> cn_state := ConnectionStateUnpaired, cn_fingerprint := None \<rparr>],
     db_sessions = [(''t1'', ''c1'') \<mapsto> demo_session],
     db_leases = [(''t1'', ''c1'') \<mapsto> demo_lease], db_health = Map.empty, db_lines = Map.empty,
     db_events = Map.empty, db_outbox = [], db_admin_events = Map.empty \<rparr>"

lemmas demo_db_defs = demo_db_def demo_connection_def demo_lease_def demo_fingerprint_def demo_session_def

lemma demo_connection_ok:
  "connection_row_ok demo_connection"
  "connection_row_ok (demo_connection \<lparr> cn_state := ConnectionStateUnpaired, cn_fingerprint := None \<rparr>)"
  by (simp_all add: demo_connection_def demo_fingerprint_def row_check_defs)

definition demo_line :: LineRecord where
  "demo_line = \<lparr> lrec_Line = \<lparr> line_ID = ''l1'', line_TenantID = ''t1'', line_ConnectionID = ''c1'',
       line_ProviderParticipantID = ''p'', line_ProviderOutgoingID = ''o'', line_DisplayName = ''SIM 1'' \<rparr>,
     lrec_Phone = \<lparr> phone_value = ''+14155550100'' \<rparr>, lrec_CarrierName = ''carrier'', lrec_ColorHex = '''',
     lrec_RCSEnabled = True, lrec_ProviderSIMNumber = 1, lrec_ProviderSIMPayloadType = 0,
     lrec_DiscoverySource = ''authenticated_google_settings'' \<rparr>"

lemma demo_line_valid: "validateLineReplacement ''t1'' ''c1'' [demo_line] = None"
  by code_simp

lemma demo_replace: "\<exists>db'. ReplaceLinesFenced NoFault 10 ''t1'' ''c1'' ''replica-a'' 4 [demo_line] demo_db = (None, db')"
  using demo_line_valid
  by (simp add: ReplaceLinesFenced_def inTenantExec_def owned_lease_def demo_db_defs replaceLineRows_def)

theorem ReplaceLinesFenced_exact_witness:
  "\<exists>db'. ReplaceLinesFenced NoFault 10 ''t1'' ''c1'' ''replica-a'' 4 [demo_line] demo_db = (None, db')
     \<and> active_lines db' ''t1'' ''c1'' = {''l1''}"
proof -
  obtain db' where r: "ReplaceLinesFenced NoFault 10 ''t1'' ''c1'' ''replica-a'' 4 [demo_line] demo_db = (None, db')"
    using demo_replace by blast
  from ReplaceLinesFenced_exact [OF r] have "active_lines db' ''t1'' ''c1'' = {''l1''}"
    by (simp add: demo_line_def)
  with r show ?thesis by blast
qed

section \<open>One pairing attempt owns a connection\<close>

lemma put_connection_Inr [simp]:
  "put_connection k r db = Inr db' \<longleftrightarrow>
   connection_row_ok r \<and> db' = db \<lparr> db_connections := (db_connections db)(k \<mapsto> r) \<rparr>"
  by (auto simp: put_connection_def)

lemma put_fingerprint_Inr [simp]:
  "put_fingerprint k r db = Inr db' \<longleftrightarrow> connection_row_ok r \<and> \<not> fingerprint_taken k (cn_fingerprint r) db
     \<and> db' = db \<lparr> db_connections := (db_connections db)(k \<mapsto> r) \<rparr>"
  by (auto simp: put_fingerprint_def)

lemma BeginPairing_owner:
  assumes "BeginPairing f now t c b ttl db = (Inr prior, db')"
  obtains r where "db_connections db' (t, c) = Some r" "cn_state r = ConnectionStatePairing"
    "cn_pairing_attempt r = Some b" "cn_pairing_prior r = Some prior" "t \<noteq> ''''" "c \<noteq> ''''"
proof -
  have "t \<noteq> ''''" "c \<noteq> ''''" using assms by (auto simp: BeginPairing_def Let_def split: if_splits)
  moreover from assms obtain r0 r where "beginPairingSQL now ttl b r0 = Some r"
    "put_connection (t, c) r db = Inr db'" "cn_pairing_prior r = Some prior"
    by (auto simp: BeginPairing_def Let_def split: if_splits option.splits sum.splits dest!: inTenant_value)
  ultimately show ?thesis
    using that [of r] by (auto simp: beginPairingSQL_def split: if_splits)
qed

lemma CommitPairedSession_owner:
  assumes "db_connections db (t, c) = Some r" "cn_pairing_attempt r \<noteq> Some a"
    "CommitPairedSession f now t c a e fp db = (res, db')"
  shows "db' = db \<and> res \<noteq> None"
  using assms
  by (auto simp: CommitPairedSession_def inTenantExec_def inTenant_def Let_def upsert_session_def
      split: if_splits fault.splits option.splits sum.splits prod.splits)

lemma RestorePairing_owner:
  assumes "db_connections db (t, c) = Some r" "cn_pairing_attempt r \<noteq> Some a"
    "RestorePairing f now t c a db = (res, db')"
  shows "db' = db \<and> (\<exists>x. res = Inl x)"
  using assms
  by (auto simp: RestorePairing_def inTenant_def Let_def
      split: if_splits fault.splits option.splits sum.splits prod.splits)

text \<open>
  C28. A superseded pairing attempt is powerless: once \<^verbatim>\<open>BeginPairing\<close> has recorded attempt \<open>b\<close>,
  committing or restoring with any other attempt fails and changes nothing, under every fault.
\<close>

theorem pairing_superseded:
  assumes "BeginPairing f now t c b ttl db = (Inr prior, db')" "a \<noteq> b"
    "CommitPairedSession f' now' t c a e fp db' = (res, db'')"
    "RestorePairing f'' now'' t c a db' = (res', db''')"
  shows "db'' = db' \<and> res \<noteq> None \<and> db''' = db' \<and> (\<exists>x. res' = Inl x)"
proof -
  obtain r where "db_connections db' (t, c) = Some r" "cn_pairing_attempt r = Some b"
    using assms(1) by (rule BeginPairing_owner)
  with assms(2) CommitPairedSession_owner [OF _ _ assms(3)] RestorePairing_owner [OF _ _ assms(4)]
  show ?thesis by auto
qed

lemma demo_begin: "\<exists>db'. BeginPairing NoFault 5 ''t1'' ''c2'' ''attempt-1'' (5 * minute) demo_db
    = (Inr ConnectionStateUnpaired, db')"
proof -
  have "ValidPairingID ''attempt-1''" by code_simp
  then show ?thesis
    by (simp add: BeginPairing_def demo_db_defs ValidAttemptTTL_def beginPairingSQL_def put_connection_def row_check_defs)
qed

theorem pairing_superseded_witness:
  "\<exists>db'. BeginPairing NoFault 5 ''t1'' ''c2'' ''attempt-1'' (5 * minute) demo_db = (Inr ConnectionStateUnpaired, db')
     \<and> fst (CommitPairedSession NoFault 6 ''t1'' ''c2'' ''attempt-0'' demo_session demo_fingerprint db') \<noteq> None"
proof -
  obtain db' where b: "BeginPairing NoFault 5 ''t1'' ''c2'' ''attempt-1'' (5 * minute) demo_db = (Inr ConnectionStateUnpaired, db')"
    using demo_begin by blast
  obtain res db'' where c: "CommitPairedSession NoFault 6 ''t1'' ''c2'' ''attempt-0'' demo_session demo_fingerprint db' = (res, db'')"
    by fastforce
  obtain res' db''' where r: "RestorePairing NoFault 6 ''t1'' ''c2'' ''attempt-0'' db' = (res', db''')"
    by fastforce
  show ?thesis using b c pairing_superseded [OF b _ c r] by simp
qed

lemma CommitPairedSession_ok:
  assumes "CommitPairedSession f now t c a e fp db = (None, db')"
  obtains r where "db_connections db (t, c) = Some r" "cn_state r = ConnectionStatePairing"
    "cn_pairing_attempt r = Some a" "length fp = 32" "Envelope_Validate e = None" "\<not> fingerprint_taken (t, c) (Some fp) db"
    "db' = db \<lparr> db_sessions := (db_sessions db)((t, c) \<mapsto> e \<lparr> env_Revision :=
              (case db_sessions db (t, c) of None \<Rightarrow> 1 | Some old \<Rightarrow> env_Revision old + 1) \<rparr>),
            db_connections := (db_connections db)((t, c) \<mapsto> (clear_pairing now ConnectionStateConnected r)
                              \<lparr> cn_fingerprint := Some fp, cn_reauth_event := None \<rparr>) \<rparr>"
  using assms
  by (auto simp: CommitPairedSession_def Let_def upsert_session_def fingerprint_taken_def
      split: if_splits option.splits sum.splits dest!: inTenantExec_ok)

lemma CommitPairedSession_error:
  assumes "CommitPairedSession f now t c a e fp db = (Some x, db')" "acknowledged f"
  shows "db' = db"
  using assms
  by (auto simp: acknowledged_def CommitPairedSession_def inTenantExec_def inTenant_def Let_def
      split: if_splits fault.splits option.splits sum.splits prod.splits)

text \<open>
  C29. Completing a pairing is atomic: on success the attempt owned the connection, the session row
  holds the new envelope at the next revision, and the connection is connected with the exact
  fingerprint, which no other connection of the tenant has, and no pairing or reauthorisation
  leftovers; on an error whose commit was not lost nothing changed.
\<close>

theorem CommitPairedSession_atomic:
  assumes "CommitPairedSession f now t c a e fp db = (res, db')" "acknowledged f"
  shows "(res \<noteq> None \<longrightarrow> db' = db) \<and>
    (res = None \<longrightarrow> (\<exists>r r' e'. db_connections db (t, c) = Some r \<and> cn_state r = ConnectionStatePairing
        \<and> cn_pairing_attempt r = Some a \<and> \<not> fingerprint_taken (t, c) (Some fp) db
        \<and> db_connections db' (t, c) = Some r' \<and> cn_state r' = ConnectionStateConnected
        \<and> cn_fingerprint r' = Some fp \<and> cn_pairing_attempt r' = None \<and> cn_reauth_event r' = None
        \<and> db_sessions db' (t, c) = Some e' \<and> env_Ciphertext e' = env_Ciphertext e
        \<and> env_Revision e' = (case db_sessions db (t, c) of None \<Rightarrow> 1 | Some old \<Rightarrow> env_Revision old + 1)))"
proof (cases res)
  case None
  with assms(1) have "CommitPairedSession f now t c a e fp db = (None, db')" by simp
  then show ?thesis
    using None by (rule_tac CommitPairedSession_ok) (auto simp: clear_pairing_def)
next
  case (Some x)
  with assms show ?thesis using CommitPairedSession_error by auto
qed

definition demo_pairing_db :: gateway_db where
  "demo_pairing_db = demo_db \<lparr> db_connections := (db_connections demo_db)((''t1'', ''c2'') \<mapsto>
     demo_connection \<lparr> cn_state := ConnectionStatePairing, cn_fingerprint := None,
       cn_pairing_prior := Some ConnectionStateUnpaired, cn_pairing_attempt := Some ''attempt-1'',
       cn_pairing_started := Some 5 \<rparr>) \<rparr>"

definition demo_device :: string where
  "demo_device = replicate 32 (CHR ''g'')"

lemma demo_commit:
  "\<exists>db'. CommitPairedSession NoFault 6 ''t1'' ''c2'' ''attempt-1'' demo_session demo_device demo_pairing_db = (None, db')"
proof -
  have v: "ValidPairingID ''attempt-1''" by code_simp
  then show ?thesis
    by (simp add: CommitPairedSession_def Let_def demo_pairing_db_def demo_db_defs Envelope_Validate_def inTenantExec_def
        upsert_session_def clear_pairing_def put_fingerprint_def fingerprint_taken_def put_connection_def row_check_defs demo_device_def)
qed

theorem CommitPairedSession_atomic_witness:
  "\<exists>db' r'. CommitPairedSession NoFault 6 ''t1'' ''c2'' ''attempt-1'' demo_session demo_device demo_pairing_db = (None, db')
     \<and> db_connections db' (''t1'', ''c2'') = Some r' \<and> cn_state r' = ConnectionStateConnected"
proof -
  obtain db' where c: "CommitPairedSession NoFault 6 ''t1'' ''c2'' ''attempt-1'' demo_session demo_device demo_pairing_db = (None, db')"
    using demo_commit by blast
  have "acknowledged NoFault" by (simp add: acknowledged_def)
  from c CommitPairedSession_atomic [OF c this] show ?thesis by blast
qed

section \<open>Reauthorisation notifies once and fences the actor\<close>

lemma ensure_event_simps [simp]:
  "db_connections (ensure_event k r db) = db_connections db" "db_leases (ensure_event k r db) = db_leases db"
  "db_outbox (ensure_event k r db) = db_outbox db"
  "outbox_of (ensure_event k r db) = outbox_of db"
  "db_events (ensure_event k r db) k \<noteq> None"
  "db_events db k \<noteq> None \<Longrightarrow> ensure_event k r db = db"
  by (auto simp: ensure_event_def outbox_of_def fun_eq_iff)

lemma ensure_outbox_ok:
  assumes "ensure_outbox now t e d db = Inr db'"
  shows "(\<exists>rows. db' = db \<lparr> db_outbox := db_outbox db @ rows \<rparr>) \<and> outbox_of db' t e d \<noteq> None
    \<and> (outbox_of db t' e' d' \<noteq> None \<longrightarrow> outbox_of db' t' e' d' \<noteq> None)
    \<and> (outbox_of db t e d \<noteq> None \<longrightarrow> db' = db)"
proof (cases "outbox_of db t e d")
  case None
  then have db': "db' = db \<lparr> db_outbox := db_outbox db @ [new_outbox now t (e @ '':'' @ d) e d] \<rparr>"
    using assms by (simp add: ensure_outbox_def insert_outbox_Inr)
  show ?thesis by (rule conjI [OF exI [where x = "[new_outbox now t (e @ '':'' @ d) e d]"]])
      (auto simp: db' outbox_of_add None split: option.splits)
next
  case (Some r)
  then have "db' = db" using assms by (simp add: ensure_outbox_def)
  then show ?thesis using Some by (auto intro!: exI [where x = "[]"])
qed

definition reauth_event_stored :: "'z gateway_db_scheme \<Rightarrow> tenant_id \<Rightarrow> string \<Rightarrow> bool" where
  "reauth_event_stored db t eventID =
     (db_events db (t, eventID) \<noteq> None \<and> outbox_of db t eventID ''webhook'' \<noteq> None
      \<and> outbox_of db t eventID ''kafka'' \<noteq> None)"

lemma reauth_event_stored_cong:
  "db_events db' = db_events db \<Longrightarrow> db_outbox db' = db_outbox db \<Longrightarrow> reauth_event_stored db' t e = reauth_event_stored db t e"
  by (simp add: reauth_event_stored_def outbox_of_def)

lemma insertReauthorizationEvent_ok:
  assumes "insertReauthorizationEvent enc now wall t c eventID db = Inr db'"
  shows "db_connections db' = db_connections db \<and> db_leases db' = db_leases db
    \<and> db_sessions db' = db_sessions db \<and> db_health db' = db_health db
    \<and> reauth_event_stored db' t eventID \<and> (reauth_event_stored db t eventID \<longrightarrow> db' = db)"
proof -
  obtain row db1 where w: "ensure_outbox now t eventID ''webhook'' (ensure_event (t, eventID) row db) = Inr db1"
    and k: "ensure_outbox now t eventID ''kafka'' db1 = Inr db'"
    using assms by (auto simp: insertReauthorizationEvent_def Let_def bind_res_Inr split: sum.splits option.splits if_splits)
  note w = ensure_outbox_ok [OF w, of t eventID "''kafka''"] and k = ensure_outbox_ok [OF k, of t eventID "''webhook''"]
  obtain rows where rows: "db' = ensure_event (t, eventID) row db \<lparr> db_outbox := db_outbox db @ rows \<rparr>"
    using w k by auto
  have "reauth_event_stored db t eventID \<longrightarrow> db' = db"
    using w k unfolding reauth_event_stored_def by (metis ensure_event_simps(6))
  moreover have "reauth_event_stored db' t eventID"
    unfolding reauth_event_stored_def
  proof (intro conjI)
    show "db_events db' (t, eventID) \<noteq> None" unfolding rows using ensure_event_simps(5) by simp
  qed (use w k in blast)+
  ultimately show ?thesis unfolding rows by (simp add: ensure_event_def)
qed

lemma fence_owned_unowned: "\<not> owned_lease (fence_owned now k db) k owner tok now'"
  by (auto simp: fence_owned_def owned_lease_def fence_lease_def split: option.splits)

lemma fence_owned_simps [simp]:
  "db_connections (fence_owned now k db) = db_connections db" "db_events (fence_owned now k db) = db_events db"
  "db_outbox (fence_owned now k db) = db_outbox db" "outbox_of (fence_owned now k db) = outbox_of db"
  by (auto simp: fence_owned_def outbox_of_def fun_eq_iff split: option.splits)

lemma owned_lease_cong:
  "db_connections db' = db_connections db \<Longrightarrow> db_leases db' = db_leases db
   \<Longrightarrow> owned_lease db' k owner tok now = owned_lease db k owner tok now"
  by (simp add: owned_lease_def)

lemma MarkReauthorizationRequired_shape:
  assumes "MarkReauthorizationRequired enc f now wall newID t c db = (Inr tr, db')"
  obtains r db1 where "db_connections db (t, c) = Some r"
    "insertReauthorizationEvent enc now wall t c (at_EventID tr) (fence_owned now (t, c) db1) = Inr db'"
    "db1 = (if at_Transitioned tr then db \<lparr> db_connections := (db_connections db)((t, c) \<mapsto>
              r \<lparr> cn_state := ConnectionStateReauthorizationRequired, cn_reauth_event := Some newID, cn_updated := now \<rparr>) \<rparr>
            else db)"
    "if at_Transitioned tr then at_EventID tr = newID \<and> newID \<noteq> ''''
        \<and> \<not> (cn_state r = ConnectionStateReauthorizationRequired \<and> (\<exists>e. cn_reauth_event r = Some e \<and> e \<noteq> ''''))
     else cn_state r = ConnectionStateReauthorizationRequired \<and> cn_reauth_event r = Some (at_EventID tr)
        \<and> at_EventID tr \<noteq> ''''"
  using assms
  by (fastforce simp: MarkReauthorizationRequired_def Let_def bind_res_Inr
      split: if_splits option.splits sum.splits dest!: inTenant_value)

lemma MarkReauthorizationRequired_result:
  assumes "MarkReauthorizationRequired enc f now wall newID t c db = (Inr tr, db')"
  obtains r where "db_connections db' (t, c) = Some r" "cn_state r = ConnectionStateReauthorizationRequired"
    "cn_reauth_event r = Some (at_EventID tr)" "at_EventID tr \<noteq> ''''"
    "reauth_event_stored db' t (at_EventID tr)" "\<And>owner tok now'. \<not> owned_lease db' (t, c) owner tok now'"
proof -
  obtain r db1 where s: "db_connections db (t, c) = Some r"
    "insertReauthorizationEvent enc now wall t c (at_EventID tr) (fence_owned now (t, c) db1) = Inr db'"
    "db1 = (if at_Transitioned tr then db \<lparr> db_connections := (db_connections db)((t, c) \<mapsto>
              r \<lparr> cn_state := ConnectionStateReauthorizationRequired, cn_reauth_event := Some newID, cn_updated := now \<rparr>) \<rparr>
            else db)"
    "if at_Transitioned tr then at_EventID tr = newID \<and> newID \<noteq> ''''
        \<and> \<not> (cn_state r = ConnectionStateReauthorizationRequired \<and> (\<exists>e. cn_reauth_event r = Some e \<and> e \<noteq> ''''))
     else cn_state r = ConnectionStateReauthorizationRequired \<and> cn_reauth_event r = Some (at_EventID tr)
        \<and> at_EventID tr \<noteq> ''''"
    using assms by (rule MarkReauthorizationRequired_shape)
  note i = insertReauthorizationEvent_ok [OF s(2)]
  have "\<not> owned_lease db' (t, c) owner tok now'" for owner tok now'
    using i fence_owned_unowned [of now "(t, c)" db1] owned_lease_cong [of db' "fence_owned now (t, c) db1"] by simp
  with i s that show ?thesis by (auto split: if_splits)
qed

text \<open>
  C30. Reauthorisation is announced exactly once and takes the connection away from its actor:
  after a successful transition the connection is reauthorisation-required, its event and both
  outbox rows are stored, and no owner with any token holds the lease at any time; a second
  successful call reports the same event, no transition, and adds no event and no outbox row.
\<close>

theorem reauthorization_once:
  assumes "MarkReauthorizationRequired enc f now wall newID t c db = (Inr tr, db')"
    "MarkReauthorizationRequired enc f' now' wall' newID' t c db' = (Inr tr', db'')"
  shows "(\<exists>r. db_connections db' (t, c) = Some r \<and> cn_state r = ConnectionStateReauthorizationRequired)
    \<and> reauth_event_stored db' t (at_EventID tr) \<and> \<not> owned_lease db' (t, c) owner tok later
    \<and> at_EventID tr' = at_EventID tr \<and> \<not> at_Transitioned tr'
    \<and> db_events db'' = db_events db' \<and> db_outbox db'' = db_outbox db'"
proof -
  obtain r where r: "db_connections db' (t, c) = Some r" "cn_state r = ConnectionStateReauthorizationRequired"
    "cn_reauth_event r = Some (at_EventID tr)" "at_EventID tr \<noteq> ''''"
    "reauth_event_stored db' t (at_EventID tr)" "\<And>owner tok now'. \<not> owned_lease db' (t, c) owner tok now'"
    using assms(1) by (rule MarkReauthorizationRequired_result) blast
  obtain r' db1 where s: "db_connections db' (t, c) = Some r'"
    "insertReauthorizationEvent enc now' wall' t c (at_EventID tr') (fence_owned now' (t, c) db1) = Inr db''"
    "db1 = (if at_Transitioned tr' then db' \<lparr> db_connections := (db_connections db')((t, c) \<mapsto>
              r' \<lparr> cn_state := ConnectionStateReauthorizationRequired, cn_reauth_event := Some newID', cn_updated := now' \<rparr>) \<rparr>
            else db')"
    "if at_Transitioned tr' then at_EventID tr' = newID' \<and> newID' \<noteq> ''''
        \<and> \<not> (cn_state r' = ConnectionStateReauthorizationRequired \<and> (\<exists>e. cn_reauth_event r' = Some e \<and> e \<noteq> ''''))
     else cn_state r' = ConnectionStateReauthorizationRequired \<and> cn_reauth_event r' = Some (at_EventID tr')
        \<and> at_EventID tr' \<noteq> ''''"
    using assms(2) by (rule MarkReauthorizationRequired_shape)
  have n: "\<not> at_Transitioned tr'" "at_EventID tr' = at_EventID tr" using r s by (auto split: if_splits)
  with s(3) r(5) have "reauth_event_stored (fence_owned now' (t, c) db1) t (at_EventID tr')"
    by (simp add: reauth_event_stored_def)
  with insertReauthorizationEvent_ok [OF s(2)] have "db'' = fence_owned now' (t, c) db1" by blast
  with n s(3) r show ?thesis by simp
qed

definition demo_codec :: codec where
  "demo_codec = (\<lambda>_. Inr ''body'', \<lambda>_. ''2026-01-01T00:00:00Z'')"

lemma demo_reauth_tokens:
  "validToken ''e1'' 256" "validToken ''connection.reauthorization_required'' 128" "validToken ''t1'' 256"
  "validToken ''c1'' 256" "validOptionalText '''' 1024" "validOptionalText '''' 4194304"
  by code_simp+

lemma demo_mark:
  "MarkReauthorizationRequired demo_codec NoFault 10 20 ''e1'' ''t1'' ''c1'' demo_db
   = (Inr \<lparr> at_Transitioned = True, at_EventID = ''e1'' \<rparr>,
      snd (MarkReauthorizationRequired demo_codec NoFault 10 20 ''e1'' ''t1'' ''c1'' demo_db))"
  "MarkReauthorizationRequired demo_codec NoFault 30 40 ''e2'' ''t1'' ''c1''
      (snd (MarkReauthorizationRequired demo_codec NoFault 10 20 ''e1'' ''t1'' ''c1'' demo_db))
   = (Inr \<lparr> at_Transitioned = False, at_EventID = ''e1'' \<rparr>,
      snd (MarkReauthorizationRequired demo_codec NoFault 30 40 ''e2'' ''t1'' ''c1''
        (snd (MarkReauthorizationRequired demo_codec NoFault 10 20 ''e1'' ''t1'' ''c1'' demo_db))))"
  using demo_reauth_tokens
  by (simp_all add: MarkReauthorizationRequired_def Let_def demo_db_defs reauthorizable_def put_connection_def row_check_defs
      insertReauthorizationEvent_def event_Marshal_def event_canonical_def reauthorization_envelope_def
      event_fields_ok_def event_direction_ok_def event_actionable_ok_def validOptionalToken_def canonical_sender_def
      demo_codec_def fence_owned_def fence_lease_def ensure_event_def ensure_outbox_def
      insert_outbox_def outbox_of_def new_outbox_def)

theorem reauthorization_once_witness:
  "\<not> owned_lease (snd (MarkReauthorizationRequired demo_codec NoFault 10 20 ''e1'' ''t1'' ''c1'' demo_db))
      (''t1'', ''c1'') ''replica-a'' 4 11"
  using reauthorization_once [OF demo_mark] by blast

section \<open>What the fingerprint constraint does not exclude\<close>

lemma unpaired_row_null:
  assumes "connection_row_ok r" "cn_state r = ConnectionStateUnpaired"
  shows "cn_fingerprint r = None"
  using assms by (cases "cn_fingerprint r") (simp_all add: row_check_defs Let_def)

lemma null_fingerprint_accepted:
  assumes "connection_row_ok r" "cn_state r = ConnectionStateUnpaired"
    "to \<in> {ConnectionStateConnected, ConnectionStateDegraded, ConnectionStateDisconnected, ConnectionStateSuspended}"
  shows "connection_row_ok (r \<lparr> cn_state := to, cn_updated := now \<rparr>)"
proof -
  have n: "cn_suspend_prior r = None" "cn_pairing_attempt r = None" "cn_pairing_prior r = None" "cn_pairing_started r = None"
    using assms(1,2) by (simp_all add: connection_row_ok_def connections_tenant_suspension_state_def connections_pairing_metadata_required_def
        check_ok_def tri_and_def tri_or_def split: if_splits)
  show ?thesis
    using assms(3) unfolding insert_iff empty_iff
    by (elim disjE) (simp_all add: n unpaired_row_null [OF assms(1,2)] row_check_defs)
qed

text \<open>
  C40. A connection that was never paired can be stored as connected. \<^verbatim>\<open>SaveConnection\<close> refuses a
  paired state without a device fingerprint, and the fingerprint constraint of the table is meant to;
  but the length of a NULL fingerprint is NULL, and a CHECK accepts a NULL condition. So
  \<^verbatim>\<open>TransitionConnection\<close>, which does not look at the fingerprint, succeeds on every unpaired row and
  leaves it in the paired state without a fingerprint.
\<close>

theorem transition_bypasses_fingerprint:
  assumes "db_connections db (t, c) = Some r" "connection_row_ok r" "cn_state r = ConnectionStateUnpaired"
    "to \<in> {ConnectionStateConnected, ConnectionStateDegraded, ConnectionStateDisconnected, ConnectionStateSuspended}"
    "t \<noteq> ''''" "c \<noteq> ''''"
  shows "(\<exists>db' r'. TransitionConnection NoFault now t c [ConnectionStateUnpaired] to db = (None, db')
        \<and> db_connections db' (t, c) = Some r' \<and> cn_state r' = to \<and> cn_fingerprint r' = None)
    \<and> SaveConnection f now t \<lparr> connection_ID = c, connection_TenantID = t, connection_Name = name, connection_State = to \<rparr> '''' db
        = (Some (Sentinel (Postgres ErrInvalidFingerprint)), db)"
proof
  let ?r = "r \<lparr> cn_state := to, cn_updated := now \<rparr>"
  have "TransitionConnection NoFault now t c [ConnectionStateUnpaired] to db
      = (None, db \<lparr> db_connections := (db_connections db)((t, c) \<mapsto> ?r) \<rparr>)"
    using assms null_fingerprint_accepted [OF assms(2-4), of now]
    by (auto simp: TransitionConnection_def ConnectionState_Validate_def inTenantExec_def put_connection_def)
  then show "\<exists>db' r'. TransitionConnection NoFault now t c [ConnectionStateUnpaired] to db = (None, db')
        \<and> db_connections db' (t, c) = Some r' \<and> cn_state r' = to \<and> cn_fingerprint r' = None"
    using unpaired_row_null [OF assms(2,3)] by simp
  show "SaveConnection f now t \<lparr> connection_ID = c, connection_TenantID = t, connection_Name = name, connection_State = to \<rparr> '''' db
      = (Some (Sentinel (Postgres ErrInvalidFingerprint)), db)"
    using assms(4-6) by (auto simp: SaveConnection_def ConnectionState_Validate_def validFingerprintForState_def)
qed

theorem transition_bypasses_fingerprint_witness:
  "\<exists>db' r. TransitionConnection NoFault 3 ''t1'' ''c2'' [ConnectionStateUnpaired] ConnectionStateConnected demo_db = (None, db')
     \<and> db_connections db' (''t1'', ''c2'') = Some r \<and> cn_state r = ConnectionStateConnected \<and> cn_fingerprint r = None"
  using transition_bypasses_fingerprint [of demo_db "''t1''" "''c2''" "demo_connection \<lparr> cn_state := ConnectionStateUnpaired, cn_fingerprint := None \<rparr>"
      ConnectionStateConnected 3] demo_connection_ok(2)
  by (simp add: demo_db_def)

end
