(* ===== verification/Tenant_Admin.thy ===== *)
theory Tenant_Admin
  imports Connection_Store
begin

text \<open>
  Tenant administration (\<^verbatim>\<open>store/postgres/tenant_admin.go\<close>): provisioning, and suspension of a tenant
  with all its connections and their leases. The administrator opens its own transaction, so the
  errors are its own; \<open>fault\<close> has the same meaning as for the repository.
\<close>

section \<open>Input validation\<close>

definition admin_id_head :: "char \<Rightarrow> bool" where
  "admin_id_head c = ((byte_of CHR ''a'' \<le> byte_of c \<and> byte_of c \<le> byte_of CHR ''z'') \<or> is_digit c)"

definition tenantAdminIDPattern :: "string \<Rightarrow> bool" where
  "tenantAdminIDPattern s =
     (case s of [] \<Rightarrow> False
      | c # cs \<Rightarrow> admin_id_head c \<and> length cs \<le> 127
          \<and> list_all (\<lambda>d. admin_id_head d \<or> d = CHR ''_'' \<or> d = CHR ''-'') cs)"

definition safeAdminText :: "string \<Rightarrow> nat \<Rightarrow> bool" where
  "safeAdminText v maxBytes =
     (if v = '''' \<or> length v > maxBytes \<or> \<not> valid_utf8 v \<or> TrimSpace v \<noteq> v then False
      else \<not> list_ex (\<lambda>r. unicode_IsControl r \<or> unicode_Cf r) (runes v))"

record TenantAdminInput =
  tai_TenantID :: string
  tai_Name :: string
  tai_MaxConnections :: int
  tai_Actor :: string

definition TenantAdminInput_Validate :: "TenantAdminInput \<Rightarrow> goerror" where
  "TenantAdminInput_Validate i =
     (if \<not> tenantAdminIDPattern (tai_TenantID i) \<or> \<not> safeAdminText (tai_Name i) 256 \<or>
         \<not> safeAdminText (tai_Actor i) 128 \<or> tai_MaxConnections i < 1 \<or> tai_MaxConnections i > 128
      then Some (Sentinel (Postgres ErrInvalidTenantAdminInput)) else None)"

section \<open>Operations\<close>

record TenantOperationalStatus =
  tos_TenantID :: string
  tos_Name :: string
  tos_Status :: string
  tos_MaxConnections :: int
  tos_ConnectionCount :: int

text \<open>The administrator's transaction: a failure of the commit has its own text.\<close>

definition admin_tx ::
  "fault \<Rightarrow> string \<Rightarrow> ('db \<Rightarrow> ('a \<times> 'db) result) \<Rightarrow> 'db \<Rightarrow> 'a result \<times> 'db" where
  "admin_tx f commitText operation db =
     (case f of
        Aborted e \<Rightarrow> (Inl e, db)
      | NoFault \<Rightarrow> (case operation db of Inl e \<Rightarrow> (Inl e, db) | Inr (v, db') \<Rightarrow> (Inr v, db'))
      | CommitLost _ \<Rightarrow> (case operation db of Inl e \<Rightarrow> (Inl e, db) | Inr (v, db') \<Rightarrow> (Inl (Opaque commitText), db')))"

definition admin_audit ::
  "string \<Rightarrow> string \<Rightarrow> tenant_id \<Rightarrow> string \<Rightarrow> string \<Rightarrow> int \<Rightarrow> 'z gateway_db_scheme \<Rightarrow> 'z gateway_db_scheme result" where
  "admin_audit actor eventID tenantID action name quota db =
     (if eventID = '''' then Inl (Opaque ''create tenant audit identity'')
      else if db_admin_events db (tenantID, eventID) \<noteq> None then Inl (Opaque ''record tenant administration audit'')
      else Inr (db \<lparr> db_admin_events := (db_admin_events db)((tenantID, eventID) \<mapsto>
             \<lparr> ae_action = action, ae_actor = actor, ae_name = name, ae_max_connections = quota \<rparr>) \<rparr>))"

definition readTenantOperationalStatus :: "tenant_id \<Rightarrow> 'z gateway_db_scheme \<Rightarrow> TenantOperationalStatus result" where
  "readTenantOperationalStatus tenantID db =
     (case db_tenants db tenantID of
        None \<Rightarrow> Inl (Sentinel (Postgres ErrTenantNotFound))
      | Some tn \<Rightarrow> Inr \<lparr> tos_TenantID = tenantID, tos_Name = tn_name tn, tos_Status = tn_status tn,
                         tos_MaxConnections = tn_max_connections tn,
                         tos_ConnectionCount = tenant_connections db tenantID \<rparr>)"

definition Provision ::
  "fault \<Rightarrow> string \<Rightarrow> string \<Rightarrow> TenantAdminInput \<Rightarrow> 'z gateway_db_scheme
   \<Rightarrow> TenantOperationalStatus result \<times> 'z gateway_db_scheme" where
  "Provision f actor eventID input db =
     (let i = input \<lparr> tai_Actor := actor \<rparr>; t = tai_TenantID i in
      case TenantAdminInput_Validate i of
        Some e \<Rightarrow> (Inl e, db)
      | None \<Rightarrow> admin_tx f ''commit tenant provision'' (\<lambda>db.
          let (action, db1) =
            (case db_tenants db t of
               None \<Rightarrow> (''provision'', db \<lparr> db_tenants := (db_tenants db)(t \<mapsto>
                         \<lparr> tn_name = tai_Name i, tn_status = ''active'', tn_max_connections = tai_MaxConnections i \<rparr>) \<rparr>)
             | Some tn \<Rightarrow>
                 if tn_name tn \<noteq> tai_Name i \<or> tn_max_connections tn \<noteq> tai_MaxConnections i
                 then (''update'', db \<lparr> db_tenants := (db_tenants db)(t \<mapsto>
                         tn \<lparr> tn_name := tai_Name i, tn_max_connections := tai_MaxConnections i \<rparr>) \<rparr>)
                 else ('''', db))
          in bind_res (if action = '''' then Inr db1
                       else admin_audit actor eventID t action (tai_Name i) (tai_MaxConnections i) db1)
               (\<lambda>db2. bind_res (readTenantOperationalStatus t db2) (\<lambda>s. Inr (s, db2)))) db)"

definition suspendable :: "tenant_id \<Rightarrow> ckey \<Rightarrow> connection_row \<Rightarrow> bool" where
  "suspendable t k r = (fst k = t \<and> cn_suspend_prior r = None
     \<and> cn_state r \<noteq> ConnectionStatePairing \<and> ConnectionState_Validate (cn_state r) = None)"

definition suspend_row :: "instant \<Rightarrow> connection_row \<Rightarrow> connection_row" where
  "suspend_row now r = r \<lparr> cn_suspend_prior := Some (cn_state r), cn_state := ConnectionStateSuspended, cn_updated := now \<rparr>"

definition resumable :: "tenant_id \<Rightarrow> ckey \<Rightarrow> connection_row \<Rightarrow> bool" where
  "resumable t k r = (fst k = t \<and> cn_state r = ConnectionStateSuspended \<and> cn_suspend_prior r \<noteq> None)"

definition resume_row :: "instant \<Rightarrow> connection_row \<Rightarrow> connection_row" where
  "resume_row now r = r \<lparr> cn_state := the (cn_suspend_prior r), cn_suspend_prior := None, cn_updated := now \<rparr>"

definition fence_tenant :: "instant \<Rightarrow> tenant_id \<Rightarrow> 'z gateway_db_scheme \<Rightarrow> 'z gateway_db_scheme" where
  "fence_tenant now t db =
     db \<lparr> db_leases := (\<lambda>k. map_option (\<lambda>l. if fst k = t \<and> ls_owner l \<noteq> None then fence_lease now l else l)
                          (db_leases db k)) \<rparr>"

definition set_tenant_status :: "tenant_id \<Rightarrow> string \<Rightarrow> 'z gateway_db_scheme \<Rightarrow> 'z gateway_db_scheme" where
  "set_tenant_status t st db =
     db \<lparr> db_tenants := (db_tenants db)(t := map_option (\<lambda>tn. tn \<lparr> tn_status := st \<rparr>) (db_tenants db t)) \<rparr>"

definition suspend_tenant :: "instant \<Rightarrow> tenant_id \<Rightarrow> 'z gateway_db_scheme \<Rightarrow> 'z gateway_db_scheme result" where
  "suspend_tenant now t db =
     (if \<exists>c r. db_connections db (t, c) = Some r \<and> cn_state r = ConnectionStatePairing
      then Inl (Sentinel (Postgres ErrTenantPairingActive))
      else case update_connections (suspendable t) (suspend_row now) db of
             Inl _ \<Rightarrow> Inl (Opaque ''suspend tenant connections'')
           | Inr db1 \<Rightarrow> Inr (set_tenant_status t ''suspended'' (fence_tenant now t db1)))"

definition resume_tenant :: "instant \<Rightarrow> tenant_id \<Rightarrow> 'z gateway_db_scheme \<Rightarrow> 'z gateway_db_scheme result" where
  "resume_tenant now t db =
     (case update_connections (resumable t) (resume_row now) db of
        Inl _ \<Rightarrow> Inl (Opaque ''resume tenant connections'')
      | Inr db1 \<Rightarrow> Inr (set_tenant_status t ''active'' db1))"

definition changeSuspension ::
  "fault \<Rightarrow> instant \<Rightarrow> string \<Rightarrow> string \<Rightarrow> tenant_id \<Rightarrow> bool \<Rightarrow> 'z gateway_db_scheme
   \<Rightarrow> TenantOperationalStatus result \<times> 'z gateway_db_scheme" where
  "changeSuspension f now actor eventID tenantID suspend db =
     (if \<not> tenantAdminIDPattern tenantID then (Inl (Sentinel (Postgres ErrInvalidTenantAdminInput)), db)
      else admin_tx f ''commit tenant status change'' (\<lambda>db.
        case db_tenants db tenantID of
          None \<Rightarrow> Inl (Sentinel (Postgres ErrTenantNotFound))
        | Some tn \<Rightarrow>
            bind_res
              (if tn_status tn = (if suspend then ''suspended'' else ''active'') then Inr db
               else bind_res (if suspend then suspend_tenant now tenantID db else resume_tenant now tenantID db)
                      (admin_audit actor eventID tenantID (if suspend then ''suspend'' else ''resume'')
                         (tn_name tn) (tn_max_connections tn)))
              (\<lambda>db1. bind_res (readTenantOperationalStatus tenantID db1) (\<lambda>s. Inr (s, db1)))) db)"

definition TenantAdmin_Status ::
  "fault \<Rightarrow> tenant_id \<Rightarrow> 'z gateway_db_scheme \<Rightarrow> TenantOperationalStatus result \<times> 'z gateway_db_scheme" where
  "TenantAdmin_Status f tenantID db =
     (if \<not> tenantAdminIDPattern tenantID then (Inl (Sentinel (Postgres ErrInvalidTenantAdminInput)), db)
      else admin_tx f ''commit tenant status''
        (\<lambda>db. bind_res (readTenantOperationalStatus tenantID db) (\<lambda>s. Inr (s, db))) db)"

section \<open>Suspension fences and resumption restores\<close>

lemma admin_tx_rel:
  assumes "admin_tx f m operation db = (r, db')" "R db db" "\<And>v db''. operation db = Inr (v, db'') \<Longrightarrow> R db db''"
  shows "R db db'"
  using assms by (auto simp: admin_tx_def split: fault.splits sum.splits)

lemma admin_tx_value: "admin_tx f m operation db = (Inr v, db') \<Longrightarrow> operation db = Inr (v, db')"
  by (auto simp: admin_tx_def split: fault.splits sum.splits)

lemma admin_audit_frame:
  "admin_audit actor e t action name q db = Inr db' \<Longrightarrow> db_connections db' = db_connections db
     \<and> db_leases db' = db_leases db \<and> db_tenants db' = db_tenants db \<and> db_sessions db' = db_sessions db
     \<and> db_health db' = db_health db"
  by (auto simp: admin_audit_def split: if_splits)

lemma update_connections_Inr:
  "update_connections P g db = Inr db' \<Longrightarrow>
   db' = db \<lparr> db_connections := (\<lambda>k. map_option (\<lambda>r. if P k r then g r else r) (db_connections db k)) \<rparr>"
  by (simp add: update_connections_def split: if_splits)

lemma fence_tenant_unowned:
  assumes "fst k = t"
  shows "\<not> owned_lease (fence_tenant now t db) k owner tok now'"
proof (cases "db_leases db k")
  case (Some l)
  with assms show ?thesis by (cases "ls_owner l") (simp_all add: owned_lease_def fence_tenant_def fence_lease_def)
qed (simp add: owned_lease_def fence_tenant_def)

lemma suspend_tenant_shape:
  assumes "suspend_tenant now t db = Inr db'"
  obtains db1 where "db1 = db \<lparr> db_connections := (\<lambda>k. map_option (\<lambda>r. if suspendable t k r then suspend_row now r else r)
        (db_connections db k)) \<rparr>"
    "db' = set_tenant_status t ''suspended'' (fence_tenant now t db1)"
    "\<And>c r. db_connections db (t, c) = Some r \<Longrightarrow> cn_state r \<noteq> ConnectionStatePairing"
  using assms
  by (auto simp: suspend_tenant_def split: if_splits sum.splits dest!: update_connections_Inr)

lemma suspend_tenant_ok:
  assumes "suspend_tenant now t db = Inr db'"
  shows "db_connections db' k = map_option (\<lambda>r. if suspendable t k r then suspend_row now r else r) (db_connections db k)"
    and "fst k = t \<Longrightarrow> \<not> owned_lease db' k owner tok now'"
    and "db_connections db (t, c) = Some r \<Longrightarrow> cn_state r \<noteq> ConnectionStatePairing"
    and "db_tenants db' t = map_option (\<lambda>tn. tn \<lparr> tn_status := ''suspended'' \<rparr>) (db_tenants db t)"
proof -
  obtain db1 where db1: "db1 = db \<lparr> db_connections := (\<lambda>k. map_option (\<lambda>r. if suspendable t k r then suspend_row now r else r)
        (db_connections db k)) \<rparr>"
    and db': "db' = set_tenant_status t ''suspended'' (fence_tenant now t db1)"
    and np: "\<And>c r. db_connections db (t, c) = Some r \<Longrightarrow> cn_state r \<noteq> ConnectionStatePairing"
    using assms by (rule suspend_tenant_shape) blast
  show "db_connections db' k = map_option (\<lambda>r. if suspendable t k r then suspend_row now r else r) (db_connections db k)"
    "db_tenants db' t = map_option (\<lambda>tn. tn \<lparr> tn_status := ''suspended'' \<rparr>) (db_tenants db t)"
    by (simp_all add: db' db1 set_tenant_status_def fence_tenant_def)
  show "db_connections db (t, c) = Some r \<Longrightarrow> cn_state r \<noteq> ConnectionStatePairing" by (rule np)
  show "fst k = t \<Longrightarrow> \<not> owned_lease db' k owner tok now'"
    using fence_tenant_unowned [of k t now db1 owner tok now']
    by (simp add: db' set_tenant_status_def owned_lease_def)
qed

lemma resume_tenant_ok:
  assumes "resume_tenant now t db = Inr db'"
  shows "db_connections db' k = map_option (\<lambda>r. if resumable t k r then resume_row now r else r) (db_connections db k)"
  using assms
  by (auto simp: resume_tenant_def set_tenant_status_def split: sum.splits dest!: update_connections_Inr)

lemma changeSuspension_ok:
  assumes "changeSuspension f now actor eid t suspend db = (Inr s, db')"
  obtains tn where "db_tenants db t = Some tn"
    "tn_status tn = (if suspend then ''suspended'' else ''active'') \<Longrightarrow> db' = db"
    "tn_status tn \<noteq> (if suspend then ''suspended'' else ''active'') \<Longrightarrow>
       \<exists>db1. (if suspend then suspend_tenant now t db else resume_tenant now t db) = Inr db1
         \<and> db_connections db' = db_connections db1 \<and> db_leases db' = db_leases db1 \<and> db_tenants db' = db_tenants db1"
proof -
  obtain tn where tn: "db_tenants db t = Some tn"
    and r: "(if tn_status tn = (if suspend then ''suspended'' else ''active'') then Inr db
       else bind_res (if suspend then suspend_tenant now t db else resume_tenant now t db)
              (admin_audit actor eid t (if suspend then ''suspend'' else ''resume'') (tn_name tn) (tn_max_connections tn)))
       = Inr db'"
    using assms
    by (auto simp: changeSuspension_def bind_res_Inr simp del: if_split split: if_split_asm option.splits dest!: admin_tx_value)
  show ?thesis
  proof (rule that [OF tn])
    show "tn_status tn = (if suspend then ''suspended'' else ''active'') \<Longrightarrow> db' = db" using r by simp
    assume "tn_status tn \<noteq> (if suspend then ''suspended'' else ''active'')"
    with r obtain db1 where "(if suspend then suspend_tenant now t db else resume_tenant now t db) = Inr db1"
      "admin_audit actor eid t (if suspend then ''suspend'' else ''resume'') (tn_name tn) (tn_max_connections tn) db1 = Inr db'"
      by (simp only: if_False bind_res_Inr) blast
    with admin_audit_frame show "\<exists>db1. (if suspend then suspend_tenant now t db else resume_tenant now t db) = Inr db1
         \<and> db_connections db' = db_connections db1 \<and> db_leases db' = db_leases db1 \<and> db_tenants db' = db_tenants db1"
      by blast
  qed
qed

text \<open>
  C35. Suspending a tenant takes every connection away from its actor and resuming gives every
  connection its state back: if an active tenant none of whose connections carries an earlier
  suspension is suspended and later resumed, then in between every connection of the tenant is
  suspended and no lease of the tenant is held by anybody at any time, and afterwards every
  connection has exactly the state it had before.
\<close>

theorem suspension_roundtrip:
  assumes "changeSuspension f now actor eid t True db = (Inr s, db')"
    "changeSuspension f' now' actor' eid' t False db' = (Inr s', db'')"
    "db_tenants db t = Some tn" "tn_status tn = ''active''"
    "db_connections db (t, c) = Some r" "cn_suspend_prior r = None" "ConnectionState_Validate (cn_state r) = None"
  shows "(\<exists>r'. db_connections db' (t, c) = Some r' \<and> cn_state r' = ConnectionStateSuspended)
    \<and> \<not> owned_lease db' (t, c) owner tok later
    \<and> (\<exists>r''. db_connections db'' (t, c) = Some r'' \<and> cn_state r'' = cn_state r \<and> cn_suspend_prior r'' = None)"
proof -
  obtain db1 where s: "suspend_tenant now t db = Inr db1" "db_connections db' = db_connections db1"
    "db_leases db' = db_leases db1" "db_tenants db' = db_tenants db1"
    using assms(1) by (rule changeSuspension_ok) (use assms(3,4) in auto)
  have "db_tenants db' t = Some (tn \<lparr> tn_status := ''suspended'' \<rparr>)"
    using suspend_tenant_ok(4) [OF s(1)] s(4) assms(3) by simp
  then obtain db2 where q: "resume_tenant now' t db' = Inr db2" "db_connections db'' = db_connections db2"
    using assms(2) by (rule_tac changeSuspension_ok) auto
  have np: "suspendable t (t, c) r"
    using suspend_tenant_ok(3) [OF s(1) assms(5)] assms(6,7) by (simp add: suspendable_def)
  have r': "db_connections db' (t, c) = Some (suspend_row now r)"
    using suspend_tenant_ok(1) [OF s(1), of "(t, c)"] s(2) assms(5) np by simp
  moreover have "\<not> owned_lease db' (t, c) owner tok later"
    using suspend_tenant_ok(2) [OF s(1), of "(t, c)"] s by (simp add: owned_lease_def)
  moreover have "db_connections db'' (t, c) = Some (resume_row now' (suspend_row now r))"
    using resume_tenant_ok [OF q(1), of "(t, c)"] q(2) r' by (simp add: resumable_def suspend_row_def)
  ultimately show ?thesis by (simp add: suspend_row_def resume_row_def)
qed

lemma demo_suspend_rows:
  "db_connections demo_db k = Some r \<Longrightarrow> suspendable t k r \<Longrightarrow> connection_row_ok (suspend_row now r)"
  by (auto simp: demo_db_defs suspend_row_def row_check_defs split: if_splits)

lemma resume_suspend_row: "suspendable t k r \<Longrightarrow> resume_row now' (suspend_row now r) = r \<lparr> cn_updated := now' \<rparr>"
  by (cases r) (simp add: suspendable_def suspend_row_def resume_row_def)

lemma connection_row_ok_updated [simp]: "connection_row_ok (r \<lparr> cn_updated := now \<rparr>) = connection_row_ok r"
  by (simp add: row_check_defs)

lemma demo_rows_ok: "db_connections demo_db k = Some r \<Longrightarrow> connection_row_ok r"
  using demo_connection_ok by (auto simp: demo_db_def split: if_splits)

lemma demo_pattern: "tenantAdminIDPattern ''t1''"
  by code_simp

lemma demo_suspend:
  "\<exists>s db'. changeSuspension NoFault 7 ''ops'' ''a1'' ''t1'' True demo_db = (Inr s, db')
     \<and> (\<exists>s' db''. changeSuspension NoFault 9 ''ops'' ''a2'' ''t1'' False db' = (Inr s', db''))"
proof -
  let ?P = "suspendable ''t1''"
  let ?c = "\<lambda>k. map_option (\<lambda>r. if ?P k r then suspend_row 7 r else r) (db_connections demo_db k)"
  define db1 where "db1 = demo_db \<lparr> db_connections := ?c \<rparr>"
  have "update_connections ?P (suspend_row 7) demo_db = Inr db1"
    using demo_suspend_rows by (simp add: update_connections_def db1_def)
  moreover have "\<not> (\<exists>c r. db_connections demo_db (''t1'', c) = Some r \<and> cn_state r = ConnectionStatePairing)"
    by (auto simp: demo_db_defs split: if_splits)
  moreover define db2 where "db2 = set_tenant_status ''t1'' ''suspended'' (fence_tenant 7 ''t1'' db1)"
  ultimately have s: "suspend_tenant 7 ''t1'' demo_db = Inr db2" by (simp add: suspend_tenant_def)
  define db3 where "db3 = db2 \<lparr> db_admin_events := [(''t1'', ''a1'') \<mapsto>
      \<lparr> ae_action = ''suspend'', ae_actor = ''ops'', ae_name = ''one'', ae_max_connections = 4 \<rparr>] \<rparr>"
  have t: "db_tenants db3 ''t1'' = Some \<lparr> tn_name = ''one'', tn_status = ''suspended'', tn_max_connections = 4 \<rparr>"
    and a: "db_admin_events db2 = Map.empty"
    by (simp_all add: db3_def db2_def db1_def set_tenant_status_def fence_tenant_def demo_db_def)
  have one: "\<exists>s. changeSuspension NoFault 7 ''ops'' ''a1'' ''t1'' True demo_db = (Inr s, db3)"
    using demo_pattern s t a
    by (simp add: changeSuspension_def admin_tx_def demo_db_def admin_audit_def readTenantOperationalStatus_def db3_def)
  have c3: "db_connections db3 = ?c"
    by (simp add: db3_def db2_def db1_def set_tenant_status_def fence_tenant_def)
  have "connection_row_ok (resume_row 9 r)" if k: "db_connections db3 k = Some r" and q: "resumable ''t1'' k r" for k r
  proof -
    obtain r0 where r0: "db_connections demo_db k = Some r0" "r = (if ?P k r0 then suspend_row 7 r0 else r0)"
      using k by (auto simp: c3)
    have "?P k r0"
    proof (rule ccontr)
      assume "\<not> ?P k r0"
      with r0 q show False by (auto simp: demo_db_defs resumable_def split: if_splits)
    qed
    with r0 show ?thesis using demo_rows_ok by (simp add: resume_suspend_row)
  qed
  then have "\<exists>db4. resume_tenant 9 ''t1'' db3 = Inr (set_tenant_status ''t1'' ''active'' db4)
      \<and> db_admin_events db4 = db_admin_events db3 \<and> db_tenants db4 = db_tenants db3"
    by (auto simp: resume_tenant_def update_connections_def)
  then have "\<exists>s' db''. changeSuspension NoFault 9 ''ops'' ''a2'' ''t1'' False db3 = (Inr s', db'')"
    using demo_pattern t
    by (auto simp: changeSuspension_def admin_tx_def admin_audit_def readTenantOperationalStatus_def
        set_tenant_status_def db3_def)
  with one show ?thesis by blast
qed

theorem suspension_roundtrip_witness:
  "\<exists>s s' db' db'' r''. changeSuspension NoFault 7 ''ops'' ''a1'' ''t1'' True demo_db = (Inr s, db')
     \<and> changeSuspension NoFault 9 ''ops'' ''a2'' ''t1'' False db' = (Inr s', db'')
     \<and> \<not> owned_lease db' (''t1'', ''c1'') ''replica-a'' 4 8
     \<and> db_connections db'' (''t1'', ''c1'') = Some r'' \<and> cn_state r'' = ConnectionStateConnected"
proof -
  obtain s s' db' db'' where a: "changeSuspension NoFault 7 ''ops'' ''a1'' ''t1'' True demo_db = (Inr s, db')"
    and b: "changeSuspension NoFault 9 ''ops'' ''a2'' ''t1'' False db' = (Inr s', db'')"
    using demo_suspend by blast
  have r: "db_connections demo_db (''t1'', ''c1'') = Some demo_connection" by (simp add: demo_db_def)
  have t: "db_tenants demo_db ''t1'' = Some \<lparr> tn_name = ''one'', tn_status = ''active'', tn_max_connections = 4 \<rparr>"
    by (simp add: demo_db_def)
  have st: "cn_state demo_connection = ConnectionStateConnected" "cn_suspend_prior demo_connection = None"
    by (simp_all add: demo_connection_def)
  have "\<not> owned_lease db' (''t1'', ''c1'') ''replica-a'' 4 8 \<and>
      (\<exists>r''. db_connections db'' (''t1'', ''c1'') = Some r'' \<and> cn_state r'' = ConnectionStateConnected)"
    using suspension_roundtrip [OF a b t _ r st(2), of "''replica-a''" 4 8] by (simp add: st ConnectionState_Validate_def) blast
  with a b show ?thesis by blast
qed

end
