(* ===== verification/Lease_Store.thy ===== *)
theory Lease_Store
  imports Tenant_Admin
begin

text \<open>
  Connection leases, actor health and the fenced session write of the PostgreSQL repository
  (\<^verbatim>\<open>store/postgres/connection_actor.go\<close>), with the other statements that write lease rows:
  the reauthorisation fence, tenant suspension, and the lease extension of an acknowledgement
  batch (\<^verbatim>\<open>coordinateProviderACKBatchSQL\<close> in \<^verbatim>\<open>messages.go\<close>). The step relation at the end lists
  every writer; the fencing theorems hold along all its runs, whatever the clock readings are.
\<close>

section \<open>Leases\<close>

record ConnectionLease =
  cl_OwnerID :: owner_id
  cl_FencingToken :: token
  cl_ExpiresAt :: instant

definition minimumLeaseTTL :: duration where "minimumLeaseTTL = second"
definition maximumLeaseTTL :: duration where "maximumLeaseTTL = 10 * minute"

definition validLeaseInput :: "tenant_id \<Rightarrow> connection_id \<Rightarrow> owner_id \<Rightarrow> duration \<Rightarrow> bool" where
  "validLeaseInput tenantID connectionID ownerID ttl =
     (tenantID \<noteq> '''' \<and> connectionID \<noteq> '''' \<and> length ownerID > 0 \<and> length ownerID \<le> 256
      \<and> ttl \<ge> minimumLeaseTTL \<and> ttl \<le> maximumLeaseTTL)"

text \<open>
  The upsert of \<^verbatim>\<open>acquireConnectionLeaseSQL\<close>: \<open>Inr None\<close> when the WHERE clause of the conflict
  branch excludes the row. Comparing with a NULL owner is never true.
\<close>

definition acquireConnectionLeaseSQL ::
  "instant \<Rightarrow> ckey \<Rightarrow> owner_id \<Rightarrow> int \<Rightarrow> 'z gateway_db_scheme \<Rightarrow> (lease_row option \<times> 'z gateway_db_scheme) result" where
  "acquireConnectionLeaseSQL now k ownerID us db =
     (case db_leases db k of
        None \<Rightarrow>
          if db_connections db k = None then Inl fk_violation
          else let l = \<lparr> ls_owner = Some ownerID, ls_token = 1, ls_expires = now + us, ls_updated = now \<rparr>
               in Inr (Some l, db \<lparr> db_leases := (db_leases db)(k \<mapsto> l) \<rparr>)
      | Some old \<Rightarrow>
          if ls_owner old = Some ownerID \<or> ls_expires old \<le> now
          then let l = \<lparr> ls_owner = Some ownerID,
                     ls_token = (if ls_owner old = Some ownerID \<and> ls_expires old > now then ls_token old
                                 else ls_token old + 1),
                     ls_expires = now + us, ls_updated = now \<rparr>
               in Inr (Some l, db \<lparr> db_leases := (db_leases db)(k \<mapsto> l) \<rparr>)
          else Inr (None, db))"

definition AcquireConnectionLease ::
  "fault \<Rightarrow> instant \<Rightarrow> tenant_id \<Rightarrow> connection_id \<Rightarrow> owner_id \<Rightarrow> duration
   \<Rightarrow> 'z gateway_db_scheme \<Rightarrow> ConnectionLease option result \<times> 'z gateway_db_scheme" where
  "AcquireConnectionLease f now tenantID connectionID ownerID ttl db =
     (if \<not> validLeaseInput tenantID connectionID ownerID ttl then (Inl (Sentinel ErrInvalidLease), db)
      else inTenant f tenantID (\<lambda>db.
        case acquireConnectionLeaseSQL now (tenantID, connectionID) ownerID (micros ttl) db of
          Inl e \<Rightarrow> Inl (Wrap ''acquire connection lease'' e)
        | Inr (None, db') \<Rightarrow> Inr (None, db')
        | Inr (Some l, db') \<Rightarrow>
            Inr (Some \<lparr> cl_OwnerID = ownerID, cl_FencingToken = ls_token l, cl_ExpiresAt = ls_expires l \<rparr>, db')) db)"

text \<open>The WHERE clause of the renewal and the release.\<close>

definition lease_held :: "instant \<Rightarrow> ckey \<Rightarrow> owner_id \<Rightarrow> token \<Rightarrow> 'z gateway_db_scheme \<Rightarrow> lease_row option" where
  "lease_held now k ownerID tok db =
     (case db_leases db k of
        None \<Rightarrow> None
      | Some l \<Rightarrow> if ls_owner l = Some ownerID \<and> ls_token l = tok \<and> ls_expires l > now then Some l else None)"

definition RenewConnectionLease ::
  "fault \<Rightarrow> instant \<Rightarrow> tenant_id \<Rightarrow> connection_id \<Rightarrow> owner_id \<Rightarrow> token \<Rightarrow> duration
   \<Rightarrow> 'z gateway_db_scheme \<Rightarrow> bool result \<times> 'z gateway_db_scheme" where
  "RenewConnectionLease f now tenantID connectionID ownerID fencingToken ttl db =
     (let k = (tenantID, connectionID) in
      if \<not> validLeaseInput tenantID connectionID ownerID ttl \<or> fencingToken = 0
      then (Inl (Sentinel ErrInvalidLease), db)
      else inTenant f tenantID (\<lambda>db.
        case lease_held now k ownerID fencingToken db of
          None \<Rightarrow> Inr (False, db)
        | Some l \<Rightarrow> Inr (True, db \<lparr> db_leases := (db_leases db)(k \<mapsto>
                     l \<lparr> ls_expires := now + micros ttl, ls_updated := now \<rparr>) \<rparr>)) db)"

definition ReleaseConnectionLease ::
  "fault \<Rightarrow> instant \<Rightarrow> tenant_id \<Rightarrow> connection_id \<Rightarrow> owner_id \<Rightarrow> token
   \<Rightarrow> 'z gateway_db_scheme \<Rightarrow> bool result \<times> 'z gateway_db_scheme" where
  "ReleaseConnectionLease f now tenantID connectionID ownerID fencingToken db =
     (let k = (tenantID, connectionID) in
      if tenantID = '''' \<or> connectionID = '''' \<or> ownerID = '''' \<or> fencingToken = 0
      then (Inl (Sentinel ErrInvalidLease), db)
      else inTenant f tenantID (\<lambda>db.
        case lease_held now k ownerID fencingToken db of
          None \<Rightarrow> Inr (False, db)
        | Some l \<Rightarrow> Inr (True, db \<lparr> db_leases := (db_leases db)(k \<mapsto>
                     l \<lparr> ls_owner := None, ls_expires := now, ls_updated := now \<rparr>) \<rparr>)) db)"

text \<open>
  The lease part of \<^verbatim>\<open>coordinateProviderACKBatchSQL\<close>: a holder keeps the lease at least until the
  acknowledgement deadline; the expiry is never moved back.
\<close>

definition coordinate_ack_lease ::
  "fault \<Rightarrow> instant \<Rightarrow> tenant_id \<Rightarrow> connection_id \<Rightarrow> owner_id \<Rightarrow> token \<Rightarrow> int
   \<Rightarrow> 'z gateway_db_scheme \<Rightarrow> bool result \<times> 'z gateway_db_scheme" where
  "coordinate_ack_lease f now tenantID connectionID ownerID fencingToken us db =
     (let k = (tenantID, connectionID) in
      inTenant f tenantID (\<lambda>db.
        if db_connections db k = None then Inr (False, db)
        else case lease_held now k ownerID fencingToken db of
          None \<Rightarrow> Inr (False, db)
        | Some l \<Rightarrow> Inr (True, db \<lparr> db_leases := (db_leases db)(k \<mapsto>
                     l \<lparr> ls_expires := max (ls_expires l) (now + us), ls_updated := now \<rparr>) \<rparr>)) db)"

section \<open>Actor health\<close>

record ConnectionActorHealth =
  h_ActorState :: string
  h_LeaseState :: string
  h_ConnectionState :: ConnectionState
  h_ConnectedAt :: "instant option"
  h_LastFrameAt :: "instant option"
  h_LastPhoneResponseAt :: "instant option"
  h_ReconnectCount :: nat
  h_CurrentBackoff :: duration
  h_LastSafeReason :: string
  h_RequiresReauthorization :: bool
  h_FencingToken :: token
  h_UpdatedAt :: instant

definition actor_states :: "string list" where
  "actor_states = [''acquiring'', ''connecting'', ''ready'', ''backoff'', ''stopped'', ''lease-lost'']"

definition safe_reasons :: "string list" where
  "safe_reasons = [''none'', ''transient-network'', ''provider-auth'', ''provider-config'', ''provider-protocol'',
     ''shared-infrastructure'', ''lease-lost'', ''session-conflict'', ''shutdown'']"

definition validActorHealth :: "ConnectionActorHealth \<Rightarrow> bool" where
  "validActorHealth h =
     (if ConnectionState_Validate (h_ConnectionState h) \<noteq> None \<or> h_ReconnectCount h > 2 ^ 63 - 1
         \<or> h_CurrentBackoff h < 0 \<or> h_CurrentBackoff h > maximumLeaseTTL then False
      else if h_ActorState h \<notin> set actor_states then False
      else h_LastSafeReason h \<in> set safe_reasons)"

text \<open>The CHECK constraints of \<^verbatim>\<open>connection_actor_health\<close>.\<close>

definition health_row_ok :: "health_row \<Rightarrow> bool" where
  "health_row_ok h =
     (hr_token h > 0 \<and> hr_actor_state h \<in> set actor_states
      \<and> hr_connection_state h \<in> {ConnectionStateConnected, ConnectionStateDegraded,
            ConnectionStateReauthorizationRequired, ConnectionStateDisconnected, ConnectionStateSuspended}
      \<and> hr_backoff_micros h \<ge> 0 \<and> hr_reason h \<in> set safe_reasons)"

definition health_row_of :: "instant \<Rightarrow> token \<Rightarrow> ConnectionActorHealth \<Rightarrow> health_row" where
  "health_row_of now tok h =
     \<lparr> hr_token = tok, hr_actor_state = h_ActorState h, hr_connection_state = h_ConnectionState h,
       hr_connected_at = h_ConnectedAt h, hr_last_frame_at = h_LastFrameAt h,
       hr_last_phone_response_at = h_LastPhoneResponseAt h, hr_reconnect_count = h_ReconnectCount h,
       hr_backoff_micros = micros (h_CurrentBackoff h), hr_reason = h_LastSafeReason h,
       hr_requires_reauth = h_RequiresReauthorization h, hr_updated = now \<rparr>"

definition WriteConnectionHealthFenced ::
  "fault \<Rightarrow> instant \<Rightarrow> tenant_id \<Rightarrow> connection_id \<Rightarrow> owner_id \<Rightarrow> token \<Rightarrow> ConnectionActorHealth
   \<Rightarrow> 'z gateway_db_scheme \<Rightarrow> bool result \<times> 'z gateway_db_scheme" where
  "WriteConnectionHealthFenced f now tenantID connectionID ownerID fencingToken health db =
     (let k = (tenantID, connectionID); row = health_row_of now fencingToken health in
      if tenantID = '''' \<or> connectionID = '''' \<or> ownerID = '''' \<or> fencingToken = 0 \<or> \<not> validActorHealth health
      then (Inl (Sentinel ErrInvalidLease), db)
      else inTenant f tenantID (\<lambda>db.
        if \<not> owned_lease db k ownerID fencingToken now then Inr (False, db)
        else if \<not> health_row_ok row then Inl (Wrap ''write fenced connection health'' check_violation)
        else case db_health db k of
          None \<Rightarrow> Inr (True, db \<lparr> db_health := (db_health db)(k \<mapsto> row) \<rparr>)
        | Some old \<Rightarrow>
            if hr_token old \<le> fencingToken
            then Inr (True, db \<lparr> db_health := (db_health db)(k \<mapsto> row) \<rparr>)
            else Inr (False, db)) db)"

definition GetConnectionHealth ::
  "fault \<Rightarrow> instant \<Rightarrow> tenant_id \<Rightarrow> connection_id
   \<Rightarrow> 'z gateway_db_scheme \<Rightarrow> ConnectionActorHealth result \<times> 'z gateway_db_scheme" where
  "GetConnectionHealth f now tenantID connectionID db =
     (let k = (tenantID, connectionID) in
      if tenantID = '''' \<or> connectionID = '''' then (Inl (Sentinel ErrInvalidIdentifier), db)
      else inTenant f tenantID (\<lambda>db.
        case db_connections db k of
          None \<Rightarrow> Inl (Sentinel ErrNoRows)
        | Some c \<Rightarrow>
            let l = db_leases db k;
                h = (case (db_health db k, l) of
                       (Some h, Some l) \<Rightarrow> if hr_token h = ls_token l then Some h else None
                     | _ \<Rightarrow> None)
            in Inr (\<lparr> h_ActorState = (case h of None \<Rightarrow> '''' | Some h \<Rightarrow> hr_actor_state h),
                  h_LeaseState = (case l of None \<Rightarrow> ''inactive''
                     | Some l \<Rightarrow> if ls_owner l \<noteq> None \<and> ls_expires l > now then ''owned'' else ''inactive''),
                  h_ConnectionState = cn_state c,
                  h_ConnectedAt = (case h of None \<Rightarrow> None | Some h \<Rightarrow> hr_connected_at h),
                  h_LastFrameAt = (case h of None \<Rightarrow> None | Some h \<Rightarrow> hr_last_frame_at h),
                  h_LastPhoneResponseAt = (case h of None \<Rightarrow> None | Some h \<Rightarrow> hr_last_phone_response_at h),
                  h_ReconnectCount = (case h of None \<Rightarrow> 0 | Some h \<Rightarrow> hr_reconnect_count h),
                  h_CurrentBackoff = (case h of None \<Rightarrow> 0 | Some h \<Rightarrow> wrap64 (hr_backoff_micros h * 1000)),
                  h_LastSafeReason = (case h of None \<Rightarrow> ''none'' | Some h \<Rightarrow> hr_reason h),
                  h_RequiresReauthorization = (cn_state c = ConnectionStateReauthorizationRequired),
                  h_FencingToken = (case h of None \<Rightarrow> 0 | Some h \<Rightarrow> hr_token h),
                  h_UpdatedAt = (case h of None \<Rightarrow> cn_updated c | Some h \<Rightarrow> hr_updated h) \<rparr>, db)) db)"

section \<open>Quarantine, fenced reauthorisation, fenced session write\<close>

definition quarantinable :: "ConnectionState \<Rightarrow> bool" where
  "quarantinable st = (st = ConnectionStateConnected \<or> st = ConnectionStateDegraded
     \<or> st = ConnectionStateDisconnected \<or> st = ConnectionStateSuspended)"

definition QuarantineBackfillConnection ::
  "fault \<Rightarrow> instant \<Rightarrow> tenant_id \<Rightarrow> connection_id \<Rightarrow> string
   \<Rightarrow> 'z gateway_db_scheme \<Rightarrow> goerror \<times> 'z gateway_db_scheme" where
  "QuarantineBackfillConnection f now tenantID connectionID safeReason db =
     (let k = (tenantID, connectionID); norows = Wrap ''quarantine backfill connection'' (Sentinel ErrNoRows) in
      if tenantID = '''' \<or> connectionID = '''' \<or> safeReason \<noteq> ''provider-protocol''
      then (Some (Sentinel ErrInvalidIdentifier), db)
      else inTenantExec f tenantID (\<lambda>db.
        case (db_connections db k, db_leases db k) of
          (Some c, Some l) \<Rightarrow>
            if \<not> quarantinable (cn_state c) then Inl norows
            else (case put_connection k (c \<lparr> cn_state := ConnectionStateSuspended, cn_updated := now \<rparr>) db of
                    Inl e \<Rightarrow> Inl (Wrap ''quarantine backfill connection'' e)
                  | Inr db1 \<Rightarrow>
                      let l' = fence_lease now l;
                          fresh = \<lparr> hr_token = ls_token l', hr_actor_state = ''stopped'',
                            hr_connection_state = ConnectionStateSuspended, hr_connected_at = None,
                            hr_last_frame_at = None, hr_last_phone_response_at = None, hr_reconnect_count = 0,
                            hr_backoff_micros = 0, hr_reason = safeReason, hr_requires_reauth = False,
                            hr_updated = now \<rparr>;
                          row = (case db_health db k of
                                   None \<Rightarrow> fresh
                                 | Some old \<Rightarrow> old \<lparr> hr_token := ls_token l', hr_actor_state := ''stopped'',
                                     hr_connection_state := ConnectionStateSuspended, hr_reason := safeReason,
                                     hr_backoff_micros := 0, hr_requires_reauth := False, hr_updated := now \<rparr>)
                      in Inr (db1 \<lparr> db_leases := (db_leases db1)(k \<mapsto> l'),
                                    db_health := (db_health db1)(k \<mapsto> row) \<rparr>))
        | _ \<Rightarrow> Inl norows) db)"

definition MarkReauthorizationRequiredFenced ::
  "codec \<Rightarrow> fault \<Rightarrow> instant \<Rightarrow> instant \<Rightarrow> string \<Rightarrow> tenant_id \<Rightarrow> connection_id \<Rightarrow> owner_id \<Rightarrow> token
   \<Rightarrow> 'z gateway_db_scheme \<Rightarrow> bool result \<times> 'z gateway_db_scheme" where
  "MarkReauthorizationRequiredFenced enc f now wall eventID tenantID connectionID ownerID fencingToken db =
     (let k = (tenantID, connectionID) in
      if tenantID = '''' \<or> connectionID = '''' \<or> ownerID = '''' \<or> fencingToken = 0
      then (Inl (Sentinel ErrInvalidLease), db)
      else if eventID = '''' then (Inl (Opaque ''generate authorization event ID''), db)
      else inTenant f tenantID (\<lambda>db.
        case db_connections db k of
          None \<Rightarrow> Inr (False, db)
        | Some c \<Rightarrow>
            if \<not> reauthorizable (cn_state c) \<or> \<not> owned_lease db k ownerID fencingToken now then Inr (False, db)
            else
              let stored = (case cn_reauth_event c of None \<Rightarrow> eventID | Some e \<Rightarrow> if e = '''' then eventID else e) in
              case put_connection k (c \<lparr> cn_state := ConnectionStateReauthorizationRequired,
                     cn_reauth_event := Some stored, cn_updated := now \<rparr>) db of
                Inl e \<Rightarrow> Inl (Wrap ''mark reauthorization required with fence'' e)
              | Inr db1 \<Rightarrow>
                  if stored = '''' then Inl (Opaque ''reauthorization transition returned an empty event ID'')
                  else case insertReauthorizationEvent enc now wall tenantID connectionID stored db1 of
                    Inl e \<Rightarrow> Inl (if cn_state c = ConnectionStateReauthorizationRequired
                                 then Wrap ''repair legacy reauthorization event'' e else e)
                  | Inr db2 \<Rightarrow> Inr (True, db2)) db)"

definition CompareAndSwapEncryptedSessionFenced ::
  "fault \<Rightarrow> instant \<Rightarrow> tenant_id \<Rightarrow> connection_id \<Rightarrow> owner_id \<Rightarrow> token \<Rightarrow> nat \<Rightarrow> Envelope
   \<Rightarrow> 'z gateway_db_scheme \<Rightarrow> bool result \<times> 'z gateway_db_scheme" where
  "CompareAndSwapEncryptedSessionFenced f now tenantID connectionID ownerID fencingToken expectedRevision e db =
     (let k = (tenantID, connectionID) in
      if tenantID = '''' \<or> connectionID = '''' \<or> ownerID = '''' \<or> fencingToken = 0 \<or> expectedRevision = 0
         \<or> Envelope_Validate e \<noteq> None then (Inl (Sentinel ErrInvalidEncryptedSession), db)
      else inTenant f tenantID (\<lambda>db.
        if \<not> owned_lease db k ownerID fencingToken now then Inr (False, db)
        else Inr (cas_session k expectedRevision e db)) db)"

section \<open>Every writer of the connection tables\<close>

inductive store_step :: "'z gateway_db_scheme \<Rightarrow> 'z gateway_db_scheme \<Rightarrow> bool" where
  s_acquire: "AcquireConnectionLease f now t c ow ttl db = (r, db') \<Longrightarrow> store_step db db'"
| s_renew: "RenewConnectionLease f now t c ow tok ttl db = (r', db') \<Longrightarrow> store_step db db'"
| s_release: "ReleaseConnectionLease f now t c ow tok db = (r', db') \<Longrightarrow> store_step db db'"
| s_ack: "coordinate_ack_lease f now t c ow tok us db = (r', db') \<Longrightarrow> store_step db db'"
| s_health: "WriteConnectionHealthFenced f now t c ow tok h db = (r', db') \<Longrightarrow> store_step db db'"
| s_quarantine: "QuarantineBackfillConnection f now t c reason db = (e, db') \<Longrightarrow> store_step db db'"
| s_reauth_fenced: "MarkReauthorizationRequiredFenced enc f now wall eid t c ow tok db = (r', db') \<Longrightarrow> store_step db db'"
| s_cas_fenced: "CompareAndSwapEncryptedSessionFenced f now t c ow tok rv env db = (r', db') \<Longrightarrow> store_step db db'"
| s_cas: "CompareAndSwapEncryptedSession f t c rv env db = (r', db') \<Longrightarrow> store_step db db'"
| s_save: "SaveEncryptedSession f t c env db = (e, db') \<Longrightarrow> store_step db db'"
| s_commit: "CommitPairedSession f now t c a env fp db = (e, db') \<Longrightarrow> store_step db db'"
| s_begin: "BeginPairing f now t c a ttl db = (r'', db') \<Longrightarrow> store_step db db'"
| s_restore: "RestorePairing f now t c a db = (r'', db') \<Longrightarrow> store_step db db'"
| s_reconcile: "ReconcileStalePairings f now t ttl db = (n, db') \<Longrightarrow> store_step db db'"
| s_transition: "TransitionConnection f now t c from to db = (e, db') \<Longrightarrow> store_step db db'"
| s_reauth: "MarkReauthorizationRequired enc f now wall eid t c db = (tr, db') \<Longrightarrow> store_step db db'"
| s_connection: "SaveConnection f now t conn fp db = (e, db') \<Longrightarrow> store_step db db'"
| s_lines: "ReplaceLines f t c recs db = (e, db') \<Longrightarrow> store_step db db'"
| s_lines_fenced: "ReplaceLinesFenced f now t c ow tok recs db = (e, db') \<Longrightarrow> store_step db db'"
| s_provision: "Provision f actor eid input db = (s, db') \<Longrightarrow> store_step db db'"
| s_suspend: "changeSuspension f now actor eid t suspend db = (s, db') \<Longrightarrow> store_step db db'"

section \<open>What no step undoes\<close>

definition lease_le :: "'z gateway_db_scheme \<Rightarrow> 'z gateway_db_scheme \<Rightarrow> bool" where
  "lease_le db db' = (\<forall>k l. db_leases db k = Some l \<longrightarrow> (\<exists>l'. db_leases db' k = Some l' \<and> ls_token l \<le> ls_token l'
     \<and> (ls_token l' = ls_token l \<longrightarrow> ls_owner l' = ls_owner l \<or> ls_owner l' = None)))"

definition session_le :: "'z gateway_db_scheme \<Rightarrow> 'z gateway_db_scheme \<Rightarrow> bool" where
  "session_le db db' = (\<forall>k e. db_sessions db k = Some e \<longrightarrow>
     (\<exists>e'. db_sessions db' k = Some e' \<and> env_Revision e \<le> env_Revision e' \<and> (env_Revision e' = env_Revision e \<longrightarrow> e' = e)))"

definition health_le :: "'z gateway_db_scheme \<Rightarrow> 'z gateway_db_scheme \<Rightarrow> bool" where
  "health_le db db' = (\<forall>k h. db_health db k = Some h \<longrightarrow> (\<exists>h'. db_health db' k = Some h' \<and> hr_token h \<le> hr_token h'))"

text \<open>A health row was written under a token the lease row has reached.\<close>

definition health_inv :: "'z gateway_db_scheme \<Rightarrow> bool" where
  "health_inv db = (\<forall>k h. db_health db k = Some h \<longrightarrow> (\<exists>l. db_leases db k = Some l \<and> hr_token h \<le> ls_token l))"

definition store_le :: "'z gateway_db_scheme \<Rightarrow> 'z gateway_db_scheme \<Rightarrow> bool" where
  "store_le db db' = (lease_le db db' \<and> session_le db db' \<and> (health_inv db \<longrightarrow> health_inv db' \<and> health_le db db'))"

lemma store_le_refl: "store_le db db"
  by (auto simp: store_le_def lease_le_def session_le_def health_le_def)

lemma store_le_frame:
  "db_leases db' = db_leases db \<Longrightarrow> db_sessions db' = db_sessions db \<Longrightarrow> db_health db' = db_health db \<Longrightarrow> store_le db db'"
  by (auto simp: store_le_def lease_le_def session_le_def health_le_def health_inv_def)

lemma store_le_lease:
  assumes "\<And>l. db_leases db k = Some l \<Longrightarrow> ls_token l \<le> ls_token l'
       \<and> (ls_token l' = ls_token l \<longrightarrow> ls_owner l' = ls_owner l \<or> ls_owner l' = None)"
  shows "store_le db (db \<lparr> db_leases := (db_leases db)(k \<mapsto> l') \<rparr>)"
  using assms by (fastforce simp: store_le_def lease_le_def session_le_def health_le_def health_inv_def)

lemma store_le_session:
  assumes "\<And>e. db_sessions db k = Some e \<Longrightarrow> env_Revision e < env_Revision e'"
  shows "store_le db (db \<lparr> db_sessions := (db_sessions db)(k \<mapsto> e') \<rparr>)"
  using assms by (fastforce simp: store_le_def lease_le_def session_le_def health_le_def health_inv_def)

lemma store_le_health:
  assumes "db_leases db k = Some l" "hr_token h' \<le> ls_token l" "\<And>h. db_health db k = Some h \<Longrightarrow> hr_token h \<le> hr_token h'"
  shows "store_le db (db \<lparr> db_health := (db_health db)(k \<mapsto> h') \<rparr>)"
  using assms by (fastforce simp: store_le_def lease_le_def session_le_def health_le_def health_inv_def)

lemma store_le_quarantine:
  assumes "db_leases db k = Some l" "ls_token l < ls_token l'" "hr_token h' = ls_token l'"
  shows "store_le db (db \<lparr> db_connections := m, db_leases := (db_leases db)(k \<mapsto> l'), db_health := (db_health db)(k \<mapsto> h') \<rparr>)"
  using assms by (fastforce simp: store_le_def lease_le_def session_le_def health_le_def health_inv_def)

section \<open>Each operation keeps it\<close>

lemma cas_session_le: "cas_session k rv e db = (b, db') \<Longrightarrow> store_le db db'"
  by (auto simp: cas_session_def split: option.splits if_splits intro: store_le_refl store_le_session)

lemma upsert_session_frame:
  "upsert_session k e db = Inr db' \<Longrightarrow> db_connections db' = db_connections db \<and> store_le db db'"
  by (auto simp: upsert_session_def Let_def split: if_splits intro!: store_le_session)

lemma acquire_le: "AcquireConnectionLease f now t c ow ttl db = (r, db') \<Longrightarrow> store_le db db'"
  unfolding AcquireConnectionLease_def
  by (auto simp: acquireConnectionLeaseSQL_def Let_def store_le_refl
      split: if_splits sum.splits option.splits
      elim!: inTenant_rel [where R = store_le] intro!: store_le_lease)

lemma lease_held_Some:
  "lease_held now k ow tok db = Some l \<longleftrightarrow>
   db_leases db k = Some l \<and> ls_owner l = Some ow \<and> ls_token l = tok \<and> ls_expires l > now"
  by (auto simp: lease_held_def split: option.splits)

lemma renew_le: "RenewConnectionLease f now t c ow tok ttl db = (r, db') \<Longrightarrow> store_le db db'"
  unfolding RenewConnectionLease_def Let_def
  by (auto simp: store_le_refl lease_held_Some split: if_splits option.splits
      elim!: inTenant_rel [where R = store_le] intro!: store_le_lease)

lemma release_le: "ReleaseConnectionLease f now t c ow tok db = (r, db') \<Longrightarrow> store_le db db'"
  unfolding ReleaseConnectionLease_def Let_def
  by (auto simp: store_le_refl lease_held_Some split: if_splits option.splits
      elim!: inTenant_rel [where R = store_le] intro!: store_le_lease)

lemma ack_le: "coordinate_ack_lease f now t c ow tok us db = (r, db') \<Longrightarrow> store_le db db'"
  unfolding coordinate_ack_lease_def Let_def
  by (auto simp: store_le_refl lease_held_Some split: if_splits option.splits
      elim!: inTenant_rel [where R = store_le] intro!: store_le_lease)

lemma owned_lease_row:
  "owned_lease db k ow tok now \<Longrightarrow> \<exists>l. db_leases db k = Some l \<and> ls_owner l = Some ow \<and> ls_token l = tok \<and> ls_expires l > now"
  by (auto simp: owned_lease_def split: option.splits)

lemma health_write_le: "WriteConnectionHealthFenced f now t c ow tok h db = (r, db') \<Longrightarrow> store_le db db'"
  unfolding WriteConnectionHealthFenced_def Let_def
  by (auto simp: store_le_refl health_row_of_def split: if_splits option.splits dest!: owned_lease_row
      elim!: inTenant_rel [where R = store_le] intro!: store_le_health)

lemma quarantine_le: "QuarantineBackfillConnection f now t c reason db = (e, db') \<Longrightarrow> store_le db db'"
  unfolding QuarantineBackfillConnection_def Let_def
  by (auto simp: store_le_refl fence_lease_def split: if_splits option.splits sum.splits
      elim!: inTenantExec_rel [where R = store_le] intro!: store_le_quarantine)

lemma insertReauthorizationEvent_frame:
  "insertReauthorizationEvent enc now wall t c eid db = Inr db' \<Longrightarrow>
   db_leases db' = db_leases db \<and> db_sessions db' = db_sessions db \<and> db_health db' = db_health db"
  by (drule insertReauthorizationEvent_ok) simp

lemma reauth_fenced_le:
  "MarkReauthorizationRequiredFenced enc f now wall eid t c ow tok db = (r, db') \<Longrightarrow> store_le db db'"
  unfolding MarkReauthorizationRequiredFenced_def Let_def
  by (auto simp: store_le_refl store_le_frame split: if_splits option.splits sum.splits
      elim!: inTenant_rel [where R = store_le] dest!: insertReauthorizationEvent_frame)

lemma cas_fenced_le:
  "CompareAndSwapEncryptedSessionFenced f now t c ow tok rv env db = (r, db') \<Longrightarrow> store_le db db'"
  unfolding CompareAndSwapEncryptedSessionFenced_def Let_def
  by (auto simp: store_le_refl split: if_splits elim!: inTenant_rel [where R = store_le] dest: cas_session_le)

lemma cas_le: "CompareAndSwapEncryptedSession f t c rv env db = (r, db') \<Longrightarrow> store_le db db'"
  unfolding CompareAndSwapEncryptedSession_def
  by (auto simp: store_le_refl split: if_splits elim!: inTenant_rel [where R = store_le] dest: cas_session_le)

lemma save_le: "SaveEncryptedSession f t c env db = (e, db') \<Longrightarrow> store_le db db'"
  unfolding SaveEncryptedSession_def
  by (auto simp: store_le_refl split: if_splits elim!: inTenantExec_rel [where R = store_le] dest: upsert_session_frame)

lemma store_le_connections: "store_le db db1 \<Longrightarrow> store_le db (db1 \<lparr> db_connections := m \<rparr>)"
  by (simp add: store_le_def health_inv_def lease_le_def session_le_def health_le_def)

lemma commit_le: "CommitPairedSession f now t c a env fp db = (e, db') \<Longrightarrow> store_le db db'"
  unfolding CommitPairedSession_def Let_def
  by (auto simp: store_le_refl split: if_splits sum.splits option.splits
      elim!: inTenantExec_rel [where R = store_le] dest!: upsert_session_frame intro: store_le_connections)

lemma begin_le: "BeginPairing f now t c a ttl db = (r, db') \<Longrightarrow> store_le db db'"
  unfolding BeginPairing_def Let_def
  by (auto simp: store_le_refl store_le_frame split: if_splits option.splits sum.splits
      elim!: inTenant_rel [where R = store_le])

lemma restore_le: "RestorePairing f now t c a db = (r, db') \<Longrightarrow> store_le db db'"
  unfolding RestorePairing_def Let_def
  by (auto simp: store_le_refl store_le_frame split: if_splits option.splits sum.splits
      elim!: inTenant_rel [where R = store_le])

lemma reconcile_le: "ReconcileStalePairings f now t ttl db = (n, db') \<Longrightarrow> store_le db db'"
  unfolding ReconcileStalePairings_def Let_def
  by (auto simp: store_le_refl store_le_frame split: if_splits sum.splits
      elim!: inTenant_rel [where R = store_le] dest!: update_connections_Inr)

lemma transition_le: "TransitionConnection f now t c from to db = (e, db') \<Longrightarrow> store_le db db'"
  unfolding TransitionConnection_def Let_def
  by (auto simp: store_le_refl store_le_frame split: if_splits option.splits sum.splits
      elim!: inTenantExec_rel [where R = store_le])

lemma fence_owned_le: "store_le db (fence_owned now k db)"
  by (auto simp: fence_owned_def fence_lease_def store_le_refl split: option.splits intro!: store_le_lease)

lemma store_le_then_frame:
  "store_le db db1 \<Longrightarrow> db_leases db' = db_leases db1 \<Longrightarrow> db_sessions db' = db_sessions db1
   \<Longrightarrow> db_health db' = db_health db1 \<Longrightarrow> store_le db db'"
  by (simp add: store_le_def health_inv_def lease_le_def session_le_def health_le_def)

lemma reauth_le: "MarkReauthorizationRequired enc f now wall eid t c db = (tr, db') \<Longrightarrow> store_le db db'"
proof -
  assume a: "MarkReauthorizationRequired enc f now wall eid t c db = (tr, db')"
  have s: "store_le db (fence_owned now k (db \<lparr> db_connections := m \<rparr>))" for k m
    using fence_owned_le [of db now k] store_le_then_frame
    by (fastforce simp: fence_owned_def split: option.splits)
  show ?thesis
    using a unfolding MarkReauthorizationRequired_def Let_def
    by (auto simp: store_le_refl bind_res_Inr split: if_splits option.splits sum.splits
        elim!: inTenant_rel [where R = store_le]
        dest!: insertReauthorizationEvent_frame intro: store_le_then_frame [OF s] store_le_then_frame [OF fence_owned_le])
qed

lemma connection_le: "SaveConnection f now t conn fp db = (e, db') \<Longrightarrow> store_le db db'"
  unfolding SaveConnection_def Let_def
  by (auto simp: store_le_refl store_le_frame split: if_splits option.splits sum.splits
      elim!: inTenantExec_rel [where R = store_le])

lemma replaceLineRows_frame:
  "replaceLineRows t c recs db = Inr db' \<Longrightarrow>
   db_leases db' = db_leases db \<and> db_sessions db' = db_sessions db \<and> db_health db' = db_health db"
proof -
  have "upsert_lines t c recs db = Inr db1 \<Longrightarrow> db_health db1 = db_health db" for db1
    by (induction t c recs db rule: upsert_lines.induct) (auto simp: Let_def split: option.splits if_splits)
  then show "replaceLineRows t c recs db = Inr db' \<Longrightarrow> ?thesis"
    by (auto simp: replaceLineRows_def retire_lines_def bind_res_Inr dest: upsert_lines_frame)
qed

lemma lines_le: "ReplaceLines f t c recs db = (e, db') \<Longrightarrow> store_le db db'"
  unfolding ReplaceLines_def
  by (auto simp: store_le_refl store_le_frame split: if_splits option.splits
      elim!: inTenantExec_rel [where R = store_le] dest!: replaceLineRows_frame)

lemma lines_fenced_le: "ReplaceLinesFenced f now t c ow tok recs db = (e, db') \<Longrightarrow> store_le db db'"
  unfolding ReplaceLinesFenced_def
  by (auto simp: store_le_refl store_le_frame split: if_splits option.splits
      elim!: inTenantExec_rel [where R = store_le] dest!: replaceLineRows_frame)

lemma provision_le: "Provision f actor eid input db = (s, db') \<Longrightarrow> store_le db db'"
  unfolding Provision_def Let_def
  by (auto simp: store_le_refl store_le_frame bind_res_Inr split: if_splits option.splits
      elim!: admin_tx_rel [where R = store_le] dest!: admin_audit_frame)

lemma store_le_lease_map:
  assumes "\<And>k l. ls_token l \<le> ls_token (g k l)
      \<and> (ls_token (g k l) = ls_token l \<longrightarrow> ls_owner (g k l) = ls_owner l \<or> ls_owner (g k l) = None)"
  shows "store_le db (db \<lparr> db_leases := (\<lambda>k. map_option (g k) (db_leases db k)) \<rparr>)"
proof -
  have "\<exists>l'. map_option (g k) (db_leases db k) = Some l' \<and> hr_token h \<le> ls_token l'"
    if "\<exists>l. db_leases db k = Some l \<and> hr_token h \<le> ls_token l" for k and h :: health_row
    using that assms [of _ k] by (auto intro: order_trans)
  then show ?thesis
    using assms by (simp add: store_le_def health_inv_def lease_le_def session_le_def health_le_def)
qed

lemma fence_tenant_le: "store_le db (fence_tenant now t db)"
  unfolding fence_tenant_def by (rule store_le_lease_map) (simp add: fence_lease_def)

lemma suspend_tenant_le:
  assumes "suspend_tenant now t db = Inr db'"
  shows "store_le db db'"
proof -
  obtain db1 where db1: "db1 = db \<lparr> db_connections := (\<lambda>k. map_option (\<lambda>r. if suspendable t k r then suspend_row now r else r)
        (db_connections db k)) \<rparr>"
    and db': "db' = set_tenant_status t ''suspended'' (fence_tenant now t db1)"
    using assms by (rule suspend_tenant_shape) blast
  show ?thesis
    by (rule store_le_then_frame [OF fence_tenant_le [of db now t]])
      (simp_all add: db' db1 set_tenant_status_def fence_tenant_def)
qed

lemma resume_tenant_le: "resume_tenant now t db = Inr db' \<Longrightarrow> store_le db db'"
  by (auto simp: resume_tenant_def set_tenant_status_def split: sum.splits dest!: update_connections_Inr intro!: store_le_frame)

lemma suspend_le: "changeSuspension f now actor eid t suspend db = (s, db') \<Longrightarrow> store_le db db'"
  unfolding changeSuspension_def
  by (auto simp: store_le_refl bind_res_Inr split: if_splits option.splits
      elim!: admin_tx_rel [where R = store_le] dest!: admin_audit_frame suspend_tenant_le resume_tenant_le
      intro: store_le_then_frame)

lemma store_step_le: "store_step db db' \<Longrightarrow> store_le db db'"
  by (induction rule: store_step.induct)
    (fact acquire_le renew_le release_le ack_le health_write_le quarantine_le reauth_fenced_le cas_fenced_le cas_le
      save_le commit_le begin_le restore_le reconcile_le transition_le reauth_le connection_le lines_le lines_fenced_le
      provision_le suspend_le)+

section \<open>The fencing contract\<close>

text \<open>
  What the actor and the dispatcher rely on: a holder (owner and token) per key, and steps along
  which the token never falls and, while it stays, only the same owner or nobody holds it.
\<close>

locale fencing =
  fixes holder :: "'s \<Rightarrow> 'k \<Rightarrow> (owner_id option \<times> token) option"
    and step :: "'s \<Rightarrow> 's \<Rightarrow> bool"
  assumes holder_step: "step s s' \<Longrightarrow> holder s k = Some (ow, n) \<Longrightarrow>
    \<exists>ow' n'. holder s' k = Some (ow', n') \<and> n \<le> n' \<and> (n' = n \<longrightarrow> ow' = ow \<or> ow' = None)"
begin

lemma holder_run:
  assumes "step\<^sup>*\<^sup>* s s'" "holder s k = Some (ow, n)"
  shows "\<exists>ow' n'. holder s' k = Some (ow', n') \<and> n \<le> n' \<and> (n' = n \<longrightarrow> ow' = ow \<or> ow' = None)"
  using assms
proof (induction rule: rtranclp_induct)
  case (step y z)
  then obtain ow1 n1 where y: "holder y k = Some (ow1, n1)" "n \<le> n1" "n1 = n \<longrightarrow> ow1 = ow \<or> ow1 = None" by blast
  obtain ow2 n2 where z: "holder z k = Some (ow2, n2)" "n1 \<le> n2" "n2 = n1 \<longrightarrow> ow2 = ow1 \<or> ow2 = None"
    using holder_step [OF step(2) y(1)] by blast
  have "n2 = n \<longrightarrow> ow2 = ow \<or> ow2 = None" using y z by auto
  moreover have "n \<le> n2" using y z by simp
  ultimately show ?case using z(1) by blast
qed simp

lemma stale_forever: "step\<^sup>*\<^sup>* s s' \<Longrightarrow> holder s k = Some (ow, n) \<Longrightarrow> m < n \<Longrightarrow> holder s' k \<noteq> Some (ow', m)"
  using holder_run by fastforce

lemma one_owner:
  "step\<^sup>*\<^sup>* s s' \<Longrightarrow> holder s k = Some (Some a, n) \<Longrightarrow> holder s' k = Some (Some b, m) \<Longrightarrow> n \<le> m \<and> (n = m \<longrightarrow> a = b)"
  using holder_run by fastforce

end

definition lease_view :: "'z gateway_db_scheme \<Rightarrow> ckey \<Rightarrow> (owner_id option \<times> token) option" where
  "lease_view db k = map_option (\<lambda>l. (ls_owner l, ls_token l)) (db_leases db k)"

interpretation pg: fencing lease_view "store_step :: 'z gateway_db_scheme \<Rightarrow> 'z gateway_db_scheme \<Rightarrow> bool"
proof
  fix s s' :: "'z gateway_db_scheme" and k ow n
  assume "store_step s s'" and v: "lease_view s k = Some (ow, n)"
  then have "lease_le s s'" using store_step_le by (auto simp: store_le_def)
  moreover obtain l where l: "db_leases s k = Some l" "ow = ls_owner l" "n = ls_token l"
    using v by (auto simp: lease_view_def)
  ultimately obtain l' where "db_leases s' k = Some l'" "ls_token l \<le> ls_token l'"
    "ls_token l' = ls_token l \<longrightarrow> ls_owner l' = ls_owner l \<or> ls_owner l' = None"
    unfolding lease_le_def by blast
  then show "\<exists>ow' n'. lease_view s' k = Some (ow', n') \<and> n \<le> n' \<and> (n' = n \<longrightarrow> ow' = ow \<or> ow' = None)"
    using l by (simp add: lease_view_def)
qed

lemma owned_lease_view: "owned_lease db k ow tok now \<Longrightarrow> lease_view db k = Some (Some ow, tok)"
  by (auto simp: lease_view_def dest!: owned_lease_row)

lemma acquire_granted:
  assumes "AcquireConnectionLease f now t c ow ttl db = (Inr (Some l), db')"
  shows "lease_view db' (t, c) = Some (Some ow, cl_FencingToken l) \<and> cl_OwnerID l = ow
    \<and> validLeaseInput t c ow ttl"
  using assms
  by (auto simp: AcquireConnectionLease_def acquireConnectionLeaseSQL_def lease_view_def Let_def
      split: if_splits option.splits sum.splits dest!: inTenant_value)

text \<open>
  C1. A fencing token never belongs to two owners: between two successful acquisitions of the same
  connection, with any sequence of repository operations by anybody in between and whatever the
  clocks show, the token does not fall, and if it is the same token then it is the same owner.
\<close>

theorem fencing_token_unique_owner:
  assumes "AcquireConnectionLease f1 now1 t c o1 ttl1 db = (Inr (Some l1), db1)"
    "store_step\<^sup>*\<^sup>* db1 db2"
    "AcquireConnectionLease f2 now2 t c o2 ttl2 db2 = (Inr (Some l2), db3)"
  shows "cl_FencingToken l1 \<le> cl_FencingToken l2 \<and> (cl_FencingToken l1 = cl_FencingToken l2 \<longrightarrow> o1 = o2)"
proof -
  have "store_step\<^sup>*\<^sup>* db1 db3" using assms(2) s_acquire [OF assms(3)] by simp
  then show ?thesis
    using acquire_granted [OF assms(1)] acquire_granted [OF assms(3)] pg.one_owner by blast
qed

definition demo_free :: gateway_db where
  "demo_free = demo_db \<lparr> db_leases := Map.empty \<rparr>"

lemma demo_acquire:
  "AcquireConnectionLease NoFault 100 ''t1'' ''c1'' ''replica-a'' (30 * second) demo_free =
     (Inr (Some \<lparr> cl_OwnerID = ''replica-a'', cl_FencingToken = 1, cl_ExpiresAt = 30000100 \<rparr>),
      demo_free \<lparr> db_leases := [(''t1'', ''c1'') \<mapsto>
        \<lparr> ls_owner = Some ''replica-a'', ls_token = 1, ls_expires = 30000100, ls_updated = 100 \<rparr>] \<rparr>)"
  by (simp add: AcquireConnectionLease_def validLeaseInput_def minimumLeaseTTL_def maximumLeaseTTL_def
      acquireConnectionLeaseSQL_def Let_def micros_def demo_free_def demo_db_defs)

lemma demo_takeover:
  "\<exists>db'. AcquireConnectionLease NoFault 40000000 ''t1'' ''c1'' ''replica-b'' (30 * second)
     (demo_free \<lparr> db_leases := [(''t1'', ''c1'') \<mapsto>
        \<lparr> ls_owner = Some ''replica-a'', ls_token = 1, ls_expires = 30000100, ls_updated = 100 \<rparr>] \<rparr>) =
     (Inr (Some \<lparr> cl_OwnerID = ''replica-b'', cl_FencingToken = 2, cl_ExpiresAt = 70000000 \<rparr>), db')"
  by (simp add: AcquireConnectionLease_def validLeaseInput_def minimumLeaseTTL_def maximumLeaseTTL_def
      acquireConnectionLeaseSQL_def Let_def micros_def demo_free_def demo_db_defs)

theorem fencing_token_unique_owner_witness:
  "\<exists>db1 db2 l1 l2. AcquireConnectionLease NoFault 100 ''t1'' ''c1'' ''replica-a'' (30 * second) demo_free = (Inr (Some l1), db1)
     \<and> AcquireConnectionLease NoFault 40000000 ''t1'' ''c1'' ''replica-b'' (30 * second) db1 = (Inr (Some l2), db2)
     \<and> cl_FencingToken l1 < cl_FencingToken l2"
proof -
  obtain db2 where two: "AcquireConnectionLease NoFault 40000000 ''t1'' ''c1'' ''replica-b'' (30 * second)
     (demo_free \<lparr> db_leases := [(''t1'', ''c1'') \<mapsto>
        \<lparr> ls_owner = Some ''replica-a'', ls_token = 1, ls_expires = 30000100, ls_updated = 100 \<rparr>] \<rparr>) =
     (Inr (Some \<lparr> cl_OwnerID = ''replica-b'', cl_FencingToken = 2, cl_ExpiresAt = 70000000 \<rparr>), db2)"
    using demo_takeover by blast
  from fencing_token_unique_owner [OF demo_acquire rtranclp.rtrancl_refl two]
  have "(1::nat) < 2 \<or> ''replica-a'' = ''replica-b''" by simp
  with demo_acquire two show ?thesis by force
qed

section \<open>A superseded generation cannot write\<close>

lemma health_write_unowned:
  "\<not> owned_lease db (t, c) ow tok now \<Longrightarrow> snd (WriteConnectionHealthFenced f now t c ow tok h db) = db
     \<and> fst (WriteConnectionHealthFenced f now t c ow tok h db) \<noteq> Inr True"
  by (auto simp: WriteConnectionHealthFenced_def inTenant_def Let_def split: fault.splits)

lemma cas_fenced_unowned:
  "\<not> owned_lease db (t, c) ow tok now \<Longrightarrow> snd (CompareAndSwapEncryptedSessionFenced f now t c ow tok rv e db) = db
     \<and> fst (CompareAndSwapEncryptedSessionFenced f now t c ow tok rv e db) \<noteq> Inr True"
  by (auto simp: CompareAndSwapEncryptedSessionFenced_def inTenant_def Let_def split: fault.splits)

lemma reauth_fenced_unowned:
  "\<not> owned_lease db (t, c) ow tok now \<Longrightarrow> snd (MarkReauthorizationRequiredFenced enc f now wall eid t c ow tok db) = db
     \<and> fst (MarkReauthorizationRequiredFenced enc f now wall eid t c ow tok db) \<noteq> Inr True"
  by (auto simp: MarkReauthorizationRequiredFenced_def inTenant_def Let_def split: fault.splits option.splits)

lemma lines_fenced_unowned:
  "\<not> owned_lease db (t, c) ow tok now \<Longrightarrow> snd (ReplaceLinesFenced f now t c ow tok recs db) = db
     \<and> fst (ReplaceLinesFenced f now t c ow tok recs db) \<noteq> None"
  by (auto simp: ReplaceLinesFenced_def inTenantExec_def inTenant_def split: fault.splits option.splits)

text \<open>
  C2. A superseded generation is fenced out for good: once a connection has been granted with a
  token above \<open>tok\<close>, then after any further operations no owner with \<open>tok\<close> holds the lease at any
  time, and every fenced write with \<open>tok\<close> (health, session, reauthorisation, lines) changes nothing
  and does not report success, even when its clock still lies before the old expiry.
\<close>

theorem stale_generation_fenced:
  assumes "AcquireConnectionLease f' now' t c ow' ttl db = (Inr (Some l), db1)" "tok < cl_FencingToken l"
    "store_step\<^sup>*\<^sup>* db1 db2"
  shows "\<not> owned_lease db2 (t, c) ow tok now
    \<and> snd (WriteConnectionHealthFenced f now t c ow tok h db2) = db2
    \<and> fst (WriteConnectionHealthFenced f now t c ow tok h db2) \<noteq> Inr True
    \<and> snd (CompareAndSwapEncryptedSessionFenced f now t c ow tok rv e db2) = db2
    \<and> fst (CompareAndSwapEncryptedSessionFenced f now t c ow tok rv e db2) \<noteq> Inr True
    \<and> snd (MarkReauthorizationRequiredFenced enc f now wall eid t c ow tok db2) = db2
    \<and> fst (MarkReauthorizationRequiredFenced enc f now wall eid t c ow tok db2) \<noteq> Inr True
    \<and> snd (ReplaceLinesFenced f now t c ow tok recs db2) = db2
    \<and> fst (ReplaceLinesFenced f now t c ow tok recs db2) \<noteq> None"
proof -
  have "lease_view db2 (t, c) \<noteq> Some (Some ow, tok)"
    using pg.stale_forever [OF assms(3)] acquire_granted [OF assms(1)] assms(2) by blast
  then have "\<not> owned_lease db2 (t, c) ow tok now" using owned_lease_view by blast
  then show ?thesis
    by (simp add: health_write_unowned cas_fenced_unowned reauth_fenced_unowned lines_fenced_unowned)
qed

theorem stale_generation_fenced_witness:
  "\<exists>db1 db2. snd (AcquireConnectionLease NoFault 100 ''t1'' ''c1'' ''replica-a'' (30 * second) demo_free) = db1
     \<and> snd (AcquireConnectionLease NoFault 40000000 ''t1'' ''c1'' ''replica-b'' (30 * second) db1) = db2
     \<and> snd (CompareAndSwapEncryptedSessionFenced NoFault 200 ''t1'' ''c1'' ''replica-a'' 1 3 demo_session db2) = db2"
proof -
  obtain db2 where two: "AcquireConnectionLease NoFault 40000000 ''t1'' ''c1'' ''replica-b'' (30 * second)
     (demo_free \<lparr> db_leases := [(''t1'', ''c1'') \<mapsto>
        \<lparr> ls_owner = Some ''replica-a'', ls_token = 1, ls_expires = 30000100, ls_updated = 100 \<rparr>] \<rparr>) =
     (Inr (Some \<lparr> cl_OwnerID = ''replica-b'', cl_FencingToken = 2, cl_ExpiresAt = 70000000 \<rparr>), db2)"
    using demo_takeover by blast
  have "snd (CompareAndSwapEncryptedSessionFenced NoFault 200 ''t1'' ''c1'' ''replica-a'' 1 3 demo_session db2) = db2"
    using stale_generation_fenced [OF two _ rtranclp.rtrancl_refl, of 1] by simp
  with demo_acquire two show ?thesis by simp
qed

section \<open>Sessions are never lost to a concurrent writer\<close>

lemma session_le_trans: "session_le a b \<Longrightarrow> session_le b c \<Longrightarrow> session_le a c"
proof -
  assume ab: "session_le a b" and bc: "session_le b c"
  show ?thesis unfolding session_le_def
  proof (intro allI impI)
    fix k e assume "db_sessions a k = Some e"
    with ab obtain e1 where e1: "db_sessions b k = Some e1" "env_Revision e \<le> env_Revision e1"
      "env_Revision e1 = env_Revision e \<longrightarrow> e1 = e" unfolding session_le_def by blast
    with bc obtain e2 where "db_sessions c k = Some e2" "env_Revision e1 \<le> env_Revision e2"
      "env_Revision e2 = env_Revision e1 \<longrightarrow> e2 = e1" unfolding session_le_def by blast
    with e1 show "\<exists>e'. db_sessions c k = Some e' \<and> env_Revision e \<le> env_Revision e' \<and> (env_Revision e' = env_Revision e \<longrightarrow> e' = e)"
      by auto
  qed
qed

lemma session_run: "store_step\<^sup>*\<^sup>* db db' \<Longrightarrow> session_le db db'"
proof (induction rule: rtranclp_induct)
  case (step y z)
  then have "session_le y z" using store_step_le by (auto simp: store_le_def)
  with step.IH show ?case by (rule session_le_trans)
qed (auto simp: session_le_def)

lemma cas_fenced_swapped:
  assumes "CompareAndSwapEncryptedSessionFenced f now t c ow tok rv e db = (Inr True, db')"
  shows "owned_lease db (t, c) ow tok now \<and> (\<exists>old. db_sessions db (t, c) = Some old \<and> env_Revision old = rv)
    \<and> db_sessions db' (t, c) = Some (e \<lparr> env_Revision := rv + 1 \<rparr>) \<and> db_leases db' = db_leases db"
  using assms
  by (auto simp: CompareAndSwapEncryptedSessionFenced_def Let_def cas_session_def
      split: if_splits option.splits dest!: inTenant_value)

text \<open>
  C22. The session compare-and-swap serialises writers: a successful fenced swap was made by the
  lease holder on exactly the revision it read, stores the new envelope at the next revision, and
  no other swap expecting the same revision succeeds afterwards, whatever happens in between.
\<close>

theorem session_cas_serialises:
  assumes "CompareAndSwapEncryptedSessionFenced f now t c ow tok rv e db = (Inr True, db1)"
    "store_step\<^sup>*\<^sup>* db1 db2"
    "CompareAndSwapEncryptedSessionFenced f' now' t c ow' tok' rv e' db2 = (r, db3)"
  shows "owned_lease db (t, c) ow tok now \<and> db_sessions db1 (t, c) = Some (e \<lparr> env_Revision := rv + 1 \<rparr>)
    \<and> r \<noteq> Inr True \<and> db_sessions db3 (t, c) = db_sessions db2 (t, c)"
proof -
  note one = cas_fenced_swapped [OF assms(1)]
  obtain e2 where e2: "db_sessions db2 (t, c) = Some e2" "rv + 1 \<le> env_Revision e2"
    using session_run [OF assms(2)] one by (force simp: session_le_def)
  have "r \<noteq> Inr True"
  proof
    assume "r = Inr True"
    with assms(3) cas_fenced_swapped have "\<exists>old. db_sessions db2 (t, c) = Some old \<and> env_Revision old = rv" by blast
    with e2 show False by auto
  qed
  moreover have "db_sessions db3 (t, c) = db_sessions db2 (t, c)"
    using assms(3) e2
    by (auto simp: CompareAndSwapEncryptedSessionFenced_def inTenant_def Let_def cas_session_def
        split: if_splits fault.splits)
  ultimately show ?thesis using one by blast
qed

lemma demo_cas:
  "\<exists>db1. CompareAndSwapEncryptedSessionFenced NoFault 10 ''t1'' ''c1'' ''replica-a'' 4 3 demo_session demo_db = (Inr True, db1)"
  by (simp add: CompareAndSwapEncryptedSessionFenced_def Let_def Envelope_Validate_def owned_lease_def cas_session_def demo_db_defs)

theorem session_cas_serialises_witness:
  "\<exists>db1. CompareAndSwapEncryptedSessionFenced NoFault 10 ''t1'' ''c1'' ''replica-a'' 4 3 demo_session demo_db = (Inr True, db1)
     \<and> fst (CompareAndSwapEncryptedSessionFenced NoFault 11 ''t1'' ''c1'' ''replica-a'' 4 3 demo_session db1) \<noteq> Inr True"
proof -
  obtain db1 where one: "CompareAndSwapEncryptedSessionFenced NoFault 10 ''t1'' ''c1'' ''replica-a'' 4 3 demo_session demo_db = (Inr True, db1)"
    using demo_cas by blast
  obtain r db3 where two: "CompareAndSwapEncryptedSessionFenced NoFault 11 ''t1'' ''c1'' ''replica-a'' 4 3 demo_session db1 = (r, db3)"
    by fastforce
  from session_cas_serialises [OF one rtranclp.rtrancl_refl two] have "r \<noteq> Inr True" by blast
  with one two show ?thesis by simp
qed

section \<open>Health is reported for the current generation\<close>

lemma health_run:
  assumes "store_step\<^sup>*\<^sup>* db db'" "health_inv db"
  shows "health_inv db' \<and> health_le db db'"
  using assms
proof (induction rule: rtranclp_induct)
  case (step y z)
  then have yz: "health_inv z \<and> health_le y z" using store_step_le by (auto simp: store_le_def)
  have "health_le db z" unfolding health_le_def
  proof (intro allI impI)
    fix k h assume "db_health db k = Some h"
    then obtain h1 where h1: "db_health y k = Some h1" "hr_token h \<le> hr_token h1"
      using step unfolding health_le_def by blast
    then obtain h2 where "db_health z k = Some h2" "hr_token h1 \<le> hr_token h2"
      using yz unfolding health_le_def by blast
    with h1 show "\<exists>h'. db_health z k = Some h' \<and> hr_token h \<le> hr_token h'" by auto
  qed
  with yz show ?case by blast
qed (auto simp: health_le_def)

text \<open>
  C31. Health of a newer generation is never overwritten by an older one: from a database whose
  health rows carry tokens their leases have reached (an empty table, for example), every run
  keeps that invariant and never lowers the token of a health row, and what \<^verbatim>\<open>GetConnectionHealth\<close>
  then reports is either the row of the lease's current token or no actor state at all.
\<close>

theorem health_current_generation:
  assumes "health_inv db" "store_step\<^sup>*\<^sup>* db db'" "db_health db k = Some h"
    "GetConnectionHealth f now (fst k) (snd k) db' = (Inr g, db'')"
  shows "(\<exists>h' l. db_health db' k = Some h' \<and> hr_token h \<le> hr_token h' \<and> db_leases db' k = Some l
       \<and> hr_token h' \<le> ls_token l
       \<and> (h_FencingToken g = ls_token l \<and> h_ActorState g = hr_actor_state h' \<or> h_FencingToken g = 0 \<and> h_ActorState g = ''''))"
proof -
  have r: "health_inv db'" "health_le db db'" using health_run [OF assms(2,1)] by auto
  obtain h' where h': "db_health db' k = Some h'" "hr_token h \<le> hr_token h'"
    using r(2) assms(3) unfolding health_le_def by blast
  obtain l where l: "db_leases db' k = Some l" "hr_token h' \<le> ls_token l"
    using r(1) h'(1) unfolding health_inv_def by blast
  have "h_FencingToken g = ls_token l \<and> h_ActorState g = hr_actor_state h' \<or> h_FencingToken g = 0 \<and> h_ActorState g = ''''"
    using assms(4) h'(1) l(1)
    by (auto simp: GetConnectionHealth_def Let_def split: if_splits option.splits dest!: inTenant_value)
  with h' l show ?thesis by blast
qed

definition demo_health :: ConnectionActorHealth where
  "demo_health = \<lparr> h_ActorState = ''ready'', h_LeaseState = '''', h_ConnectionState = ConnectionStateConnected,
     h_ConnectedAt = Some 5, h_LastFrameAt = None, h_LastPhoneResponseAt = None, h_ReconnectCount = 0,
     h_CurrentBackoff = 0, h_LastSafeReason = ''none'', h_RequiresReauthorization = False,
     h_FencingToken = 4, h_UpdatedAt = 5 \<rparr>"

definition demo_healthy :: gateway_db where
  "demo_healthy = demo_db \<lparr> db_health := [(''t1'', ''c1'') \<mapsto> health_row_of 6 4 demo_health] \<rparr>"

lemma demo_get_health:
  "\<exists>g. GetConnectionHealth NoFault 7 ''t1'' ''c1'' demo_healthy = (Inr g, demo_healthy)"
  by (simp add: GetConnectionHealth_def Let_def demo_healthy_def demo_db_defs)

theorem health_current_generation_witness:
  "\<exists>g l. GetConnectionHealth NoFault 7 ''t1'' ''c1'' demo_healthy = (Inr g, demo_healthy)
     \<and> db_leases demo_healthy (''t1'', ''c1'') = Some l
     \<and> (h_FencingToken g = ls_token l \<or> h_FencingToken g = 0)"
proof -
  obtain g where g: "GetConnectionHealth NoFault 7 (fst (''t1'', ''c1'')) (snd (''t1'', ''c1'')) demo_healthy = (Inr g, demo_healthy)"
    using demo_get_health by auto
  have i: "health_inv demo_healthy"
    by (auto simp: health_inv_def demo_healthy_def demo_db_defs health_row_of_def split: if_splits)
  have h: "db_health demo_healthy (''t1'', ''c1'') = Some (health_row_of 6 4 demo_health)"
    by (simp add: demo_healthy_def)
  from health_current_generation [OF i rtranclp.rtrancl_refl h g] g show ?thesis by auto
qed

section \<open>A crashed owner blocks a connection no longer than its lease\<close>

text \<open>
  C32. Takeover is always possible in time: for valid arguments and an existing connection whose
  lease is absent, expired, or the caller's own, acquisition succeeds when the database answers,
  and from then on the caller owns the connection with the returned token at every instant before
  the expiry, which lies exactly the requested time ahead; a lease that just expired or was
  released is granted with a strictly larger token.
\<close>

theorem acquire_takeover:
  assumes "validLeaseInput t c ow ttl" "db_connections db (t, c) \<noteq> None"
    "case db_leases db (t, c) of None \<Rightarrow> True | Some l \<Rightarrow> ls_owner l = Some ow \<or> ls_expires l \<le> now"
  shows "\<exists>l db'. AcquireConnectionLease NoFault now t c ow ttl db = (Inr (Some l), db')
    \<and> cl_ExpiresAt l = now + ttl div 1000 \<and> now < cl_ExpiresAt l
    \<and> (now' < cl_ExpiresAt l \<longrightarrow> owned_lease db' (t, c) ow (cl_FencingToken l) now')
    \<and> (case db_leases db (t, c) of None \<Rightarrow> cl_FencingToken l = 1
       | Some old \<Rightarrow> ls_token old \<le> cl_FencingToken l \<and> (ls_expires old \<le> now \<longrightarrow> ls_token old < cl_FencingToken l))"
proof -
  have ttl: "t \<noteq> ''''" "1000000000 \<le> ttl"
    using assms(1) by (auto simp: validLeaseInput_def minimumLeaseTTL_def)
  then have "micros ttl = ttl div 1000" "0 < ttl div 1000" by (simp_all add: micros_def)
  then show ?thesis
    using assms ttl
    by (cases "db_leases db (t, c)")
      (auto simp: AcquireConnectionLease_def acquireConnectionLeaseSQL_def Let_def owned_lease_def)
qed

theorem acquire_takeover_witness:
  "\<exists>l db'. AcquireConnectionLease NoFault 2000 ''t1'' ''c1'' ''replica-b'' (30 * second) demo_db = (Inr (Some l), db')
     \<and> owned_lease db' (''t1'', ''c1'') ''replica-b'' (cl_FencingToken l) 2001"
  using acquire_takeover [of "''t1''" "''c1''" "''replica-b''" "30 * second" demo_db 2000 2001]
  by (auto simp: validLeaseInput_def minimumLeaseTTL_def maximumLeaseTTL_def demo_db_def demo_lease_def)

end
