(* ===== verification/Session_Vault.thy ===== *)
theory Session_Vault
  imports Lease_Store
begin

text \<open>
  The session vault (\<^verbatim>\<open>session/vault.go\<close>) over the PostgreSQL envelope store: sealing on save and
  compare-and-swap, opening on load, and the bounded rotation loop. Calls of the vault are not
  atomic: between the load and the swap of one rotation attempt the database changes in an
  arbitrary way given by the environment.
\<close>

type_synonym vault = "gcm_suite \<times> KeyWrapper"

definition Vault_Save ::
  "vault \<Rightarrow> fault \<Rightarrow> Scope \<Rightarrow> string \<Rightarrow> seal_random \<Rightarrow> 'z gateway_db_scheme \<Rightarrow> goerror \<times> 'z gateway_db_scheme" where
  "Vault_Save v f s plaintext rnd db =
     (case Manager_Seal (fst v) (snd v) s plaintext rnd of
        Inl e \<Rightarrow> (Some e, db)
      | Inr envelope \<Rightarrow>
          (case SaveEncryptedSession f (scope_TenantID s) (scope_ConnectionID s) envelope db of
             (Some _, db') \<Rightarrow> (Some (Sentinel ErrStore), db')
           | (None, db') \<Rightarrow> (None, db')))"

definition Vault_LoadVersioned ::
  "vault \<Rightarrow> fault \<Rightarrow> Scope \<Rightarrow> 'z gateway_db_scheme \<Rightarrow> (string \<times> nat) result \<times> 'z gateway_db_scheme" where
  "Vault_LoadVersioned v f s db =
     (case LoadEncryptedSession f (scope_TenantID s) (scope_ConnectionID s) db of
        (Inl _, db') \<Rightarrow> (Inl (Sentinel ErrStore), db')
      | (Inr envelope, db') \<Rightarrow>
          if env_Revision envelope = 0 then (Inl (Sentinel ErrStore), db')
          else (case Manager_Open (fst v) (snd v) s envelope of
                  Inl e \<Rightarrow> (Inl e, db')
                | Inr plaintext \<Rightarrow> (Inr (plaintext, env_Revision envelope), db')))"

definition Vault_Load ::
  "vault \<Rightarrow> fault \<Rightarrow> Scope \<Rightarrow> 'z gateway_db_scheme \<Rightarrow> string result \<times> 'z gateway_db_scheme" where
  "Vault_Load v f s db =
     (case Vault_LoadVersioned v f s db of (Inl e, db') \<Rightarrow> (Inl e, db') | (Inr (p, _), db') \<Rightarrow> (Inr p, db'))"

definition Vault_CompareAndSwapFenced ::
  "vault \<Rightarrow> fault \<Rightarrow> instant \<Rightarrow> Scope \<Rightarrow> owner_id \<Rightarrow> token \<Rightarrow> nat \<Rightarrow> string \<Rightarrow> seal_random
   \<Rightarrow> 'z gateway_db_scheme \<Rightarrow> bool result \<times> 'z gateway_db_scheme" where
  "Vault_CompareAndSwapFenced v f now s ownerID fencingToken expectedRevision plaintext rnd db =
     (if ownerID = '''' \<or> fencingToken = 0 \<or> expectedRevision = 0 then (Inl (Sentinel ErrStore), db)
      else case Manager_Seal (fst v) (snd v) s plaintext rnd of
        Inl e \<Rightarrow> (Inl e, db)
      | Inr envelope \<Rightarrow>
          (case CompareAndSwapEncryptedSessionFenced f now (scope_TenantID s) (scope_ConnectionID s) ownerID
                  fencingToken expectedRevision envelope db of
             (Inl _, db') \<Rightarrow> (Inl (Sentinel ErrStore), db')
           | (Inr swapped, db') \<Rightarrow> (Inr swapped, db')))"

text \<open>
  What surrounds one attempt of \<^verbatim>\<open>Rotate\<close>: the context, the faults of its two store calls, the
  randomness of the wrapper, and what others did to the database before the load and before the
  swap.
\<close>

record 'db rotation_env =
  re_ctx :: goerror
  re_before :: "'db \<Rightarrow> 'db"
  re_load :: fault
  re_rnd :: string
  re_between :: "'db \<Rightarrow> 'db"
  re_cas :: fault

fun rotate_loop ::
  "vault \<Rightarrow> Scope \<Rightarrow> nat \<Rightarrow> (nat \<Rightarrow> 'z gateway_db_scheme rotation_env)
   \<Rightarrow> 'z gateway_db_scheme \<Rightarrow> bool result \<times> 'z gateway_db_scheme" where
  "rotate_loop v s 0 env db = (Inl (Sentinel ErrStore), db)"
| "rotate_loop v s (Suc n) env db =
     (case re_ctx (env n) of
        Some e \<Rightarrow> (Inl e, db)
      | None \<Rightarrow>
          (case LoadEncryptedSession (re_load (env n)) (scope_TenantID s) (scope_ConnectionID s) (re_before (env n) db) of
             (Inl _, db1) \<Rightarrow> (Inl (Sentinel ErrStore), db1)
           | (Inr envelope, db1) \<Rightarrow>
               (case Manager_Rewrap (fst v) (snd v) s envelope (re_rnd (env n)) of
                  Inl e \<Rightarrow> (Inl e, db1)
                | Inr (rotated, changed) \<Rightarrow>
                    if \<not> changed then (Inr False, db1)
                    else (case CompareAndSwapEncryptedSession (re_cas (env n)) (scope_TenantID s) (scope_ConnectionID s)
                                 (env_Revision envelope) rotated (re_between (env n) db1) of
                            (Inl _, db2) \<Rightarrow> (Inl (Sentinel ErrStore), db2)
                          | (Inr swapped, db2) \<Rightarrow>
                              if swapped then (Inr True, db2) else rotate_loop v s n env db2))))"

definition Vault_Rotate ::
  "vault \<Rightarrow> Scope \<Rightarrow> (nat \<Rightarrow> 'z gateway_db_scheme rotation_env) \<Rightarrow> 'z gateway_db_scheme
   \<Rightarrow> bool result \<times> 'z gateway_db_scheme" where
  "Vault_Rotate v s env db = rotate_loop v s 5 env db"

section \<open>What is saved is what is loaded\<close>

lemma Seal_valid: "Manager_Seal g w s p rnd = Inr e \<Longrightarrow> Envelope_Validate e = None \<and> env_Revision e = 0"
  by (auto simp: Manager_Seal_def Let_def split: if_splits option.splits sum.splits)

lemma load_stored:
  assumes "db_sessions db (t, c) = Some e" "Envelope_Validate e = None" "t \<noteq> ''''" "c \<noteq> ''''"
  shows "LoadEncryptedSession NoFault t c db = (Inr e, db)"
  using assms by (simp add: LoadEncryptedSession_def)

lemma validate_revision: "Envelope_Validate (e \<lparr> env_Revision := r \<rparr>) = Envelope_Validate e"
  by (simp add: Envelope_Validate_def)

text \<open>
  C33. A successful fenced swap is readable: after it, loading returns the swapped plaintext at the
  next revision, and after a successful save, loading returns the saved plaintext at the revision
  after the old one, for every key wrapper that unwraps what it wrapped.
\<close>

theorem vault_roundtrip:
  assumes "key_wrapper (snd v)"
    "Vault_CompareAndSwapFenced v f now s ow tok rv p rnd db = (Inr True, db1)"
    "Vault_Save v f' s q rnd' db' = (None, db2)"
  shows "Vault_LoadVersioned v NoFault s db1 = (Inr (p, rv + 1), db1)
    \<and> Vault_LoadVersioned v NoFault s db2 = (Inr (q, case db_sessions db' (scope_TenantID s, scope_ConnectionID s) of
          None \<Rightarrow> 1 | Some old \<Rightarrow> env_Revision old + 1), db2)"
proof
  let ?t = "scope_TenantID s" and ?c = "scope_ConnectionID s"
  obtain e where e: "Manager_Seal (fst v) (snd v) s p rnd = Inr e"
    and c: "CompareAndSwapEncryptedSessionFenced f now ?t ?c ow tok rv e db = (Inr True, db1)"
    using assms(2) by (auto simp: Vault_CompareAndSwapFenced_def split: if_splits sum.splits prod.splits)
  have "?t \<noteq> ''''" "?c \<noteq> ''''"
    using c by (auto simp: CompareAndSwapEncryptedSessionFenced_def Let_def split: if_splits)
  moreover have "db_sessions db1 (?t, ?c) = Some (e \<lparr> env_Revision := rv + 1 \<rparr>)" using cas_fenced_swapped [OF c] by blast
  moreover have "Envelope_Validate e = None" using Seal_valid [OF e] by blast
  ultimately have "LoadEncryptedSession NoFault ?t ?c db1 = (Inr (e \<lparr> env_Revision := rv + 1 \<rparr>), db1)"
    using load_stored validate_revision by metis
  then show "Vault_LoadVersioned v NoFault s db1 = (Inr (p, rv + 1), db1)"
    using key_wrapper.open_Seal [OF assms(1) e] by (simp add: Vault_LoadVersioned_def)
  let ?r = "case db_sessions db' (?t, ?c) of None \<Rightarrow> 1 | Some old \<Rightarrow> env_Revision old + 1"
  obtain e' where e': "Manager_Seal (fst v) (snd v) s q rnd' = Inr e'"
    and sv: "SaveEncryptedSession f' ?t ?c e' db' = (None, db2)"
    using assms(3) by (auto simp: Vault_Save_def split: sum.splits prod.splits option.splits)
  from sv have u: "upsert_session (?t, ?c) e' db' = Inr db2" "?t \<noteq> ''''" "?c \<noteq> ''''"
    by (auto simp: SaveEncryptedSession_def split: if_splits dest!: inTenantExec_ok)
  then have "db_sessions db2 (?t, ?c) = Some (e' \<lparr> env_Revision := ?r \<rparr>)"
    by (auto simp: upsert_session_def Let_def split: if_splits)
  then have "LoadEncryptedSession NoFault ?t ?c db2 = (Inr (e' \<lparr> env_Revision := ?r \<rparr>), db2)"
    using load_stored validate_revision u(2,3) Seal_valid [OF e'] by metis
  then show "Vault_LoadVersioned v NoFault s db2 = (Inr (q, ?r), db2)"
    using key_wrapper.open_Seal [OF assms(1) e'] by (auto simp: Vault_LoadVersioned_def split: option.splits)
qed

lemma cas_swapped:
  assumes "CompareAndSwapEncryptedSession f t c rv e db = (Inr True, db')"
  shows "\<exists>old. db_sessions db (t, c) = Some old \<and> env_Revision old = rv
    \<and> db' = db \<lparr> db_sessions := (db_sessions db)((t, c) \<mapsto> e \<lparr> env_Revision := rv + 1 \<rparr>) \<rparr>"
  using assms
  by (auto simp: CompareAndSwapEncryptedSession_def cas_session_def split: if_splits option.splits dest!: inTenant_value)

lemma load_value: "LoadEncryptedSession f t c db = (Inr e, db') \<Longrightarrow> db' = db \<and> db_sessions db (t, c) = Some e"
  by (auto simp: LoadEncryptedSession_def split: if_splits option.splits dest!: inTenant_value)

section \<open>Rotation\<close>

text \<open>
  The environment of a rotation only runs repository operations, so an envelope whose revision did
  not change is the very same envelope.
\<close>

definition env_steps :: "'z gateway_db_scheme rotation_env \<Rightarrow> bool" where
  "env_steps e = (\<forall>db. store_step\<^sup>*\<^sup>* db (re_before e db) \<and> store_step\<^sup>*\<^sup>* db (re_between e db))"

definition rotated_to :: "vault \<Rightarrow> Scope \<Rightarrow> 'z gateway_db_scheme \<Rightarrow> 'z gateway_db_scheme \<Rightarrow> bool" where
  "rotated_to v s db db' =
     (let k = (scope_TenantID s, scope_ConnectionID s)
      in \<exists>old new p. db_sessions db k = Some old \<and> db' = db \<lparr> db_sessions := (db_sessions db)(k \<mapsto> new) \<rparr>
           \<and> env_Revision new = env_Revision old + 1 \<and> env_Ciphertext new = env_Ciphertext old
           \<and> Manager_Open (fst v) (snd v) s old = Inr p \<and> Manager_Open (fst v) (snd v) s new = Inr p)"

lemma rotate_attempt:
  assumes kw: "key_wrapper (snd v)" and run: "store_step\<^sup>*\<^sup>* db1 db2"
    and load: "db_sessions db1 (scope_TenantID s, scope_ConnectionID s) = Some e"
    and rw: "Manager_Rewrap (fst v) (snd v) s e rnd = Inr (e', changed)"
    and cas: "CompareAndSwapEncryptedSession f (scope_TenantID s) (scope_ConnectionID s) (env_Revision e) e' db2 = (Inr True, db3)"
  shows "rotated_to v s db2 db3"
proof -
  obtain old where old: "db_sessions db2 (scope_TenantID s, scope_ConnectionID s) = Some old" "env_Revision old = env_Revision e"
    and db3: "db3 = db2 \<lparr> db_sessions := (db_sessions db2)((scope_TenantID s, scope_ConnectionID s) \<mapsto>
      e' \<lparr> env_Revision := env_Revision e + 1 \<rparr>) \<rparr>"
    using cas_swapped [OF cas] by blast
  have "old = e" using session_run [OF run] load old unfolding session_le_def by fastforce
  moreover obtain p where "Manager_Open (fst v) (snd v) s e = Inr p" "Manager_Open (fst v) (snd v) s e' = Inr p"
      "env_Ciphertext e' = env_Ciphertext e"
    using key_wrapper.Rewrap_opens [OF kw rw] by blast
  ultimately show ?thesis using old db3 key_wrapper.Manager_Open_revision [OF kw] unfolding rotated_to_def Let_def
    by (intro exI [of _ e] exI [of _ "e' \<lparr> env_Revision := env_Revision e + 1 \<rparr>"] exI [of _ p]) simp
qed

lemma rotate_loop_swaps:
  assumes "key_wrapper (snd v)" "\<And>i. env_steps (env i)"
  shows "rotate_loop v s n env db = (Inr True, db') \<Longrightarrow> \<exists>db0. store_step\<^sup>*\<^sup>* db db0 \<and> rotated_to v s db0 db'"
proof (induction n arbitrary: db)
  case (Suc n)
  let ?t = "scope_TenantID s" and ?c = "scope_ConnectionID s"
  define db1 where "db1 = re_before (env n) db"
  define db2 where "db2 = re_between (env n) db1"
  have run: "store_step\<^sup>*\<^sup>* db db2" "store_step\<^sup>*\<^sup>* db1 db2"
    using assms(2) [of n] unfolding env_steps_def db1_def db2_def by (meson rtranclp_trans)+
  obtain e e' sw db3 where load: "db_sessions db1 (?t, ?c) = Some e"
    and rw: "Manager_Rewrap (fst v) (snd v) s e (re_rnd (env n)) = Inr (e', True)"
    and cas: "CompareAndSwapEncryptedSession (re_cas (env n)) ?t ?c (env_Revision e) e' db2 = (Inr sw, db3)"
    and cont: "if sw then db3 = db' else rotate_loop v s n env db3 = (Inr True, db')"
    using Suc.prems
    by (auto simp: db1_def [symmetric] db2_def [symmetric] split: option.splits sum.splits prod.splits if_splits
        dest!: load_value)
  show ?case
  proof (cases sw)
    case True
    then show ?thesis using run rotate_attempt [OF assms(1) run(2) load rw] cas cont by auto
  next
    case False
    have "store_step\<^sup>*\<^sup>* db db3" using run(1) s_cas [OF cas] by simp
    then show ?thesis using Suc.IH [of db3] cont False by (auto intro: rtranclp_trans)
  qed
qed simp

text \<open>
  C34. Rotation is safe and bounded. Whatever repository operations run concurrently, a rotation
  that reports a change replaced the envelope of one reachable database state by one with the same
  ciphertext and the next revision, which opens to the same plaintext; and it makes at most five
  attempts: the sixth environment is never consulted.
\<close>

theorem rotation_preserves_session:
  assumes "key_wrapper (snd v)" "\<And>i. env_steps (env i)" "Vault_Rotate v s env db = (Inr True, db')"
  shows "(\<exists>db0. store_step\<^sup>*\<^sup>* db db0 \<and> rotated_to v s db0 db')
    \<and> Vault_Rotate v s (\<lambda>i. if i < 5 then env i else other i) db = (Inr True, db')"
proof
  show "\<exists>db0. store_step\<^sup>*\<^sup>* db db0 \<and> rotated_to v s db0 db'"
    using rotate_loop_swaps [of v env s 5] assms unfolding Vault_Rotate_def by blast
  have "rotate_loop v s n (\<lambda>i. if i < 5 then env i else other i) d = rotate_loop v s n env d" if "n \<le> 5" for n d
    using that by (induction n arbitrary: d) (simp_all cong: option.case_cong sum.case_cong prod.case_cong if_cong)
  then show "Vault_Rotate v s (\<lambda>i. if i < 5 then env i else other i) db = (Inr True, db')"
    using assms(3) by (simp add: Vault_Rotate_def)
qed

section \<open>Witnesses\<close>

definition demo_vault :: vault where
  "demo_vault = (demo_suite, awskms (demo_kms 2))"

lemmas demo_vault_defs = demo_vault_def Manager_Seal_def demo_suite_def demo_scope_def demo_random_def Scope_valid_def
  ReadFull_def wrapped_ok_def aes_key_ok_def Envelope_Validate_def awskms_def awskms_UnwrapKey_def awskms_WrapKey_def demo_kms_def

lemma demo_vault_cas:
  "\<exists>db'. Vault_CompareAndSwapFenced demo_vault NoFault 10 demo_scope ''replica-a'' 4 3 ''secret'' demo_random demo_db = (Inr True, db')"
  by (simp add: Vault_CompareAndSwapFenced_def demo_vault_defs CompareAndSwapEncryptedSessionFenced_def Let_def
      owned_lease_def demo_db_defs cas_session_def inTenant_def)

lemma demo_vault_save:
  "\<exists>db'. Vault_Save demo_vault NoFault demo_scope ''secret'' demo_random demo_db = (None, db')"
  by (simp add: Vault_Save_def demo_vault_defs SaveEncryptedSession_def inTenantExec_def upsert_session_def demo_db_defs)

theorem vault_roundtrip_witness:
  "\<exists>db1 db2. Vault_CompareAndSwapFenced demo_vault NoFault 10 demo_scope ''replica-a'' 4 3 ''secret'' demo_random demo_db = (Inr True, db1)
     \<and> Vault_Save demo_vault NoFault demo_scope ''secret'' demo_random demo_db = (None, db2)
     \<and> Vault_LoadVersioned demo_vault NoFault demo_scope db1 = (Inr (''secret'', 4), db1)
     \<and> Vault_LoadVersioned demo_vault NoFault demo_scope db2 = (Inr (''secret'', 4), db2)"
proof -
  obtain db1 where c: "Vault_CompareAndSwapFenced demo_vault NoFault 10 demo_scope ''replica-a'' 4 3 ''secret'' demo_random demo_db = (Inr True, db1)"
    using demo_vault_cas by blast
  obtain db2 where s: "Vault_Save demo_vault NoFault demo_scope ''secret'' demo_random demo_db = (None, db2)"
    using demo_vault_save by blast
  have "key_wrapper (snd demo_vault)" using demo_kms_wrapper by (simp add: demo_vault_def)
  moreover have "db_sessions demo_db (scope_TenantID demo_scope, scope_ConnectionID demo_scope) = Some demo_session"
    by (simp add: demo_scope_def demo_db_def)
  moreover have "env_Revision demo_session = 3" by (simp add: demo_session_def)
  ultimately show ?thesis using vault_roundtrip [OF _ c s] c s by auto
qed

definition demo_rotation :: "gateway_db rotation_env" where
  "demo_rotation = \<lparr> re_ctx = None, re_before = id, re_load = NoFault, re_rnd = '''', re_between = id, re_cas = NoFault \<rparr>"

definition demo_rotation_db :: gateway_db where
  "demo_rotation_db = demo_db \<lparr> db_sessions := [(''t1'', ''c1'') \<mapsto> demo_envelope \<lparr> env_Revision := 3 \<rparr>] \<rparr>"

lemma demo_rotate:
  "\<exists>db'. Vault_Rotate demo_vault demo_scope (\<lambda>_. demo_rotation) demo_rotation_db = (Inr True, db')"
proof -
  let ?e = "demo_envelope \<lparr> env_Revision := 3 \<rparr>"
  have "\<exists>e'. Manager_Rewrap demo_suite (awskms (demo_kms 2)) demo_scope ?e '''' = Inr (e', True)"
    by (simp add: Manager_Rewrap_def manager_open_def demo_envelope_def demo_vault_defs)
  then obtain e' where rw: "Manager_Rewrap demo_suite (awskms (demo_kms 2)) demo_scope ?e '''' = Inr (e', True)" by blast
  then have "Envelope_Validate e' = None" using key_wrapper.Rewrap_opens [OF demo_kms_wrapper] by blast
  moreover have "Envelope_Validate ?e = None" by (simp add: demo_envelope_def Envelope_Validate_def)
  moreover have "5 = Suc 4" by simp
  ultimately show ?thesis using rw
    by (simp only: Vault_Rotate_def rotate_loop.simps)
      (simp add: demo_rotation_def demo_rotation_db_def LoadEncryptedSession_def inTenant_def demo_vault_def
        CompareAndSwapEncryptedSession_def cas_session_def, simp add: demo_scope_def)
qed

theorem rotation_preserves_session_witness:
  "\<exists>db0 db'. Vault_Rotate demo_vault demo_scope (\<lambda>_. demo_rotation) demo_rotation_db = (Inr True, db')
     \<and> store_step\<^sup>*\<^sup>* demo_rotation_db db0 \<and> rotated_to demo_vault demo_scope db0 db'"
proof -
  obtain db' where r: "Vault_Rotate demo_vault demo_scope (\<lambda>_. demo_rotation) demo_rotation_db = (Inr True, db')"
    using demo_rotate by blast
  have "key_wrapper (snd demo_vault)" using demo_kms_wrapper by (simp add: demo_vault_def)
  moreover have "env_steps demo_rotation" by (simp add: env_steps_def demo_rotation_def)
  ultimately show ?thesis using rotation_preserves_session [of demo_vault "\<lambda>_. demo_rotation", OF _ _ r] r by blast
qed

end
