(* ===== verification/Actor_Backoff.thy ===== *)
theory Actor_Backoff
  imports Gateway_Prelude
begin

text \<open>
  Reconnect delays of a connection actor (\<^verbatim>\<open>connectionactor/backoff.go\<close>): the capped doubling of
  the limit with its overflow guard, the full-jitter draw, and the delay between lease renewals
  (\<^verbatim>\<open>renewDelay\<close> of \<^verbatim>\<open>connectionactor/actor.go\<close>). Randomness is an explicit argument: the eight
  bytes \<^verbatim>\<open>crypto/rand\<close> returned, or the wall clock the code falls back to.
\<close>

section \<open>The jitter source\<close>

datatype entropy = RandRead "64 word" | ClockNanos int

definition cryptoInt63n :: "int \<Rightarrow> entropy \<Rightarrow> int" where
  "cryptoInt63n limit e =
     (if limit \<le> 1 then 0
      else case e of
        ClockNanos n \<Rightarrow> go_mod n limit
      | RandRead w \<Rightarrow> go_mod (uint (and w (drop_bit 1 (not 0)))) limit)"

definition entropy_ok :: "entropy \<Rightarrow> bool" where
  "entropy_ok e = (case e of ClockNanos n \<Rightarrow> 0 \<le> n | RandRead _ \<Rightarrow> True)"

section \<open>Backoff\<close>

definition defaultBackoffBase :: duration where "defaultBackoffBase = 2 * second"
definition defaultBackoffCap :: duration where "defaultBackoffCap = 5 * minute"

record BackoffConfig =
  cfg_Base :: duration
  cfg_Cap :: duration
  cfg_Int63n :: "(int \<Rightarrow> entropy \<Rightarrow> int) option"

record Backoff =
  bo_base :: duration
  bo_cap :: duration
  bo_int63n :: "int \<Rightarrow> entropy \<Rightarrow> int"
  bo_failures :: nat

definition NewBackoff :: "BackoffConfig \<Rightarrow> Backoff result" where
  "NewBackoff config =
     (let base = (if cfg_Base config = 0 then defaultBackoffBase else cfg_Base config);
          cap = (if cfg_Cap config = 0 then defaultBackoffCap else cfg_Cap config)
      in if base \<le> 0 \<or> cap < base then Inl (Sentinel ErrInvalidConfig)
         else Inr \<lparr> bo_base = base, bo_cap = cap,
                    bo_int63n = (case cfg_Int63n config of None \<Rightarrow> cryptoInt63n | Some f \<Rightarrow> f),
                    bo_failures = 0 \<rparr>)"

text \<open>
  The loop of \<^verbatim>\<open>Fail\<close>, from a given exponent and limit. The doubling is int64 arithmetic.
\<close>

function limit_loop :: "nat \<Rightarrow> int \<Rightarrow> nat \<Rightarrow> int \<Rightarrow> int" where
  "limit_loop failures cap exponent limit =
     (if exponent < failures \<and> limit < cap then
        if limit > go_div cap 2 then cap
        else limit_loop failures cap (Suc exponent) (wrap64 (limit * 2))
      else limit)"
  by pat_completeness auto
termination by (relation "measure (\<lambda>(f, c, e, l). f - e)") auto

declare limit_loop.simps [simp del]

definition Backoff_Fail :: "Backoff \<Rightarrow> entropy \<Rightarrow> duration \<times> Backoff" where
  "Backoff_Fail b e =
     (let failures = (bo_failures b + 1) mod 2 ^ 64;
          limit = limit_loop failures (bo_cap b) 1 (bo_base b);
          limit = (if limit > bo_cap b then bo_cap b else limit)
      in (bo_int63n b limit e, b \<lparr> bo_failures := failures \<rparr>))"

definition Backoff_Ready :: "Backoff \<Rightarrow> Backoff" where
  "Backoff_Ready b = b \<lparr> bo_failures := 0 \<rparr>"

definition Backoff_Failures :: "Backoff \<Rightarrow> nat" where
  "Backoff_Failures b = bo_failures b"

definition renewDelay :: "duration \<Rightarrow> entropy \<Rightarrow> duration" where
  "renewDelay leaseTTL e =
     (let base = go_div leaseTTL 3; jitterRange = go_div leaseTTL 6
      in if jitterRange \<le> 0 then base else base + cryptoInt63n jitterRange e)"

section \<open>The contract of a jitter source\<close>

text \<open>
  What \<^verbatim>\<open>Fail\<close> and the renewal timer need of \<^verbatim>\<open>Int63n\<close>: a value in \<open>[0, limit)\<close> for every positive
  limit. The gateway's own source provides it.
\<close>

locale jitter_source =
  fixes draw :: "int \<Rightarrow> entropy \<Rightarrow> int" and good :: "entropy \<Rightarrow> bool"
  assumes draw_range: "0 < limit \<Longrightarrow> limit < 2 ^ 63 \<Longrightarrow> good e \<Longrightarrow> 0 \<le> draw limit e \<and> draw limit e < limit"
begin

lemma draw_shifted:
  assumes "0 < r" "r < 2 ^ 63" "good e"
  shows "b \<le> b + draw r e \<and> b + draw r e < b + r"
  using draw_range [OF assms] by simp

end

interpretation crypto: jitter_source cryptoInt63n entropy_ok
proof
  fix limit :: int and e assume "0 < limit" "entropy_ok e"
  then show "0 \<le> cryptoInt63n limit e \<and> cryptoInt63n limit e < limit"
    by (cases e) (auto simp: cryptoInt63n_def entropy_ok_def)
qed

section \<open>The limit is the capped power\<close>

lemma limit_loop_capped:
  assumes "0 < limit" "limit \<le> cap" "cap < 2 ^ 63"
  shows "limit_loop failures cap exponent limit = min cap (limit * 2 ^ (failures - exponent))"
  using assms
proof (induction failures cap exponent limit rule: limit_loop.induct)
  case (1 failures cap exponent limit)
  show ?case
  proof (cases "exponent < failures \<and> limit < cap")
    case False
    then show ?thesis
      using "1.prems" by (auto simp: limit_loop.simps min_def mult_le_cancel_left1)
  next
    case True
    then obtain k where k: "failures - exponent = Suc k" "failures - Suc exponent = k"
      by (metis Suc_diff_Suc)
    show ?thesis
    proof (cases "limit > cap div 2")
      case big: True
      have "cap \<le> (limit * 2) * 1" using big by linarith
      also have "\<dots> \<le> (limit * 2) * 2 ^ k" using "1.prems" by (intro mult_left_mono) simp_all
      finally have "cap \<le> limit * 2 ^ Suc k" by (simp add: mult.assoc)
      with True big "1.prems" k show ?thesis by (simp add: limit_loop.simps)
    next
      case False
      then have "limit * 2 \<le> cap" by linarith
      with True False "1.IH" "1.prems" k show ?thesis
        by (simp add: limit_loop.simps mult.assoc mult.commute)
    qed
  qed
qed

lemma Backoff_Fail_limit:
  assumes "0 < bo_base b" "bo_base b \<le> bo_cap b" "bo_cap b < 2 ^ 63" "bo_failures b < 2 ^ 64 - 1"
  shows "Backoff_Fail b e =
    (bo_int63n b (min (bo_cap b) (bo_base b * 2 ^ bo_failures b)) e,
     b \<lparr> bo_failures := bo_failures b + 1 \<rparr>)"
  using assms by (simp add: Backoff_Fail_def limit_loop_capped Let_def)

text \<open>
  C23. Reconnect backoff keeps the documented bound: for every accepted configuration with the
  gateway's own randomness, after \<open>n\<close> earlier failures a further failure counts \<open>n + 1\<close> and
  waits a time in \<open>[0, min(cap, base * 2 ^ n))\<close>. The doubling never overflows int64, whatever
  the cap and however long the streak is.
\<close>

theorem backoff_full_jitter:
  assumes "NewBackoff config = Inr b0" "cfg_Int63n config = None" "cfg_Cap config < 2 ^ 63"
    "n < 2 ^ 64 - 1" "entropy_ok e"
    "Backoff_Fail (b0 \<lparr> bo_failures := n \<rparr>) e = (delay, b)"
  shows "0 \<le> delay \<and> delay < min (bo_cap b0) (bo_base b0 * 2 ^ n) \<and> bo_failures b = n + 1
    \<and> bo_failures (Backoff_Ready b) = 0"
proof -
  have wf: "0 < bo_base b0" "bo_base b0 \<le> bo_cap b0" "bo_cap b0 < 2 ^ 63" "bo_int63n b0 = cryptoInt63n"
    using assms(1-3)
    by (auto simp: NewBackoff_def Let_def defaultBackoffBase_def defaultBackoffCap_def split: if_splits)
  let ?l = "min (bo_cap b0) (bo_base b0 * 2 ^ n)"
  have "Backoff_Fail (b0 \<lparr> bo_failures := n \<rparr>) e = (cryptoInt63n ?l e, b0 \<lparr> bo_failures := n + 1 \<rparr>)"
    using wf assms(4) by (subst Backoff_Fail_limit) simp_all
  moreover have "0 < ?l" "?l < 2 ^ 63" using wf by (auto simp: min_def)
  ultimately show ?thesis
    using assms(5,6) crypto.draw_range [of ?l e] by (auto simp: Backoff_Ready_def)
qed

theorem backoff_full_jitter_witness:
  "\<exists>b. NewBackoff \<lparr> cfg_Base = 0, cfg_Cap = 0, cfg_Int63n = None \<rparr> = Inr b
     \<and> fst (Backoff_Fail (b \<lparr> bo_failures := 10 \<rparr>) (RandRead 7)) < 5 * minute"
proof -
  let ?c = "\<lparr> cfg_Base = 0, cfg_Cap = 0, cfg_Int63n = None \<rparr>"
  let ?b = "\<lparr> bo_base = 2 * second, bo_cap = 5 * minute, bo_int63n = cryptoInt63n, bo_failures = 0 \<rparr>"
  have b: "NewBackoff ?c = Inr ?b"
    by (simp add: NewBackoff_def defaultBackoffBase_def defaultBackoffCap_def)
  obtain delay b' where r: "Backoff_Fail (?b \<lparr> bo_failures := 10 \<rparr>) (RandRead 7) = (delay, b')"
    by fastforce
  have "delay < min (5 * minute) (2 * second * 2 ^ 10)"
    using backoff_full_jitter [OF b _ _ _ _ r] by (simp add: entropy_ok_def)
  with b r show ?thesis by simp
qed

text \<open>
  A lease is renewed well before it expires: for every TTL an actor accepts (3 seconds to
  10 minutes) the delay before each renewal is at least a third and less than half of the TTL, so
  a second renewal still fits when the first one fails to arrive.
\<close>

theorem renewDelay_bounds:
  assumes "3 * second \<le> ttl" "ttl \<le> 10 * minute" "entropy_ok e"
  shows "ttl div 3 \<le> renewDelay ttl e \<and> 2 * renewDelay ttl e < ttl"
proof -
  have r: "0 < ttl div 6" "ttl div 6 < 2 ^ 63" using assms(1,2) by simp_all
  have "renewDelay ttl e = ttl div 3 + cryptoInt63n (ttl div 6) e"
    using assms(1) r by (simp add: renewDelay_def)
  with crypto.draw_shifted [OF r assms(3), of "ttl div 3"] show ?thesis by linarith
qed

theorem renewDelay_bounds_witness: "2 * renewDelay (30 * second) (RandRead 12345) < 30 * second"
  using renewDelay_bounds [of "30 * second" "RandRead 12345"] by (simp add: entropy_ok_def)

end
