(* ===== verification/Connection_Actor.thy ===== *)
theory Connection_Actor
  imports Session_Vault Actor_Backoff
begin

text \<open>
  The connection actor (\<^verbatim>\<open>connectionactor/actor.go\<close>): one run holds the lease of a connection,
  restores a provider from the stored session and runs provider generations one after the other
  until something stops it. The goroutines around the actor are a schedule: the list of what
  happens, in order. An entry is something another goroutine does (the provider emits an event or a
  session, a client submits an operation, the context is cancelled) or the case the select
  statement of the generation loop takes. An entry whose channel is not ready is not enabled, and
  the step is \<open>None\<close>. Every store call is the repository operation of the model, on the database as
  other transactions left it. A trace records what the actor did.
\<close>

section \<open>Keys and sessions\<close>

definition Key_valid :: "ckey \<Rightarrow> bool" where
  "Key_valid key = (fst key \<noteq> '''' \<and> snd key \<noteq> '''')"

record SessionSnapshot =
  ss_Plaintext :: string
  ss_Revision :: nat

record VaultSessionStore =
  vs_vault :: vault
  vs_provider :: string

definition NewVaultSessionStore :: "vault option \<Rightarrow> string \<Rightarrow> VaultSessionStore result" where
  "NewVaultSessionStore v provider =
     (case v of
        None \<Rightarrow> Inl (Sentinel ErrInvalidConfig)
      | Some v \<Rightarrow> if provider = '''' \<or> length provider > 64 then Inl (Sentinel ErrInvalidConfig)
                   else Inr \<lparr> vs_vault = v, vs_provider = provider \<rparr>)"

definition vault_scope :: "VaultSessionStore \<Rightarrow> ckey \<Rightarrow> Scope" where
  "vault_scope st key = \<lparr> scope_TenantID = fst key, scope_ConnectionID = snd key, scope_Provider = vs_provider st \<rparr>"

definition sessions_LoadVersioned ::
  "VaultSessionStore \<Rightarrow> fault \<Rightarrow> ckey \<Rightarrow> 'z gateway_db_scheme \<Rightarrow> SessionSnapshot result \<times> 'z gateway_db_scheme" where
  "sessions_LoadVersioned st f key db =
     (case Vault_LoadVersioned (vs_vault st) f (vault_scope st key) db of
        (Inl e, db') \<Rightarrow> (Inl e, db')
      | (Inr (p, r), db') \<Rightarrow> (Inr \<lparr> ss_Plaintext = p, ss_Revision = r \<rparr>, db'))"

definition sessions_CompareAndSwapFenced ::
  "VaultSessionStore \<Rightarrow> fault \<Rightarrow> instant \<Rightarrow> seal_random \<Rightarrow> ckey \<Rightarrow> owner_id \<Rightarrow> token \<Rightarrow> nat \<Rightarrow> string
   \<Rightarrow> 'z gateway_db_scheme \<Rightarrow> bool result \<times> 'z gateway_db_scheme" where
  "sessions_CompareAndSwapFenced st f now rnd key ownerID fencingToken expectedRevision plaintext db =
     Vault_CompareAndSwapFenced (vs_vault st) f now (vault_scope st key) ownerID fencingToken expectedRevision plaintext rnd db"

section \<open>Configuration\<close>

text \<open>
  The store and the provider factory of a configuration are given or nil; the clocks, timers and
  the metrics sink are always replaced by defaults when nil and have no field here.
\<close>

record ActorConfig =
  acfg_OwnerID :: owner_id
  acfg_Store :: bool
  acfg_Sessions :: "VaultSessionStore option"
  acfg_Providers :: bool
  acfg_LeaseTTL :: duration
  acfg_SessionDebounce :: duration
  acfg_Backoff :: BackoffConfig
  acfg_OperationQueueSize :: int
  acfg_JoinTimeout :: duration

record Actor =
  ac_ownerID :: owner_id
  ac_sessions :: VaultSessionStore
  ac_leaseTTL :: duration
  ac_sessionDebounce :: duration
  ac_backoffConfig :: BackoffConfig
  ac_queueSize :: nat
  ac_joinTimeout :: duration

definition NewActor :: "ActorConfig \<Rightarrow> Actor result" where
  "NewActor config =
     (let invalid = Sentinel ErrInvalidConfig;
          ttl = (if acfg_LeaseTTL config = 0 then 30 * second else acfg_LeaseTTL config);
          debounce = (if acfg_SessionDebounce config = 0 then 500 * millisecond else acfg_SessionDebounce config);
          queue = (if acfg_OperationQueueSize config = 0 then 64 else acfg_OperationQueueSize config);
          join = (if acfg_JoinTimeout config = 0 then 5 * second else acfg_JoinTimeout config)
      in if acfg_OwnerID config = '''' \<or> length (acfg_OwnerID config) > 256 \<or> \<not> acfg_Store config \<or> \<not> acfg_Providers config
         then Inl invalid
         else case acfg_Sessions config of None \<Rightarrow> Inl invalid | Some sessions \<Rightarrow>
           if ttl < 3 * second \<or> ttl > 10 * minute then Inl invalid
           else if debounce < 0 \<or> debounce > minute then Inl invalid
           else if queue < 1 \<or> queue > 1024 then Inl invalid
           else if join < 10 * millisecond \<or> join > 30 * second then Inl invalid
           else case NewBackoff (acfg_Backoff config) of
             Inl e \<Rightarrow> Inl e
           | Inr _ \<Rightarrow> Inr \<lparr> ac_ownerID = acfg_OwnerID config, ac_sessions = sessions, ac_leaseTTL = ttl,
                        ac_sessionDebounce = debounce, ac_backoffConfig = acfg_Backoff config,
                        ac_queueSize = nat queue, ac_joinTimeout = join \<rparr>)"

section \<open>Operations of clients\<close>

text \<open>A request is identified by its result channel.\<close>

record providerOperationRequest =
  rq_result :: nat
  rq_runID :: nat
  rq_key :: ckey

record operation_state =
  op_queue :: "providerOperationRequest list"
  op_key :: ckey
  op_runID :: nat
  op_active :: bool
  op_ready :: bool

datatype effect =
    ActorState string | LeaseAcquired | LeaseLost | Reconnect string | BackoffMetric string duration
  | HealthWrite ConnectionActorHealth "bool result"
  | LeaseRenew "bool result"
  | SessionSwap string nat "bool result"
  | MarkReauthorization "bool result"
  | Restored string
  | OperationStarted providerOperationRequest owner_id token
  | Answered nat goerror
  | Disconnected bool
  | Submitted nat
  | SessionReported string

text \<open>
  \<^verbatim>\<open>Execute\<close> up to the send: what it returns at once, or the request it sends.
\<close>

definition Execute_request :: "goerror \<Rightarrow> ckey \<Rightarrow> nat \<Rightarrow> operation_state \<Rightarrow> providerOperationRequest result" where
  "Execute_request ctxErr key result ops =
     (case ctxErr of
        Some e \<Rightarrow> Inl e
      | None \<Rightarrow>
          if \<not> Key_valid key then Inl (Sentinel ErrInvalidConfig)
          else if \<not> op_active ops \<or> \<not> op_ready ops \<or> op_key ops \<noteq> key then Inl (Sentinel ErrProviderUnavailable)
          else Inr \<lparr> rq_result = result, rq_runID = op_runID ops, rq_key = key \<rparr>)"

definition beginOperationRun :: "ckey \<Rightarrow> operation_state \<Rightarrow> nat result \<times> operation_state \<times> effect list" where
  "beginOperationRun key ops =
     (if op_active ops then (Inl (Sentinel ErrInvalidConfig), ops, [])
      else (Inr (op_runID ops + 1),
            \<lparr> op_queue = [], op_key = key, op_runID = op_runID ops + 1, op_active = True, op_ready = False \<rparr>,
            map (\<lambda>stale. Answered (rq_result stale) (Some (Sentinel ErrProviderUnavailable))) (op_queue ops)))"

definition setOperationReady :: "nat \<Rightarrow> bool \<Rightarrow> operation_state \<Rightarrow> operation_state" where
  "setOperationReady runID ready ops =
     (if op_active ops \<and> op_runID ops = runID then ops \<lparr> op_ready := ready \<rparr> else ops)"

definition endOperationRun :: "nat \<Rightarrow> operation_state \<Rightarrow> operation_state \<times> effect list" where
  "endOperationRun runID ops =
     (let ops' = (if op_active ops \<and> op_runID ops = runID then ops \<lparr> op_active := False, op_ready := False \<rparr> else ops)
      in (ops' \<lparr> op_queue := [] \<rparr>,
          map (\<lambda>r. Answered (rq_result r) (Some (Sentinel ErrProviderUnavailable))) (op_queue ops')))"

section \<open>Provider callbacks\<close>

datatype providerEvent = EventReady | EventFrame | EventPhoneResponse | EventSessionChanged string

record providerCallbacks =
  cb_events :: "providerEvent list"
  cb_sessions :: "string option"
  cb_active :: bool

definition newProviderCallbacks :: providerCallbacks where
  "newProviderCallbacks = \<lparr> cb_events = [], cb_sessions = None, cb_active = True \<rparr>"

definition callbacks_send :: "goerror \<Rightarrow> providerEvent \<Rightarrow> providerCallbacks \<Rightarrow> providerCallbacks" where
  "callbacks_send ctxErr event cb =
     (if ctxErr \<noteq> None \<or> \<not> cb_active cb then cb
      else if length (cb_events cb) < 64 then cb \<lparr> cb_events := cb_events cb @ [event] \<rparr>
      else cb)"

definition replaceSession :: "string \<Rightarrow> providerCallbacks \<Rightarrow> providerCallbacks" where
  "replaceSession plaintext cb = (if \<not> cb_active cb then cb else cb \<lparr> cb_sessions := Some plaintext \<rparr>)"

definition takeLatest :: "providerCallbacks \<Rightarrow> string \<times> providerCallbacks" where
  "takeLatest cb =
     (case cb_sessions cb of None \<Rightarrow> ('''', cb) | Some latest \<Rightarrow> (latest, cb \<lparr> cb_sessions := None \<rparr>))"

definition stopAcceptingAndTakeLatest :: "providerCallbacks \<Rightarrow> string \<times> providerCallbacks" where
  "stopAcceptingAndTakeLatest cb = takeLatest (cb \<lparr> cb_active := False \<rparr>)"

section \<open>The state of a run\<close>

text \<open>
  The surroundings of a store call: what other transactions did to the database before it, its
  fault, the database clock, the clock of the process, the random bytes a seal reads, the event
  identifier a reauthorization generates and the encoding of its event.
\<close>

record 'db call =
  c_env :: "'db \<Rightarrow> 'db"
  c_fault :: fault
  c_now :: instant
  c_wall :: instant
  c_rnd :: seal_random
  c_eventID :: string
  c_codec :: codec

record 'z run_state =
  rs_db :: "'z gateway_db_scheme"
  rs_ops :: operation_state
  rs_log :: "effect list"
  rs_ctx :: goerror
  rs_snapshot :: SessionSnapshot
  rs_backoff :: Backoff
  rs_health :: ConnectionActorHealth
  rs_callbacks :: providerCallbacks
  rs_pending :: string
  rs_debounce :: bool
  rs_operation :: "providerOperationRequest option"

type_synonym 'z dbcall = "'z gateway_db_scheme call"

definition emit :: "effect list \<Rightarrow> 'z run_state \<Rightarrow> 'z run_state" where
  "emit es s = s \<lparr> rs_log := rs_log s @ es \<rparr>"

definition writeHealth :: "Actor \<Rightarrow> 'z dbcall \<Rightarrow> ckey \<Rightarrow> token \<Rightarrow> 'z run_state \<Rightarrow> bool result \<times> 'z run_state" where
  "writeHealth actor c key tok s =
     (let health = (rs_health s) \<lparr> h_FencingToken := tok, h_UpdatedAt := c_wall c \<rparr>;
          (r, db') = WriteConnectionHealthFenced (c_fault c) (c_now c) (fst key) (snd key) (ac_ownerID actor) tok health
                       (c_env c (rs_db s))
      in (r, emit [ActorState (h_ActorState health), HealthWrite health r] (s \<lparr> rs_health := health, rs_db := db' \<rparr>)))"

definition writeHealthDetached :: "Actor \<Rightarrow> 'z dbcall \<Rightarrow> ckey \<Rightarrow> token \<Rightarrow> 'z run_state \<Rightarrow> 'z run_state" where
  "writeHealthDetached actor c key tok s = snd (writeHealth actor c key tok s)"

definition renewLease :: "Actor \<Rightarrow> 'z dbcall \<Rightarrow> ckey \<Rightarrow> token \<Rightarrow> 'z run_state \<Rightarrow> bool result \<times> 'z run_state" where
  "renewLease actor c key tok s =
     (let (r, db') = RenewConnectionLease (c_fault c) (c_now c) (fst key) (snd key) (ac_ownerID actor) tok (ac_leaseTTL actor)
                       (c_env c (rs_db s))
      in (r, emit [LeaseRenew r] (s \<lparr> rs_db := db' \<rparr>)))"

definition flushPendingSession :: "Actor \<Rightarrow> 'z dbcall \<Rightarrow> ckey \<Rightarrow> token \<Rightarrow> 'z run_state \<Rightarrow> bool result \<times> 'z run_state" where
  "flushPendingSession actor c key tok s =
     (if rs_pending s = [] then (Inr True, s)
      else let (r, db') = sessions_CompareAndSwapFenced (ac_sessions actor) (c_fault c) (c_now c) (c_rnd c) key (ac_ownerID actor)
                            tok (ss_Revision (rs_snapshot s)) (rs_pending s) (c_env c (rs_db s));
               s' = emit [SessionSwap (rs_pending s) (ss_Revision (rs_snapshot s)) r] (s \<lparr> rs_db := db', rs_pending := [] \<rparr>)
           in if r = Inr True
              then (r, s' \<lparr> rs_snapshot := \<lparr> ss_Plaintext = rs_pending s, ss_Revision = ss_Revision (rs_snapshot s) + 1 \<rparr> \<rparr>)
              else (r, s'))"

definition markReauthorization :: "Actor \<Rightarrow> 'z dbcall \<Rightarrow> ckey \<Rightarrow> token \<Rightarrow> 'z run_state \<Rightarrow> bool result \<times> 'z run_state" where
  "markReauthorization actor c key tok s =
     (let (r, db') = MarkReauthorizationRequiredFenced (c_codec c) (c_fault c) (c_now c) (c_wall c) (c_eventID c)
                       (fst key) (snd key) (ac_ownerID actor) tok (c_env c (rs_db s))
      in (r, emit [MarkReauthorization r] (s \<lparr> rs_db := db' \<rparr>)))"

section \<open>Provider errors and health\<close>

definition terminalProviderError :: "goerror \<Rightarrow> bool" where
  "terminalProviderError err =
     (Is err ErrStaleGeneration \<or> Is err ErrSharedInfrastructure \<or> Is err ErrProviderAuthorization
      \<or> Is err ErrProviderPermanentConfig \<or> Is err ErrProviderPermanentProtocol)"

definition set_health :: "string \<Rightarrow> ConnectionState \<Rightarrow> string \<Rightarrow> ConnectionActorHealth \<Rightarrow> ConnectionActorHealth" where
  "set_health actorState connectionState reason h =
     h \<lparr> h_ActorState := actorState, h_ConnectionState := connectionState, h_LastSafeReason := reason \<rparr>"

text \<open>The result is the new health and whether the lease-lost metric is counted, or nothing.\<close>

definition applyTerminalProviderHealth ::
  "goerror \<Rightarrow> ConnectionActorHealth \<Rightarrow> (ConnectionActorHealth \<times> effect list) option" where
  "applyTerminalProviderHealth providerErr h =
     (let done = (\<lambda>h es. Some (h \<lparr> h_CurrentBackoff := 0 \<rparr>, es)) in
      if Is providerErr ErrStaleGeneration
      then done (set_health ''lease-lost'' ConnectionStateDisconnected ''lease-lost'' h) [LeaseLost]
      else if Is providerErr ErrSharedInfrastructure
      then done (set_health ''stopped'' ConnectionStateDegraded ''shared-infrastructure'' h) []
      else if Is providerErr ErrProviderAuthorization
      then done (set_health ''stopped'' ConnectionStateDegraded ''provider-auth'' h) []
      else if Is providerErr ErrProviderPermanentConfig
      then done (set_health ''stopped'' ConnectionStateDegraded ''provider-config'' h) []
      else if Is providerErr ErrProviderPermanentProtocol
      then done (set_health ''stopped'' ConnectionStateDegraded ''provider-protocol'' h) []
      else None)"

definition joinError :: "bool \<Rightarrow> bool \<Rightarrow> goerror" where
  "joinError disconnectJoined connectJoined =
     (if disconnectJoined \<and> connectJoined then None else Some (Sentinel ErrProviderJoinTimeout))"

section \<open>The generation loop\<close>

datatype generationExitKind =
  generationExitShutdown | generationExitLeaseLost | generationExitSessionConflict | generationExitProvider

record generationExit =
  ge_kind :: generationExitKind
  ge_err :: goerror
  ge_providerErr :: goerror
  ge_providerJoined :: bool

definition exit_with :: "generationExitKind \<Rightarrow> goerror \<Rightarrow> generationExit" where
  "exit_with kind err = \<lparr> ge_kind = kind, ge_err = err, ge_providerErr = None, ge_providerJoined = False \<rparr>"

definition result_err :: "'a result \<Rightarrow> goerror" where
  "result_err r = (case r of Inl e \<Rightarrow> Some e | Inr _ \<Rightarrow> None)"

datatype 'z gen_event =
    EmitEvent providerEvent
  | EmitSession string
  | Submit providerOperationRequest
  | CancelContext err
  | SelectDone
  | SelectRenew "'z dbcall"
  | SelectEvent "'z dbcall"
  | SelectOperation bool
  | SelectResult goerror
  | SelectSession
  | SelectDebounce "'z dbcall"
  | SelectConnect goerror

definition submit :: "providerOperationRequest \<Rightarrow> 'z run_state \<Rightarrow> 'z run_state" where
  "submit request s =
     emit [Submitted (rq_result request)] (s \<lparr> rs_ops := (rs_ops s) \<lparr> op_queue := op_queue (rs_ops s) @ [request] \<rparr> \<rparr>)"

type_synonym 'z select_result = "(generationExit option \<times> 'z run_state) option"

text \<open>A failed fenced call leaves the loop as a shutdown when the context is done.\<close>

definition fence_exit :: "bool result \<Rightarrow> 'z run_state \<Rightarrow> generationExit" where
  "fence_exit r s =
     (if rs_ctx s \<noteq> None then exit_with generationExitShutdown None
      else exit_with generationExitLeaseLost (result_err r))"

definition select_renew :: "Actor \<Rightarrow> ckey \<Rightarrow> token \<Rightarrow> 'z dbcall \<Rightarrow> 'z run_state \<Rightarrow> 'z select_result" where
  "select_renew actor key tok c s =
     (case renewLease actor c key tok s of
        (r, s') \<Rightarrow> if r = Inr True then Some (None, s') else Some (Some (fence_exit r s'), s'))"

definition store_pending :: "string \<Rightarrow> 'z run_state \<Rightarrow> 'z run_state" where
  "store_pending session s = s \<lparr> rs_pending := session, rs_debounce := True \<rparr>"

text \<open>Publishing the health after a provider event; a ready generation then accepts operations.\<close>

definition publish_health ::
  "Actor \<Rightarrow> ckey \<Rightarrow> token \<Rightarrow> nat \<Rightarrow> 'z dbcall \<Rightarrow> bool \<Rightarrow> 'z run_state \<Rightarrow> 'z select_result" where
  "publish_health actor key tok runID c ready s =
     (case writeHealth actor c key tok s of
        (r, s') \<Rightarrow>
          if r \<noteq> Inr True then Some (Some (fence_exit r s'), s')
          else if ready then Some (None, s' \<lparr> rs_ops := setOperationReady runID True (rs_ops s') \<rparr>)
          else Some (None, s'))"

definition select_event :: "Actor \<Rightarrow> ckey \<Rightarrow> token \<Rightarrow> nat \<Rightarrow> 'z dbcall \<Rightarrow> 'z run_state \<Rightarrow> 'z select_result" where
  "select_event actor key tok runID c s =
     (case cb_events (rs_callbacks s) of
        [] \<Rightarrow> None
      | event # rest \<Rightarrow>
          let s1 = s \<lparr> rs_callbacks := (rs_callbacks s) \<lparr> cb_events := rest \<rparr> \<rparr>; h = rs_health s;
              publish = publish_health actor key tok runID c
          in case event of
               EventReady \<Rightarrow> publish True (s1 \<lparr> rs_backoff := Backoff_Ready (rs_backoff s),
                  rs_health := (set_health ''ready'' ConnectionStateConnected ''none'' h)
                                 \<lparr> h_ConnectedAt := Some (c_wall c), h_CurrentBackoff := 0 \<rparr> \<rparr>)
             | EventFrame \<Rightarrow> publish False (s1 \<lparr> rs_health := h \<lparr> h_LastFrameAt := Some (c_wall c) \<rparr> \<rparr>)
             | EventPhoneResponse \<Rightarrow> publish False (s1 \<lparr> rs_health := h \<lparr> h_LastPhoneResponseAt := Some (c_wall c) \<rparr> \<rparr>)
             | EventSessionChanged session \<Rightarrow> Some (None, store_pending session s1))"

text \<open>The operation queue is selected only while no operation runs and the generation is ready.\<close>

definition select_operation :: "Actor \<Rightarrow> ckey \<Rightarrow> token \<Rightarrow> nat \<Rightarrow> bool \<Rightarrow> 'z run_state \<Rightarrow> 'z select_result" where
  "select_operation actor key tok runID requestCancelled s =
     (if rs_operation s \<noteq> None \<or> h_ActorState (rs_health s) \<noteq> ''ready'' then None
      else case op_queue (rs_ops s) of
        [] \<Rightarrow> None
      | request # rest \<Rightarrow>
          let s1 = s \<lparr> rs_ops := (rs_ops s) \<lparr> op_queue := rest \<rparr> \<rparr>
          in if rq_runID request \<noteq> runID \<or> rq_key request \<noteq> key \<or> requestCancelled
             then Some (None, emit [Answered (rq_result request) (Some (Sentinel ErrProviderUnavailable))] s1)
             else Some (None, emit [OperationStarted request (ac_ownerID actor) tok] (s1 \<lparr> rs_operation := Some request \<rparr>)))"

definition select_result :: "goerror \<Rightarrow> 'z run_state \<Rightarrow> 'z select_result" where
  "select_result operationErr s =
     (case rs_operation s of
        None \<Rightarrow> None
      | Some request \<Rightarrow> Some (None, emit [Answered (rq_result request) operationErr] (s \<lparr> rs_operation := None \<rparr>)))"

definition select_session :: "'z run_state \<Rightarrow> 'z select_result" where
  "select_session s =
     (case cb_sessions (rs_callbacks s) of
        None \<Rightarrow> None
      | Some session \<Rightarrow>
          Some (None, store_pending session (s \<lparr> rs_callbacks := (rs_callbacks s) \<lparr> cb_sessions := None \<rparr> \<rparr>)))"

definition take_into_pending :: "string \<times> providerCallbacks \<Rightarrow> 'z run_state \<Rightarrow> 'z run_state" where
  "take_into_pending taken s =
     s \<lparr> rs_callbacks := snd taken, rs_pending := (if fst taken = [] then rs_pending s else fst taken) \<rparr>"

definition select_debounce :: "Actor \<Rightarrow> ckey \<Rightarrow> token \<Rightarrow> 'z dbcall \<Rightarrow> 'z run_state \<Rightarrow> 'z select_result" where
  "select_debounce actor key tok c s =
     (if \<not> rs_debounce s then None
      else let s1 = take_into_pending (takeLatest (rs_callbacks s)) (s \<lparr> rs_debounce := False \<rparr>)
           in if rs_ctx s1 \<noteq> None then Some (Some (exit_with generationExitShutdown None), s1)
              else case flushPendingSession actor c key tok s1 of
                (r, s2) \<Rightarrow> if r = Inr True then Some (None, s2)
                           else Some (Some (exit_with generationExitSessionConflict (result_err r)), s2))"

definition select_connect :: "goerror \<Rightarrow> 'z run_state \<Rightarrow> generationExit" where
  "select_connect connectErr s =
     (if terminalProviderError connectErr
      then \<lparr> ge_kind = generationExitProvider, ge_err = None, ge_providerErr = connectErr, ge_providerJoined = True \<rparr>
      else if rs_ctx s \<noteq> None \<or> Is connectErr ContextCanceled
      then \<lparr> ge_kind = generationExitShutdown, ge_err = None, ge_providerErr = None, ge_providerJoined = True \<rparr>
      else \<lparr> ge_kind = generationExitProvider, ge_err = None, ge_providerErr = connectErr, ge_providerJoined = True \<rparr>)"

fun gen_step :: "Actor \<Rightarrow> ckey \<Rightarrow> token \<Rightarrow> nat \<Rightarrow> 'z gen_event \<Rightarrow> 'z run_state \<Rightarrow> 'z select_result" where
  "gen_step actor key tok runID (EmitEvent e) s =
     Some (None, s \<lparr> rs_callbacks := callbacks_send (rs_ctx s) e (rs_callbacks s) \<rparr>)"
| "gen_step actor key tok runID (EmitSession p) s =
     Some (None, emit [SessionReported p] (s \<lparr> rs_callbacks := replaceSession p (rs_callbacks s) \<rparr>))"
| "gen_step actor key tok runID (Submit request) s =
     (if length (op_queue (rs_ops s)) < ac_queueSize actor
      then Some (None, submit request s)
      else None)"
| "gen_step actor key tok runID (CancelContext e) s =
     Some (None, if rs_ctx s = None then s \<lparr> rs_ctx := Some e \<rparr> else s)"
| "gen_step actor key tok runID SelectDone s =
     (if rs_ctx s = None then None else Some (Some (exit_with generationExitShutdown None), s))"
| "gen_step actor key tok runID (SelectRenew c) s = select_renew actor key tok c s"
| "gen_step actor key tok runID (SelectEvent c) s = select_event actor key tok runID c s"
| "gen_step actor key tok runID (SelectOperation cancelled) s = select_operation actor key tok runID cancelled s"
| "gen_step actor key tok runID (SelectResult e) s = select_result e s"
| "gen_step actor key tok runID SelectSession s = select_session s"
| "gen_step actor key tok runID (SelectDebounce c) s = select_debounce actor key tok c s"
| "gen_step actor key tok runID (SelectConnect e) s = Some (Some (select_connect e s), s)"

fun generation_loop ::
  "Actor \<Rightarrow> ckey \<Rightarrow> token \<Rightarrow> nat \<Rightarrow> 'z gen_event list \<Rightarrow> 'z run_state \<Rightarrow> (generationExit \<times> 'z run_state) option" where
  "generation_loop actor key tok runID [] s = None"
| "generation_loop actor key tok runID (ev # evs) s =
     (case gen_step actor key tok runID ev s of
        None \<Rightarrow> None
      | Some (None, s') \<Rightarrow> generation_loop actor key tok runID evs s'
      | Some (Some exit, s') \<Rightarrow> Some (exit, s'))"

section \<open>Teardown of a generation\<close>

text \<open>
  What the surroundings do during the teardown: the result of the running operation or its join
  timeout, whether \<^verbatim>\<open>Disconnect\<close> returned in time, the result of \<^verbatim>\<open>Connect\<close> or its join timeout, the
  sessions the provider reports until they are no longer accepted, and the store calls.
\<close>

record 'z teardown =
  td_operation :: "goerror option"
  td_disconnected :: bool
  td_connect :: "goerror option"
  td_sessions :: "string list"
  td_flush :: "'z dbcall"
  td_mark :: "'z dbcall"
  td_health :: "'z dbcall"

record generationOutcome =
  go_stop :: bool
  go_err :: goerror

definition join_operation ::
  "nat \<Rightarrow> goerror option \<Rightarrow> generationExit \<Rightarrow> 'z run_state \<Rightarrow> generationExit \<times> 'z run_state" where
  "join_operation runID joined exit s =
     (let s1 = s \<lparr> rs_ops := setOperationReady runID False (rs_ops s) \<rparr> in
      case rs_operation s1 of
        None \<Rightarrow> (exit, s1)
      | Some request \<Rightarrow>
          (case joined of
             Some operationErr \<Rightarrow> (exit, emit [Answered (rq_result request) operationErr] (s1 \<lparr> rs_operation := None \<rparr>))
           | None \<Rightarrow> (exit \<lparr> ge_err := errors_Join [ge_err exit, Some (Sentinel ErrProviderJoinTimeout)] \<rparr>,
                      emit [Answered (rq_result request) (Some (Sentinel ErrProviderUnavailable))] (s1 \<lparr> rs_operation := None \<rparr>))))"

definition join_connect :: "goerror option \<Rightarrow> generationExit \<Rightarrow> bool \<times> generationExit" where
  "join_connect joined exit =
     (if ge_providerJoined exit then (True, exit)
      else case joined of
        None \<Rightarrow> (False, exit)
      | Some connectErr \<Rightarrow>
          (True, if terminalProviderError connectErr
                 then exit \<lparr> ge_kind := generationExitProvider, ge_providerErr := errors_Join [ge_providerErr exit, connectErr] \<rparr>
                 else exit))"

definition stop_with :: "goerror \<Rightarrow> 'z run_state \<Rightarrow> generationOutcome \<times> 'z run_state" where
  "stop_with err s = (\<lparr> go_stop = True, go_err = err \<rparr>, s)"

text \<open>The branch of a final swap that failed or met another revision.\<close>

definition finalize_conflict ::
  "Actor \<Rightarrow> ckey \<Rightarrow> token \<Rightarrow> 'z dbcall \<Rightarrow> generationExit \<Rightarrow> bool \<Rightarrow> bool \<Rightarrow> bool result \<Rightarrow> 'z run_state
   \<Rightarrow> generationOutcome \<times> 'z run_state" where
  "finalize_conflict actor key tok c exit disconnectJoined connectJoined swap s =
     (let (health, es) =
            (case applyTerminalProviderHealth (ge_providerErr exit) (rs_health s) of
               Some he \<Rightarrow> he
             | None \<Rightarrow>
                 if ge_kind exit = generationExitLeaseLost
                 then (set_health ''lease-lost'' ConnectionStateDisconnected ''lease-lost'' (rs_health s), [LeaseLost])
                 else (set_health ''stopped'' ConnectionStateDegraded ''session-conflict'' (rs_health s), []));
          s' = writeHealthDetached actor c key tok (emit es (s \<lparr> rs_health := health \<lparr> h_CurrentBackoff := 0 \<rparr> \<rparr>));
          joins = joinError disconnectJoined connectJoined
      in case swap of
           Inl swapErr \<Rightarrow> stop_with (errors_Join [Some swapErr, ge_err exit, ge_providerErr exit, joins]) s'
         | Inr _ \<Rightarrow> stop_with (errors_Join [ge_err exit, ge_providerErr exit, joins]) s')"

text \<open>The branch of a join that timed out.\<close>

definition finalize_unjoined ::
  "Actor \<Rightarrow> ckey \<Rightarrow> token \<Rightarrow> 'z dbcall \<Rightarrow> generationExit \<Rightarrow> bool \<Rightarrow> bool \<Rightarrow> 'z run_state
   \<Rightarrow> generationOutcome \<times> 'z run_state" where
  "finalize_unjoined actor key tok c exit disconnectJoined connectJoined s =
     (let (health, es) =
            (case applyTerminalProviderHealth (ge_providerErr exit) (rs_health s) of
               Some he \<Rightarrow> he
             | None \<Rightarrow> (set_health ''stopped'' ConnectionStateDegraded ''provider-protocol'' (rs_health s), []));
          s' = writeHealthDetached actor c key tok (emit es (s \<lparr> rs_health := health \<lparr> h_CurrentBackoff := 0 \<rparr> \<rparr>))
      in stop_with (errors_Join [ge_err exit, ge_providerErr exit, joinError disconnectJoined connectJoined]) s')"

definition finalize_provider ::
  "Actor \<Rightarrow> ckey \<Rightarrow> token \<Rightarrow> 'z teardown \<Rightarrow> goerror \<Rightarrow> 'z run_state \<Rightarrow> generationOutcome \<times> 'z run_state" where
  "finalize_provider actor key tok td providerErr s =
     (let h = rs_health s;
          publish = (\<lambda>h es s. writeHealthDetached actor (td_health td) key tok (emit es (s \<lparr> rs_health := h \<rparr>))) in
      if Is providerErr ErrStaleGeneration
      then stop_with providerErr (publish ((set_health ''lease-lost'' ConnectionStateDisconnected ''lease-lost'' h)
             \<lparr> h_CurrentBackoff := 0 \<rparr>) [LeaseLost] s)
      else if Is providerErr ErrSharedInfrastructure
      then stop_with providerErr (publish (set_health ''stopped'' ConnectionStateDegraded ''shared-infrastructure'' h) [] s)
      else if Is providerErr ErrProviderAuthorization
      then (case markReauthorization actor (td_mark td) key tok s of
              (r, s') \<Rightarrow>
                if r \<noteq> Inr True then stop_with (result_err r) s'
                else stop_with None (publish ((set_health ''stopped'' ConnectionStateReauthorizationRequired ''provider-auth'' h)
                       \<lparr> h_RequiresReauthorization := True \<rparr>) [] s'))
      else if Is providerErr ErrProviderPermanentConfig
      then stop_with None (publish (set_health ''stopped'' ConnectionStateDegraded ''provider-config'' h) [] s)
      else if Is providerErr ErrProviderPermanentProtocol
      then stop_with providerErr (publish (set_health ''stopped'' ConnectionStateDegraded ''provider-protocol'' h) [] s)
      else (\<lparr> go_stop = False, go_err = None \<rparr>, s))"

definition finalizeGeneration ::
  "Actor \<Rightarrow> ckey \<Rightarrow> token \<Rightarrow> 'z teardown \<Rightarrow> generationExit \<Rightarrow> 'z run_state \<Rightarrow> generationOutcome \<times> 'z run_state" where
  "finalizeGeneration actor key tok td exit0 s0 =
     (let disconnectJoined = td_disconnected td;
          (connectJoined, exit) = join_connect (td_connect td) exit0;
          cb = fold replaceSession (td_sessions td) (rs_callbacks s0);
          s1 = take_into_pending (stopAcceptingAndTakeLatest cb)
                 (emit (Disconnected disconnectJoined # map SessionReported (td_sessions td)) s0);
          (swap, s) = flushPendingSession actor (td_flush td) key tok s1
      in if swap \<noteq> Inr True then finalize_conflict actor key tok (td_health td) exit disconnectJoined connectJoined swap s
         else if \<not> disconnectJoined \<or> \<not> connectJoined \<or> Is (ge_err exit) ErrProviderJoinTimeout
         then finalize_unjoined actor key tok (td_health td) exit disconnectJoined connectJoined s
         else let h = rs_health s;
                  publish = (\<lambda>h es. writeHealthDetached actor (td_health td) key tok
                               (emit es (s \<lparr> rs_health := h \<lparr> h_CurrentBackoff := 0 \<rparr> \<rparr>)))
              in case (if terminalProviderError (ge_providerErr exit) then generationExitProvider else ge_kind exit) of
                   generationExitShutdown \<Rightarrow>
                     stop_with None (publish (set_health ''stopped'' ConnectionStateDisconnected ''shutdown'' h) [])
                 | generationExitLeaseLost \<Rightarrow>
                     stop_with (ge_err exit) (publish (set_health ''lease-lost'' ConnectionStateDisconnected ''lease-lost'' h) [LeaseLost])
                 | generationExitSessionConflict \<Rightarrow>
                     stop_with (ge_err exit) (publish (set_health ''stopped'' ConnectionStateDegraded ''session-conflict'' h) [])
                 | generationExitProvider \<Rightarrow> finalize_provider actor key tok td (ge_providerErr exit) s)"

definition runGeneration ::
  "Actor \<Rightarrow> ckey \<Rightarrow> token \<Rightarrow> nat \<Rightarrow> 'z gen_event list \<Rightarrow> 'z teardown \<Rightarrow> 'z run_state
   \<Rightarrow> (generationOutcome \<times> 'z run_state) option" where
  "runGeneration actor key tok runID evs td s =
     (let s0 = s \<lparr> rs_ops := setOperationReady runID False (rs_ops s), rs_pending := [], rs_debounce := False, rs_operation := None \<rparr>
      in case generation_loop actor key tok runID evs s0 of
           None \<Rightarrow> None
         | Some (exit, s1) \<Rightarrow>
             (let (exit', s2) = join_operation runID (td_operation td) exit s1;
                  (outcome, s3) = finalizeGeneration actor key tok td exit' s2
              in Some (outcome, s3 \<lparr> rs_ops := setOperationReady runID False (rs_ops s3), rs_pending := [], rs_debounce := False \<rparr>)))"

section \<open>The run\<close>

text \<open>
  While the actor waits, a request that was admitted before can still be sent.
\<close>

datatype 'z wait_event = WaitCancel err | WaitSubmit providerOperationRequest | WaitDone | WaitElapsed | WaitRenew "'z dbcall" "'z dbcall"

fun waitBackoff ::
  "Actor \<Rightarrow> ckey \<Rightarrow> token \<Rightarrow> 'z wait_event list \<Rightarrow> 'z run_state \<Rightarrow> (goerror \<times> 'z run_state) option" where
  "waitBackoff actor key tok [] s = None"
| "waitBackoff actor key tok (WaitCancel e # evs) s =
     waitBackoff actor key tok evs (if rs_ctx s = None then s \<lparr> rs_ctx := Some e \<rparr> else s)"
| "waitBackoff actor key tok (WaitSubmit request # evs) s =
     (if length (op_queue (rs_ops s)) < ac_queueSize actor then waitBackoff actor key tok evs (submit request s) else None)"
| "waitBackoff actor key tok (WaitDone # evs) s = (if rs_ctx s = None then None else Some (rs_ctx s, s))"
| "waitBackoff actor key tok (WaitElapsed # evs) s = Some (None, s)"
| "waitBackoff actor key tok (WaitRenew c ch # evs) s =
     (case renewLease actor c key tok s of
        (r, s1) \<Rightarrow>
          if r = Inr True then waitBackoff actor key tok evs s1
          else let s2 = emit [LeaseLost] (s1 \<lparr> rs_health := (rs_health s1)
                          \<lparr> h_ActorState := ''lease-lost'', h_LastSafeReason := ''lease-lost'' \<rparr> \<rparr>);
                   s3 = snd (writeHealth actor ch key tok s2)
               in Some (case result_err r of Some e \<Rightarrow> Some e | None \<Rightarrow> Some (Sentinel ErrLeaseUnavailable), s3))"

record 'z generation =
  gn_restore :: goerror
  gn_events :: "'z gen_event list"
  gn_teardown :: "'z teardown"
  gn_entropy :: entropy
  gn_wait :: "'z wait_event list"
  gn_config :: "'z dbcall"
  gn_backoff :: "'z dbcall"
  gn_connecting :: "'z dbcall"

definition restore_failed :: "Actor \<Rightarrow> ckey \<Rightarrow> token \<Rightarrow> 'z dbcall \<Rightarrow> 'z run_state \<Rightarrow> 'z run_state" where
  "restore_failed actor key tok c s =
     snd (writeHealth actor c key tok
       (s \<lparr> rs_health := set_health ''stopped'' ConnectionStateDegraded ''provider-config'' (rs_health s) \<rparr>))"

text \<open>
  From a generation that may reconnect to the start of the next one: \<open>Inl\<close> is the result of the run
  when it ends here.
\<close>

definition back_off ::
  "Actor \<Rightarrow> ckey \<Rightarrow> token \<Rightarrow> 'z generation \<Rightarrow> 'z run_state \<Rightarrow> ((goerror \<times> 'z run_state) + 'z run_state) option" where
  "back_off actor key tok g s =
     (let (delay, bo) = Backoff_Fail (rs_backoff s) (gn_entropy g);
          h = (set_health ''backoff'' ConnectionStateDegraded ''transient-network'' (rs_health s))
                \<lparr> h_ReconnectCount := h_ReconnectCount (rs_health s) + 1, h_CurrentBackoff := delay \<rparr>;
          (r1, s1) = writeHealth actor (gn_backoff g) key tok
                       (emit [Reconnect ''transient-network''] (s \<lparr> rs_backoff := bo, rs_health := h \<rparr>))
      in if r1 \<noteq> Inr True then Some (Inl (result_err r1, s1))
         else case waitBackoff actor key tok (gn_wait g) (emit [BackoffMetric ''transient-network'' delay] s1) of
           None \<Rightarrow> None
         | Some (Some e, s2) \<Rightarrow> Some (Inl (if Is (Some e) ContextCanceled then None else Some e, s2))
         | Some (None, s2) \<Rightarrow>
             (case writeHealth actor (gn_connecting g) key tok
                     (s2 \<lparr> rs_health := (rs_health s2) \<lparr> h_ActorState := ''connecting'', h_CurrentBackoff := 0 \<rparr> \<rparr>) of
                (r3, s3) \<Rightarrow> if r3 \<noteq> Inr True then Some (Inl (result_err r3, s3)) else Some (Inr s3)))"

fun run_loop ::
  "Actor \<Rightarrow> ckey \<Rightarrow> token \<Rightarrow> nat \<Rightarrow> 'z generation list \<Rightarrow> 'z run_state \<Rightarrow> (goerror \<times> 'z run_state) option" where
  "run_loop actor key tok runID [] s = None"
| "run_loop actor key tok runID (g # gs) s =
     (let s1 = s \<lparr> rs_callbacks := newProviderCallbacks \<rparr> in
      if gn_restore g \<noteq> None then Some (None, restore_failed actor key tok (gn_config g) s1)
      else case runGeneration actor key tok runID (gn_events g) (gn_teardown g)
                  (emit [Restored (ss_Plaintext (rs_snapshot s1))] s1) of
        None \<Rightarrow> None
      | Some (outcome, s2) \<Rightarrow>
          if go_stop outcome then Some (go_err outcome, s2)
          else (case back_off actor key tok g s2 of
                  None \<Rightarrow> None
                | Some (Inl res) \<Rightarrow> Some res
                | Some (Inr s3) \<Rightarrow> run_loop actor key tok runID gs s3))"

text \<open>
  The surroundings of a whole run: the context when it starts, its store calls in order, its
  generations and the final release.
\<close>

record 'z run_script =
  sc_ctx :: goerror
  sc_acquire :: "'z dbcall"
  sc_connection :: "'z dbcall"
  sc_session :: "'z dbcall"
  sc_health :: "'z dbcall"
  sc_generations :: "'z generation list"
  sc_release :: "'z dbcall"

definition initial_health :: "token \<Rightarrow> ConnectionActorHealth" where
  "initial_health tok =
     \<lparr> h_ActorState = ''connecting'', h_LeaseState = '''', h_ConnectionState = ConnectionStateDisconnected,
       h_ConnectedAt = None, h_LastFrameAt = None, h_LastPhoneResponseAt = None, h_ReconnectCount = 0,
       h_CurrentBackoff = 0, h_LastSafeReason = ''none'', h_RequiresReauthorization = False,
       h_FencingToken = tok, h_UpdatedAt = 0 \<rparr>"

definition run_leased ::
  "Actor \<Rightarrow> 'z run_script \<Rightarrow> ckey \<Rightarrow> token \<Rightarrow> nat \<Rightarrow> 'z run_state \<Rightarrow> (goerror \<times> 'z run_state) option" where
  "run_leased actor sc key tok runID s0 =
     (case GetConnection (c_fault (sc_connection sc)) (fst key) (snd key) (c_env (sc_connection sc) (rs_db s0)) of
        (Inl e, db1) \<Rightarrow> Some (Some e, s0 \<lparr> rs_db := db1 \<rparr>)
      | (Inr connection, db1) \<Rightarrow>
          if connection_TenantID connection \<noteq> fst key \<or> connection_ID connection \<noteq> snd key
          then Some (Some (Sentinel ErrTenantBoundary), s0 \<lparr> rs_db := db1 \<rparr>)
          else if connection_State connection \<in> {ConnectionStateReauthorizationRequired, ConnectionStateUnpaired,
                    ConnectionStatePairing, ConnectionStateSuspended}
          then Some (None, s0 \<lparr> rs_db := db1 \<rparr>)
          else if connection_State connection \<notin> {ConnectionStateConnected, ConnectionStateDegraded, ConnectionStateDisconnected}
          then Some (Some (Sentinel ErrInvalidConnectionState), s0 \<lparr> rs_db := db1 \<rparr>)
          else (case sessions_LoadVersioned (ac_sessions actor) (c_fault (sc_session sc)) key (c_env (sc_session sc) db1) of
                  (Inl e, db2) \<Rightarrow> Some (Some e, s0 \<lparr> rs_db := db2 \<rparr>)
                | (Inr snapshot, db2) \<Rightarrow>
                    if ss_Plaintext snapshot = [] \<or> ss_Revision snapshot = 0
                    then Some (Some (Sentinel ErrInvalidConfig), s0 \<lparr> rs_db := db2 \<rparr>)
                    else (case NewBackoff (ac_backoffConfig actor) of
                            Inl e \<Rightarrow> None
                          | Inr backoff \<Rightarrow>
                              (case writeHealth actor (sc_health sc) key tok
                                      (s0 \<lparr> rs_db := db2, rs_snapshot := snapshot, rs_backoff := backoff, rs_health := initial_health tok \<rparr>) of
                                 (r, s1) \<Rightarrow>
                                   if r \<noteq> Inr True then Some (result_err r, s1)
                                   else run_loop actor key tok runID (sc_generations sc) s1))))"

definition release_lease :: "Actor \<Rightarrow> 'z dbcall \<Rightarrow> ckey \<Rightarrow> token \<Rightarrow> 'z gateway_db_scheme \<Rightarrow> 'z gateway_db_scheme" where
  "release_lease actor c key tok db =
     snd (ReleaseConnectionLease (c_fault c) (c_now c) (fst key) (snd key) (ac_ownerID actor) tok (c_env c db))"

definition blank_state :: "operation_state \<Rightarrow> effect list \<Rightarrow> goerror \<Rightarrow> Backoff \<Rightarrow> 'z gateway_db_scheme \<Rightarrow> 'z run_state" where
  "blank_state ops es ctx bo db =
     \<lparr> rs_db = db, rs_ops = ops, rs_log = es, rs_ctx = ctx, rs_snapshot = \<lparr> ss_Plaintext = '''', ss_Revision = 0 \<rparr>,
       rs_backoff = bo, rs_health = initial_health 0, rs_callbacks = newProviderCallbacks, rs_pending = [],
       rs_debounce = False, rs_operation = None \<rparr>"

definition zero_backoff :: Backoff where
  "zero_backoff = \<lparr> bo_base = 0, bo_cap = 0, bo_int63n = cryptoInt63n, bo_failures = 0 \<rparr>"

text \<open>\<^verbatim>\<open>Run\<close>: the deferred calls end the operation run first and release the lease last.\<close>

definition Actor_Run ::
  "Actor \<Rightarrow> 'z run_script \<Rightarrow> ckey \<Rightarrow> operation_state \<Rightarrow> 'z gateway_db_scheme
   \<Rightarrow> (goerror \<times> operation_state \<times> effect list \<times> 'z gateway_db_scheme) option" where
  "Actor_Run actor sc key ops db =
     (case sc_ctx sc of
        Some e \<Rightarrow> Some (Some e, ops, [], db)
      | None \<Rightarrow>
          if \<not> Key_valid key then Some (Some (Sentinel ErrInvalidConfig), ops, [], db)
          else (case AcquireConnectionLease (c_fault (sc_acquire sc)) (c_now (sc_acquire sc)) (fst key) (snd key)
                       (ac_ownerID actor) (ac_leaseTTL actor) (c_env (sc_acquire sc) db) of
                  (Inl e, db1) \<Rightarrow> Some (Some e, ops, [], db1)
                | (Inr None, db1) \<Rightarrow> Some (Some (Sentinel ErrLeaseUnavailable), ops, [], db1)
                | (Inr (Some lease), db1) \<Rightarrow>
                    (case beginOperationRun key ops of
                       (Inl e, ops', es) \<Rightarrow>
                         Some (Some e, ops', LeaseAcquired # es, release_lease actor (sc_release sc) key (cl_FencingToken lease) db1)
                     | (Inr runID, ops', es) \<Rightarrow>
                         (case run_leased actor sc key (cl_FencingToken lease) runID
                                 (blank_state ops' (LeaseAcquired # es) None zero_backoff db1) of
                            None \<Rightarrow> None
                          | Some (err, s) \<Rightarrow>
                              (case endOperationRun runID (rs_ops s) of
                                 (ops'', es') \<Rightarrow> Some (err, ops'', rs_log s @ es',
                                   release_lease actor (sc_release sc) key (cl_FencingToken lease) (rs_db s)))))))"

end
