(* ===== verification/Actor_Correct.thy ===== *)
theory Actor_Correct
  imports Connection_Actor
begin

text \<open>
  When a generation of a connection actor is followed by another one, and the rules by which the
  other theories on the actor prove invariants of a teardown and of a whole run. A concrete actor,
  its database and a short run serve as examples.
\<close>

section \<open>When a generation is followed by another\<close>

lemma exit_with_simps [simp]:
  "ge_kind (exit_with k e) = k" "ge_err (exit_with k e) = e"
  "ge_providerErr (exit_with k e) = None" "ge_providerJoined (exit_with k e) = False"
  by (simp_all add: exit_with_def)

lemma fence_exit_kind [simp]: "ge_kind (fence_exit r s) \<noteq> generationExitProvider"
  by (simp add: fence_exit_def)

lemma step_exit_provider:
  assumes "gen_step actor key tok runID ev s = Some (Some exit, s')" "ge_kind exit = generationExitProvider"
  shows "ge_providerJoined exit \<and> ge_err exit = None \<and> (\<exists>e. ev = SelectConnect e \<and> ge_providerErr exit = e)
    \<and> (\<not> terminalProviderError (ge_providerErr exit) \<longrightarrow> rs_ctx s' = None \<and> \<not> Is (ge_providerErr exit) ContextCanceled)"
proof (cases ev)
  case (SelectConnect e)
  then show ?thesis using assms by (auto simp: select_connect_def split: if_splits)
qed (use assms in \<open>auto simp: select_renew_def select_event_def publish_health_def select_operation_def select_result_def select_session_def
    select_debounce_def Let_def split: if_splits prod.splits option.splits list.splits providerEvent.splits\<close>)

lemma loop_exit_provider:
  assumes "generation_loop actor key tok runID evs s = Some (exit, s')" "ge_kind exit = generationExitProvider"
  shows "ge_providerJoined exit \<and> ge_err exit = None \<and> SelectConnect (ge_providerErr exit) \<in> set evs
    \<and> (\<not> terminalProviderError (ge_providerErr exit) \<longrightarrow> rs_ctx s' = None \<and> \<not> Is (ge_providerErr exit) ContextCanceled)"
  using assms
  by (induction evs arbitrary: s) (auto split: option.splits prod.splits dest: step_exit_provider)

lemma stop_with_simps [simp]: "go_stop (fst (stop_with e s))" "go_err (fst (stop_with e s)) = e" "snd (stop_with e s) = s"
  by (simp_all add: stop_with_def)

lemma finalize_conflict_stops [simp]: "go_stop (fst (finalize_conflict actor key tok c exit dj cj swap s))"
  by (simp add: finalize_conflict_def Let_def split: prod.splits sum.splits)

lemma finalize_unjoined_stops [simp]: "go_stop (fst (finalize_unjoined actor key tok c exit dj cj s))"
  by (simp add: finalize_unjoined_def Let_def split: prod.splits)

lemma finalize_provider_stops:
  "go_stop (fst (finalize_provider actor key tok td e s)) \<longleftrightarrow> terminalProviderError e"
  by (simp add: finalize_provider_def terminalProviderError_def Let_def split: prod.splits)

definition final_flush :: "Actor \<Rightarrow> ckey \<Rightarrow> token \<Rightarrow> 'z teardown \<Rightarrow> 'z run_state \<Rightarrow> bool result \<times> 'z run_state" where
  "final_flush actor key tok td s =
     flushPendingSession actor (td_flush td) key tok
       (take_into_pending (stopAcceptingAndTakeLatest (fold replaceSession (td_sessions td) (rs_callbacks s)))
          (emit (Disconnected (td_disconnected td) # map SessionReported (td_sessions td)) s))"


lemma finalize_reconnects:
  assumes "ge_kind exit = generationExitProvider \<Longrightarrow> ge_providerJoined exit"
  shows "\<not> go_stop (fst (finalizeGeneration actor key tok td exit s)) \<longleftrightarrow>
    fst (final_flush actor key tok td s) = Inr True \<and> td_disconnected td \<and> \<not> Is (ge_err exit) ErrProviderJoinTimeout
    \<and> ge_kind exit = generationExitProvider \<and> \<not> terminalProviderError (ge_providerErr exit)"
proof -
  obtain swap s2 where f: "final_flush actor key tok td s = (swap, s2)" by fastforce
  note f' = f [unfolded final_flush_def]
  obtain cj exit' where j: "join_connect (td_connect td) exit = (cj, exit')" by fastforce
  have e: "ge_err exit' = ge_err exit" "terminalProviderError (ge_providerErr exit') \<Longrightarrow> \<not> terminalProviderError (ge_providerErr exit) \<Longrightarrow> \<not> ge_providerJoined exit"
    using j by (auto simp: join_connect_def split: if_splits option.splits)
  have k: "ge_kind exit' = generationExitProvider \<and> \<not> terminalProviderError (ge_providerErr exit') \<longleftrightarrow>
      ge_kind exit = generationExitProvider \<and> \<not> terminalProviderError (ge_providerErr exit)" "ge_kind exit = generationExitProvider \<Longrightarrow> cj"
    using j assms by (auto simp: join_connect_def terminalProviderError_def split: if_splits option.splits)
  have "\<not> go_stop (fst (finalizeGeneration actor key tok td exit s)) \<longleftrightarrow>
      swap = Inr True \<and> td_disconnected td \<and> cj \<and> \<not> Is (ge_err exit') ErrProviderJoinTimeout
      \<and> ge_kind exit' = generationExitProvider \<and> \<not> terminalProviderError (ge_providerErr exit')"
    unfolding finalizeGeneration_def Let_def j prod.case f'
    by (simp add: finalize_provider_stops split: generationExitKind.split)
  then show ?thesis using f e k by auto
qed

lemma generation_reconnects_iff:
  assumes "runGeneration actor key tok runID evs td s = Some (outcome, s')"
    "s0 = s \<lparr> rs_ops := setOperationReady runID False (rs_ops s), rs_pending := [], rs_debounce := False, rs_operation := None \<rparr>"
    "generation_loop actor key tok runID evs s0 = Some (exit, s1)"
    "join_operation runID (td_operation td) exit s1 = (exit', s2)"
  shows "\<not> go_stop outcome \<longleftrightarrow>
    ge_kind exit = generationExitProvider \<and> SelectConnect (ge_providerErr exit) \<in> set evs
    \<and> \<not> terminalProviderError (ge_providerErr exit) \<and> rs_ctx s1 = None \<and> \<not> Is (ge_providerErr exit) ContextCanceled
    \<and> (rs_operation s1 = None \<or> td_operation td \<noteq> None) \<and> td_disconnected td
    \<and> fst (final_flush actor key tok td s2) = Inr True"
proof -
  have out: "go_stop outcome = go_stop (fst (finalizeGeneration actor key tok td exit' s2))"
    using assms by (auto simp: runGeneration_def Let_def split: prod.splits)
  have "Is (ge_err exit') ErrProviderJoinTimeout \<longleftrightarrow>
      Is (ge_err exit) ErrProviderJoinTimeout \<or> \<not> (rs_operation s1 = None \<or> td_operation td \<noteq> None)"
    and "ge_kind exit' = ge_kind exit" "ge_providerErr exit' = ge_providerErr exit" "ge_providerJoined exit' = ge_providerJoined exit"
    using assms(4) by (auto simp: join_operation_def Let_def split: option.splits)
  then show ?thesis
    using loop_exit_provider [OF assms(3)] out finalize_reconnects [of exit' actor key tok td s2] by auto
qed

text \<open>
  C16. A generation is followed by another one exactly when its \<^verbatim>\<open>Connect\<close> call has returned, with an
  error that is not terminal, the context was still alive, the running operation and \<^verbatim>\<open>Disconnect\<close>
  were joined in time, and the last session the provider reported was stored under the fence. In
  particular no terminal provider error, no unjoined provider, no lost lease and no session conflict
  is ever followed by a reconnect.
\<close>

theorem reconnect_iff_joined_and_saved:
  assumes "runGeneration actor key tok runID evs td s = Some (outcome, s')"
    "s0 = s \<lparr> rs_ops := setOperationReady runID False (rs_ops s), rs_pending := [], rs_debounce := False, rs_operation := None \<rparr>"
    "generation_loop actor key tok runID evs s0 = Some (exit, s1)"
    "join_operation runID (td_operation td) exit s1 = (exit', s2)"
  shows "\<not> go_stop outcome \<longleftrightarrow>
    ge_kind exit = generationExitProvider \<and> SelectConnect (ge_providerErr exit) \<in> set evs
    \<and> \<not> terminalProviderError (ge_providerErr exit) \<and> rs_ctx s1 = None \<and> \<not> Is (ge_providerErr exit) ContextCanceled
    \<and> (rs_operation s1 = None \<or> td_operation td \<noteq> None) \<and> td_disconnected td
    \<and> fst (final_flush actor key tok td s2) = Inr True"
  using assms by (rule generation_reconnects_iff)

section \<open>What a teardown keeps\<close>

text \<open>
  After the final flush a teardown only changes the health in known ways, counts a lost lease,
  marks the reauthorization and publishes the health. Whatever these four keep, the teardown keeps.
\<close>

definition teardown_health :: "ConnectionActorHealth \<Rightarrow> ConnectionActorHealth \<Rightarrow> bool" where
  "teardown_health h h' =
     (h_ActorState h' \<in> {''stopped'', ''lease-lost''} \<and> h_LastSafeReason h' \<in> set safe_reasons
      \<and> h_ConnectionState h' \<in> {ConnectionStateDisconnected, ConnectionStateDegraded, ConnectionStateReauthorizationRequired}
      \<and> h_CurrentBackoff h' \<in> {0, h_CurrentBackoff h} \<and> h_ReconnectCount h' = h_ReconnectCount h)"

lemma teardown_health_set [simp]:
  "teardown_health h (set_health a st r h) \<longleftrightarrow> teardown_health h (set_health a st r h \<lparr> h_CurrentBackoff := 0 \<rparr>)"
  "teardown_health h (set_health a st r h \<lparr> h_CurrentBackoff := 0 \<rparr>) \<longleftrightarrow>
     a \<in> {''stopped'', ''lease-lost''} \<and> r \<in> set safe_reasons
     \<and> st \<in> {ConnectionStateDisconnected, ConnectionStateDegraded, ConnectionStateReauthorizationRequired}"
  "teardown_health h (set_health a st r h \<lparr> h_RequiresReauthorization := b \<rparr>) \<longleftrightarrow> teardown_health h (set_health a st r h)"
  by (simp_all add: teardown_health_def set_health_def)

lemma applyTerminal_shape:
  assumes "applyTerminalProviderHealth e h = Some (h', es)"
  shows "teardown_health h h' \<and> h' \<lparr> h_CurrentBackoff := 0 \<rparr> = h' \<and> es \<in> {[], [LeaseLost]}"
proof -
  have "h' = k \<lparr> h_CurrentBackoff := 0 \<rparr> \<Longrightarrow> h' \<lparr> h_CurrentBackoff := 0 \<rparr> = h'" for k by simp
  then show ?thesis using assms
    by (auto simp: applyTerminalProviderHealth_def safe_reasons_def Let_def split: if_splits)
qed

lemma emit_simps [simp]:
  "rs_operation (emit es s) = rs_operation s" "rs_health (emit es s) = rs_health s" "rs_ctx (emit es s) = rs_ctx s"
  "rs_snapshot (emit es s) = rs_snapshot s" "rs_pending (emit es s) = rs_pending s" "rs_ops (emit es s) = rs_ops s"
  "rs_callbacks (emit es s) = rs_callbacks s" "rs_backoff (emit es s) = rs_backoff s" "rs_db (emit es s) = rs_db s"
  "rs_debounce (emit es s) = rs_debounce s" "rs_log (emit es s) = rs_log s @ es"
  by (simp_all add: emit_def)

locale teardown_invariant =
  fixes actor :: Actor and key :: ckey and tok :: token and ok :: "'z dbcall \<Rightarrow> bool" and I :: "'z run_state \<Rightarrow> bool"
  assumes keep_health: "I s \<Longrightarrow> teardown_health (rs_health s) h \<Longrightarrow> I (s \<lparr> rs_health := h \<rparr>)"
    and keep_lost: "I s \<Longrightarrow> I (emit [LeaseLost] s)"
    and keep_write: "ok c \<Longrightarrow> I s \<Longrightarrow> I (snd (writeHealth actor c key tok s))"
    and keep_mark: "ok c \<Longrightarrow> I s \<Longrightarrow> I (snd (markReauthorization actor c key tok s))"
begin

lemma keep_publish:
  assumes "ok c" "I s" "teardown_health (rs_health s) h" "es \<in> {[], [LeaseLost]}"
  shows "I (writeHealthDetached actor c key tok (emit es (s \<lparr> rs_health := h \<rparr>)))"
proof -
  have "I (s \<lparr> rs_health := h \<rparr>)" using assms(2,3) by (rule keep_health)
  moreover have "emit [] x = x" for x :: "'z run_state" by (simp add: emit_def)
  ultimately have "I (emit es (s \<lparr> rs_health := h \<rparr>))" using assms(4) keep_lost by (metis insertE singletonD)
  with assms(1) show ?thesis unfolding writeHealthDetached_def by (rule keep_write)
qed

lemma keep_conflict:
  assumes "ok c" "I s"
  shows "I (snd (finalize_conflict actor key tok c exit dj cj swap s))"
proof -
  obtain h es where he: "(case applyTerminalProviderHealth (ge_providerErr exit) (rs_health s) of
               Some he \<Rightarrow> he
             | None \<Rightarrow>
                 if ge_kind exit = generationExitLeaseLost
                 then (set_health ''lease-lost'' ConnectionStateDisconnected ''lease-lost'' (rs_health s), [LeaseLost])
                 else (set_health ''stopped'' ConnectionStateDegraded ''session-conflict'' (rs_health s), [])) = (h, es)"
    by fastforce
  then have "teardown_health (rs_health s) (h \<lparr> h_CurrentBackoff := 0 \<rparr>) \<and> es \<in> {[], [LeaseLost]}"
    using applyTerminal_shape [of "ge_providerErr exit" "rs_health s" h es]
    by (auto simp: safe_reasons_def split: option.splits if_splits)
  then show ?thesis
    using assms he by (auto simp: finalize_conflict_def Let_def stop_with_def split: sum.splits intro!: keep_publish)
qed

lemma keep_unjoined:
  assumes "ok c" "I s"
  shows "I (snd (finalize_unjoined actor key tok c exit dj cj s))"
proof -
  obtain h es where he: "(case applyTerminalProviderHealth (ge_providerErr exit) (rs_health s) of
               Some he \<Rightarrow> he
             | None \<Rightarrow> (set_health ''stopped'' ConnectionStateDegraded ''provider-protocol'' (rs_health s), [])) = (h, es)"
    by fastforce
  then have "teardown_health (rs_health s) (h \<lparr> h_CurrentBackoff := 0 \<rparr>) \<and> es \<in> {[], [LeaseLost]}"
    using applyTerminal_shape [of "ge_providerErr exit" "rs_health s" h es]
    by (auto simp: safe_reasons_def split: option.splits)
  then show ?thesis
    using assms he by (auto simp: finalize_unjoined_def Let_def stop_with_def intro!: keep_publish)
qed

lemma keep_provider:
  assumes "ok (td_health td)" "ok (td_mark td)" "I s"
  shows "I (snd (finalize_provider actor key tok td e s))"
proof -
  obtain r s' where m: "markReauthorization actor (td_mark td) key tok s = (r, s')" by fastforce
  have I': "I s'" using keep_mark [OF assms(2,3)] m by simp
  have "rs_health s' = rs_health s" using m by (auto simp: markReauthorization_def split: prod.splits)
  then have mark: "I (writeHealthDetached actor c key tok (emit [] (s' \<lparr> rs_health := (set_health ''stopped''
      ConnectionStateReauthorizationRequired ''provider-auth'' (rs_health s)) \<lparr> h_RequiresReauthorization := True \<rparr> \<rparr>)))" if "ok c" for c
    using I' that by (intro keep_publish) (auto simp: safe_reasons_def)
  have plain: "I (writeHealthDetached actor c key tok (emit es (s \<lparr> rs_health := h \<rparr>)))"
    if "ok c" "teardown_health (rs_health s) h" "es \<in> {[], [LeaseLost]}" for c es h
    using that(1) assms(3) that(2,3) by (rule keep_publish)
  show ?thesis using assms m I' mark
    by (simp add: finalize_provider_def Let_def plain safe_reasons_def)
qed

lemma keep_finalize:
  assumes "ok (td_health td)" "ok (td_mark td)" "I (snd (final_flush actor key tok td s))"
  shows "I (snd (finalizeGeneration actor key tok td exit s))"
proof -
  obtain cj exit' where j: "join_connect (td_connect td) exit = (cj, exit')" by fastforce
  obtain swap s2 where f: "final_flush actor key tok td s = (swap, s2)" by fastforce
  have I: "I s2" using assms(3) f by simp
  note f = f [unfolded final_flush_def]
  show ?thesis unfolding finalizeGeneration_def Let_def j prod.case f
    using assms(1,2) I by (auto simp: keep_conflict keep_unjoined keep_provider split: generationExitKind.split
        intro!: keep_publish simp: safe_reasons_def)
qed

end

section \<open>Invariants of the run loop\<close>

text \<open>
  \<open>T\<close> holds before a generation, \<open>R\<close> after one that may reconnect, \<open>F\<close> when the run ends.
\<close>

lemma run_loop_invariant:
  assumes "run_loop actor key tok runID gs s = Some (e, s')" "T s"
    and restore: "\<And>g s. g \<in> set gs \<Longrightarrow> T s \<Longrightarrow> F (restore_failed actor key tok (gn_config g) (s \<lparr> rs_callbacks := newProviderCallbacks \<rparr>))"
    and gen: "\<And>g s outcome s2. g \<in> set gs \<Longrightarrow> T s \<Longrightarrow>
        runGeneration actor key tok runID (gn_events g) (gn_teardown g)
          (emit [Restored (ss_Plaintext (rs_snapshot s))] (s \<lparr> rs_callbacks := newProviderCallbacks \<rparr>)) = Some (outcome, s2) \<Longrightarrow>
        if go_stop outcome then F s2 else R s2"
    and off: "\<And>g s x. g \<in> set gs \<Longrightarrow> R s \<Longrightarrow> back_off actor key tok g s = Some x \<Longrightarrow>
        case x of Inl (_, s2) \<Rightarrow> F s2 | Inr s2 \<Rightarrow> T s2"
  shows "F s'"
  using assms(1,2) restore gen off
proof (induction gs arbitrary: s)
  case (Cons g gs)
  show ?case
  proof (cases "gn_restore g")
    case (Some err)
    then show ?thesis using Cons.prems(1) Cons.prems(3) [of g s] Cons.prems(2) by (simp add: Let_def)
  next
    case None
    then obtain o2 s2 where g: "runGeneration actor key tok runID (gn_events g) (gn_teardown g)
        (emit [Restored (ss_Plaintext (rs_snapshot s))] (s \<lparr> rs_callbacks := newProviderCallbacks \<rparr>)) = Some (o2, s2)"
      using Cons.prems(1) by (auto simp: Let_def split: option.splits)
    note r = Cons.prems(4) [OF _ Cons.prems(2) g]
    show ?thesis
    proof (cases "go_stop o2")
      case True
      then show ?thesis using Cons.prems(1) None g r by (simp add: Let_def)
    next
      case False
      then obtain x where x: "back_off actor key tok g s2 = Some x" using Cons.prems(1) None g
        by (auto simp: Let_def split: option.splits)
      have b: "case x of Inl (_, s2) \<Rightarrow> F s2 | Inr s2 \<Rightarrow> T s2" using Cons.prems(5) [OF _ _ x] r False by simp
      show ?thesis
      proof (cases x)
        case (Inl res)
        then show ?thesis using b x Cons.prems(1) None g False by (cases res) (simp add: Let_def)
      next
        case (Inr s3)
        then have "run_loop actor key tok runID gs s3 = Some (e, s')" "T s3"
          using b x Cons.prems(1) None g False by (simp_all add: Let_def)
        then show ?thesis
        proof (rule Cons.IH)
          fix h s assume "h \<in> set gs" "T s"
          then show "F (restore_failed actor key tok (gn_config h) (s \<lparr> rs_callbacks := newProviderCallbacks \<rparr>))"
            using Cons.prems(3) by simp
        next
          fix h s outcome s2 assume "h \<in> set gs" "T s" and r: "runGeneration actor key tok runID (gn_events h) (gn_teardown h)
            (emit [Restored (ss_Plaintext (rs_snapshot s))] (s \<lparr> rs_callbacks := newProviderCallbacks \<rparr>)) = Some (outcome, s2)"
          then show "if go_stop outcome then F s2 else R s2" using Cons.prems(4) [OF _ _ r] by simp
        next
          fix h s x assume "h \<in> set gs" "R s" and r: "back_off actor key tok h s = Some x"
          then show "case x of Inl (_, s2) \<Rightarrow> F s2 | Inr s2 \<Rightarrow> T s2" using Cons.prems(5) [OF _ _ r] by simp
        qed
      qed
    qed
  qed
qed simp

text \<open>
  The same for the pieces of \<^verbatim>\<open>back_off\<close>: it writes the health twice and waits in between.
\<close>

lemma back_off_cases:
  assumes "back_off actor key tok g s = Some x"
  obtains delay bo s0 r1 s1 where "Backoff_Fail (rs_backoff s) (gn_entropy g) = (delay, bo)"
    "s0 = emit [Reconnect ''transient-network''] (s \<lparr> rs_backoff := bo, rs_health :=
       (set_health ''backoff'' ConnectionStateDegraded ''transient-network'' (rs_health s))
         \<lparr> h_ReconnectCount := h_ReconnectCount (rs_health s) + 1, h_CurrentBackoff := delay \<rparr> \<rparr>)"
    "writeHealth actor (gn_backoff g) key tok s0 = (r1, s1)" "r1 \<noteq> Inr True" "x = Inl (result_err r1, s1)"
  | delay bo s0 s1 e s2 y where "Backoff_Fail (rs_backoff s) (gn_entropy g) = (delay, bo)"
    "s0 = emit [Reconnect ''transient-network''] (s \<lparr> rs_backoff := bo, rs_health :=
       (set_health ''backoff'' ConnectionStateDegraded ''transient-network'' (rs_health s))
         \<lparr> h_ReconnectCount := h_ReconnectCount (rs_health s) + 1, h_CurrentBackoff := delay \<rparr> \<rparr>)"
    "writeHealth actor (gn_backoff g) key tok s0 = (Inr True, s1)"
    "waitBackoff actor key tok (gn_wait g) (emit [BackoffMetric ''transient-network'' delay] s1) = Some (Some e, s2)"
    "x = Inl (y, s2)"
  | delay bo s0 s1 s2 r3 s3 where "Backoff_Fail (rs_backoff s) (gn_entropy g) = (delay, bo)"
    "s0 = emit [Reconnect ''transient-network''] (s \<lparr> rs_backoff := bo, rs_health :=
       (set_health ''backoff'' ConnectionStateDegraded ''transient-network'' (rs_health s))
         \<lparr> h_ReconnectCount := h_ReconnectCount (rs_health s) + 1, h_CurrentBackoff := delay \<rparr> \<rparr>)"
    "writeHealth actor (gn_backoff g) key tok s0 = (Inr True, s1)"
    "waitBackoff actor key tok (gn_wait g) (emit [BackoffMetric ''transient-network'' delay] s1) = Some (None, s2)"
    "writeHealth actor (gn_connecting g) key tok
       (s2 \<lparr> rs_health := (rs_health s2) \<lparr> h_ActorState := ''connecting'', h_CurrentBackoff := 0 \<rparr> \<rparr>) = (r3, s3)"
    "x = (if r3 = Inr True then Inr s3 else Inl (result_err r3, s3))"
proof -
  obtain delay bo where b: "Backoff_Fail (rs_backoff s) (gn_entropy g) = (delay, bo)" by fastforce
  define s0 where "s0 = emit [Reconnect ''transient-network''] (s \<lparr> rs_backoff := bo, rs_health :=
       (set_health ''backoff'' ConnectionStateDegraded ''transient-network'' (rs_health s))
         \<lparr> h_ReconnectCount := h_ReconnectCount (rs_health s) + 1, h_CurrentBackoff := delay \<rparr> \<rparr>)"
  obtain r1 s1 where w: "writeHealth actor (gn_backoff g) key tok s0 = (r1, s1)" by fastforce
  note u = assms [unfolded back_off_def b Let_def prod.case, folded s0_def, unfolded w prod.case]
  show thesis
  proof (cases "r1 = Inr True")
    case False
    then show ?thesis using that(1) [OF b s0_def w] u by simp
  next
    case True
    then obtain e s2 where wt: "waitBackoff actor key tok (gn_wait g) (emit [BackoffMetric ''transient-network'' delay] s1) = Some (e, s2)"
      using u by (auto split: option.splits)
    show ?thesis
    proof (cases e)
      case (Some e')
      then show ?thesis using that(2) [OF b s0_def] w True wt u by auto
    next
      case None
      obtain r3 s3 where "writeHealth actor (gn_connecting g) key tok
       (s2 \<lparr> rs_health := (rs_health s2) \<lparr> h_ActorState := ''connecting'', h_CurrentBackoff := 0 \<rparr> \<rparr>) = (r3, s3)" by fastforce
      then show ?thesis using that(3) [OF b s0_def] w True wt u None by (auto split: if_splits)
    qed
  qed
qed

lemma run_leased_cases:
  assumes "run_leased actor sc key tok runID s = Some (e, s')"
  obtains db' where "s' = s \<lparr> rs_db := db' \<rparr>"
  | db' snapshot backoff r where "ss_Plaintext snapshot \<noteq> []" "ss_Revision snapshot \<noteq> 0" "NewBackoff (ac_backoffConfig actor) = Inr backoff"
    "writeHealth actor (sc_health sc) key tok
       (s \<lparr> rs_db := db', rs_snapshot := snapshot, rs_backoff := backoff, rs_health := initial_health tok \<rparr>) = (r, s')"
    "r \<noteq> Inr True"
  | db' snapshot backoff s1 where "ss_Plaintext snapshot \<noteq> []" "ss_Revision snapshot \<noteq> 0" "NewBackoff (ac_backoffConfig actor) = Inr backoff"
    "writeHealth actor (sc_health sc) key tok
       (s \<lparr> rs_db := db', rs_snapshot := snapshot, rs_backoff := backoff, rs_health := initial_health tok \<rparr>) = (Inr True, s1)"
    "run_loop actor key tok runID (sc_generations sc) s1 = Some (e, s')"
  using assms unfolding run_leased_def
  by (auto split: prod.splits sum.splits if_splits)

lemma Actor_Run_cases:
  assumes "Actor_Run actor sc key ops db = Some (err, ops', log, db')"
    "AcquireConnectionLease (c_fault (sc_acquire sc)) (c_now (sc_acquire sc)) (fst key) (snd key)
       (ac_ownerID actor) (ac_leaseTTL actor) (c_env (sc_acquire sc) db) = (Inr (Some lease), db1)"
    "sc_ctx sc = None" "Key_valid key"
  obtains "op_active ops" "log = [LeaseAcquired]" "ops' = ops"
  | s where "\<not> op_active ops"
    "run_leased actor sc key (cl_FencingToken lease) (op_runID ops + 1)
       (blank_state \<lparr> op_queue = [], op_key = key, op_runID = op_runID ops + 1, op_active = True, op_ready = False \<rparr>
          (LeaseAcquired # map (\<lambda>stale. Answered (rq_result stale) (Some (Sentinel ErrProviderUnavailable))) (op_queue ops))
          None zero_backoff db1) = Some (err, s)"
    "log = rs_log s @ snd (endOperationRun (op_runID ops + 1) (rs_ops s))" "ops' = fst (endOperationRun (op_runID ops + 1) (rs_ops s))"
  using assms unfolding Actor_Run_def
  by (auto simp: beginOperationRun_def split: if_splits option.splits prod.splits)

section \<open>An example\<close>

definition demo_store :: VaultSessionStore where
  "demo_store = \<lparr> vs_vault = demo_vault, vs_provider = ''gmessages'' \<rparr>"

definition demo_actor :: Actor where
  "demo_actor = \<lparr> ac_ownerID = ''replica-a'', ac_sessions = demo_store, ac_leaseTTL = 30 * second, ac_sessionDebounce = second,
     ac_backoffConfig = \<lparr> cfg_Base = 0, cfg_Cap = 0, cfg_Int63n = None \<rparr>, ac_queueSize = 4, ac_joinTimeout = second \<rparr>"

definition demo_call :: "unit dbcall" where
  "demo_call = \<lparr> c_env = id, c_fault = NoFault, c_now = 10, c_wall = 10, c_rnd = demo_random, c_eventID = ''e1'', c_codec = demo_codec \<rparr>"

definition demo_request :: providerOperationRequest where
  "demo_request = \<lparr> rq_result = 7, rq_runID = 1, rq_key = (''t1'', ''c1'') \<rparr>"

definition demo_teardown :: "unit teardown" where
  "demo_teardown = \<lparr> td_operation = None, td_disconnected = True, td_connect = Some None, td_sessions = [],
     td_flush = demo_call, td_mark = demo_call, td_health = demo_call \<rparr>"

definition demo_generation :: "unit generation" where
  "demo_generation = \<lparr> gn_restore = None,
     gn_events = [EmitEvent EventReady, SelectEvent demo_call, Submit demo_request, SelectOperation False, SelectResult None,
       CancelContext (Sentinel ContextCanceled), SelectDone],
     gn_teardown = demo_teardown, gn_entropy = ClockNanos 0, gn_wait = [], gn_config = demo_call, gn_backoff = demo_call,
     gn_connecting = demo_call \<rparr>"

definition demo_script :: "unit run_script" where
  "demo_script = \<lparr> sc_ctx = None, sc_acquire = demo_call, sc_connection = demo_call, sc_session = demo_call, sc_health = demo_call,
     sc_generations = [demo_generation], sc_release = demo_call \<rparr>"

definition demo_ops :: operation_state where
  "demo_ops = \<lparr> op_queue = [], op_key = ('''', ''''), op_runID = 0, op_active = False, op_ready = False \<rparr>"

lemma demo_load:
  assumes "db_sessions db (''t1'', ''c1'') = Some (demo_envelope \<lparr> env_Revision := 3 \<rparr>)"
  shows "sessions_LoadVersioned demo_store NoFault (''t1'', ''c1'') db = (Inr \<lparr> ss_Plaintext = ''secret'', ss_Revision = 3 \<rparr>, db)"
proof -
  have "Envelope_Validate (demo_envelope \<lparr> env_Revision := 3 \<rparr>) = None" by (simp add: demo_envelope_def Envelope_Validate_def)
  then have "LoadEncryptedSession NoFault ''t1'' ''c1'' db = (Inr (demo_envelope \<lparr> env_Revision := 3 \<rparr>), db)"
    using load_stored [OF assms] by simp
  moreover have "vault_scope demo_store (''t1'', ''c1'') = demo_scope" "vs_vault demo_store = (demo_suite, awskms (demo_kms 2))"
    "scope_TenantID demo_scope = ''t1''" "scope_ConnectionID demo_scope = ''c1''"
    by (simp_all add: vault_scope_def demo_store_def demo_scope_def demo_vault_def)
  moreover have "Manager_Open demo_suite (awskms (demo_kms 2)) demo_scope (demo_envelope \<lparr> env_Revision := 3 \<rparr>) = Inr ''secret''"
    by (simp add: Manager_Open_def manager_open_def demo_envelope_def demo_vault_defs)
  ultimately show ?thesis by (simp add: sessions_LoadVersioned_def Vault_LoadVersioned_def)
qed

lemma demo_ac: "ac_sessions demo_actor = demo_store" "ac_ownerID demo_actor = ''replica-a''"
  "ac_leaseTTL demo_actor = 30 * second" "NewBackoff (ac_backoffConfig demo_actor) = Inr \<lparr> bo_base = defaultBackoffBase, bo_cap = defaultBackoffCap, bo_int63n = cryptoInt63n, bo_failures = 0\<rparr>"
  "ac_queueSize demo_actor = 4"
  by (simp_all add: demo_actor_def NewBackoff_def defaultBackoffBase_def defaultBackoffCap_def)

lemma demo_ca: "c_env demo_call = id" "c_fault demo_call = NoFault" "c_now demo_call = 10" "c_wall demo_call = 10"
  by (simp_all add: demo_call_def)

definition demo_leased :: gateway_db where
  "demo_leased = demo_rotation_db \<lparr> db_leases := [(''t1'', ''c1'') \<mapsto> \<lparr> ls_owner = Some ''replica-a'', ls_token = 4, ls_expires = 30000010, ls_updated = 10 \<rparr>] \<rparr>"

lemma demo_acquires:
  "AcquireConnectionLease NoFault 10 ''t1'' ''c1'' ''replica-a'' 30000000000 demo_rotation_db
     = (Inr (Some \<lparr> cl_OwnerID = ''replica-a'', cl_FencingToken = 4, cl_ExpiresAt = 30000010 \<rparr>), demo_leased)"
  by (simp add: AcquireConnectionLease_def validLeaseInput_def minimumLeaseTTL_def maximumLeaseTTL_def Let_def
    acquireConnectionLeaseSQL_def demo_leased_def demo_rotation_db_def demo_db_def demo_lease_def micros_def)

lemma demo_leased_fields:
  "db_sessions demo_leased (''t1'', ''c1'') = Some (demo_envelope \<lparr> env_Revision := 3 \<rparr>)"
  "db_connections demo_leased (''t1'', ''c1'') = Some demo_connection"
  "db_leases demo_leased (''t1'', ''c1'') = Some \<lparr> ls_owner = Some ''replica-a'', ls_token = 4, ls_expires = 30000010, ls_updated = 10 \<rparr>"
  "db_health demo_leased = Map.empty"
  by (simp_all add: demo_leased_def demo_rotation_db_def demo_db_def)

lemmas demo_run_defs =
  blank_state_def writeHealth_def WriteConnectionHealthFenced_def Let_def initial_health_def validActorHealth_def
  actor_states_def safe_reasons_def maximumLeaseTTL_def owned_lease_def health_row_ok_def health_row_of_def micros_def
  emit_def runGeneration_def setOperationReady_def newProviderCallbacks_def callbacks_send_def select_event_def
  publish_health_def set_health_def submit_def select_operation_def select_result_def Backoff_Ready_def exit_with_def
  join_operation_def finalizeGeneration_def join_connect_def terminalProviderError_def stopAcceptingAndTakeLatest_def
  takeLatest_def take_into_pending_def flushPendingSession_def stop_with_def writeHealthDetached_def
  replaceSession_def select_session_def store_pending_def select_connect_def finalize_provider_def
  ConnectionState_Validate_def demo_ca demo_ac

definition demo_state :: "unit run_state" where
  "demo_state = (blank_state demo_ops [] None zero_backoff demo_leased)
     \<lparr> rs_snapshot := \<lparr> ss_Plaintext = ''secret'', ss_Revision = 3 \<rparr>, rs_health := initial_health 4 \<rparr>"

definition demo_reconnect_events :: "unit gen_event list" where
  "demo_reconnect_events = [EmitSession ''fresh'', SelectSession, SelectConnect (Some (Opaque ''eof''))]"

lemma demo_swap:
  assumes "owned_lease db (''t1'', ''c1'') ''replica-a'' 4 10" "db_sessions db (''t1'', ''c1'') = Some (demo_envelope \<lparr> env_Revision := 3 \<rparr>)"
  shows "\<exists>db'. sessions_CompareAndSwapFenced demo_store NoFault 10 (c_rnd demo_call) (''t1'', ''c1'') ''replica-a'' 4 3 ''fresh'' db = (Inr True, db')
    \<and> db_leases db' = db_leases db \<and> db_connections db' = db_connections db \<and> db_health db' = db_health db"
  using assms
  by (simp add: sessions_CompareAndSwapFenced_def Vault_CompareAndSwapFenced_def demo_store_def demo_vault_defs vault_scope_def
      demo_call_def CompareAndSwapEncryptedSessionFenced_def Let_def cas_session_def demo_envelope_def inTenant_def)

lemma demo_reconnects:
  "\<exists>outcome s'. runGeneration demo_actor (''t1'', ''c1'') 4 1 demo_reconnect_events demo_teardown demo_state = Some (outcome, s')
     \<and> \<not> go_stop outcome"
proof -
  have "owned_lease demo_leased (''t1'', ''c1'') ''replica-a'' 4 10" by (simp add: owned_lease_def demo_leased_fields)
  from demo_swap [OF this demo_leased_fields(1)] obtain db' where
    "sessions_CompareAndSwapFenced demo_store NoFault 10 (c_rnd demo_call) (''t1'', ''c1'') ''replica-a'' 4 3 ''fresh'' demo_leased = (Inr True, db')"
    by blast
  then show ?thesis
    by (simp add: demo_reconnect_events_def demo_state_def demo_ops_def demo_teardown_def demo_run_defs)
qed

theorem reconnect_iff_joined_and_saved_witness:
  "\<exists>outcome s'. runGeneration demo_actor (''t1'', ''c1'') 4 1 demo_reconnect_events demo_teardown demo_state = Some (outcome, s')
     \<and> \<not> go_stop outcome \<and> td_disconnected demo_teardown"
proof -
  obtain outcome s' where r: "runGeneration demo_actor (''t1'', ''c1'') 4 1 demo_reconnect_events demo_teardown demo_state = Some (outcome, s')"
    "\<not> go_stop outcome" using demo_reconnects by blast
  then obtain exit s1 where l: "generation_loop demo_actor (''t1'', ''c1'') 4 1 demo_reconnect_events
      (demo_state \<lparr> rs_ops := setOperationReady 1 False (rs_ops demo_state), rs_pending := [], rs_debounce := False, rs_operation := None \<rparr>)
      = Some (exit, s1)"
    by (auto simp: runGeneration_def Let_def split: option.splits)
  obtain exit' s2 where j: "join_operation 1 (td_operation demo_teardown) exit s1 = (exit', s2)" by fastforce
  show ?thesis using r reconnect_iff_joined_and_saved [OF r(1) refl l j] by blast
qed

end
