(* ===== verification/Actor_Operations.thy ===== *)
theory Actor_Operations
  imports Actor_Correct "HOL-Library.Multiset"
begin

text \<open>
  The operations a connection actor runs for its clients: one at a time, only while the generation
  is ready, under the fence of the run, and each request answered exactly once.
\<close>

section \<open>Operations\<close>

text \<open>
  A reading of the trace: whether the last published health says the generation is ready, and the
  operation that is running. A trace is refused when an operation starts without an acknowledged
  ready health, beside another one, or for another run, key or fence, and when an answer is given
  to another request than the running one.
\<close>

definition op_effect ::
  "owner_id \<Rightarrow> ckey \<Rightarrow> token \<Rightarrow> nat \<Rightarrow> effect \<Rightarrow> bool \<times> nat option \<Rightarrow> (bool \<times> nat option) option" where
  "op_effect owner key tok runID e st =
     (case e of
        HealthWrite h r \<Rightarrow> Some (r = Inr True \<and> h_ActorState h = ''ready'', snd st)
      | OperationStarted rq ow t \<Rightarrow>
          if fst st \<and> snd st = None \<and> ow = owner \<and> t = tok \<and> rq_key rq = key \<and> rq_runID rq = runID
          then Some (fst st, Some (rq_result rq)) else None
      | Answered i _ \<Rightarrow> if snd st = None \<or> snd st = Some i then Some (fst st, None) else None
      | _ \<Rightarrow> Some st)"

fun op_scan ::
  "owner_id \<Rightarrow> ckey \<Rightarrow> token \<Rightarrow> nat \<Rightarrow> effect list \<Rightarrow> bool \<times> nat option \<Rightarrow> (bool \<times> nat option) option" where
  "op_scan owner key tok runID [] st = Some st"
| "op_scan owner key tok runID (e # es) st =
     (case op_effect owner key tok runID e st of None \<Rightarrow> None | Some st' \<Rightarrow> op_scan owner key tok runID es st')"

lemma op_scan_append:
  "op_scan owner key tok runID (xs @ ys) st =
     (case op_scan owner key tok runID xs st of None \<Rightarrow> None | Some st' \<Rightarrow> op_scan owner key tok runID ys st')"
  by (induction xs arbitrary: st) (auto split: option.splits)

lemma op_scan_answers:
  "snd st = None \<Longrightarrow> op_scan owner key tok runID (map (\<lambda>r. Answered (f r) (g r)) xs) st = Some (fst st, None)"
  by (induction xs arbitrary: st) (auto simp: op_effect_def)

lemma op_scan_reports: "op_scan owner key tok runID (map SessionReported xs) st = Some st"
  by (induction xs) (auto simp: op_effect_def)

definition op_state :: "Actor \<Rightarrow> ckey \<Rightarrow> token \<Rightarrow> nat \<Rightarrow> 'z run_state \<Rightarrow> (bool \<times> nat option) option" where
  "op_state actor key tok runID s = op_scan (ac_ownerID actor) key tok runID (rs_log s) (False, None)"

text \<open>
  The trace agrees with the running operation (\<open>op_sound\<close>), and inside the loop a health that is
  ready has been acknowledged (\<open>op_inv\<close>).
\<close>

definition op_sound :: "Actor \<Rightarrow> ckey \<Rightarrow> token \<Rightarrow> nat \<Rightarrow> 'z run_state \<Rightarrow> bool" where
  "op_sound actor key tok runID s =
     (\<exists>ready. op_state actor key tok runID s = Some (ready, map_option rq_result (rs_operation s)))"

definition op_inv :: "Actor \<Rightarrow> ckey \<Rightarrow> token \<Rightarrow> nat \<Rightarrow> 'z run_state \<Rightarrow> bool" where
  "op_inv actor key tok runID s =
     (\<exists>ready. op_state actor key tok runID s = Some (ready, map_option rq_result (rs_operation s))
        \<and> (h_ActorState (rs_health s) = ''ready'' \<longrightarrow> ready))"

lemma op_inv_sound: "op_inv actor key tok runID s \<Longrightarrow> op_sound actor key tok runID s"
  by (auto simp: op_inv_def op_sound_def)

lemma op_state_emit:
  "op_state actor key tok runID (emit es s) =
     (case op_state actor key tok runID s of None \<Rightarrow> None | Some st \<Rightarrow> op_scan (ac_ownerID actor) key tok runID es st)"
  by (simp add: op_state_def emit_def op_scan_append)

lemma op_state_cong: "rs_log s = rs_log s' \<Longrightarrow> op_state actor key tok runID s = op_state actor key tok runID s'"
  by (simp add: op_state_def)

lemma op_state_frame [simp]:
  "op_state actor key tok runID (s \<lparr> rs_db := a \<rparr>) = op_state actor key tok runID s"
  "op_state actor key tok runID (s \<lparr> rs_ops := b \<rparr>) = op_state actor key tok runID s"
  "op_state actor key tok runID (s \<lparr> rs_ctx := c \<rparr>) = op_state actor key tok runID s"
  "op_state actor key tok runID (s \<lparr> rs_snapshot := d \<rparr>) = op_state actor key tok runID s"
  "op_state actor key tok runID (s \<lparr> rs_backoff := e \<rparr>) = op_state actor key tok runID s"
  "op_state actor key tok runID (s \<lparr> rs_health := f \<rparr>) = op_state actor key tok runID s"
  "op_state actor key tok runID (s \<lparr> rs_callbacks := g \<rparr>) = op_state actor key tok runID s"
  "op_state actor key tok runID (s \<lparr> rs_pending := h \<rparr>) = op_state actor key tok runID s"
  "op_state actor key tok runID (s \<lparr> rs_debounce := i \<rparr>) = op_state actor key tok runID s"
  "op_state actor key tok runID (s \<lparr> rs_operation := j \<rparr>) = op_state actor key tok runID s"
  by (simp_all add: op_state_def)

lemmas op_defs = op_state_emit op_effect_def

lemma op_writeHealth:
  assumes "writeHealth actor c key tok s = (r, s')" "op_sound actor key tok runID s"
  shows "op_sound actor key tok runID s' \<and> (r = Inr True \<longrightarrow> op_inv actor key tok runID s')"
  using assms by (auto simp: writeHealth_def op_sound_def op_inv_def op_defs Let_def split: prod.splits)

lemma op_writeHealthDetached:
  "op_sound actor key tok runID s \<Longrightarrow> op_sound actor key tok runID (writeHealthDetached actor c key tok s)"
  using op_writeHealth [of actor c key tok s] by (cases "writeHealth actor c key tok s") (simp add: writeHealthDetached_def)

lemma op_renewLease:
  "renewLease actor c key tok s = (r, s') \<Longrightarrow> op_inv actor key tok runID s \<Longrightarrow> op_inv actor key tok runID s'"
  by (auto simp: renewLease_def op_inv_def op_defs split: prod.splits)

lemma op_flush:
  assumes "flushPendingSession actor c key tok s = (r, s')"
  shows "(op_inv actor key tok runID s \<longrightarrow> op_inv actor key tok runID s')
    \<and> (op_sound actor key tok runID s \<longrightarrow> op_sound actor key tok runID s')"
  using assms by (auto simp: flushPendingSession_def op_inv_def op_sound_def op_defs Let_def split: prod.splits if_splits)

lemma op_mark:
  "markReauthorization actor c key tok s = (r, s') \<Longrightarrow> op_sound actor key tok runID s \<Longrightarrow> op_sound actor key tok runID s'"
  by (auto simp: markReauthorization_def op_sound_def op_defs split: prod.splits)

lemma op_frame:
  assumes "op_inv actor key tok runID s" "rs_log s' = rs_log s" "rs_operation s' = rs_operation s" "rs_health s' = rs_health s"
  shows "op_inv actor key tok runID s'"
  using assms op_state_cong [of s s'] by (auto simp: op_inv_def)

lemma op_sound_frame:
  assumes "op_sound actor key tok runID s" "rs_log s' = rs_log s" "rs_operation s' = rs_operation s"
  shows "op_sound actor key tok runID s'"
  using assms op_state_cong [of s s'] by (auto simp: op_sound_def)

lemma op_publish:
  assumes "publish_health actor key tok runID c ready s = Some (x, s')" "op_sound actor key tok runID s"
  shows "op_sound actor key tok runID s' \<and> (x = None \<longrightarrow> op_inv actor key tok runID s')"
proof -
  obtain r s1 where w: "writeHealth actor c key tok s = (r, s1)" by fastforce
  show ?thesis using op_writeHealth [OF w assms(2)] assms(1) w
    by (auto simp: publish_health_def split: if_splits intro: op_frame op_sound_frame dest: op_inv_sound)
qed

lemma op_select_event:
  assumes "select_event actor key tok runID c s = Some (x, s')" "op_inv actor key tok runID s"
  shows "op_sound actor key tok runID s' \<and> (x = None \<longrightarrow> op_inv actor key tok runID s')"
proof -
  obtain e es where q: "cb_events (rs_callbacks s) = e # es" using assms(1) by (auto simp: select_event_def split: list.splits)
  show ?thesis
  proof (cases e)
    case (EventSessionChanged p)
    then have "op_inv actor key tok runID s' \<and> x = None" using assms q
      by (auto simp: select_event_def store_pending_def Let_def intro: op_frame)
    then show ?thesis by (simp add: op_inv_sound)
  qed (use assms(1) q in \<open>auto simp: select_event_def Let_def dest!: op_publish intro!: op_sound_frame [OF op_inv_sound [OF assms(2)]]\<close>)
qed

lemma op_select_operation:
  assumes "select_operation actor key tok runID cancelled s = Some (x, s')" "op_inv actor key tok runID s"
  shows "x = None \<and> op_inv actor key tok runID s'"
  using assms
  by (auto simp: select_operation_def op_inv_def op_defs Let_def split: if_splits list.splits)

lemma op_select_result:
  assumes "select_result e s = Some (x, s')" "op_inv actor key tok runID s"
  shows "x = None \<and> op_inv actor key tok runID s'"
  using assms by (auto simp: select_result_def op_inv_def op_defs split: option.splits)

lemma op_select_debounce:
  assumes "select_debounce actor key tok c s = Some (x, s')" "op_inv actor key tok runID s"
  shows "op_inv actor key tok runID s'"
proof -
  let ?s1 = "take_into_pending (takeLatest (rs_callbacks s)) (s \<lparr> rs_debounce := False \<rparr>)"
  obtain r s2 where f: "flushPendingSession actor c key tok ?s1 = (r, s2)" by fastforce
  have "op_inv actor key tok runID ?s1" using assms(2) by (rule op_frame) (simp_all add: take_into_pending_def)
  then show ?thesis using assms(1) f op_flush [OF f]
    by (auto simp: select_debounce_def Let_def split: if_splits)
qed

lemma op_step:
  assumes "gen_step actor key tok runID ev s = Some (x, s')" "op_inv actor key tok runID s"
  shows "op_sound actor key tok runID s' \<and> (x = None \<longrightarrow> op_inv actor key tok runID s')"
proof (cases ev)
  case (SelectEvent c)
  then show ?thesis using assms op_select_event by simp
next
  case (SelectOperation b)
  then show ?thesis using assms op_select_operation op_inv_sound by (metis gen_step.simps(8))
next
  case (SelectResult e)
  then show ?thesis using assms op_select_result op_inv_sound by (metis gen_step.simps(9))
next
  case (SelectDebounce c)
  then show ?thesis using assms op_select_debounce op_inv_sound by (metis gen_step.simps(11))
next
  case (SelectRenew c)
  then show ?thesis using assms
    by (auto simp: select_renew_def split: prod.splits if_splits dest!: op_renewLease intro: op_inv_sound)
next
  case SelectSession
  then have "op_inv actor key tok runID s'" using assms
    by (auto simp: select_session_def store_pending_def split: option.splits intro: op_frame)
  then show ?thesis by (simp add: op_inv_sound)
next
  case (EmitSession p)
  then have "op_inv actor key tok runID s'" using assms by (auto simp: op_inv_def op_defs)
  then show ?thesis by (simp add: op_inv_sound)
next
  case (Submit rq)
  then have "op_inv actor key tok runID s'" using assms by (auto simp: submit_def op_inv_def op_defs split: if_splits)
  then show ?thesis by (simp add: op_inv_sound)
next
  case (EmitEvent e)
  then have "op_inv actor key tok runID s'" using assms by (auto intro: op_frame)
  then show ?thesis by (simp add: op_inv_sound)
next
  case (CancelContext e)
  then have "op_inv actor key tok runID s'" using assms by (auto intro: op_frame)
  then show ?thesis by (simp add: op_inv_sound)
next
  case SelectDone
  then show ?thesis using assms by (auto split: if_splits intro: op_inv_sound)
next
  case (SelectConnect e)
  then show ?thesis using assms by (auto intro: op_inv_sound)
qed

lemma op_loop:
  assumes "generation_loop actor key tok runID evs s = Some (exit, s')" "op_inv actor key tok runID s"
  shows "op_sound actor key tok runID s'"
  using assms by (induction evs arbitrary: s) (auto split: option.splits prod.splits dest: op_step)

text \<open>No operation runs once it is joined; from there the teardown only writes to the store.\<close>

lemma op_emit_quiet:
  assumes "op_sound actor key tok runID s" "set es \<subseteq> {LeaseLost, Reconnect a, BackoffMetric b d, Restored p, Disconnected dj} \<union> range SessionReported"
  shows "op_sound actor key tok runID (emit es s)"
proof -
  have "op_scan (ac_ownerID actor) key tok runID es st = Some st" for st
    using assms(2) by (induction es) (auto simp: op_effect_def)
  then show ?thesis using assms(1) by (auto simp: op_sound_def op_state_emit)
qed

lemma op_join:
  assumes "join_operation runID joined exit s = (exit', s')" "op_sound actor key tok runID s"
  shows "op_sound actor key tok runID s' \<and> rs_operation s' = None"
  using assms by (auto simp: join_operation_def op_sound_def op_defs Let_def split: option.splits)

lemma operation_frame [simp]:
  "rs_operation (snd (writeHealth actor c key tok s)) = rs_operation s"
  "rs_operation (snd (renewLease actor c key tok s)) = rs_operation s"
  "rs_operation (snd (flushPendingSession actor c key tok s)) = rs_operation s"
  "rs_operation (snd (markReauthorization actor c key tok s)) = rs_operation s"
  "rs_operation (writeHealthDetached actor c key tok s) = rs_operation s"
  "rs_operation (take_into_pending t s) = rs_operation s"
  by (auto simp: writeHealthDetached_def writeHealth_def renewLease_def flushPendingSession_def markReauthorization_def
      take_into_pending_def Let_def split: prod.splits)

interpretation op_teardown: teardown_invariant actor key tok "\<lambda>_. True"
  "\<lambda>s. op_sound actor key tok runID s \<and> rs_operation s = None" for actor key tok runID
proof
  fix s :: "'z run_state" and h c
  assume s: "op_sound actor key tok runID s \<and> rs_operation s = None"
  then show "op_sound actor key tok runID (s \<lparr> rs_health := h \<rparr>) \<and> rs_operation (s \<lparr> rs_health := h \<rparr>) = None"
    by (auto simp: op_sound_def)
  show "op_sound actor key tok runID (emit [LeaseLost] s) \<and> rs_operation (emit [LeaseLost] s) = None"
    using s by (auto intro: op_emit_quiet)
  show "op_sound actor key tok runID (snd (writeHealth actor c key tok s)) \<and> rs_operation (snd (writeHealth actor c key tok s)) = None"
    using s op_writeHealthDetached [of actor key tok runID s c] by (simp add: writeHealthDetached_def)
  show "op_sound actor key tok runID (snd (markReauthorization actor c key tok s)) \<and> rs_operation (snd (markReauthorization actor c key tok s)) = None"
    using s op_mark by (metis operation_frame(4) prod.collapse)
qed

lemma op_finalize:
  assumes "op_sound actor key tok runID s" "rs_operation s = None"
  shows "op_sound actor key tok runID (snd (finalizeGeneration actor key tok td exit s))
    \<and> rs_operation (snd (finalizeGeneration actor key tok td exit s)) = None"
proof (rule op_teardown.keep_finalize)
  let ?s1 = "take_into_pending (stopAcceptingAndTakeLatest (fold replaceSession (td_sessions td) (rs_callbacks s)))
                 (emit (Disconnected (td_disconnected td) # map SessionReported (td_sessions td)) s)"
  have "op_sound actor key tok runID (emit (Disconnected (td_disconnected td) # map SessionReported (td_sessions td)) s)"
    using assms(1) by (rule op_emit_quiet [where dj = "td_disconnected td"]) auto
  then have "op_sound actor key tok runID ?s1" by (rule op_sound_frame) (simp_all add: take_into_pending_def)
  then show "op_sound actor key tok runID (snd (final_flush actor key tok td s)) \<and> rs_operation (snd (final_flush actor key tok td s)) = None"
    using assms(2) op_flush [of actor "td_flush td" key tok ?s1] unfolding final_flush_def
    by (metis emit_simps(1) operation_frame(3,6) prod.collapse)
qed simp_all

lemma op_runGeneration:
  assumes "runGeneration actor key tok runID evs td s = Some (outcome, s')" "op_inv actor key tok runID s" "rs_operation s = None"
  shows "op_sound actor key tok runID s' \<and> rs_operation s' = None"
proof -
  let ?s0 = "s \<lparr> rs_ops := setOperationReady runID False (rs_ops s), rs_pending := [], rs_debounce := False, rs_operation := None \<rparr>"
  obtain exit s1 where l: "generation_loop actor key tok runID evs ?s0 = Some (exit, s1)"
    using assms(1) by (auto simp: runGeneration_def Let_def split: option.splits)
  obtain exit' s2 where j: "join_operation runID (td_operation td) exit s1 = (exit', s2)" by fastforce
  have "op_inv actor key tok runID ?s0" using assms(2) by (rule op_frame) (simp_all add: assms(3))
  from op_loop [OF l this] op_join [OF j] have "op_sound actor key tok runID s2" "rs_operation s2 = None" by blast+
  from op_finalize [OF this, of td exit'] show ?thesis
    using assms(1) l j by (auto simp: runGeneration_def Let_def op_sound_def split: prod.splits)
qed

lemma op_wait:
  assumes "waitBackoff actor key tok evs s = Some (e, s')" "op_sound actor key tok runID s" "rs_operation s = None"
  shows "op_sound actor key tok runID s' \<and> rs_operation s' = None"
  using assms
proof (induction actor key tok evs s rule: waitBackoff.induct)
  case (3 actor key tok rq evs s)
  then show ?case by (auto simp: submit_def op_sound_def op_defs split: if_splits)
next
  case (6 actor key tok c ch evs s)
  obtain r s1 where n: "renewLease actor c key tok s = (r, s1)" by fastforce
  have s1: "op_sound actor key tok runID s1" "rs_operation s1 = None"
    using n 6(3,4) by (auto simp: renewLease_def op_sound_def op_defs split: prod.splits)
  have "op_sound actor key tok runID (emit [LeaseLost] (s1 \<lparr> rs_health := h \<rparr>))" for h
    using s1(1) by (auto simp: op_sound_def op_defs)
  then show ?case using 6 n s1 op_writeHealthDetached [of actor key tok runID _ ch]
    by (auto simp: Let_def writeHealthDetached_def split: if_splits option.splits)
qed (auto simp: op_sound_def split: if_splits)

abbreviation op_done :: "Actor \<Rightarrow> ckey \<Rightarrow> token \<Rightarrow> nat \<Rightarrow> 'z run_state \<Rightarrow> bool" where
  "op_done actor key tok runID s \<equiv> op_sound actor key tok runID s \<and> rs_operation s = None"

lemma op_done_write:
  assumes "writeHealth actor c key tok (s \<lparr> rs_health := h \<rparr>) = (r, s')" "op_done actor key tok runID s"
  shows "op_done actor key tok runID s' \<and> (r = Inr True \<longrightarrow> op_inv actor key tok runID s')"
proof -
  have "op_sound actor key tok runID (s \<lparr> rs_health := h \<rparr>)" using assms(2) by (auto simp: op_sound_def)
  from op_writeHealth [OF assms(1) this] show ?thesis
    using assms operation_frame(1) [of actor c key tok "s \<lparr> rs_health := h \<rparr>"] by simp
qed

lemma op_back_off:
  assumes "back_off actor key tok g s = Some x" "op_done actor key tok runID s"
  shows "case x of Inl (_, s2) \<Rightarrow> op_done actor key tok runID s2 | Inr s2 \<Rightarrow> op_inv actor key tok runID s2 \<and> rs_operation s2 = None"
proof -
  have first: "op_done actor key tok runID s1"
    if "writeHealth actor c key tok (emit [Reconnect m] (s \<lparr> rs_backoff := bo, rs_health := h \<rparr>)) = (r, s1)" for c m bo h r s1
  proof -
    have "op_sound actor key tok runID (emit [Reconnect m] (s \<lparr> rs_backoff := bo, rs_health := h \<rparr>))"
      using assms(2) by (auto simp: op_sound_def op_defs)
    then show ?thesis
      using op_writeHealth [OF that] assms(2) arg_cong [OF that, of "\<lambda>x. rs_operation (snd x)"] by simp
  qed
  have wait: "op_done actor key tok runID s2"
    if "waitBackoff actor key tok evs (emit [BackoffMetric m d] s1) = Some (e, s2)" "op_done actor key tok runID s1" for evs m d s1 e s2
    using op_wait [OF that(1), of runID] that(2) by (auto simp: op_sound_def op_defs)
  show ?thesis using assms(1)
  proof (cases rule: back_off_cases)
    case (1 delay bo s0 r1 s1)
    then show ?thesis using first by simp
  next
    case (2 delay bo s0 s1 e s2 y)
    then show ?thesis using wait [OF 2(4)] first [OF 2(3) [unfolded 2(2)]] by simp
  next
    case (3 delay bo s0 s1 s2 r3 s3)
    have "op_done actor key tok runID s2" using wait [OF 3(4)] first [OF 3(3) [unfolded 3(2)]] by simp
    from op_done_write [OF 3(5) this] show ?thesis using 3(6) by simp
  qed
qed

lemma op_run_loop:
  assumes "run_loop actor key tok runID gs s = Some (e, s')" "op_inv actor key tok runID s" "rs_operation s = None"
  shows "op_done actor key tok runID s'"
proof (rule run_loop_invariant [where T = "\<lambda>s. op_inv actor key tok runID s \<and> rs_operation s = None"
        and R = "op_done actor key tok runID", OF assms(1)])
  show "op_inv actor key tok runID s \<and> rs_operation s = None" using assms(2,3) ..
next
  fix g and s :: "'a run_state" assume s: "op_inv actor key tok runID s \<and> rs_operation s = None"
  then have "op_done actor key tok runID (s \<lparr> rs_callbacks := newProviderCallbacks \<rparr>)" by (auto simp: op_inv_def op_sound_def)
  then show "op_done actor key tok runID (restore_failed actor key tok (gn_config g) (s \<lparr> rs_callbacks := newProviderCallbacks \<rparr>))"
    unfolding restore_failed_def using op_done_write [OF prod.collapse [symmetric]] by blast
next
  fix g outcome s2 and s :: "'a run_state" assume s: "op_inv actor key tok runID s \<and> rs_operation s = None"
    and g: "runGeneration actor key tok runID (gn_events g) (gn_teardown g)
      (emit [Restored (ss_Plaintext (rs_snapshot s))] (s \<lparr> rs_callbacks := newProviderCallbacks \<rparr>)) = Some (outcome, s2)"
  have "op_inv actor key tok runID (emit [Restored (ss_Plaintext (rs_snapshot s))] (s \<lparr> rs_callbacks := newProviderCallbacks \<rparr>))"
    using s by (auto simp: op_inv_def op_defs)
  from op_runGeneration [OF g this] show "if go_stop outcome then op_done actor key tok runID s2 else op_done actor key tok runID s2"
    using s by simp
qed (rule op_back_off)

lemma op_run_leased:
  assumes "run_leased actor sc key tok runID s = Some (e, s')" "op_done actor key tok runID s"
  shows "op_done actor key tok runID s'"
proof -
  have pre: "op_done actor key tok runID (s \<lparr> rs_db := d, rs_snapshot := sn, rs_backoff := b \<rparr>)" for d sn b
    using assms(2) by (auto simp: op_sound_def)
  have wr: "op_done actor key tok runID s1 \<and> (r = Inr True \<longrightarrow> op_inv actor key tok runID s1)"
    if "writeHealth actor c key tok (s \<lparr> rs_db := d, rs_snapshot := sn, rs_backoff := b, rs_health := h \<rparr>) = (r, s1)" for c d sn b h r s1
    using op_done_write [OF _ pre] that by simp
  show ?thesis using assms(1)
  proof (cases rule: run_leased_cases)
    case (1 db')
    then show ?thesis using assms(2) by (auto simp: op_sound_def)
  next
    case (2 db' snapshot backoff r)
    then show ?thesis using wr by blast
  next
    case (3 db' snapshot backoff s1)
    then show ?thesis using wr op_run_loop by blast
  qed
qed

lemma op_done_blank:
  "op_done actor key tok runID (blank_state ops (LeaseAcquired # map (\<lambda>r. Answered (rq_result r) (g r)) q) ctx bo db)"
proof -
  let ?s = "blank_state ops (LeaseAcquired # map (\<lambda>r. Answered (rq_result r) (g r)) q) ctx bo db"
  have "op_state actor key tok runID ?s = Some (False, map_option rq_result (rs_operation ?s))"
    by (simp add: op_state_def blank_state_def op_effect_def op_scan_answers)
  then show ?thesis unfolding op_sound_def by (auto simp: blank_state_def)
qed

text \<open>
  C17. Provider operations are serial, owned and fenced. In the trace of a whole run every operation
  starts after a ready health of this actor was stored under its fencing token and before any other
  health was published, carries the run, the key, the owner and the token of that lease, never runs
  beside another one, and has been answered when the run ends.
\<close>

theorem operations_serial_and_fenced:
  assumes "Actor_Run actor sc key ops db = Some (err, ops', log, db')"
    "AcquireConnectionLease (c_fault (sc_acquire sc)) (c_now (sc_acquire sc)) (fst key) (snd key)
       (ac_ownerID actor) (ac_leaseTTL actor) (c_env (sc_acquire sc) db) = (Inr (Some lease), db1)"
    "sc_ctx sc = None" "Key_valid key"
  shows "\<exists>ready. op_scan (ac_ownerID actor) key (cl_FencingToken lease) (op_runID ops + 1) log (False, None) = Some (ready, None)"
  using assms
proof (cases rule: Actor_Run_cases)
  case 1
  then show ?thesis by (intro exI [of _ False]) (simp add: op_effect_def)
next
  case (2 s)
  have "op_done actor key (cl_FencingToken lease) (op_runID ops + 1) s" using 2(2) op_done_blank by (rule op_run_leased)
  then show ?thesis
    using 2(3) by (auto simp: op_sound_def op_state_def op_scan_append endOperationRun_def Let_def op_scan_answers)
qed

section \<open>Answers\<close>

fun answered :: "effect list \<Rightarrow> nat list" where
  "answered [] = []"
| "answered (Answered i e # es) = i # answered es"
| "answered (_ # es) = answered es"

fun submitted :: "effect list \<Rightarrow> nat list" where
  "submitted [] = []"
| "submitted (Submitted i # es) = i # submitted es"
| "submitted (_ # es) = submitted es"

lemma answered_append [simp]: "answered (xs @ ys) = answered xs @ answered ys"
  by (induction xs rule: answered.induct) auto

lemma submitted_append [simp]: "submitted (xs @ ys) = submitted xs @ submitted ys"
  by (induction xs rule: submitted.induct) auto

lemma answered_map [simp]:
  "answered (map (\<lambda>r. Answered (f r) (g r)) rs) = map f rs" "submitted (map (\<lambda>r. Answered (f r) (g r)) rs) = []"
  "answered (map SessionReported ps) = []" "submitted (map SessionReported ps) = []"
  by (induction rs; simp)+ (induction ps; simp)+

text \<open>
  Every request submitted so far is answered, queued or running, and the operation run is the one
  that was begun.
\<close>

definition owed :: "'z run_state \<Rightarrow> nat multiset" where
  "owed s = mset (answered (rs_log s)) + mset (map rq_result (op_queue (rs_ops s)))
     + (case rs_operation s of None \<Rightarrow> {#} | Some r \<Rightarrow> {#rq_result r#})"

definition balanced :: "nat multiset \<times> nat \<Rightarrow> 'z run_state \<Rightarrow> bool" where
  "balanced M s = (owed s = mset (submitted (rs_log s)) + fst M \<and> op_active (rs_ops s) \<and> op_runID (rs_ops s) = snd M)"

lemma setReady_frame [simp]:
  "op_queue (setOperationReady runID b ops) = op_queue ops" "op_active (setOperationReady runID b ops) = op_active ops"
  "op_runID (setOperationReady runID b ops) = op_runID ops"
  by (simp_all add: setOperationReady_def)

lemma balanced_frame [simp]:
  "balanced M (s \<lparr> rs_db := a \<rparr>) = balanced M s" "balanced M (s \<lparr> rs_ctx := b \<rparr>) = balanced M s"
  "balanced M (s \<lparr> rs_snapshot := c \<rparr>) = balanced M s" "balanced M (s \<lparr> rs_backoff := d \<rparr>) = balanced M s"
  "balanced M (s \<lparr> rs_health := e \<rparr>) = balanced M s" "balanced M (s \<lparr> rs_callbacks := f \<rparr>) = balanced M s"
  "balanced M (s \<lparr> rs_pending := g \<rparr>) = balanced M s" "balanced M (s \<lparr> rs_debounce := h \<rparr>) = balanced M s"
  "balanced M (s \<lparr> rs_ops := setOperationReady runID r (rs_ops s) \<rparr>) = balanced M s"
  by (simp_all add: balanced_def owed_def)

lemma balanced_quiet: "answered es = [] \<Longrightarrow> submitted es = [] \<Longrightarrow> balanced M (emit es s) = balanced M s"
  by (simp add: balanced_def owed_def)

lemma balanced_store [simp]:
  "balanced M (snd (writeHealth actor c key tok s)) = balanced M s"
  "balanced M (snd (renewLease actor c key tok s)) = balanced M s"
  "balanced M (snd (flushPendingSession actor c key tok s)) = balanced M s"
  "balanced M (snd (markReauthorization actor c key tok s)) = balanced M s"
  "balanced M (take_into_pending t s) = balanced M s" "balanced M (store_pending p s) = balanced M s"
  by (auto simp: writeHealth_def renewLease_def flushPendingSession_def markReauthorization_def take_into_pending_def
      store_pending_def balanced_quiet Let_def split: prod.splits)

lemma balanced_results:
  "writeHealth actor c key tok s = (r, s') \<Longrightarrow> balanced M s' = balanced M s"
  "renewLease actor c key tok s = (r, s') \<Longrightarrow> balanced M s' = balanced M s"
  "flushPendingSession actor c key tok s = (r, s') \<Longrightarrow> balanced M s' = balanced M s"
  using balanced_store(1-3) [of M actor c key tok s] by simp_all

lemma balanced_submit: "balanced M s \<Longrightarrow> balanced M (submit rq s)"
  by (simp add: balanced_def owed_def submit_def)

lemma balanced_step:
  assumes "gen_step actor key tok runID ev s = Some (x, s')" "balanced M s"
  shows "balanced M s'"
proof (cases ev)
  case (SelectEvent c)
  have pub: "balanced M s2" if "publish_health actor key tok runID c b s1 = Some (x, s2)" "balanced M s1" for b s1 s2
    using that by (auto simp: publish_health_def balanced_results split: prod.splits if_splits)
  show ?thesis using assms SelectEvent
    by (auto simp: select_event_def Let_def split: list.splits providerEvent.splits dest!: pub)
next
  case (SelectRenew c)
  then show ?thesis using assms by (auto simp: select_renew_def balanced_results split: prod.splits if_splits)
next
  case (SelectDebounce c)
  then show ?thesis using assms by (auto simp: select_debounce_def balanced_results Let_def split: prod.splits if_splits)
next
  case (SelectOperation b)
  then show ?thesis using assms
    by (auto simp: select_operation_def balanced_def owed_def Let_def split: list.splits if_splits)
next
  case (SelectResult e)
  then show ?thesis using assms by (auto simp: select_result_def balanced_def owed_def split: option.splits)
next
  case (EmitSession p)
  then show ?thesis using assms by (auto simp: balanced_quiet)
qed (use assms in \<open>auto simp: select_session_def balanced_submit split: option.splits if_splits\<close>)

lemma balanced_loop:
  "generation_loop actor key tok runID evs s = Some (exit, s') \<Longrightarrow> balanced M s \<Longrightarrow> balanced M s'"
  by (induction evs arbitrary: s) (auto split: option.splits prod.splits dest: balanced_step)

interpretation balanced_teardown: teardown_invariant actor key tok "\<lambda>_. True" "balanced M" for actor key tok M
  by standard (simp_all add: balanced_quiet)

lemma balanced_runGeneration:
  assumes "runGeneration actor key tok runID evs td s = Some (outcome, s')" "balanced M s" "rs_operation s = None"
  shows "balanced M s'"
proof -
  let ?s0 = "s \<lparr> rs_ops := setOperationReady runID False (rs_ops s), rs_pending := [], rs_debounce := False, rs_operation := None \<rparr>"
  obtain exit s1 where l: "generation_loop actor key tok runID evs ?s0 = Some (exit, s1)"
    using assms(1) by (auto simp: runGeneration_def Let_def split: option.splits)
  obtain exit' s2 where j: "join_operation runID (td_operation td) exit s1 = (exit', s2)" by fastforce
  have "balanced M ?s0" using assms(2,3) by (simp add: balanced_def owed_def)
  with l have "balanced M s1" by (rule balanced_loop)
  with j have "balanced M s2" by (auto simp: join_operation_def balanced_def owed_def Let_def split: option.splits)
  then have "balanced M (snd (finalizeGeneration actor key tok td exit' s2))"
    by (intro balanced_teardown.keep_finalize) (simp_all add: final_flush_def balanced_quiet)
  then show ?thesis using assms(1) l j by (auto simp: runGeneration_def Let_def split: prod.splits)
qed

lemma balanced_wait: "waitBackoff actor key tok evs s = Some (e, s') \<Longrightarrow> balanced M s \<Longrightarrow> balanced M s'"
  by (induction actor key tok evs s rule: waitBackoff.induct)
    (auto simp: balanced_submit balanced_results balanced_quiet Let_def split: if_splits prod.splits)

lemma balanced_back_off:
  assumes "back_off actor key tok g s = Some x" "balanced M s"
  shows "case x of Inl (_, s2) \<Rightarrow> balanced M s2 | Inr s2 \<Rightarrow> balanced M s2"
  using assms(1)
proof (cases rule: back_off_cases)
  case (2 delay bo s0 s1 e s2 y)
  have "balanced M s1" using assms(2) 2(2) balanced_results(1) [OF 2(3)] by (simp add: balanced_quiet)
  then show ?thesis using 2(5) balanced_wait [OF 2(4)] by (simp add: balanced_quiet)
next
  case (3 delay bo s0 s1 s2 r3 s3)
  have "balanced M s1" using assms(2) 3(2) balanced_results(1) [OF 3(3)] by (simp add: balanced_quiet)
  then have "balanced M s2" using balanced_wait [OF 3(4)] by (simp add: balanced_quiet)
  then show ?thesis using 3(6) balanced_results(1) [OF 3(5)] by simp
qed (use assms(2) in \<open>auto simp: balanced_results balanced_quiet\<close>)

lemma balanced_run_loop:
  assumes "run_loop actor key tok runID gs s = Some (e, s')" "balanced M s" "op_inv actor key tok runID s" "rs_operation s = None"
  shows "balanced M s'"
proof -
  have "balanced M s' \<and> op_done actor key tok runID s'"
  proof (rule run_loop_invariant [where T = "\<lambda>s. balanced M s \<and> op_inv actor key tok runID s \<and> rs_operation s = None"
          and R = "\<lambda>s. balanced M s \<and> op_done actor key tok runID s", OF assms(1)])
    show "balanced M s \<and> op_inv actor key tok runID s \<and> rs_operation s = None" using assms(2-4) by blast
  next
    fix g and s :: "'a run_state" assume s: "balanced M s \<and> op_inv actor key tok runID s \<and> rs_operation s = None"
    then have "op_done actor key tok runID (s \<lparr> rs_callbacks := newProviderCallbacks \<rparr>)" by (auto simp: op_inv_def op_sound_def)
    then have "op_done actor key tok runID (restore_failed actor key tok (gn_config g) (s \<lparr> rs_callbacks := newProviderCallbacks \<rparr>))"
      unfolding restore_failed_def using op_done_write [OF prod.collapse [symmetric]] by blast
    then show "balanced M (restore_failed actor key tok (gn_config g) (s \<lparr> rs_callbacks := newProviderCallbacks \<rparr>))
      \<and> op_done actor key tok runID (restore_failed actor key tok (gn_config g) (s \<lparr> rs_callbacks := newProviderCallbacks \<rparr>))"
      using s by (simp add: restore_failed_def)
  next
    fix g outcome s2 and s :: "'a run_state" assume s: "balanced M s \<and> op_inv actor key tok runID s \<and> rs_operation s = None"
      and g: "runGeneration actor key tok runID (gn_events g) (gn_teardown g)
        (emit [Restored (ss_Plaintext (rs_snapshot s))] (s \<lparr> rs_callbacks := newProviderCallbacks \<rparr>)) = Some (outcome, s2)"
    have "op_inv actor key tok runID (emit [Restored (ss_Plaintext (rs_snapshot s))] (s \<lparr> rs_callbacks := newProviderCallbacks \<rparr>))"
      using s by (auto simp: op_inv_def op_defs)
    then show "if go_stop outcome then balanced M s2 \<and> op_done actor key tok runID s2 else balanced M s2 \<and> op_done actor key tok runID s2"
      using s op_runGeneration [OF g] balanced_runGeneration [OF g] by (simp add: balanced_quiet)
  next
    fix g x and s :: "'a run_state" assume "balanced M s \<and> op_done actor key tok runID s" "back_off actor key tok g s = Some x"
    then show "case x of Inl (_, s2) \<Rightarrow> balanced M s2 \<and> op_done actor key tok runID s2
      | Inr s2 \<Rightarrow> balanced M s2 \<and> op_inv actor key tok runID s2 \<and> rs_operation s2 = None"
      using op_back_off [of actor key tok g s x runID] balanced_back_off [of actor key tok g s x M] by (cases x) auto
  qed
  then show ?thesis ..
qed

lemma balanced_run_leased:
  assumes "run_leased actor sc key tok runID s = Some (e, s')" "balanced M s" "op_done actor key tok runID s"
  shows "balanced M s'"
  using assms(1)
proof (cases rule: run_leased_cases)
  case (2 db' snapshot backoff r)
  then show ?thesis using assms(2) balanced_results(1) [OF 2(4)] by simp
next
  case (3 db' snapshot backoff s1)
  have "op_done actor key tok runID (s \<lparr> rs_db := db', rs_snapshot := snapshot, rs_backoff := backoff \<rparr>)"
    using assms(3) by (auto simp: op_sound_def)
  then have "op_inv actor key tok runID s1 \<and> rs_operation s1 = None" using op_done_write [OF 3(4)] by blast
  then show ?thesis using assms(2) balanced_results(1) [OF 3(4)] balanced_run_loop [OF 3(5)] by simp
qed (use assms(2) in simp)

text \<open>
  C18. Every operation request is answered exactly once: when a run that acquired the lease ends, the
  requests it found in the queue and those that were submitted while it ran are, counted with
  multiplicity, the requests it answered, and the queue is empty.
\<close>

theorem every_request_answered_once:
  assumes "Actor_Run actor sc key ops db = Some (err, ops', log, db')"
    "AcquireConnectionLease (c_fault (sc_acquire sc)) (c_now (sc_acquire sc)) (fst key) (snd key)
       (ac_ownerID actor) (ac_leaseTTL actor) (c_env (sc_acquire sc) db) = (Inr (Some lease), db1)"
    "sc_ctx sc = None" "Key_valid key" "\<not> op_active ops"
  shows "mset (answered log) = mset (submitted log) + mset (map rq_result (op_queue ops)) \<and> op_queue ops' = [] \<and> \<not> op_active ops'"
  using assms(1-4)
proof (cases rule: Actor_Run_cases)
  case 1
  then show ?thesis using assms(5) by simp
next
  case (2 s)
  have "op_done actor key (cl_FencingToken lease) (op_runID ops + 1) s" using 2(2) op_done_blank by (rule op_run_leased)
  moreover have "balanced (mset (map rq_result (op_queue ops)), op_runID ops + 1) s"
    by (rule balanced_run_leased [OF 2(2) _ op_done_blank]) (simp add: balanced_def owed_def blank_state_def)
  ultimately show ?thesis
    using 2(3,4) by (auto simp: endOperationRun_def balanced_def owed_def Let_def)
qed

section \<open>Witnesses\<close>

lemma demo_run:
  "\<exists>ops log db. Actor_Run demo_actor demo_script (''t1'', ''c1'') demo_ops demo_rotation_db = Some (None, ops, log, db) \<and> answered log = [7]"
  by (simp add: Actor_Run_def demo_script_def Key_valid_def demo_acquires beginOperationRun_def demo_ops_def run_leased_def
      GetConnection_def demo_leased_fields demo_connection_def demo_load demo_generation_def demo_request_def demo_teardown_def
      endOperationRun_def demo_run_defs)

lemma demo_script_acquires:
  "AcquireConnectionLease (c_fault (sc_acquire demo_script)) (c_now (sc_acquire demo_script)) (fst (''t1'', ''c1'')) (snd (''t1'', ''c1''))
     (ac_ownerID demo_actor) (ac_leaseTTL demo_actor) (c_env (sc_acquire demo_script) demo_rotation_db)
   = (Inr (Some \<lparr> cl_OwnerID = ''replica-a'', cl_FencingToken = 4, cl_ExpiresAt = 30000010 \<rparr>), demo_leased)"
  "sc_ctx demo_script = None" "Key_valid (''t1'', ''c1'')" "\<not> op_active demo_ops" "op_runID demo_ops = 0" "op_queue demo_ops = []"
  by (simp_all add: demo_script_def demo_ca demo_ac demo_acquires Key_valid_def demo_ops_def)

theorem operations_serial_and_fenced_witness:
  "\<exists>ops log db ready. Actor_Run demo_actor demo_script (''t1'', ''c1'') demo_ops demo_rotation_db = Some (None, ops, log, db)
     \<and> answered log = [7] \<and> op_scan ''replica-a'' (''t1'', ''c1'') 4 1 log (False, None) = Some (ready, None)"
proof -
  obtain ops log db where r: "Actor_Run demo_actor demo_script (''t1'', ''c1'') demo_ops demo_rotation_db = Some (None, ops, log, db)"
    "answered log = [7]" using demo_run by blast
  show ?thesis using r operations_serial_and_fenced [OF r(1) demo_script_acquires(1-3)]
    by (simp add: demo_script_acquires(5) demo_ac)
qed

theorem every_request_answered_once_witness:
  "\<exists>ops log db. Actor_Run demo_actor demo_script (''t1'', ''c1'') demo_ops demo_rotation_db = Some (None, ops, log, db)
     \<and> mset (submitted log) = {#7#} \<and> op_queue ops = []"
proof -
  obtain ops log db where r: "Actor_Run demo_actor demo_script (''t1'', ''c1'') demo_ops demo_rotation_db = Some (None, ops, log, db)"
    "answered log = [7]" using demo_run by blast
  show ?thesis using r every_request_answered_once [OF r(1) demo_script_acquires(1-4)]
    by (simp add: demo_script_acquires(6))
qed

end
