(* ===== verification/Actor_Sessions.thy ===== *)
theory Actor_Sessions
  imports Actor_Correct
begin

text \<open>
  The provider sessions of a connection actor: which session is stored, and which one a generation
  is restored from.
\<close>

section \<open>Sessions\<close>

text \<open>
  A reading of the trace of a run: the newest session the provider reported, the session stored
  under the fence and its revision. A trace is refused when a swap offers another session than the
  newest reported one or expects another revision than the stored one, and when a generation is
  restored from a session that is not both the newest reported and the stored one.
\<close>

type_synonym sess = "string \<times> string \<times> nat"

fun sess_effect :: "effect \<Rightarrow> sess \<Rightarrow> sess option" where
  "sess_effect (SessionReported p) (reported, saved, revision) = Some (p, saved, revision)"
| "sess_effect (SessionSwap p r res) (reported, saved, revision) =
     (if p \<noteq> reported \<or> r \<noteq> revision then None
      else if res = Inr True then Some (reported, p, revision + 1) else Some (reported, saved, revision))"
| "sess_effect (Restored p) (reported, saved, revision) =
     (if p = reported \<and> p = saved then Some (reported, saved, revision) else None)"
| "sess_effect _ st = Some st"

fun sess_scan :: "effect list \<Rightarrow> sess \<Rightarrow> sess option" where
  "sess_scan [] st = Some st"
| "sess_scan (e # es) st = (case sess_effect e st of None \<Rightarrow> None | Some st' \<Rightarrow> sess_scan es st')"

lemma sess_scan_append:
  "sess_scan (xs @ ys) st = (case sess_scan xs st of None \<Rightarrow> None | Some st' \<Rightarrow> sess_scan ys st')"
  by (induction xs arbitrary: st) (auto split: option.splits)

lemma sess_scan_reports: "sess_scan (map SessionReported ps) (r, v) = Some (if ps = [] then r else last ps, v)"
  by (cases v) (induction ps arbitrary: r; simp)

text \<open>The part of the trace from position \<open>n\<close> on, read from \<open>st\<close>.\<close>

definition sess_state :: "nat \<times> sess \<Rightarrow> 'z run_state \<Rightarrow> sess option" where
  "sess_state N s = (if fst N \<le> length (rs_log s) then sess_scan (drop (fst N) (rs_log s)) (snd N) else None)"

lemma sess_state_emit:
  "sess_state N (emit es s) = (case sess_state N s of None \<Rightarrow> None | Some st \<Rightarrow> sess_scan es st)"
  if "fst N \<le> length (rs_log s)"
  using that by (simp add: sess_state_def sess_scan_append)

lemma sess_state_frame [simp]:
  "sess_state N (s \<lparr> rs_db := a \<rparr>) = sess_state N s" "sess_state N (s \<lparr> rs_ops := b \<rparr>) = sess_state N s"
  "sess_state N (s \<lparr> rs_ctx := c \<rparr>) = sess_state N s" "sess_state N (s \<lparr> rs_snapshot := d \<rparr>) = sess_state N s"
  "sess_state N (s \<lparr> rs_backoff := e \<rparr>) = sess_state N s" "sess_state N (s \<lparr> rs_health := f \<rparr>) = sess_state N s"
  "sess_state N (s \<lparr> rs_callbacks := g \<rparr>) = sess_state N s" "sess_state N (s \<lparr> rs_pending := h \<rparr>) = sess_state N s"
  "sess_state N (s \<lparr> rs_debounce := i \<rparr>) = sess_state N s" "sess_state N (s \<lparr> rs_operation := j \<rparr>) = sess_state N s"
  by (simp_all add: sess_state_def)

text \<open>The newest session of a generation: in the channel, else pending, else the snapshot.\<close>

definition newest_of :: "string option \<Rightarrow> string \<Rightarrow> string \<Rightarrow> string" where
  "newest_of channel pending stored =
     (case channel of Some p \<Rightarrow> p | None \<Rightarrow> if pending = [] then stored else pending)"

lemma newest_of_simps [simp]:
  "newest_of (Some p) q r = p" "newest_of None [] r = r" "q \<noteq> [] \<Longrightarrow> newest_of None q r = q" "newest_of None r r = r"
  by (simp_all add: newest_of_def)

definition newest :: "'z run_state \<Rightarrow> string" where
  "newest s = newest_of (cb_sessions (rs_callbacks s)) (rs_pending s) (ss_Plaintext (rs_snapshot s))"

definition sess_inv :: "nat \<times> sess \<Rightarrow> 'z run_state \<Rightarrow> bool" where
  "sess_inv N s =
     (sess_state N s = Some (newest s, ss_Plaintext (rs_snapshot s), ss_Revision (rs_snapshot s))
      \<and> cb_active (rs_callbacks s) \<and> cb_sessions (rs_callbacks s) \<noteq> Some []
      \<and> (\<forall>p. EventSessionChanged p \<notin> set (cb_events (rs_callbacks s))))"

text \<open>After a refused swap the pending session is dropped and the newest one is no longer held.\<close>

definition sess_weak :: "nat \<times> sess \<Rightarrow> 'z run_state \<Rightarrow> bool" where
  "sess_weak N s =
     (\<exists>rep. sess_state N s = Some (rep, ss_Plaintext (rs_snapshot s), ss_Revision (rs_snapshot s))
        \<and> cb_active (rs_callbacks s) \<and> cb_sessions (rs_callbacks s) \<noteq> Some []
        \<and> (rep = newest s \<or> rs_pending s = [] \<and> cb_sessions (rs_callbacks s) = None))"

text \<open>What the hooks of a provider can do: sessions are not empty and go through their own channel.\<close>

fun hooked :: "'z gen_event \<Rightarrow> bool" where
  "hooked (EmitEvent (EventSessionChanged _)) = False"
| "hooked (EmitSession p) = (p \<noteq> [])"
| "hooked _ = True"

definition hooked_generation :: "'z generation \<Rightarrow> bool" where
  "hooked_generation g = (list_all hooked (gn_events g) \<and> list_all (\<lambda>p. p \<noteq> []) (td_sessions (gn_teardown g)))"

lemma sess_length: "sess_state N s \<noteq> None \<Longrightarrow> fst N \<le> length (rs_log s)"
  by (auto simp: sess_state_def split: if_splits)

lemma sess_quiet:
  assumes "sess_state N s = Some st" "\<And>e. e \<in> set es \<Longrightarrow> sess_effect e st = Some st"
  shows "sess_state N (emit es s) = Some st"
proof -
  have "sess_scan es st = Some st" using assms(2) by (induction es) auto
  then show ?thesis using assms(1) sess_length [of N s] by (simp add: sess_state_emit)
qed

lemma sess_store:
  assumes "sess_state N s = Some st"
  shows "sess_state N (snd (writeHealth actor c key tok s)) = Some st"
    "sess_state N (snd (renewLease actor c key tok s)) = Some st"
    "sess_state N (snd (markReauthorization actor c key tok s)) = Some st"
  using assms
  by (auto simp: writeHealth_def renewLease_def markReauthorization_def Let_def split: prod.splits intro!: sess_quiet)

lemma sess_frame:
  assumes "sess_inv N s" "sess_state N s' = sess_state N s" "rs_callbacks s' = rs_callbacks s" "rs_pending s' = rs_pending s"
    "rs_snapshot s' = rs_snapshot s"
  shows "sess_inv N s'"
proof -
  have "newest s' = newest s" using assms(3-5) by (simp add: newest_def split: option.split)
  then show ?thesis using assms by (simp add: sess_inv_def)
qed

lemma sess_inv_frame [simp]:
  "sess_inv N (s \<lparr> rs_db := a \<rparr>) = sess_inv N s" "sess_inv N (s \<lparr> rs_ops := b \<rparr>) = sess_inv N s"
  "sess_inv N (s \<lparr> rs_ctx := c \<rparr>) = sess_inv N s" "sess_inv N (s \<lparr> rs_backoff := e \<rparr>) = sess_inv N s"
  "sess_inv N (s \<lparr> rs_health := f \<rparr>) = sess_inv N s" "sess_inv N (s \<lparr> rs_debounce := i \<rparr>) = sess_inv N s"
  "sess_inv N (s \<lparr> rs_operation := j \<rparr>) = sess_inv N s"
  by (simp_all add: sess_inv_def newest_def)

lemma sess_inv_emit:
  assumes "sess_inv N s" "\<And>e st. e \<in> set es \<Longrightarrow> sess_effect e st = Some st"
  shows "sess_inv N (emit es s)"
  using assms(1) by (rule sess_frame) (use assms sess_quiet [of N s _ es] in \<open>auto simp: sess_inv_def\<close>)

lemma session_frame [simp]:
  "rs_callbacks (snd (writeHealth actor c key tok s)) = rs_callbacks s" "rs_pending (snd (writeHealth actor c key tok s)) = rs_pending s"
  "rs_snapshot (snd (writeHealth actor c key tok s)) = rs_snapshot s" "rs_callbacks (snd (renewLease actor c key tok s)) = rs_callbacks s"
  "rs_pending (snd (renewLease actor c key tok s)) = rs_pending s" "rs_snapshot (snd (renewLease actor c key tok s)) = rs_snapshot s"
  "rs_snapshot (snd (markReauthorization actor c key tok s)) = rs_snapshot s"
  by (simp_all add: writeHealth_def renewLease_def markReauthorization_def Let_def split: prod.splits)

lemma sess_inv_store:
  "writeHealth actor c key tok s = (r, s') \<Longrightarrow> sess_inv N s \<Longrightarrow> sess_inv N s'"
  "renewLease actor c key tok s = (r, s') \<Longrightarrow> sess_inv N s \<Longrightarrow> sess_inv N s'"
proof -
  assume w: "writeHealth actor c key tok s = (r, s')" and I: "sess_inv N s"
  then have "sess_state N s' = sess_state N s" using sess_store(1) [of N s _ actor c key tok] by (auto simp: sess_inv_def)
  from sess_frame [OF I this] show "sess_inv N s'" using session_frame(1-3) [of actor c key tok s] w by simp
next
  assume w: "renewLease actor c key tok s = (r, s')" and I: "sess_inv N s"
  then have "sess_state N s' = sess_state N s" using sess_store(2) [of N s _ actor c key tok] by (auto simp: sess_inv_def)
  from sess_frame [OF I this] show "sess_inv N s'" using session_frame(4-6) [of actor c key tok s] w by simp
qed

lemma sess_inv_weak: "sess_inv N s \<Longrightarrow> sess_weak N s"
  by (simp add: sess_inv_def sess_weak_def)

text \<open>
  A flush of what was taken from the channel offers the newest session; a successful one leaves the
  newest session stored.
\<close>

lemma sess_flush:
  assumes "flushPendingSession actor c key tok s = (r, s')"
    "sess_state N s = Some (rep, ss_Plaintext (rs_snapshot s), ss_Revision (rs_snapshot s))"
    "rs_pending s \<noteq> [] \<longrightarrow> rep = rs_pending s"
  shows "rs_callbacks s' = rs_callbacks s \<and> rs_pending s' = []
    \<and> sess_state N s' = Some (rep, ss_Plaintext (rs_snapshot s'), ss_Revision (rs_snapshot s'))
    \<and> (r = Inr True \<longrightarrow> ss_Plaintext (rs_snapshot s') = (if rs_pending s = [] then ss_Plaintext (rs_snapshot s) else rs_pending s))"
proof (cases "rs_pending s = []")
  case True
  then show ?thesis using assms by (auto simp: flushPendingSession_def)
next
  case False
  obtain r0 db' where cas: "sessions_CompareAndSwapFenced (ac_sessions actor) (c_fault c) (c_now c) (c_rnd c) key (ac_ownerID actor)
      tok (ss_Revision (rs_snapshot s)) (rs_pending s) (c_env c (rs_db s)) = (r0, db')" by fastforce
  have l: "fst N \<le> length (rs_log s)" using assms(2) sess_length [of N s] by simp
  have "sess_state N (emit [SessionSwap (rs_pending s) (ss_Revision (rs_snapshot s)) r0] (s \<lparr> rs_db := db', rs_pending := [] \<rparr>))
      = Some (rep, if r0 = Inr True then rep else ss_Plaintext (rs_snapshot s),
              if r0 = Inr True then ss_Revision (rs_snapshot s) + 1 else ss_Revision (rs_snapshot s))"
    using assms(2,3) l False by (simp add: sess_state_emit)
  then show ?thesis using assms(1,3) False cas
    by (auto simp: flushPendingSession_def Let_def split: if_splits)
qed

lemma newest_take:
  assumes "cb_sessions cb \<noteq> Some []"
  shows "newest (take_into_pending (takeLatest cb) s) = newest_of (cb_sessions cb) (rs_pending s) (ss_Plaintext (rs_snapshot s))"
  using assms by (auto simp: newest_def take_into_pending_def takeLatest_def split: option.splits)

lemma takeLatest_sessions: "cb_sessions (snd (takeLatest cb)) = None"
  by (simp add: takeLatest_def split: option.split)

lemma sess_publish:
  assumes "publish_health actor key tok runID c b s = Some (x, s')" "sess_inv N s"
  shows "sess_inv N s'"
proof -
  obtain r s1 where w: "writeHealth actor c key tok s = (r, s1)" by fastforce
  have "sess_inv N s1" using sess_inv_store(1) [OF w assms(2)] .
  then show ?thesis using assms(1) w by (auto simp: publish_health_def split: if_splits elim: sess_frame)
qed

lemma sess_select_event:
  assumes "select_event actor key tok runID c s = Some (x, s')" "sess_inv N s"
  shows "sess_inv N s'"
proof -
  obtain e es where q: "cb_events (rs_callbacks s) = e # es" using assms(1) by (auto simp: select_event_def split: list.splits)
  have "e \<noteq> EventSessionChanged p" for p using assms(2) q by (auto simp: sess_inv_def)
  moreover have "sess_inv N (s \<lparr> rs_callbacks := (rs_callbacks s) \<lparr> cb_events := es \<rparr> \<rparr>)"
    using assms(2) q by (auto simp: sess_inv_def newest_def)
  ultimately show ?thesis using assms(1) q
    by (cases e) (auto simp: select_event_def Let_def dest!: sess_publish [where N = N])
qed

lemma sess_select_debounce:
  assumes "select_debounce actor key tok c s = Some (x, s')" "sess_inv N s"
  shows "sess_weak N s' \<and> (x = None \<longrightarrow> sess_inv N s') \<and> (\<forall>exit. x = Some exit \<longrightarrow> ge_kind exit \<noteq> generationExitProvider)"
proof -
  let ?s1 = "take_into_pending (takeLatest (rs_callbacks s)) (s \<lparr> rs_debounce := False \<rparr>)"
  obtain r s2 where f: "flushPendingSession actor c key tok ?s1 = (r, s2)" by fastforce
  note I = assms(2) [unfolded sess_inv_def]
  have st: "sess_state N ?s1 = Some (newest ?s1, ss_Plaintext (rs_snapshot ?s1), ss_Revision (rs_snapshot ?s1))"
    "cb_sessions (rs_callbacks ?s1) = None"
    using I newest_take [of "rs_callbacks s" "s \<lparr> rs_debounce := False \<rparr>"]
    by (simp_all add: take_into_pending_def takeLatest_sessions newest_def [of s])
  have cb: "cb_active (rs_callbacks ?s1)" "\<And>p. EventSessionChanged p \<notin> set (cb_events (rs_callbacks ?s1))"
    using I by (auto simp: take_into_pending_def takeLatest_def split: option.splits)
  have "rs_pending ?s1 \<noteq> [] \<longrightarrow> newest ?s1 = rs_pending ?s1" using st(2) by (simp add: newest_def)
  note fl = sess_flush [OF f st(1) this]
  have n: "newest ?s1 = newest_of None (rs_pending ?s1) (ss_Plaintext (rs_snapshot ?s1))" using st(2) by (simp add: newest_def)
  have "r = Inr True \<Longrightarrow> sess_inv N s2" using cb st(2) fl n by (auto simp: sess_inv_def newest_def [of s2] split: if_splits)
  moreover have "sess_weak N s2" using cb(1) st(2) fl by (auto simp: sess_weak_def)
  moreover have "sess_weak N ?s1" using st cb(1) by (auto simp: sess_weak_def)
  ultimately show ?thesis using assms(1) f
    by (auto simp: select_debounce_def Let_def split: if_splits)
qed

lemma sess_step:
  assumes "gen_step actor key tok runID ev s = Some (x, s')" "sess_inv N s" "hooked ev"
  shows "sess_weak N s' \<and> (x = None \<longrightarrow> sess_inv N s')
    \<and> (\<forall>exit. x = Some exit \<longrightarrow> ge_kind exit = generationExitProvider \<longrightarrow> sess_inv N s')"
proof (cases ev)
  case (SelectDebounce c)
  then show ?thesis using assms sess_select_debounce by fastforce
next
  case (EmitSession p)
  then have "sess_inv N s'" using assms sess_length [of N s]
    by (auto simp: sess_inv_def newest_def replaceSession_def sess_state_emit)
  then show ?thesis by (simp add: sess_inv_weak)
next
  case (EmitEvent e)
  then have "sess_inv N s'" using assms
    by (cases e) (auto simp: sess_inv_def newest_def callbacks_send_def split: if_splits)
  then show ?thesis by (simp add: sess_inv_weak)
next
  case (SelectEvent c)
  then show ?thesis using assms sess_select_event sess_inv_weak by (metis gen_step.simps(7))
next
  case (SelectRenew c)
  then have "sess_inv N s'" using assms
    by (auto simp: select_renew_def split: prod.splits if_splits dest!: sess_inv_store(2))
  then show ?thesis by (simp add: sess_inv_weak)
next
  case SelectSession
  then have "sess_inv N s'" using assms
    by (auto simp: select_session_def store_pending_def sess_inv_def newest_def split: option.splits)
  then show ?thesis by (simp add: sess_inv_weak)
next
  case (SelectOperation b)
  then have "sess_inv N s'" using assms
    by (auto simp: select_operation_def Let_def split: if_splits list.splits intro!: sess_inv_emit)
  then show ?thesis by (simp add: sess_inv_weak)
next
  case (SelectResult e)
  then have "sess_inv N s'" using assms
    by (auto simp: select_result_def split: option.splits intro!: sess_inv_emit)
  then show ?thesis by (simp add: sess_inv_weak)
next
  case (Submit rq)
  then have "sess_inv N s'" using assms
    by (auto simp: submit_def split: if_splits intro!: sess_inv_emit)
  then show ?thesis by (simp add: sess_inv_weak)
next
  case (CancelContext e)
  then have "sess_inv N s'" using assms by (auto elim: sess_frame)
  then show ?thesis by (simp add: sess_inv_weak)
qed (use assms in \<open>auto simp: sess_inv_weak split: if_splits\<close>)

lemma sess_loop:
  assumes "generation_loop actor key tok runID evs s = Some (exit, s')" "sess_inv N s" "list_all hooked evs"
  shows "sess_weak N s' \<and> (ge_kind exit = generationExitProvider \<longrightarrow> sess_inv N s')"
  using assms
proof (induction evs arbitrary: s)
  case (Cons ev evs)
  then obtain x s1 where st: "gen_step actor key tok runID ev s = Some (x, s1)"
    by (auto split: option.splits)
  show ?case using Cons.prems Cons.IH [of s1] sess_step [OF st Cons.prems(2)] st by (cases x) auto
qed simp

lemma fold_replaceSession:
  "cb_active cb \<Longrightarrow> fold replaceSession ps cb = (if ps = [] then cb else cb \<lparr> cb_sessions := Some (last ps) \<rparr>)"
  by (induction ps arbitrary: cb) (auto simp: replaceSession_def)

definition sess_top :: "nat \<times> sess \<Rightarrow> 'z run_state \<Rightarrow> bool" where
  "sess_top N s =
     (sess_state N s = Some (ss_Plaintext (rs_snapshot s), ss_Plaintext (rs_snapshot s), ss_Revision (rs_snapshot s)))"

lemma sess_final_flush:
  assumes "final_flush actor key tok td s = (r, s')" "sess_weak N s" "list_all (\<lambda>p. p \<noteq> []) (td_sessions td)"
  shows "sess_state N s' \<noteq> None \<and> (r = Inr True \<longrightarrow> newest s = rep \<longrightarrow> sess_state N s = Some (rep, v) \<longrightarrow> sess_top N s')"
proof -
  obtain rep0 where w: "sess_state N s = Some (rep0, ss_Plaintext (rs_snapshot s), ss_Revision (rs_snapshot s))"
    "cb_active (rs_callbacks s)" "cb_sessions (rs_callbacks s) \<noteq> Some []"
    "rep0 = newest s \<or> rs_pending s = [] \<and> cb_sessions (rs_callbacks s) = None"
    using assms(2) by (auto simp: sess_weak_def)
  define ps where "ps = td_sessions td"
  define cb where "cb = (fold replaceSession ps (rs_callbacks s)) \<lparr> cb_active := False \<rparr>"
  define s0 where "s0 = emit (Disconnected (td_disconnected td) # map SessionReported ps) s"
  define s1 where "s1 = take_into_pending (takeLatest cb) s0"
  have f: "flushPendingSession actor (td_flush td) key tok s1 = (r, s')"
    using assms(1) by (simp add: final_flush_def s1_def s0_def cb_def ps_def stopAcceptingAndTakeLatest_def)
  have cbs: "cb_sessions cb = (if ps = [] then cb_sessions (rs_callbacks s) else Some (last ps))"
    using w(2) by (simp add: cb_def fold_replaceSession)
  have ne: "cb_sessions cb \<noteq> Some []"
    using assms(3) w(3) cbs by (auto simp: ps_def [symmetric] list_all_iff)
  define rep1 where "rep1 = (if ps = [] then rep0 else last ps)"
  have st: "sess_state N s1 = Some (rep1, ss_Plaintext (rs_snapshot s1), ss_Revision (rs_snapshot s1))"
    using w(1) sess_length [of N s] by (simp add: s1_def s0_def take_into_pending_def sess_state_emit sess_scan_reports rep1_def)
  have pend: "rs_pending s1 = (case cb_sessions cb of None \<Rightarrow> rs_pending s | Some p \<Rightarrow> p)"
    using ne by (auto simp: s1_def s0_def take_into_pending_def takeLatest_def split: option.split)
  have rp: "rs_pending s1 \<noteq> [] \<longrightarrow> rep1 = rs_pending s1"
    using w(4) pend cbs by (auto simp: rep1_def newest_def split: option.splits)
  note fl = sess_flush [OF f st rp]
  have "sess_top N s'" if "r = Inr True" "newest s = rep" "sess_state N s = Some (rep, v)"
  proof -
    have "rep1 = newest_of (cb_sessions cb) (rs_pending s) (ss_Plaintext (rs_snapshot s))"
      using that(2,3) w(1) cbs by (simp add: rep1_def newest_def)
    moreover have "newest_of (cb_sessions cb) (rs_pending s) (ss_Plaintext (rs_snapshot s))
        = (if rs_pending s1 = [] then ss_Plaintext (rs_snapshot s1) else rs_pending s1)"
      using pend ne by (auto simp: s1_def s0_def take_into_pending_def newest_of_def split: option.splits)
    ultimately show ?thesis using fl that(1) by (simp add: sess_top_def)
  qed
  then show ?thesis using fl by blast
qed

interpretation sess_teardown: teardown_invariant actor key tok "\<lambda>_. True" "\<lambda>s. sess_state N s \<noteq> None" for actor key tok N
proof
  fix s :: "'z run_state" and c
  assume "sess_state N s \<noteq> None"
  then obtain st where st: "sess_state N s = Some st" by blast
  then show "sess_state N (snd (writeHealth actor c key tok s)) \<noteq> None" "sess_state N (snd (markReauthorization actor c key tok s)) \<noteq> None"
    using sess_store by (metis option.distinct(1))+
  show "sess_state N (emit [LeaseLost] s) \<noteq> None" using sess_quiet [OF st, of "[LeaseLost]"] by simp
qed simp

lemma finalize_reconnect_state:
  assumes "\<not> go_stop (fst (finalizeGeneration actor key tok td exit s))"
  shows "snd (finalizeGeneration actor key tok td exit s) = snd (final_flush actor key tok td s)"
proof -
  obtain cj exit' where j: "join_connect (td_connect td) exit = (cj, exit')" by fastforce
  obtain swap s2 where f: "final_flush actor key tok td s = (swap, s2)" by fastforce
  note f' = f [unfolded final_flush_def]
  have "\<not> terminalProviderError e \<Longrightarrow> snd (finalize_provider actor key tok td e s2) = s2" for e
    by (simp add: finalize_provider_def terminalProviderError_def Let_def)
  then show ?thesis using assms f unfolding finalizeGeneration_def Let_def j prod.case f'
    by (auto simp: finalize_provider_stops split: if_splits generationExitKind.splits)
qed

lemma sess_runGeneration:
  assumes "runGeneration actor key tok runID evs td s = Some (outcome, s')" "sess_top N s" "rs_callbacks s = newProviderCallbacks"
    "list_all hooked evs" "list_all (\<lambda>p. p \<noteq> []) (td_sessions td)"
  shows "sess_state N s' \<noteq> None \<and> (\<not> go_stop outcome \<longrightarrow> sess_top N s')"
proof -
  let ?s0 = "s \<lparr> rs_ops := setOperationReady runID False (rs_ops s), rs_pending := [], rs_debounce := False, rs_operation := None \<rparr>"
  obtain exit s1 where l: "generation_loop actor key tok runID evs ?s0 = Some (exit, s1)"
    using assms(1) by (auto simp: runGeneration_def Let_def split: option.splits)
  obtain exit' s2 where j: "join_operation runID (td_operation td) exit s1 = (exit', s2)" by fastforce
  have "sess_inv N ?s0" using assms(2,3) by (simp add: sess_inv_def sess_top_def newest_def newProviderCallbacks_def)
  from sess_loop [OF l this assms(4)] have s1: "sess_weak N s1" "ge_kind exit = generationExitProvider \<Longrightarrow> sess_inv N s1" by auto
  have fr: "rs_callbacks s2 = rs_callbacks s1" "rs_pending s2 = rs_pending s1" "rs_snapshot s2 = rs_snapshot s1"
    "sess_state N s2 = sess_state N s1"
  proof -
    obtain st where "sess_state N s1 = Some st" using s1(1) by (auto simp: sess_weak_def)
    then show "sess_state N s2 = sess_state N s1"
      using j by (auto simp: join_operation_def Let_def split: option.splits intro!: sess_quiet)
  qed (use j in \<open>auto simp: join_operation_def Let_def split: option.splits\<close>)
  have n2: "newest s2 = newest s1" using fr by (simp add: newest_def)
  have w2: "sess_weak N s2" using s1(1) fr n2 by (simp add: sess_weak_def)
  obtain r s3 where f: "final_flush actor key tok td s2 = (r, s3)" by fastforce
  note ff = sess_final_flush [OF f w2 assms(5)]
  let ?fin = "finalizeGeneration actor key tok td exit' s2"
  have out: "outcome = fst ?fin" "s' = (snd ?fin) \<lparr> rs_ops := setOperationReady runID False (rs_ops (snd ?fin)), rs_pending := [], rs_debounce := False \<rparr>"
    using assms(1) l j by (auto simp: runGeneration_def Let_def split: prod.splits)
  have "sess_state N (snd ?fin) \<noteq> None" by (rule sess_teardown.keep_finalize) (use ff f in simp_all)
  moreover have "sess_top N (snd ?fin)" if "\<not> go_stop outcome"
  proof -
    have k: "ge_kind exit = generationExitProvider" "r = Inr True"
      using generation_reconnects_iff [OF assms(1) refl l j] that f by auto
    then have "sess_inv N s2" using s1(2) fr n2 by (simp add: sess_inv_def)
    then show ?thesis
      using ff k(2) finalize_reconnect_state [of actor key tok td exit' s2] that out(1) f by (auto simp: sess_inv_def)
  qed
  ultimately show ?thesis using out(2) by (simp add: sess_top_def)
qed

lemma sess_wait:
  assumes "waitBackoff actor key tok evs s = Some (e, s')" "sess_top N s"
  shows "sess_top N s'"
  using assms
proof (induction actor key tok evs s rule: waitBackoff.induct)
  case (3 actor key tok rq evs s)
  have "sess_top N (submit rq s)" using 3(3) by (auto simp: submit_def sess_top_def intro!: sess_quiet)
  then show ?case using 3 by (auto split: if_splits)
next
  case (6 actor key tok c ch evs s)
  obtain r s1 where n: "renewLease actor c key tok s = (r, s1)" by fastforce
  have s1: "sess_top N s1" using sess_store(2) [of N s _ actor c key tok] session_frame(6) [of actor c key tok s] n 6(3)
    by (simp add: sess_top_def)
  have "sess_top N (snd (writeHealth actor ch key tok (emit [LeaseLost] (s1 \<lparr> rs_health := h \<rparr>))))" for h
    using s1 by (auto simp: sess_top_def intro!: sess_store(1) sess_quiet)
  then show ?case using 6 n s1 by (auto simp: Let_def split: if_splits)
qed (auto simp: sess_top_def split: if_splits)

lemma sess_write_top:
  "writeHealth actor c key tok s = (r, s') \<Longrightarrow> sess_top N s \<Longrightarrow> sess_top N s'"
  using sess_store(1) [of N s _ actor c key tok] session_frame(3) [of actor c key tok s] by (simp add: sess_top_def)

lemma sess_top_frame [simp]:
  "sess_top N (s \<lparr> rs_health := h \<rparr>) = sess_top N s" "sess_top N (s \<lparr> rs_backoff := b \<rparr>) = sess_top N s"
  "sess_top N (s \<lparr> rs_callbacks := cb \<rparr>) = sess_top N s"
  by (simp_all add: sess_top_def)

lemma sess_top_emit: "sess_top N s \<Longrightarrow> (\<And>e st. e \<in> set es \<Longrightarrow> sess_effect e st = Some st) \<Longrightarrow> sess_top N (emit es s)"
  by (auto simp: sess_top_def intro!: sess_quiet)

lemma sess_back_off:
  assumes "back_off actor key tok g s = Some x" "sess_top N s"
  shows "case x of Inl (_, s2) \<Rightarrow> sess_top N s2 | Inr s2 \<Rightarrow> sess_top N s2"
  using assms(1)
proof (cases rule: back_off_cases)
  case (1 delay bo s0 r1 s1)
  have "sess_top N s0" using assms(2) 1(2) by (auto intro!: sess_top_emit)
  then show ?thesis using 1 sess_write_top [OF 1(3)] by simp
next
  case (2 delay bo s0 s1 e s2 y)
  have "sess_top N s0" using assms(2) 2(2) by (auto intro!: sess_top_emit)
  then have "sess_top N (emit [BackoffMetric ''transient-network'' delay] s1)"
    using sess_write_top [OF 2(3), of N] by (intro sess_top_emit) auto
  then show ?thesis using 2(5) sess_wait [OF 2(4)] by simp
next
  case (3 delay bo s0 s1 s2 r3 s3)
  have "sess_top N s0" using assms(2) 3(2) by (auto intro!: sess_top_emit)
  then have "sess_top N (emit [BackoffMetric ''transient-network'' delay] s1)"
    using sess_write_top [OF 3(3), of N] by (intro sess_top_emit) auto
  then have "sess_top N s2" using sess_wait [OF 3(4)] by simp
  then show ?thesis using 3(6) sess_write_top [OF 3(5)] by simp
qed

text \<open>
  C19. Every provider generation is restored from the newest session. In the trace of the
  generations of a run, each generation is restored from the session the provider reported last,
  and that session is the one last stored under the fence; every swap offers the newest reported
  session at the revision stored before, so no reported session overtakes a newer one.
\<close>

theorem generations_resume_newest_session:
  assumes "run_loop actor key tok runID gs s = Some (e, s')" "list_all hooked_generation gs"
  shows "length (rs_log s) \<le> length (rs_log s')
    \<and> sess_scan (drop (length (rs_log s)) (rs_log s'))
        (ss_Plaintext (rs_snapshot s), ss_Plaintext (rs_snapshot s), ss_Revision (rs_snapshot s)) \<noteq> None"
proof -
  let ?st = "(ss_Plaintext (rs_snapshot s), ss_Plaintext (rs_snapshot s), ss_Revision (rs_snapshot s))"
  let ?N = "(length (rs_log s), ?st)"
  have "sess_state ?N s' \<noteq> None"
  proof (rule run_loop_invariant [where T = "sess_top ?N" and R = "sess_top ?N", OF assms(1)])
    show "sess_top ?N s" by (simp add: sess_top_def sess_state_def)
  next
    fix g and x :: "'a run_state" assume "sess_top ?N x"
    then show "sess_state ?N (restore_failed actor key tok (gn_config g) (x \<lparr> rs_callbacks := newProviderCallbacks \<rparr>)) \<noteq> None"
      unfolding restore_failed_def by (intro sess_teardown.keep_write) (simp_all add: sess_top_def)
  next
    fix g outcome s2 and x :: "'a run_state" assume g: "g \<in> set gs" and x: "sess_top ?N x"
      and r: "runGeneration actor key tok runID (gn_events g) (gn_teardown g)
        (emit [Restored (ss_Plaintext (rs_snapshot x))] (x \<lparr> rs_callbacks := newProviderCallbacks \<rparr>)) = Some (outcome, s2)"
    have "sess_top ?N (emit [Restored (ss_Plaintext (rs_snapshot x))] (x \<lparr> rs_callbacks := newProviderCallbacks \<rparr>))"
      using x sess_length [of ?N x] by (auto simp: sess_top_def sess_state_emit)
    from sess_runGeneration [OF r this] g assms(2)
    show "if go_stop outcome then sess_state ?N s2 \<noteq> None else sess_top ?N s2"
      by (auto simp: hooked_generation_def list_all_iff)
  next
    fix g x and y :: "'a run_state" assume "sess_top ?N y" "back_off actor key tok g y = Some x"
    then have "case x of Inl (_, s2) \<Rightarrow> sess_top ?N s2 | Inr s2 \<Rightarrow> sess_top ?N s2" using sess_back_off by blast
    then show "case x of Inl (_, s2) \<Rightarrow> sess_state ?N s2 \<noteq> None | Inr s2 \<Rightarrow> sess_top ?N s2"
      by (auto simp: sess_top_def split: sum.splits)
  qed
  then show ?thesis by (auto simp: sess_state_def split: if_splits)
qed

section \<open>Witness\<close>

definition demo_generations :: "unit generation list" where
  "demo_generations =
     [demo_generation \<lparr> gn_events := demo_reconnect_events, gn_wait := [WaitElapsed] \<rparr>, demo_generation \<lparr> gn_restore := Some (Opaque ''bad'') \<rparr>]"

lemma demo_two_generations:
  "\<exists>s'. run_loop demo_actor (''t1'', ''c1'') 4 1 demo_generations demo_state = Some (None, s') \<and> ss_Plaintext (rs_snapshot s') = ''fresh''"
proof -
  have "owned_lease demo_leased (''t1'', ''c1'') ''replica-a'' 4 10" by (simp add: owned_lease_def demo_leased_fields)
  from demo_swap [OF this demo_leased_fields(1)] obtain db' where
    "sessions_CompareAndSwapFenced demo_store NoFault 10 (c_rnd demo_call) (''t1'', ''c1'') ''replica-a'' 4 3 ''fresh'' demo_leased = (Inr True, db')"
    "db_leases db' = db_leases demo_leased" "db_connections db' = db_connections demo_leased" "db_health db' = db_health demo_leased"
    by blast
  then show ?thesis
    by (simp add: demo_generations_def demo_generation_def demo_reconnect_events_def demo_state_def demo_ops_def demo_teardown_def
        restore_failed_def back_off_def Backoff_Fail_def zero_backoff_def cryptoInt63n_def limit_loop.simps demo_leased_fields demo_run_defs)
qed

theorem generations_resume_newest_session_witness:
  "\<exists>s'. run_loop demo_actor (''t1'', ''c1'') 4 1 demo_generations demo_state = Some (None, s')
     \<and> sess_scan (drop (length (rs_log demo_state)) (rs_log s'))
         (ss_Plaintext (rs_snapshot demo_state), ss_Plaintext (rs_snapshot demo_state), ss_Revision (rs_snapshot demo_state)) \<noteq> None"
proof -
  obtain s' where r: "run_loop demo_actor (''t1'', ''c1'') 4 1 demo_generations demo_state = Some (None, s')"
    using demo_two_generations by blast
  have "list_all hooked_generation demo_generations"
    by (simp add: demo_generations_def hooked_generation_def demo_generation_def demo_reconnect_events_def demo_teardown_def)
  then show ?thesis using r generations_resume_newest_session [OF r] by blast
qed

end
