(* ===== verification/Actor_Health.thy ===== *)
theory Actor_Health
  imports Actor_Correct
begin

text \<open>
  The health records a connection actor publishes: the store never refuses one for its content, as
  long as the reconnect delay stays within what a health record may hold.
\<close>

section \<open>Records the store accepts\<close>

definition good_health :: "ConnectionActorHealth \<Rightarrow> bool" where
  "good_health h =
     (h_ActorState h \<in> set actor_states \<and> h_LastSafeReason h \<in> set safe_reasons
      \<and> h_ConnectionState h \<in> {ConnectionStateConnected, ConnectionStateDegraded, ConnectionStateReauthorizationRequired,
           ConnectionStateDisconnected}
      \<and> 0 \<le> h_CurrentBackoff h \<and> h_CurrentBackoff h \<le> maximumLeaseTTL)"

lemma good_health_accepted:
  assumes "good_health h" "h_ReconnectCount h \<le> 2 ^ 63 - 1" "0 < tok"
  shows "validActorHealth h \<and> health_row_ok (health_row_of now tok h)"
  using assms
  by (auto simp: good_health_def validActorHealth_def health_row_ok_def health_row_of_def ConnectionState_Validate_def micros_def)

lemma stopped_states: "''stopped'' \<in> set actor_states" "''lease-lost'' \<in> set actor_states"
  by (simp_all add: actor_states_def)

lemma good_teardown: "good_health h \<Longrightarrow> teardown_health h h' \<Longrightarrow> good_health h'"
proof -
  assume h: "good_health h" and t: "teardown_health h h'"
  have "h_ActorState h' = ''stopped'' \<or> h_ActorState h' = ''lease-lost''" using t unfolding teardown_health_def by blast
  then have "h_ActorState h' \<in> set actor_states" using stopped_states by metis
  moreover have "0 \<le> h_CurrentBackoff h' \<and> h_CurrentBackoff h' \<le> maximumLeaseTTL"
    using h t by (auto simp: good_health_def teardown_health_def maximumLeaseTTL_def)
  ultimately show "good_health h'" using t unfolding good_health_def teardown_health_def by blast
qed

section \<open>The invariant of a run\<close>

definition backoff_ok :: "Backoff \<Rightarrow> bool" where
  "backoff_ok b = (0 < bo_base b \<and> bo_base b \<le> bo_cap b \<and> bo_cap b \<le> maximumLeaseTTL \<and> bo_int63n b = cryptoInt63n)"

definition published :: "effect list \<Rightarrow> ConnectionActorHealth list" where
  "published log = List.map_filter (\<lambda>e. case e of HealthWrite h _ \<Rightarrow> Some h | _ \<Rightarrow> None) log"

lemma published_simps [simp]:
  "published [] = []" "published (xs @ ys) = published xs @ published ys"
  "published (HealthWrite h r # es) = h # published es"
  by (simp_all add: published_def List.map_filter_def)

lemma published_other: "(\<And>h r. e \<noteq> HealthWrite h r) \<Longrightarrow> published (e # es) = published es"
  by (cases e) (auto simp: published_def List.map_filter_def)

lemma published_maps [simp]:
  "published (map SessionReported ps) = []" "published (map (\<lambda>r. Answered (f r) (g r)) q) = []"
  by (induction ps; simp add: published_other) (induction q; simp add: published_other)

definition health_kept :: "'z run_state \<Rightarrow> bool" where
  "health_kept s = (list_all good_health (published (rs_log s)) \<and> good_health (rs_health s) \<and> backoff_ok (rs_backoff s))"

lemma kept_frame [simp]:
  "health_kept (s \<lparr> rs_db := a \<rparr>) = health_kept s" "health_kept (s \<lparr> rs_ops := b \<rparr>) = health_kept s"
  "health_kept (s \<lparr> rs_ctx := c \<rparr>) = health_kept s" "health_kept (s \<lparr> rs_snapshot := d \<rparr>) = health_kept s"
  "health_kept (s \<lparr> rs_callbacks := e \<rparr>) = health_kept s" "health_kept (s \<lparr> rs_pending := f \<rparr>) = health_kept s"
  "health_kept (s \<lparr> rs_debounce := g \<rparr>) = health_kept s" "health_kept (s \<lparr> rs_operation := h \<rparr>) = health_kept s"
  by (simp_all add: health_kept_def)

lemma kept_emit: "published es = [] \<Longrightarrow> health_kept (emit es s) = health_kept s"
  by (simp add: health_kept_def)

lemma kept_health: "health_kept s \<Longrightarrow> good_health h \<Longrightarrow> health_kept (s \<lparr> rs_health := h \<rparr>)"
  by (simp add: health_kept_def)

lemma kept_store:
  "writeHealth actor c key tok s = (r, s') \<Longrightarrow> health_kept s \<Longrightarrow> health_kept s'"
  "renewLease actor c key tok s = (r, s') \<Longrightarrow> health_kept s \<Longrightarrow> health_kept s'"
  "flushPendingSession actor c key tok s = (r, s') \<Longrightarrow> health_kept s \<Longrightarrow> health_kept s'"
  "markReauthorization actor c key tok s = (r, s') \<Longrightarrow> health_kept s \<Longrightarrow> health_kept s'"
proof -
  have "good_health (h \<lparr> h_FencingToken := t, h_UpdatedAt := u \<rparr>) = good_health h" for h t u by (simp add: good_health_def)
  then show "writeHealth actor c key tok s = (r, s') \<Longrightarrow> health_kept s \<Longrightarrow> health_kept s'"
    by (auto simp: writeHealth_def health_kept_def published_other Let_def split: prod.splits)
qed (auto simp: renewLease_def flushPendingSession_def markReauthorization_def kept_emit
      published_other Let_def split: prod.splits if_splits)

lemma kept_publish: "publish_health actor key tok runID c b s = Some (x, s') \<Longrightarrow> health_kept s \<Longrightarrow> health_kept s'"
  by (auto simp: publish_health_def split: prod.splits if_splits dest: kept_store)

lemma kept_select_event:
  assumes "select_event actor key tok runID c s = Some (x, s')" "health_kept s"
  shows "health_kept s'"
proof -
  obtain e es where q: "cb_events (rs_callbacks s) = e # es" using assms(1) by (auto simp: select_event_def split: list.splits)
  have "good_health (set_health ''ready'' ConnectionStateConnected ''none'' (rs_health s) \<lparr> h_ConnectedAt := t, h_CurrentBackoff := 0 \<rparr>)"
    "good_health (rs_health s \<lparr> h_LastFrameAt := t \<rparr>)" "good_health (rs_health s \<lparr> h_LastPhoneResponseAt := t \<rparr>)" for t
    using assms(2) by (auto simp: good_health_def set_health_def health_kept_def actor_states_def safe_reasons_def maximumLeaseTTL_def)
  moreover have "backoff_ok (Backoff_Ready (rs_backoff s))" using assms(2) by (simp add: health_kept_def backoff_ok_def Backoff_Ready_def)
  ultimately show ?thesis using assms q
    by (cases e) (auto simp: select_event_def store_pending_def Let_def health_kept_def [of "rs_health_update _ _"]
        health_kept_def [of s] dest!: kept_publish)
qed

lemma kept_step:
  assumes "gen_step actor key tok runID ev s = Some (x, s')" "health_kept s"
  shows "health_kept s'"
proof (cases ev)
  case (SelectEvent c)
  then show ?thesis using assms kept_select_event by simp
next
  case (SelectDebounce c)
  then show ?thesis using assms
    by (auto simp: select_debounce_def take_into_pending_def Let_def split: if_splits prod.splits dest!: kept_store(3))
next
  case (SelectRenew c)
  then show ?thesis using assms by (auto simp: select_renew_def split: if_splits prod.splits dest: kept_store(2))
qed (use assms in \<open>auto simp: select_operation_def select_result_def select_session_def store_pending_def submit_def kept_emit
    published_other Let_def split: if_splits option.splits list.splits\<close>)

lemma kept_loop: "generation_loop actor key tok runID evs s = Some (exit, s') \<Longrightarrow> health_kept s \<Longrightarrow> health_kept s'"
  by (induction evs arbitrary: s) (auto split: option.splits prod.splits dest: kept_step)

interpretation health_teardown: teardown_invariant actor key tok "\<lambda>_. True" health_kept for actor key tok
proof
  fix s :: "'z run_state" and h c
  assume s: "health_kept s"
  show "health_kept (s \<lparr> rs_health := h \<rparr>)" if "teardown_health (rs_health s) h"
    using s that good_teardown by (auto simp: health_kept_def)
  show "health_kept (emit [LeaseLost] s)" using s by (simp add: kept_emit published_other)
  show "health_kept (snd (writeHealth actor c key tok s))" using s kept_store(1) [OF prod.collapse [symmetric]] by blast
  show "health_kept (snd (markReauthorization actor c key tok s))" using s kept_store(4) [OF prod.collapse [symmetric]] by blast
qed

lemma kept_runGeneration:
  assumes "runGeneration actor key tok runID evs td s = Some (outcome, s')" "health_kept s"
  shows "health_kept s'"
proof -
  let ?s0 = "s \<lparr> rs_ops := setOperationReady runID False (rs_ops s), rs_pending := [], rs_debounce := False, rs_operation := None \<rparr>"
  obtain exit s1 where l: "generation_loop actor key tok runID evs ?s0 = Some (exit, s1)"
    using assms(1) by (auto simp: runGeneration_def Let_def split: option.splits)
  obtain exit' s2 where j: "join_operation runID (td_operation td) exit s1 = (exit', s2)" by fastforce
  have "health_kept s1" using kept_loop [OF l] assms(2) by simp
  with j have "health_kept s2" by (auto simp: join_operation_def kept_emit published_other Let_def split: option.splits)
  then have "health_kept (take_into_pending t (emit (Disconnected (td_disconnected td) # map SessionReported (td_sessions td)) s2))" for t
    by (simp add: take_into_pending_def kept_emit published_other)
  then have "health_kept (snd (final_flush actor key tok td s2))"
    unfolding final_flush_def using kept_store(3) [OF prod.collapse [symmetric]] by blast
  then have "health_kept (snd (finalizeGeneration actor key tok td exit' s2))" by (rule health_teardown.keep_finalize [OF TrueI TrueI])
  then show ?thesis using assms(1) l j by (auto simp: runGeneration_def Let_def split: prod.splits)
qed

lemma kept_wait: "waitBackoff actor key tok evs s = Some (e, s') \<Longrightarrow> health_kept s \<Longrightarrow> health_kept s'"
proof (induction actor key tok evs s rule: waitBackoff.induct)
  case (6 actor key tok c ch evs s)
  obtain r s1 where n: "renewLease actor c key tok s = (r, s1)" by fastforce
  have s1: "health_kept s1" using kept_store(2) [OF n 6(3)] .
  then have "health_kept (emit [LeaseLost] (s1 \<lparr> rs_health := (rs_health s1) \<lparr> h_ActorState := ''lease-lost'', h_LastSafeReason := ''lease-lost'' \<rparr> \<rparr>))"
    by (simp add: health_kept_def good_health_def actor_states_def safe_reasons_def published_other)
  then have "health_kept (snd (writeHealth actor ch key tok (emit [LeaseLost] (s1 \<lparr> rs_health := (rs_health s1)
      \<lparr> h_ActorState := ''lease-lost'', h_LastSafeReason := ''lease-lost'' \<rparr> \<rparr>))))" by (rule health_teardown.keep_write [OF TrueI])
  then show ?case using 6 n s1 by (auto simp: Let_def split: if_splits)
qed (auto simp: submit_def kept_emit published_other split: if_splits)

lemma Backoff_Fail_range:
  assumes "Backoff_Fail b e = (delay, b')" "backoff_ok b" "entropy_ok e"
  shows "0 \<le> delay \<and> delay \<le> bo_cap b \<and> backoff_ok b'"
proof -
  have cap: "bo_cap b < 2 ^ 63" using assms(2) by (simp add: backoff_ok_def maximumLeaseTTL_def)
  let ?l = "min (bo_cap b) (bo_base b * 2 ^ ((bo_failures b + 1) mod 2 ^ 64 - 1))"
  have "limit_loop ((bo_failures b + 1) mod 2 ^ 64) (bo_cap b) 1 (bo_base b) = ?l"
    using assms(2) cap by (intro limit_loop_capped) (simp_all add: backoff_ok_def)
  then have "delay = cryptoInt63n ?l e" "b' = b \<lparr> bo_failures := (bo_failures b + 1) mod 2 ^ 64 \<rparr>"
    using assms(1,2) by (simp_all add: Backoff_Fail_def Let_def backoff_ok_def)
  moreover have "0 < ?l" "?l < 2 ^ 63" using assms(2) cap by (auto simp: backoff_ok_def min_def)
  ultimately show ?thesis using crypto.draw_range [of ?l e] assms(2,3) by (auto simp: backoff_ok_def)
qed

lemma kept_back_off:
  assumes "back_off actor key tok g s = Some x" "health_kept s" "entropy_ok (gn_entropy g)"
  shows "case x of Inl (_, s2) \<Rightarrow> health_kept s2 | Inr s2 \<Rightarrow> health_kept s2"
proof -
  have first: "health_kept (emit [Reconnect m] (s \<lparr> rs_backoff := bo, rs_health :=
       (set_health ''backoff'' ConnectionStateDegraded ''transient-network'' (rs_health s))
         \<lparr> h_ReconnectCount := n, h_CurrentBackoff := delay \<rparr> \<rparr>))"
    if "Backoff_Fail (rs_backoff s) (gn_entropy g) = (delay, bo)" for m bo delay n
  proof -
    have "0 \<le> delay \<and> delay \<le> bo_cap (rs_backoff s) \<and> backoff_ok bo" "bo_cap (rs_backoff s) \<le> maximumLeaseTTL"
      using Backoff_Fail_range [OF that _ assms(3)] assms(2) by (simp_all add: health_kept_def backoff_ok_def [of "rs_backoff s"])
    then show ?thesis using assms(2)
      by (simp add: health_kept_def good_health_def set_health_def actor_states_def safe_reasons_def published_other)
  qed
  have wait: "health_kept s2"
    if "waitBackoff actor key tok evs (emit [BackoffMetric m d] s1) = Some (e, s2)" "health_kept s1" for evs m d s1 e s2
    using kept_wait [OF that(1)] that(2) by (simp add: kept_emit published_other)
  have last: "health_kept s3"
    if "writeHealth actor c key tok (s2 \<lparr> rs_health := (rs_health s2) \<lparr> h_ActorState := ''connecting'', h_CurrentBackoff := 0 \<rparr> \<rparr>) = (r, s3)"
      "health_kept s2" for c s2 r s3
    using kept_store(1) [OF that(1)] that(2)
    by (simp add: health_kept_def good_health_def actor_states_def maximumLeaseTTL_def)
  show ?thesis using assms(1)
  proof (cases rule: back_off_cases)
    case (1 delay bo s0 r1 s1)
    then show ?thesis using kept_store(1) [OF 1(3)] first [OF 1(1)] by simp
  next
    case (2 delay bo s0 s1 e s2 y)
    then show ?thesis using wait [OF 2(4)] kept_store(1) [OF 2(3)] first [OF 2(1)] by simp
  next
    case (3 delay bo s0 s1 s2 r3 s3)
    then show ?thesis using last [OF 3(5)] wait [OF 3(4)] kept_store(1) [OF 3(3)] first [OF 3(1)] by simp
  qed
qed

lemma kept_run_loop:
  assumes "run_loop actor key tok runID gs s = Some (e, s')" "health_kept s" "list_all (\<lambda>g. entropy_ok (gn_entropy g)) gs"
  shows "health_kept s'"
proof (rule run_loop_invariant [where T = health_kept and R = health_kept, OF assms(1,2)])
  fix g and x :: "'a run_state" assume "health_kept x"
  then show "health_kept (restore_failed actor key tok (gn_config g) (x \<lparr> rs_callbacks := newProviderCallbacks \<rparr>))"
    unfolding restore_failed_def
    by (intro health_teardown.keep_write [OF TrueI])
      (simp add: health_kept_def good_health_def set_health_def actor_states_def safe_reasons_def)
next
  fix g outcome s2 and x :: "'a run_state" assume "health_kept x"
    and r: "runGeneration actor key tok runID (gn_events g) (gn_teardown g)
      (emit [Restored (ss_Plaintext (rs_snapshot x))] (x \<lparr> rs_callbacks := newProviderCallbacks \<rparr>)) = Some (outcome, s2)"
  then show "if go_stop outcome then health_kept s2 else health_kept s2"
    using kept_runGeneration [OF r] by (simp add: kept_emit published_other)
next
  fix g x and y :: "'a run_state" assume "g \<in> set gs" "health_kept y" "back_off actor key tok g y = Some x"
  then show "case x of Inl (_, s2) \<Rightarrow> health_kept s2 | Inr s2 \<Rightarrow> health_kept s2"
    using kept_back_off [of actor key tok g y x] assms(3) by (simp add: list_all_iff)
qed

lemma kept_run_leased:
  assumes "run_leased actor sc key tok runID s = Some (e, s')" "published (rs_log s) = []"
    "NewBackoff (ac_backoffConfig actor) = Inr b" "backoff_ok b" "list_all (\<lambda>g. entropy_ok (gn_entropy g)) (sc_generations sc)"
  shows "list_all good_health (published (rs_log s'))"
proof -
  have "health_kept (s \<lparr> rs_db := d, rs_snapshot := sn, rs_backoff := b, rs_health := initial_health tok \<rparr>)" for d sn
    using assms(2,4) by (simp add: health_kept_def good_health_def initial_health_def actor_states_def safe_reasons_def maximumLeaseTTL_def)
  then have wr: "health_kept s1"
    if "writeHealth actor c key tok (s \<lparr> rs_db := d, rs_snapshot := sn, rs_backoff := b, rs_health := initial_health tok \<rparr>) = (r, s1)"
    for c d sn r s1 using kept_store(1) [OF that] by simp
  show ?thesis using assms(1)
  proof (cases rule: run_leased_cases)
    case (2 db' snapshot backoff r)
    have "backoff = b" using 2(3) assms(3) by simp
    from wr [OF 2(4) [unfolded this]] show ?thesis by (simp add: health_kept_def)
  next
    case (3 db' snapshot backoff s1)
    have "backoff = b" using 3(3) assms(3) by simp
    from kept_run_loop [OF 3(5) wr [OF 3(4) [unfolded this]] assms(5)] show ?thesis by (simp add: health_kept_def)
  qed (use assms(2) in simp)
qed

text \<open>
  C36. The store never refuses a health record of an actor for its content: with a backoff cap of at
  most ten minutes every record an actor publishes in a whole run is a valid one and satisfies the
  constraints of the health table.
\<close>

theorem actor_health_accepted:
  assumes "Actor_Run actor sc key ops db = Some (err, ops', log, db')"
    "NewBackoff (ac_backoffConfig actor) = Inr b" "bo_int63n b = cryptoInt63n" "bo_cap b \<le> maximumLeaseTTL"
    "list_all (\<lambda>g. entropy_ok (gn_entropy g)) (sc_generations sc)"
    "HealthWrite h r \<in> set log" "h_ReconnectCount h \<le> 2 ^ 63 - 1" "0 < tok"
  shows "validActorHealth h \<and> health_row_ok (health_row_of now tok h)"
proof -
  have b: "backoff_ok b" using assms(2-4)
    by (auto simp: backoff_ok_def NewBackoff_def Let_def split: if_splits)

  have sub: "HealthWrite h r \<in> set l \<Longrightarrow> h \<in> set (published l)" for l
    by (force simp: published_def List.map_filter_def)
  have "list_all good_health (published log)"
  proof (cases "sc_ctx sc = None \<and> Key_valid key \<and> (\<exists>lease db1. AcquireConnectionLease (c_fault (sc_acquire sc)) (c_now (sc_acquire sc))
      (fst key) (snd key) (ac_ownerID actor) (ac_leaseTTL actor) (c_env (sc_acquire sc) db) = (Inr (Some lease), db1))")
    case False
    then have "log = []" using assms(1) by (auto simp: Actor_Run_def split: option.splits if_splits prod.splits sum.splits)
    then show ?thesis by simp
  next
    case True
    then obtain lease db1 where l: "AcquireConnectionLease (c_fault (sc_acquire sc)) (c_now (sc_acquire sc))
      (fst key) (snd key) (ac_ownerID actor) (ac_leaseTTL actor) (c_env (sc_acquire sc) db) = (Inr (Some lease), db1)"
      and k: "sc_ctx sc = None" "Key_valid key" by blast
    show ?thesis using assms(1) l k
    proof (cases rule: Actor_Run_cases)
      case (2 s)
      have "list_all good_health (published (rs_log s))"
        using kept_run_leased [OF 2(2) _ assms(2) b assms(5)] by (simp add: blank_state_def published_other)
      then show ?thesis using 2(3) by (simp add: endOperationRun_def Let_def)
    qed (simp add: published_other)
  qed
  then have "good_health h" using sub [OF assms(6)] by (simp add: list_all_iff)
  then show ?thesis using good_health_accepted assms(7,8) by blast
qed

section \<open>A cap the health table cannot hold\<close>

text \<open>
  A backoff configuration is accepted with any cap, while a health record holds at most ten
  minutes: when a reconnect draws a longer delay, publishing it fails with \<^verbatim>\<open>ErrInvalidLease\<close> and the
  run ends instead of reconnecting.
\<close>

theorem long_backoff_stops_actor:
  assumes "Backoff_Fail (rs_backoff s) (gn_entropy g) = (delay, bo)" "delay > maximumLeaseTTL"
  shows "\<exists>s'. back_off actor key tok g s = Some (Inl (Some (Sentinel ErrInvalidLease), s')) \<and> rs_db s' = c_env (gn_backoff g) (rs_db s)"
  using assms
  by (simp add: back_off_def writeHealth_def WriteConnectionHealthFenced_def validActorHealth_def result_err_def Let_def)

definition long_cap :: BackoffConfig where
  "long_cap = \<lparr> cfg_Base = 0, cfg_Cap = hour, cfg_Int63n = None \<rparr>"

definition long_backoff :: Backoff where
  "long_backoff = \<lparr> bo_base = defaultBackoffBase, bo_cap = hour, bo_int63n = cryptoInt63n, bo_failures = 12 \<rparr>"

theorem long_backoff_stops_actor_witness:
  "\<exists>actor s'. NewActor \<lparr> acfg_OwnerID = ''replica-a'', acfg_Store = True, acfg_Sessions = Some demo_store, acfg_Providers = True,
       acfg_LeaseTTL = 0, acfg_SessionDebounce = 0, acfg_Backoff = long_cap, acfg_OperationQueueSize = 0, acfg_JoinTimeout = 0 \<rparr> = Inr actor
     \<and> back_off actor (''t1'', ''c1'') 4 (demo_generation \<lparr> gn_entropy := ClockNanos (30 * minute) \<rparr>) (demo_state \<lparr> rs_backoff := long_backoff \<rparr>)
       = Some (Inl (Some (Sentinel ErrInvalidLease), s'))"
proof -
  have "\<exists>actor. NewActor \<lparr> acfg_OwnerID = ''replica-a'', acfg_Store = True, acfg_Sessions = Some demo_store, acfg_Providers = True,
       acfg_LeaseTTL = 0, acfg_SessionDebounce = 0, acfg_Backoff = long_cap, acfg_OperationQueueSize = 0, acfg_JoinTimeout = 0 \<rparr> = Inr actor"
    by (simp add: NewActor_def long_cap_def NewBackoff_def defaultBackoffBase_def Let_def)
  then obtain actor where a: "NewActor \<lparr> acfg_OwnerID = ''replica-a'', acfg_Store = True, acfg_Sessions = Some demo_store, acfg_Providers = True,
       acfg_LeaseTTL = 0, acfg_SessionDebounce = 0, acfg_Backoff = long_cap, acfg_OperationQueueSize = 0, acfg_JoinTimeout = 0 \<rparr> = Inr actor" ..
  let ?s = "demo_state \<lparr> rs_backoff := long_backoff \<rparr>" and ?g = "demo_generation \<lparr> gn_entropy := ClockNanos (30 * minute) \<rparr>"
  have "Backoff_Fail (rs_backoff ?s) (gn_entropy ?g) = (30 * minute, long_backoff \<lparr> bo_failures := 13 \<rparr>)"
    by (subst Backoff_Fail_limit) (simp_all add: long_backoff_def defaultBackoffBase_def cryptoInt63n_def)
  from long_backoff_stops_actor [OF this, of actor "(''t1'', ''c1'')" 4] a show ?thesis by (auto simp: maximumLeaseTTL_def)
qed

lemma demo_health_run:
  "\<exists>ops log db. Actor_Run demo_actor demo_script (''t1'', ''c1'') demo_ops demo_rotation_db = Some (None, ops, log, db)
     \<and> list_ex (\<lambda>e. case e of HealthWrite h _ \<Rightarrow> h_ActorState h = ''ready'' \<and> h_ReconnectCount h = 0 | _ \<Rightarrow> False) log"
  by (simp add: Actor_Run_def demo_script_def Key_valid_def demo_acquires beginOperationRun_def demo_ops_def run_leased_def
      GetConnection_def demo_leased_fields demo_connection_def demo_load demo_generation_def demo_request_def demo_teardown_def
      endOperationRun_def demo_run_defs)

theorem actor_health_accepted_witness:
  "\<exists>ops log db h r. Actor_Run demo_actor demo_script (''t1'', ''c1'') demo_ops demo_rotation_db = Some (None, ops, log, db)
     \<and> HealthWrite h r \<in> set log \<and> h_ActorState h = ''ready'' \<and> validActorHealth h"
proof -
  obtain ops log db h r where a: "Actor_Run demo_actor demo_script (''t1'', ''c1'') demo_ops demo_rotation_db = Some (None, ops, log, db)"
    and b: "HealthWrite h r \<in> set log" "h_ActorState h = ''ready''" "h_ReconnectCount h = 0"
    using demo_health_run by (auto simp: list_ex_iff split: effect.splits)
  have "validActorHealth h"
    using actor_health_accepted [OF a demo_ac(4) _ _ _ b(1), of 1] b(3)
    by (simp add: defaultBackoffCap_def maximumLeaseTTL_def demo_script_def demo_generation_def entropy_ok_def)
  with a b show ?thesis by blast
qed

end
