(* ===== verification/Actor_Registry.thy ===== *)
theory Actor_Registry
  imports Connection_Actor
begin

text \<open>
  The two registries of running actors: the pool (\<^verbatim>\<open>connectionactor/pool.go\<close>), which routes provider
  operations and keeps tombstones, and the local manager (\<^verbatim>\<open>connectionactor/manager.go\<close>). Entries are
  pointers, so both have a heap of entries beside the map from keys to entries. A step is one
  critical section of the mutex or one goroutine event between two of them; the goroutine of a run
  is alive from its start to its exit.
\<close>

section \<open>The contract of a registry\<close>

text \<open>
  A registry keeps every live run in the slot of its key. Then no two runs of a key are ever alive
  at the same time.
\<close>

locale run_registry =
  fixes step :: "'s \<Rightarrow> 's \<Rightarrow> bool"
    and live :: "'s \<Rightarrow> nat \<Rightarrow> 'k option"
    and slot :: "'s \<Rightarrow> 'k \<Rightarrow> nat option"
    and inv :: "'s \<Rightarrow> bool"
  assumes inv_step: "inv s \<Longrightarrow> step s s' \<Longrightarrow> inv s'"
    and inv_slot: "inv s \<Longrightarrow> live s i = Some k \<Longrightarrow> slot s k = Some i"
begin

lemma inv_run: "step\<^sup>*\<^sup>* s s' \<Longrightarrow> inv s \<Longrightarrow> inv s'"
  by (induction rule: rtranclp_induct) (auto dest: inv_step)

lemma one_live_run: "step\<^sup>*\<^sup>* s s' \<Longrightarrow> inv s \<Longrightarrow> live s' i = Some k \<Longrightarrow> live s' j = Some k \<Longrightarrow> i = j"
  using inv_run [of s s'] inv_slot [of s' i k] inv_slot [of s' j k] by simp

end

section \<open>The pool\<close>

record poolEntry =
  pe_key :: ckey
  pe_actor :: bool
  pe_cancelled :: bool
  pe_done :: bool
  pe_terminalErr :: goerror
  pe_quarantined :: bool

record pool =
  pl_entries :: "nat \<Rightarrow> poolEntry option"
  pl_actors :: "ckey \<Rightarrow> nat option"
  pl_closed :: bool
  pl_live :: "nat \<Rightarrow> ckey option"
  pl_next :: nat

definition NewPool :: pool where
  "NewPool = \<lparr> pl_entries = Map.empty, pl_actors = Map.empty, pl_closed = False, pl_live = Map.empty, pl_next = 0 \<rparr>"

text \<open>A context is nil (\<open>None\<close>) or has an error or none.\<close>

type_synonym go_context = "goerror option"

text \<open>A new entry for a key, and its goroutine when it runs an actor.\<close>

definition pool_insert :: "ckey \<Rightarrow> poolEntry \<Rightarrow> bool \<Rightarrow> pool \<Rightarrow> pool" where
  "pool_insert key entry running p =
     p \<lparr> pl_entries := (pl_entries p)(pl_next p \<mapsto> entry), pl_actors := (pl_actors p)(key \<mapsto> pl_next p),
         pl_live := (if running then (pl_live p)(pl_next p \<mapsto> key) else pl_live p), pl_next := pl_next p + 1 \<rparr>"

definition Pool_Start :: "go_context \<Rightarrow> ckey \<Rightarrow> bool result \<Rightarrow> pool \<Rightarrow> goerror \<times> pool" where
  "Pool_Start ctx key newActor p =
     (if ctx = None then (Some (Sentinel ErrInvalidConfig), p)
      else if the ctx \<noteq> None then (the ctx, p)
      else if \<not> Key_valid key then (Some (Sentinel ErrInvalidConfig), p)
      else if pl_closed p then (Some (Sentinel ErrProviderUnavailable), p)
      else case pl_actors p key of
        Some i \<Rightarrow> (case pl_entries p i of None \<Rightarrow> (None, p) | Some entry \<Rightarrow> (pe_terminalErr entry, p))
      | None \<Rightarrow>
          (case newActor of
             Inl e \<Rightarrow> (Some e, p)
           | Inr False \<Rightarrow> (Some (Sentinel ErrInvalidConfig), p)
           | Inr True \<Rightarrow>
               (None, pool_insert key \<lparr> pe_key = key, pe_actor = True, pe_cancelled = False, pe_done = False, pe_terminalErr = None,
                                        pe_quarantined = False \<rparr> True p)))"

text \<open>The goroutine of a run when \<^verbatim>\<open>Run\<close> has returned.\<close>

definition terminal_run :: "goerror \<Rightarrow> bool" where
  "terminal_run runErr =
     (Is runErr ErrSharedInfrastructure \<or> Is runErr ErrStaleGeneration \<or> Is runErr ErrProviderPermanentProtocol)"

definition pool_run_exit :: "nat \<Rightarrow> ckey \<Rightarrow> goerror \<Rightarrow> pool \<Rightarrow> pool" where
  "pool_run_exit i key runErr p =
     (case pl_entries p i of
        None \<Rightarrow> p
      | Some entry \<Rightarrow>
          let p1 = (if pl_actors p key \<noteq> Some i then p
                    else if Is runErr ErrProviderJoinTimeout
                    then p \<lparr> pl_entries := (pl_entries p)(i \<mapsto> entry \<lparr> pe_terminalErr := Some (Sentinel ErrProviderJoinTimeout) \<rparr>) \<rparr>
                    else if terminal_run runErr
                    then p \<lparr> pl_entries := (pl_entries p)(i \<mapsto> entry \<lparr> pe_terminalErr := runErr,
                           pe_quarantined := pe_quarantined entry \<or> Is runErr ErrProviderPermanentProtocol \<rparr>) \<rparr>
                    else if \<not> pe_quarantined entry then p \<lparr> pl_actors := (pl_actors p)(key := None) \<rparr>
                    else p)
          in p1 \<lparr> pl_entries := (pl_entries p1)(i := map_option (\<lambda>e. e \<lparr> pe_done := True \<rparr>) (pl_entries p1 i)),
                  pl_live := (pl_live p1)(i := None) \<rparr>)"

text \<open>\<^verbatim>\<open>Execute\<close> up to the call of the actor: the entry whose actor executes, or the error.\<close>

definition Pool_Execute :: "go_context \<Rightarrow> ckey \<Rightarrow> pool \<Rightarrow> nat result" where
  "Pool_Execute ctx key p =
     (if ctx = None \<or> \<not> Key_valid key then Inl (Sentinel ErrInvalidConfig)
      else case pl_actors p key of
        None \<Rightarrow> Inl (Sentinel ErrProviderUnavailable)
      | Some i \<Rightarrow>
          (case pl_entries p i of
             None \<Rightarrow> Inl (Sentinel ErrProviderUnavailable)
           | Some entry \<Rightarrow>
               if pe_quarantined entry \<or> pe_terminalErr entry \<noteq> None \<or> \<not> pe_actor entry \<or> pe_done entry
               then Inl (Sentinel ErrProviderUnavailable) else Inr i))"

text \<open>\<^verbatim>\<open>Quarantine\<close>: the critical section, which returns at once or waits for an entry, and the end of the wait.\<close>

definition Pool_Quarantine :: "go_context \<Rightarrow> ckey \<Rightarrow> pool \<Rightarrow> (goerror + nat) \<times> pool" where
  "Pool_Quarantine ctx key p =
     (if ctx = None \<or> \<not> Key_valid key then (Inl (Some (Sentinel ErrInvalidConfig)), p)
      else case pl_actors p key of
        None \<Rightarrow>
          (Inl None, pool_insert key \<lparr> pe_key = key, pe_actor = False, pe_cancelled = False, pe_done = True,
             pe_terminalErr = Some (Sentinel ErrProviderUnavailable), pe_quarantined = True \<rparr> False p)
      | Some i \<Rightarrow>
          (Inr i, p \<lparr> pl_entries := (pl_entries p)(i := map_option (\<lambda>e. e \<lparr> pe_quarantined := True,
             pe_terminalErr := (if pe_terminalErr e = None then Some (Sentinel ErrProviderUnavailable) else pe_terminalErr e),
             pe_cancelled := pe_cancelled e \<or> pe_actor e \<rparr>) (pl_entries p i)) \<rparr>))"

definition Pool_Quarantine_wait :: "goerror \<Rightarrow> nat \<Rightarrow> pool \<Rightarrow> goerror" where
  "Pool_Quarantine_wait ctxErr i p =
     (case pl_entries p i of
        None \<Rightarrow> ctxErr
      | Some entry \<Rightarrow>
          if pe_done entry
          then if Is (pe_terminalErr entry) ErrProviderJoinTimeout then Some (Sentinel ErrProviderJoinTimeout) else None
          else ctxErr)"

definition Pool_Resume :: "ckey \<Rightarrow> pool \<Rightarrow> goerror \<times> pool" where
  "Pool_Resume key p =
     (if \<not> Key_valid key then (Some (Sentinel ErrInvalidConfig), p)
      else case pl_actors p key of
        None \<Rightarrow> (Some (Sentinel ErrProviderUnavailable), p)
      | Some i \<Rightarrow>
          (case pl_entries p i of
             None \<Rightarrow> (Some (Sentinel ErrProviderUnavailable), p)
           | Some entry \<Rightarrow>
               if \<not> pe_quarantined entry then (Some (Sentinel ErrProviderUnavailable), p)
               else if Is (pe_terminalErr entry) ErrProviderJoinTimeout then (Some (Sentinel ErrProviderJoinTimeout), p)
               else if pe_done entry then (None, p \<lparr> pl_actors := (pl_actors p)(key := None) \<rparr>)
               else (Some (Sentinel ErrProviderJoinTimeout), p)))"

definition Pool_Shutdown :: "go_context \<Rightarrow> pool \<Rightarrow> goerror \<times> pool" where
  "Pool_Shutdown ctx p =
     (if ctx = None then (Some (Sentinel ErrInvalidConfig), p)
      else (None, p \<lparr> pl_closed := True,
        pl_entries := (\<lambda>i. map_option (\<lambda>e. if pl_actors p (pe_key e) = Some i
           then e \<lparr> pe_cancelled := pe_cancelled e \<or> pe_actor e \<rparr> else e) (pl_entries p i)) \<rparr>))"

inductive pool_step :: "pool \<Rightarrow> pool \<Rightarrow> bool" where
  p_start: "Pool_Start ctx key newActor p = (e, p') \<Longrightarrow> pool_step p p'"
| p_exit: "pl_live p i = Some key \<Longrightarrow> pool_step p (pool_run_exit i key runErr p)"
| p_quarantine: "Pool_Quarantine ctx key p = (r, p') \<Longrightarrow> pool_step p p'"
| p_resume: "Pool_Resume key p = (e, p') \<Longrightarrow> pool_step p p'"
| p_shutdown: "Pool_Shutdown ctx p = (e, p') \<Longrightarrow> pool_step p p'"

text \<open>
  Slots point to entries below the allocation point, an entry in no slot of a live run is done, and
  a live run sits in the slot of its key with an entry that is not done.
\<close>

definition pool_inv :: "pool \<Rightarrow> bool" where
  "pool_inv p \<longleftrightarrow>
     (\<forall>k i. pl_actors p k = Some i \<longrightarrow> i < pl_next p \<and> pl_entries p i \<noteq> None) \<and>
     (\<forall>k k' i. pl_actors p k = Some i \<longrightarrow> pl_actors p k' = Some i \<longrightarrow> k = k') \<and>
     (\<forall>i k. pl_live p i = Some k \<longrightarrow> pl_actors p k = Some i \<and> (\<forall>e. pl_entries p i = Some e \<longrightarrow> \<not> pe_done e)) \<and>
     (\<forall>k i e. pl_actors p k = Some i \<longrightarrow> pl_entries p i = Some e \<longrightarrow> \<not> pe_done e \<longrightarrow> pl_live p i = Some k)"

lemma pool_slot: "pool_inv p \<Longrightarrow> pl_actors p k = Some i \<Longrightarrow> i < pl_next p \<and> pl_entries p i \<noteq> None"
  unfolding pool_inv_def by blast

lemma pool_inj: "pool_inv p \<Longrightarrow> pl_actors p k = Some i \<Longrightarrow> pl_actors p k' = Some i \<Longrightarrow> k = k'"
  unfolding pool_inv_def by blast

lemma pool_live: "pool_inv p \<Longrightarrow> pl_live p i = Some k \<Longrightarrow> pl_actors p k = Some i"
  unfolding pool_inv_def by blast

lemma pool_live_open: "pool_inv p \<Longrightarrow> pl_live p i = Some k \<Longrightarrow> pl_entries p i = Some e \<Longrightarrow> \<not> pe_done e"
  unfolding pool_inv_def by blast

lemma pool_alive: "pool_inv p \<Longrightarrow> pl_actors p k = Some i \<Longrightarrow> pl_entries p i = Some e \<Longrightarrow> \<not> pe_done e \<Longrightarrow> pl_live p i = Some k"
  unfolding pool_inv_def by blast

lemma pool_invI:
  assumes "\<And>k i. pl_actors p k = Some i \<Longrightarrow> i < pl_next p \<and> pl_entries p i \<noteq> None"
    "\<And>k k' i. pl_actors p k = Some i \<Longrightarrow> pl_actors p k' = Some i \<Longrightarrow> k = k'"
    "\<And>i k. pl_live p i = Some k \<Longrightarrow> pl_actors p k = Some i"
    "\<And>i k e. pl_live p i = Some k \<Longrightarrow> pl_entries p i = Some e \<Longrightarrow> \<not> pe_done e"
    "\<And>k i e. pl_actors p k = Some i \<Longrightarrow> pl_entries p i = Some e \<Longrightarrow> \<not> pe_done e \<Longrightarrow> pl_live p i = Some k"
  shows "pool_inv p"
  unfolding pool_inv_def using assms by blast

lemma pool_inv_insert:
  assumes I: "pool_inv p" and "pl_actors p key = None" "pe_done entry = (\<not> running)"
  shows "pool_inv (pool_insert key entry running p)"
proof -
  have fresh: "pl_actors p k \<noteq> Some (pl_next p)" for k using pool_slot [OF I] by blast
  have none: "pl_live p (pl_next p) = None" using pool_live [OF I] fresh by (metis option.exhaust)
  show ?thesis
    by (rule pool_invI; unfold pool_insert_def)
      (use assms(2,3) fresh none in \<open>auto split: if_splits dest: pool_slot [OF I] pool_live [OF I] pool_live_open [OF I]
        pool_alive [OF I] pool_inj [OF I] intro: less_SucI\<close>)
qed

lemma pool_inv_entries:
  assumes I: "pool_inv p" and "pl_actors p' = pl_actors p" "pl_live p' = pl_live p" "pl_next p' = pl_next p"
    and dn: "\<And>i. map_option pe_done (pl_entries p' i) = map_option pe_done (pl_entries p i)"
  shows "pool_inv p'"
proof -
  have d: "(pl_entries p' i = None) = (pl_entries p i = None)" for i using dn [of i] by (cases "pl_entries p i") auto
  have e: "\<exists>y. pl_entries p i = Some y \<and> pe_done y = pe_done x" if "pl_entries p' i = Some x" for i x
    using dn [of i] that by (cases "pl_entries p i") auto
  show ?thesis
  proof (rule pool_invI; unfold assms(2-4) d)
    fix i k x assume "pl_live p i = Some k" "pl_entries p' i = Some x"
    then show "\<not> pe_done x" using pool_live_open [OF I] e by blast
  next
    fix k i x assume "pl_actors p k = Some i" "pl_entries p' i = Some x" "\<not> pe_done x"
    then show "pl_live p i = Some k" using pool_alive [OF I] e by blast
  qed (use pool_slot [OF I] pool_inj [OF I] pool_live [OF I] in blast)+
qed

lemma pool_inv_finish:
  assumes I: "pool_inv p" and i: "pl_live p i = Some key" and "pl_next p' = pl_next p" "pl_live p' = (pl_live p)(i := None)"
    "pl_entries p' = (pl_entries p)(i \<mapsto> e)" "pe_done e"
    "pl_actors p' = pl_actors p \<or> pl_actors p' = (pl_actors p)(key := None)"
  shows "pool_inv p'"
proof -
  have slot: "pl_actors p key = Some i" using pool_live [OF I i] .
  have sub: "pl_actors p' k = Some j \<Longrightarrow> pl_actors p k = Some j" for k j using assms(7) by (auto split: if_splits)
  have keep: "pl_actors p k = Some j \<Longrightarrow> j \<noteq> i \<Longrightarrow> pl_actors p' k = Some j" for k j using assms(7) slot by auto
  have lv: "pl_live p' j = Some k \<Longrightarrow> j \<noteq> i \<and> pl_live p j = Some k" for j k using assms(4) by (simp split: if_splits)
  have ent: "pl_entries p' j = Some x \<Longrightarrow> j = i \<and> x = e \<or> j \<noteq> i \<and> pl_entries p j = Some x" for j x
    using assms(5) by (simp split: if_splits)
  show ?thesis
  proof (rule pool_invI)
    fix k j assume "pl_actors p' k = Some j"
    then show "j < pl_next p' \<and> pl_entries p' j \<noteq> None" using pool_slot [OF I sub] assms(3,5) by simp
  next
    fix k k' j assume "pl_actors p' k = Some j" "pl_actors p' k' = Some j"
    then show "k = k'" using pool_inj [OF I] sub by blast
  next
    fix j k assume "pl_live p' j = Some k"
    then show "pl_actors p' k = Some j" using lv keep pool_live [OF I] by blast
  next
    fix j k x assume "pl_live p' j = Some k" "pl_entries p' j = Some x"
    then show "\<not> pe_done x" using lv ent pool_live_open [OF I] by blast
  next
    fix k j x assume a: "pl_actors p' k = Some j" "pl_entries p' j = Some x" "\<not> pe_done x"
    then have "j \<noteq> i" "pl_entries p j = Some x" using ent [OF a(2)] assms(6) by auto
    then show "pl_live p' j = Some k" using pool_alive [OF I sub [OF a(1)]] a(3) assms(4) by simp
  qed
qed

lemma pool_inv_exit:
  assumes "pool_inv p" "pl_live p i = Some key"
  shows "pool_inv (pool_run_exit i key runErr p)"
proof -
  obtain entry where entry: "pl_entries p i = Some entry" using pool_slot [OF assms(1) pool_live [OF assms]] by blast
  show ?thesis
    by (rule pool_inv_finish [OF assms, where e = "the (pl_entries (pool_run_exit i key runErr p) i)"])
      (simp_all add: pool_run_exit_def entry Let_def fun_eq_iff)
qed

lemma pool_inv_remove:
  assumes I: "pool_inv p" and "pl_actors p key = Some i" "pl_entries p i = Some e" "pe_done e"
  shows "pool_inv (p \<lparr> pl_actors := (pl_actors p)(key := None) \<rparr>)"
proof -
  let ?p = "p \<lparr> pl_actors := (pl_actors p)(key := None) \<rparr>"
  have sub: "pl_actors ?p k = Some j \<Longrightarrow> pl_actors p k = Some j" for k j by (simp split: if_splits)
  show ?thesis
  proof (rule pool_invI)
    fix j k assume l: "pl_live ?p j = Some k"
    then have "pl_actors p k = Some j" using pool_live [OF I] by simp
    moreover have "j \<noteq> i" using l pool_live_open [OF I _ assms(3), of k] assms(4) by auto
    ultimately show "pl_actors ?p k = Some j" using assms(2) by auto
  next
    fix k j assume "pl_actors ?p k = Some j"
    then show "j < pl_next ?p \<and> pl_entries ?p j \<noteq> None" using pool_slot [OF I sub] by simp
  next
    fix k k' j assume "pl_actors ?p k = Some j" "pl_actors ?p k' = Some j"
    then show "k = k'" using pool_inj [OF I] sub by blast
  next
    fix j k x assume "pl_live ?p j = Some k" "pl_entries ?p j = Some x"
    then show "\<not> pe_done x" using pool_live_open [OF I] by simp
  next
    fix k j x assume "pl_actors ?p k = Some j" "pl_entries ?p j = Some x" "\<not> pe_done x"
    then show "pl_live ?p j = Some k" using pool_alive [OF I sub] by simp
  qed
qed

lemma pool_inv_step: "pool_step p p' \<Longrightarrow> pool_inv p \<Longrightarrow> pool_inv p'"
proof (induction rule: pool_step.induct)
  case (p_start ctx key newActor p e p')
  then have "p' = p \<or> (pl_actors p key = None \<and> p' = pool_insert key \<lparr> pe_key = key, pe_actor = True, pe_cancelled = False, pe_done = False,
      pe_terminalErr = None, pe_quarantined = False \<rparr> True p)"
    by (simp add: Pool_Start_def split: if_splits option.splits sum.splits bool.splits)
  then show ?case using p_start(2) by (elim disjE conjE) (simp_all add: pool_inv_insert)
next
  case (p_quarantine ctx key p r p')
  show ?case
  proof (cases "ctx = None \<or> \<not> Key_valid key")
    case False
    show ?thesis
    proof (cases "pl_actors p key")
      case None
      then show ?thesis using p_quarantine False by (auto simp: Pool_Quarantine_def intro!: pool_inv_insert)
    next
      case (Some i)
      then show ?thesis using p_quarantine False
        by (intro pool_inv_entries [OF p_quarantine(2)]) (auto simp: Pool_Quarantine_def option.map_comp comp_def)
    qed
  qed (use p_quarantine in \<open>simp add: Pool_Quarantine_def\<close>)
next
  case (p_resume key p e p')
  then have "p' = p \<or> (\<exists>i x. pl_actors p key = Some i \<and> pl_entries p i = Some x \<and> pe_done x
      \<and> p' = p \<lparr> pl_actors := (pl_actors p)(key := None) \<rparr>)"
    by (simp add: Pool_Resume_def split: if_splits option.splits)
  then show ?case using p_resume(2) pool_inv_remove by blast
next
  case (p_shutdown ctx p e p')
  have "map_option pe_done (map_option (\<lambda>e. if c e then e \<lparr> pe_cancelled := d e \<rparr> else e) x) = map_option pe_done x" for c d x
    by (cases x) auto
  then show ?case using p_shutdown
    by (intro pool_inv_entries [OF p_shutdown(2)]) (auto simp: Pool_Shutdown_def split: if_splits)
qed (simp add: pool_inv_exit)

interpretation pool_runs: run_registry pool_step pl_live pl_actors pool_inv
  by standard (auto intro: pool_inv_step pool_live)

text \<open>A join timeout leaves a tombstone for the lifetime of the process.\<close>

definition tombstoned :: "ckey \<Rightarrow> pool \<Rightarrow> bool" where
  "tombstoned key p =
     (case pl_actors p key of
        None \<Rightarrow> False
      | Some i \<Rightarrow> (case pl_entries p i of
          None \<Rightarrow> False
        | Some e \<Rightarrow> Is (pe_terminalErr e) ErrProviderJoinTimeout \<and> pe_done e))"

lemma tombstonedE:
  assumes "tombstoned key p"
  obtains i e where "pl_actors p key = Some i" "pl_entries p i = Some e" "Is (pe_terminalErr e) ErrProviderJoinTimeout" "pe_done e"
  using assms by (auto simp: tombstoned_def split: option.splits)

lemma tombstoned_step: "pool_step p p' \<Longrightarrow> pool_inv p \<Longrightarrow> tombstoned key p \<Longrightarrow> tombstoned key p'"
proof (induction rule: pool_step.induct)
  case (p_start ctx k newActor p e p')
  then show ?case by (auto simp: Pool_Start_def pool_insert_def tombstoned_def split: if_splits option.splits sum.splits bool.splits dest: pool_slot)
next
  case (p_exit p i k runErr)
  obtain j x where t: "pl_actors p key = Some j" "pl_entries p j = Some x" "Is (pe_terminalErr x) ErrProviderJoinTimeout" "pe_done x"
    using p_exit(3) by (rule tombstonedE)
  have "j \<noteq> i" using t pool_live_open [OF p_exit(2,1)] by blast
  moreover have "k \<noteq> key" using pool_live [OF p_exit(2,1)] t(1) calculation by auto
  ultimately show ?case using t by (auto simp: tombstoned_def pool_run_exit_def Let_def split: option.splits)
next
  case (p_quarantine ctx k p r p')
  then show ?case
    by (auto simp: Pool_Quarantine_def pool_insert_def tombstoned_def split: if_splits option.splits dest: pool_slot)
next
  case (p_resume k p e p')
  then show ?case by (auto simp: Pool_Resume_def tombstoned_def split: if_splits option.splits)
next
  case (p_shutdown ctx p e p')
  then show ?case by (auto simp: Pool_Shutdown_def tombstoned_def split: if_splits option.splits)
qed

lemma tombstoned_run:
  "pool_step\<^sup>*\<^sup>* p p' \<Longrightarrow> pool_inv p \<Longrightarrow> tombstoned key p \<Longrightarrow> tombstoned key p' \<and> pool_inv p'"
  by (induction rule: rtranclp_induct) (auto intro: tombstoned_step pool_inv_step)

text \<open>
  C20. The pool never lets two generations of a connection overlap. In every reachable pool at most
  one run per key is alive. Once a run ended with a provider join timeout, then after any further
  operations no run of that key is alive, starting it returns the join timeout, and resuming it is
  refused.
\<close>

theorem pool_generations_never_overlap:
  assumes "pool_step\<^sup>*\<^sup>* NewPool p"
  shows "(pl_live p i = Some key \<longrightarrow> pl_live p j = Some key \<longrightarrow> i = j)
    \<and> (pl_live p i = Some key \<longrightarrow> Is runErr ErrProviderJoinTimeout \<longrightarrow> pool_step\<^sup>*\<^sup>* (pool_run_exit i key runErr p) p' \<longrightarrow>
        pl_live p' n \<noteq> Some key \<and> fst (Pool_Resume key p') \<noteq> None
        \<and> (Key_valid key \<longrightarrow> \<not> pl_closed p' \<longrightarrow> Is (fst (Pool_Start (Some None) key newActor p')) ErrProviderJoinTimeout))"
proof (intro conjI impI)
  have init: "pool_inv NewPool" by (simp add: pool_inv_def NewPool_def)
  then have I: "pool_inv p" using assms pool_runs.inv_run by blast
  show "i = j" if "pl_live p i = Some key" "pl_live p j = Some key"
    using pool_runs.one_live_run [OF assms init that] .
  assume l: "pl_live p i = Some key" and e: "Is runErr ErrProviderJoinTimeout" and r: "pool_step\<^sup>*\<^sup>* (pool_run_exit i key runErr p) p'"
  obtain entry where "pl_actors p key = Some i" "pl_entries p i = Some entry"
    using pool_live [OF I l] pool_slot [OF I] by blast
  then have "tombstoned key (pool_run_exit i key runErr p)" using e by (simp add: tombstoned_def pool_run_exit_def Let_def)
  then have t: "tombstoned key p'" and I': "pool_inv p'" using tombstoned_run [OF r pool_inv_exit [OF I l]] by blast+
  obtain k x where s: "pl_actors p' key = Some k" "pl_entries p' k = Some x" "Is (pe_terminalErr x) ErrProviderJoinTimeout" "pe_done x"
    using t by (rule tombstonedE)
  show "pl_live p' n \<noteq> Some key" using pool_live [OF I', of n key] pool_live_open [OF I', of n key x] s by auto
  show "fst (Pool_Resume key p') \<noteq> None" using s by (simp add: Pool_Resume_def)
  show "Is (fst (Pool_Start (Some None) key newActor p')) ErrProviderJoinTimeout" if "Key_valid key" "\<not> pl_closed p'"
    using s that by (simp add: Pool_Start_def)
qed

theorem pool_generations_never_overlap_witness:
  "\<exists>p. pool_step\<^sup>*\<^sup>* NewPool p \<and> pl_live p 0 = Some (''t1'', ''c1'')
     \<and> fst (Pool_Resume (''t1'', ''c1'') (pool_run_exit 0 (''t1'', ''c1'') (Some (Sentinel ErrProviderJoinTimeout)) p)) \<noteq> None"
proof -
  let ?p = "snd (Pool_Start (Some None) (''t1'', ''c1'') (Inr True) NewPool)"
  have r: "pool_step\<^sup>*\<^sup>* NewPool ?p" using p_start [OF prod.collapse [symmetric]] by blast
  have l: "pl_live ?p 0 = Some (''t1'', ''c1'')" by (simp add: Pool_Start_def NewPool_def Key_valid_def pool_insert_def)
  show ?thesis
    using r l pool_generations_never_overlap [OF r, of 0 "(''t1'', ''c1'')" 0 "Some (Sentinel ErrProviderJoinTimeout)"] by auto
qed

section \<open>The local manager\<close>

record localActor =
  la_key :: ckey
  la_exited :: bool
  la_done :: bool
  la_stopping :: bool
  la_cancelled :: bool

record manager =
  mg_heap :: "nat \<Rightarrow> localActor option"
  mg_actors :: "ckey \<Rightarrow> nat option"
  mg_next :: nat

definition NewManager :: manager where
  "NewManager = \<lparr> mg_heap = Map.empty, mg_actors = Map.empty, mg_next = 0 \<rparr>"

text \<open>
  One turn of the loop of \<^verbatim>\<open>Start\<close>: it returns, starts an actor, or waits for the \<^verbatim>\<open>done\<close> channel of an
  entry, and takes the entry out of the map when the wait is over.
\<close>

datatype start_turn = Returned goerror | Started nat | Waiting nat

definition Manager_Start :: "goerror \<Rightarrow> ckey \<Rightarrow> manager \<Rightarrow> start_turn \<times> manager" where
  "Manager_Start ctxErr key m =
     (if ctxErr \<noteq> None then (Returned ctxErr, m)
      else if \<not> Key_valid key then (Returned (Some (Sentinel ErrInvalidConfig)), m)
      else case mg_actors m key of
        None \<Rightarrow>
          (Started (mg_next m),
           m \<lparr> mg_heap := (mg_heap m)(mg_next m \<mapsto>
                 \<lparr> la_key = key, la_exited = False, la_done = False, la_stopping = False, la_cancelled = False \<rparr>),
               mg_actors := (mg_actors m)(key \<mapsto> mg_next m), mg_next := mg_next m + 1 \<rparr>)
      | Some i \<Rightarrow>
          (case mg_heap m i of
             None \<Rightarrow> (Returned None, m)
           | Some current \<Rightarrow>
               if \<not> la_stopping current \<and> \<not> la_exited current then (Returned None, m) else (Waiting i, m)))"

definition start_wakes :: "nat \<Rightarrow> ckey \<Rightarrow> manager \<Rightarrow> manager" where
  "start_wakes i key m = (if mg_actors m key = Some i then m \<lparr> mg_actors := (mg_actors m)(key := None) \<rparr> else m)"

text \<open>The goroutine of an actor: \<^verbatim>\<open>run\<close> returns, then the cleanup section runs.\<close>

definition actor_exits :: "nat \<Rightarrow> manager \<Rightarrow> manager" where
  "actor_exits i m = m \<lparr> mg_heap := (mg_heap m)(i := map_option (\<lambda>a. a \<lparr> la_exited := True \<rparr>) (mg_heap m i)) \<rparr>"

definition actor_cleanup :: "nat \<Rightarrow> ckey \<Rightarrow> manager \<Rightarrow> manager" where
  "actor_cleanup i key m =
     (let m1 = m \<lparr> mg_heap := (mg_heap m)(i := map_option (\<lambda>a. a \<lparr> la_stopping := True, la_done := True \<rparr>) (mg_heap m i)) \<rparr>
      in if mg_actors m1 key = Some i then m1 \<lparr> mg_actors := (mg_actors m1)(key := None) \<rparr> else m1)"

text \<open>\<^verbatim>\<open>Stop\<close>: the actor it waits for.\<close>

definition Manager_Stop :: "ckey \<Rightarrow> manager \<Rightarrow> (goerror + nat) \<times> manager" where
  "Manager_Stop key m =
     (if \<not> Key_valid key then (Inl (Some (Sentinel ErrInvalidConfig)), m)
      else case mg_actors m key of
        None \<Rightarrow> (Inl None, m)
      | Some i \<Rightarrow> (Inr i, m \<lparr> mg_heap := (mg_heap m)(i := map_option (\<lambda>a. a \<lparr> la_stopping := True, la_cancelled := True \<rparr>) (mg_heap m i)) \<rparr>))"

definition mg_live :: "manager \<Rightarrow> nat \<Rightarrow> ckey option" where
  "mg_live m i = (case mg_heap m i of None \<Rightarrow> None | Some a \<Rightarrow> if la_exited a then None else Some (la_key a))"

inductive manager_step :: "manager \<Rightarrow> manager \<Rightarrow> bool" where
  m_start: "Manager_Start ctxErr key m = (t, m') \<Longrightarrow> manager_step m m'"
| m_wake: "mg_heap m i = Some a \<Longrightarrow> la_done a \<Longrightarrow> manager_step m (start_wakes i key m)"
| m_exit: "mg_live m i = Some key \<Longrightarrow> manager_step m (actor_exits i m)"
| m_cleanup: "mg_heap m i = Some a \<Longrightarrow> la_exited a \<Longrightarrow> \<not> la_done a \<Longrightarrow> manager_step m (actor_cleanup i (la_key a) m)"
| m_stop: "Manager_Stop key m = (r, m') \<Longrightarrow> manager_step m m'"

definition manager_inv :: "manager \<Rightarrow> bool" where
  "manager_inv m \<longleftrightarrow>
     (\<forall>i a. mg_heap m i = Some a \<longrightarrow> i < mg_next m \<and> (la_done a \<longrightarrow> la_exited a)) \<and>
     (\<forall>k i. mg_actors m k = Some i \<longrightarrow> i < mg_next m) \<and>
     (\<forall>i a. mg_heap m i = Some a \<longrightarrow> \<not> la_exited a \<longrightarrow> mg_actors m (la_key a) = Some i)"

lemma mg_live_Some: "mg_live m i = Some k \<longleftrightarrow> (\<exists>a. mg_heap m i = Some a \<and> \<not> la_exited a \<and> la_key a = k)"
  by (auto simp: mg_live_def split: option.splits)

lemma manager_inv_start: "manager_inv m \<Longrightarrow> Manager_Start ctxErr key m = (t, m') \<Longrightarrow> manager_inv m'"
  by (fastforce simp: Manager_Start_def manager_inv_def less_Suc_eq split: if_splits option.splits)

lemma manager_inv_wake: "manager_inv m \<Longrightarrow> mg_heap m i = Some a \<Longrightarrow> la_done a \<Longrightarrow> manager_inv (start_wakes i key m)"
  by (fastforce simp: start_wakes_def manager_inv_def)

lemma manager_inv_exit: "manager_inv m \<Longrightarrow> manager_inv (actor_exits i m)"
  by (fastforce simp: actor_exits_def manager_inv_def split: if_splits)

lemma manager_inv_cleanup:
  "manager_inv m \<Longrightarrow> mg_heap m i = Some a \<Longrightarrow> la_exited a \<Longrightarrow> manager_inv (actor_cleanup i (la_key a) m)"
  by (fastforce simp: actor_cleanup_def manager_inv_def Let_def split: if_splits)

lemma manager_inv_stop: "manager_inv m \<Longrightarrow> Manager_Stop key m = (r, m') \<Longrightarrow> manager_inv m'"
  by (fastforce simp: Manager_Stop_def manager_inv_def split: if_splits option.splits)

lemma manager_inv_step: "manager_inv m \<Longrightarrow> manager_step m m' \<Longrightarrow> manager_inv m'"
  by (erule manager_step.cases)
    (auto intro: manager_inv_start manager_inv_wake manager_inv_exit manager_inv_cleanup manager_inv_stop)

interpretation manager_runs: run_registry manager_step mg_live mg_actors manager_inv
  by unfold_locales (blast intro: manager_inv_step, metis mg_live_Some manager_inv_def)

text \<open>
  C21. The manager runs one actor per connection, whatever the interleaving of starts, stops, exits
  and cleanups: at most one run of a key is alive, a start while it is alive and not being stopped
  does nothing, a start while it is being stopped waits for its end, and a start without a live or
  unfinished run makes one alive.
\<close>

theorem manager_single_actor:
  assumes "manager_step\<^sup>*\<^sup>* NewManager m" and "Key_valid key"
  shows "(mg_live m i = Some key \<longrightarrow> mg_live m j = Some key \<longrightarrow> i = j)
    \<and> (mg_live m i = Some key \<longrightarrow>
        Manager_Start None key m = ((if la_stopping (the (mg_heap m i)) then Waiting i else Returned None), m))
    \<and> (mg_actors m key = None \<longrightarrow> Manager_Start None key m = (Started (mg_next m), snd (Manager_Start None key m))
        \<and> mg_live (snd (Manager_Start None key m)) (mg_next m) = Some key)"
proof -
  have init: "manager_inv NewManager" by (simp add: manager_inv_def NewManager_def)
  then have I: "manager_inv m" using assms manager_runs.inv_run by blast
  have "Manager_Start None key m = ((if la_stopping (the (mg_heap m i)) then Waiting i else Returned None), m)"
    if l: "mg_live m i = Some key"
  proof -
    obtain a where "mg_heap m i = Some a" "\<not> la_exited a" "mg_actors m key = Some i"
      using l I manager_runs.inv_slot [OF I l] by (auto simp: mg_live_Some)
    then show ?thesis using assms(2) by (simp add: Manager_Start_def)
  qed
  then show ?thesis
    using manager_runs.one_live_run [OF assms(1) init] assms(2) by (auto simp: Manager_Start_def mg_live_Some)
qed

theorem manager_single_actor_witness:
  "\<exists>m. manager_step\<^sup>*\<^sup>* NewManager m \<and> mg_live m 0 = Some (''t1'', ''c1'')
     \<and> Manager_Start None (''t1'', ''c1'') m = (Waiting 0, m)"
proof -
  let ?k = "(''t1'', ''c1'')"
  let ?m = "snd (Manager_Start None ?k NewManager)" and ?n = "snd (Manager_Stop ?k (snd (Manager_Start None ?k NewManager)))"
  have r: "manager_step\<^sup>*\<^sup>* NewManager ?n"
    using m_start [OF prod.collapse [symmetric]] m_stop [OF prod.collapse [symmetric]] by (meson converse_rtranclp_into_rtranclp r_into_rtranclp)
  have v: "Key_valid ?k" by (simp add: Key_valid_def)
  have e: "mg_live ?n 0 = Some ?k" "la_stopping (the (mg_heap ?n 0))"
    by (simp_all add: Manager_Start_def Manager_Stop_def NewManager_def Key_valid_def mg_live_Some)
  show ?thesis using r e manager_single_actor [OF r v, of 0 0] by auto
qed

end
