(* ===== verification/Message_Store.thy ===== *)
theory Message_Store
  imports Connection_Store "HOL-Library.AList"
begin

text \<open>
  The message tables of \<^verbatim>\<open>store/postgres\<close> (migration 0007) and the operations of \<^verbatim>\<open>messages.go\<close> that
  create and read outbound messages. The tables extend the record of the connection tables; those
  that a statement enumerates (messages, attempts) are association lists and are read with
  \<open>map_of\<close>, the append-only status history is the list of its rows in the order they were written,
  which is the order of \<^verbatim>\<open>observed_at\<close> as long as the clock of the database does not run backwards.
  \<open>newID\<close> gives the results of the successive calls of \<^verbatim>\<open>repository.newID()\<close> in one transaction.
\<close>

section \<open>Rows\<close>

record message_row =
  ms_connection :: connection_id
  ms_conversation :: string
  ms_ordering :: string
  ms_direction :: string
  ms_recipient :: string
  ms_line :: "line_id option"
  ms_route :: string
  ms_body :: string
  ms_provider_id :: "string option"
  ms_tmp_id :: "string option"
  ms_transport :: string
  ms_state :: MessageState
  ms_created :: instant
  ms_updated :: instant

record status_row =
  sr_tenant :: tenant_id
  sr_id :: string
  sr_message :: message_id
  sr_state :: MessageState
  sr_provider_status :: string
  sr_reason :: string
  sr_observed :: instant

record lane_row =
  lr_token :: nat
  lr_owner :: "owner_id option"
  lr_message :: "message_id option"
  lr_expires :: "instant option"
  lr_updated :: instant

datatype attempt_phase = Claimed | ProviderIOStarted | AttemptComplete

record attempt_row =
  ap_message :: message_id
  ap_connection :: connection_id
  ap_ordering :: string
  ap_owner :: owner_id
  ap_lane_token :: nat
  ap_fencing :: token
  ap_phase :: attempt_phase
  ap_result :: string
  ap_created :: instant
  ap_started :: "instant option"
  ap_completed :: "instant option"

record conversation_row =
  cv_default :: string
  cv_is_group :: bool
  cv_ordering :: string
  cv_cursor :: "string option"
  cv_updated :: instant

record kafka_command_row =
  kc_id :: string
  kc_producer :: string
  kc_key :: string
  kc_correlation :: string
  kc_digest :: string
  kc_message :: message_id

record media_row =
  mo_message :: "message_id option"
  mo_state :: string
  mo_mime :: string
  mo_filename :: string
  mo_size :: int

text \<open>A row of \<^verbatim>\<open>message_media\<close>; the rows of a message are listed with their positions.\<close>

record media_link =
  ml_media :: media_id
  ml_identity :: "string option"

type_synonym mkey = "tenant_id \<times> message_id"
type_synonym lkey = "tenant_id \<times> connection_id \<times> string"

record messaging_db = gateway_db +
  db_messages :: "(mkey \<times> message_row) list"
  db_status :: "status_row list"
  db_idempotency :: "tenant_id \<times> string \<rightharpoonup> string \<times> message_id"
  db_lanes :: "lkey \<rightharpoonup> lane_row"
  db_attempts :: "((tenant_id \<times> string) \<times> attempt_row) list"
  db_conversations :: "tenant_id \<times> connection_id \<times> string \<rightharpoonup> conversation_row"
  db_media :: "tenant_id \<times> media_id \<rightharpoonup> media_row"
  db_message_media :: "mkey \<rightharpoonup> (nat \<times> media_link) list"
  db_kafka_commands :: "tenant_id \<times> string \<times> int \<times> int \<rightharpoonup> kafka_command_row"


definition message_of :: "'z messaging_db_scheme \<Rightarrow> mkey \<Rightarrow> message_row option" where
  "message_of db k = map_of (db_messages db) k"

definition attempt_of :: "'z messaging_db_scheme \<Rightarrow> tenant_id \<times> string \<Rightarrow> attempt_row option" where
  "attempt_of db k = map_of (db_attempts db) k"

definition put_message :: "mkey \<Rightarrow> message_row \<Rightarrow> 'z messaging_db_scheme \<Rightarrow> 'z messaging_db_scheme" where
  "put_message k m db = db \<lparr> db_messages := AList.update k m (db_messages db) \<rparr>"

definition put_attempt :: "tenant_id \<times> string \<Rightarrow> attempt_row \<Rightarrow> 'z messaging_db_scheme \<Rightarrow> 'z messaging_db_scheme" where
  "put_attempt k a db = db \<lparr> db_attempts := AList.update k a (db_attempts db) \<rparr>"

definition put_lane :: "lkey \<Rightarrow> lane_row \<Rightarrow> 'z messaging_db_scheme \<Rightarrow> 'z messaging_db_scheme" where
  "put_lane k l db = db \<lparr> db_lanes := (db_lanes db)(k \<mapsto> l) \<rparr>"

section \<open>Names of states and the body of an event\<close>

definition state_name :: "MessageState \<Rightarrow> string" where
  "state_name st =
     (case st of
        MessageStateQueued \<Rightarrow> ''queued'' | MessageStateDispatching \<Rightarrow> ''dispatching''
      | MessageStateProviderAccepted \<Rightarrow> ''provider_accepted'' | MessageStateAwaitingPhone \<Rightarrow> ''awaiting_phone''
      | MessageStateSent \<Rightarrow> ''sent'' | MessageStateDelivered \<Rightarrow> ''delivered'' | MessageStateRead \<Rightarrow> ''read''
      | MessageStateUncertain \<Rightarrow> ''uncertain'' | MessageStateFailed \<Rightarrow> ''failed'' | MessageStateOther s \<Rightarrow> s)"

record Attachment =
  am_MediaID :: media_id
  am_Position :: nat

record OutboundMessage =
  om_ID :: message_id
  om_TenantID :: tenant_id
  om_ConnectionID :: connection_id
  om_ConversationID :: string
  om_Recipient :: string
  om_LineID :: line_id
  om_RouteMode :: string
  om_Text :: string
  om_MediaIDs :: "media_id list"
  om_ProviderTmpID :: string
  om_ProviderMessageID :: string
  om_Direction :: string
  om_Transport :: string
  om_Attachments :: "Attachment list"
  om_State :: MessageState
  om_CreatedAt :: instant

definition toAttachments :: "media_id list \<Rightarrow> Attachment list" where
  "toAttachments mediaIDs = map (\<lambda>(i, m). \<lparr> am_MediaID = m, am_Position = i \<rparr>) (enumerate 0 mediaIDs)"

text \<open>The zero \<^verbatim>\<open>time.Time\<close>, the first of January of year 1, in microseconds of the Unix epoch.\<close>

definition zero_time :: instant where
  "zero_time = - 62135596800000000"

definition outboundMessageEvent :: "instant \<Rightarrow> string \<Rightarrow> string \<Rightarrow> OutboundMessage \<Rightarrow> MessageState \<Rightarrow> instant \<Rightarrow> event_envelope" where
  "outboundMessageEvent wall eventID eventType message state occurredAt =
     \<lparr> ee_EventID = eventID, ee_Type = eventType, ee_Version = 0,
       ee_OccurredAt = Some (if occurredAt = zero_time then wall else occurredAt), ee_OccurredAtText = '''',
       ee_IngestedAt = None, ee_IngestedAtText = '''', ee_TenantID = om_TenantID message,
       ee_ConnectionID = om_ConnectionID message, ee_ConversationID = om_ConversationID message,
       ee_MessageID = om_ID message, ee_ProviderMessageID = om_ProviderMessageID message,
       ee_ProviderTmpID = om_ProviderTmpID message, ee_Direction = ''outbound'', ee_Provenance = '''',
       ee_ProviderStatus = '''', ee_Actionable = False, ee_Sender = '''',
       ee_Recipients = (case ParseE164 (om_Recipient message) of Inl _ \<Rightarrow> [] | Inr phone \<Rightarrow> [phone_value phone]),
       ee_Text = om_Text message, ee_Transport = om_Transport message, ee_Status = state_name state,
       ee_State = state_name state, ee_MediaID = '''', ee_MetadataPath = '''', ee_ContentPath = '''',
       ee_Media = map (\<lambda>(position, mediaID).
          \<lparr> em_ID = mediaID, em_Position = int position, em_Status = ''ready'', em_MIMEType = '''', em_Size = 0,
            em_DisplayFilename = '''', em_MetadataPath = '''', em_ContentPath = ''/v1/media/'' @ mediaID @ ''/content'' \<rparr>)
          (enumerate 0 (om_MediaIDs message)),
       ee_ProviderResponseID = '''', ee_Reason = '''', ee_Data = [] \<rparr>"

definition outboundMessageEventBody ::
  "codec \<Rightarrow> instant \<Rightarrow> string \<Rightarrow> string \<Rightarrow> OutboundMessage \<Rightarrow> MessageState \<Rightarrow> instant \<Rightarrow> string result" where
  "outboundMessageEventBody enc wall eventID eventType message state occurredAt =
     event_Marshal (fst enc) (snd enc) (outboundMessageEvent wall eventID eventType message state occurredAt)"

section \<open>Rows that several operations insert\<close>

definition insertMessageStatus :: "status_row \<Rightarrow> 'z messaging_db_scheme \<Rightarrow> 'z messaging_db_scheme result" where
  "insertMessageStatus row db =
     (if list_ex (\<lambda>r. sr_tenant r = sr_tenant row \<and> sr_id r = sr_id row) (db_status db) then Inl unique_violation
      else Inr (db \<lparr> db_status := db_status db @ [row] \<rparr>))"

definition insertGatewayEvent :: "tenant_id \<times> string \<Rightarrow> event_row \<Rightarrow> 'z messaging_db_scheme \<Rightarrow> 'z messaging_db_scheme result" where
  "insertGatewayEvent k row db =
     (if db_events db k \<noteq> None then Inl unique_violation
      else if 1048576 < length (ev_body row) then Inl check_violation
      else Inr (db \<lparr> db_events := (db_events db)(k \<mapsto> row) \<rparr>))"

definition insertEventOutbox ::
  "instant \<Rightarrow> tenant_id \<Rightarrow> string \<Rightarrow> string \<Rightarrow> 'z messaging_db_scheme \<Rightarrow> 'z messaging_db_scheme result" where
  "insertEventOutbox now tenantID outboxID eventID db =
     bind_res (insert_outbox now tenantID (outboxID @ '':webhook'') eventID ''webhook'' db)
       (insert_outbox now tenantID (outboxID @ '':kafka'') eventID ''kafka'')"

lemma insertEventOutbox_adds:
  assumes "insertEventOutbox now t i e db = Inr db'"
  shows "db' = db \<lparr> db_outbox := db_outbox db @ [new_outbox now t (i @ '':webhook'') e ''webhook'', new_outbox now t (i @ '':kafka'') e ''kafka''] \<rparr>"
  using assms by (auto simp: insertEventOutbox_def bind_res_Inr insert_outbox_Inr)

definition message_event_row :: "string \<Rightarrow> OutboundMessage \<Rightarrow> string \<Rightarrow> event_row" where
  "message_event_row eventType message body =
     \<lparr> ev_type = eventType, ev_aggregate_type = ''message'', ev_aggregate_id = om_ID message,
       ev_connection = (if om_ConnectionID message = '''' then None else Some (om_ConnectionID message)),
       ev_conversation = om_ConversationID message, ev_body = body \<rparr>"

definition status_of ::
  "tenant_id \<Rightarrow> string \<Rightarrow> message_id \<Rightarrow> MessageState \<Rightarrow> string \<Rightarrow> string \<Rightarrow> instant \<Rightarrow> status_row" where
  "status_of tenantID statusID messageID state providerStatus reason now =
     \<lparr> sr_tenant = tenantID, sr_id = statusID, sr_message = messageID, sr_state = state,
       sr_provider_status = providerStatus, sr_reason = reason, sr_observed = now \<rparr>"

section \<open>Reading a message\<close>

definition outbound_of :: "tenant_id \<Rightarrow> message_id \<Rightarrow> message_row \<Rightarrow> media_id list \<Rightarrow> OutboundMessage" where
  "outbound_of tenantID messageID m mediaIDs =
     \<lparr> om_ID = messageID, om_TenantID = tenantID, om_ConnectionID = ms_connection m,
       om_ConversationID = ms_conversation m, om_Recipient = ms_recipient m,
       om_LineID = (case ms_line m of None \<Rightarrow> '''' | Some l \<Rightarrow> l), om_RouteMode = ms_route m, om_Text = ms_body m,
       om_MediaIDs = mediaIDs, om_ProviderTmpID = (case ms_tmp_id m of None \<Rightarrow> '''' | Some p \<Rightarrow> p),
       om_ProviderMessageID = (case ms_provider_id m of None \<Rightarrow> '''' | Some p \<Rightarrow> p),
       om_Direction = ms_direction m, om_Transport = ms_transport m, om_Attachments = toAttachments mediaIDs,
       om_State = ms_state m, om_CreatedAt = ms_created m \<rparr>"

definition media_ids :: "'z messaging_db_scheme \<Rightarrow> mkey \<Rightarrow> media_id list" where
  "media_ids db k = (case db_message_media db k of None \<Rightarrow> [] | Some links \<Rightarrow> map (\<lambda>(i, l). ml_media l) (sort_key fst links))"

text \<open>
  \<^verbatim>\<open>Scan\<close> into a string fails on a NULL. Every column is NOT NULL or coalesced except
  \<^verbatim>\<open>provider_tmp_id\<close>, which is NULL for projected messages without a temporary identifier.
\<close>

definition scan_failure :: err where
  "scan_failure = Opaque ''sql: Scan error on column provider_tmp_id: converting NULL to string is unsupported''"

definition loadOutboundMessage :: "tenant_id \<Rightarrow> message_id \<Rightarrow> 'z messaging_db_scheme \<Rightarrow> OutboundMessage result" where
  "loadOutboundMessage tenantID messageID db =
     (case message_of db (tenantID, messageID) of
        None \<Rightarrow> Inl (Sentinel ErrNotFound)
      | Some m \<Rightarrow>
          if ms_tmp_id m = None then Inl (Wrap ''get outbound message'' scan_failure)
          else if MessageState_Validate (ms_state m) \<noteq> None then Inl (Sentinel ErrInvalidMessageState)
          else Inr (outbound_of tenantID messageID m (media_ids db (tenantID, messageID))))"

definition GetMessage :: "fault \<Rightarrow> tenant_id \<Rightarrow> message_id \<Rightarrow> 'z messaging_db_scheme \<Rightarrow> OutboundMessage result" where
  "GetMessage f tenantID messageID db =
     (if tenantID = '''' \<or> messageID = '''' then Inl (Sentinel ErrNotFound)
      else fst (inTenant f tenantID (\<lambda>db. bind_res (loadOutboundMessage tenantID messageID db) (\<lambda>m. Inr (m, db))) db))"

text \<open>
  \<^verbatim>\<open>ListMessages\<close>. The collation of the database orders identifiers; it is a parameter, given as a
  key in a linear order.
\<close>

record MessagePage =
  mp_Messages :: "OutboundMessage list"
  mp_NextCursor :: message_id

definition list_rows :: "(message_id \<Rightarrow> 'k::linorder) \<Rightarrow> tenant_id \<Rightarrow> message_id \<Rightarrow> nat \<Rightarrow> 'z messaging_db_scheme \<Rightarrow> (mkey \<times> message_row) list" where
  "list_rows collate tenantID after limit db =
     take limit (sort_key (\<lambda>(k, m). collate (snd k))
       (filter (\<lambda>(k, m). fst k = tenantID \<and> collate after < collate (snd k)) (db_messages db)))"

definition ListMessages ::
  "(message_id \<Rightarrow> 'k::linorder) \<Rightarrow> fault \<Rightarrow> tenant_id \<Rightarrow> message_id \<Rightarrow> int \<Rightarrow> 'z messaging_db_scheme \<Rightarrow> MessagePage result" where
  "ListMessages collate f tenantID after limit db =
     (if tenantID = '''' \<or> limit < 1 \<or> 200 < limit then Inl (Sentinel ErrInvalidCommand)
      else fst (inTenant f tenantID (\<lambda>db.
        let rows = list_rows collate tenantID after (nat limit + 1) db;
            messages = map (\<lambda>(k, m). outbound_of tenantID (snd k) m (media_ids db k)) rows
        in if list_ex (\<lambda>(k, m). ms_tmp_id m = None) rows then Inl scan_failure
           else if length messages > nat limit
           then Inr (\<lparr> mp_Messages = take (nat limit) messages, mp_NextCursor = om_ID (messages ! (nat limit - 1)) \<rparr>, db)
           else Inr (\<lparr> mp_Messages = messages, mp_NextCursor = '''' \<rparr>, db)) db))"

definition GetLine ::
  "fault \<Rightarrow> tenant_id \<Rightarrow> connection_id \<Rightarrow> line_id \<Rightarrow> 'z messaging_db_scheme \<Rightarrow> Line result" where
  "GetLine f tenantID connectionID lineID db =
     (if tenantID = '''' \<or> connectionID = '''' \<or> lineID = '''' then Inl (Sentinel ErrInvalidRoute)
      else fst (inTenant f tenantID (\<lambda>db.
        case db_lines db (tenantID, lineID) of
          None \<Rightarrow> Inl (Sentinel ErrInvalidRoute)
        | Some l \<Rightarrow>
            if ln_connection l \<noteq> connectionID \<or> \<not> ln_active l then Inl (Sentinel ErrInvalidRoute)
            else Inr (\<lparr> line_ID = lineID, line_TenantID = tenantID, line_ConnectionID = ln_connection l,
                       line_ProviderParticipantID = ln_participant l, line_ProviderOutgoingID = ln_outgoing l,
                       line_DisplayName = ln_display l \<rparr>, db)) db))"

section \<open>Creating an outbound message\<close>

record CommandAudit =
  ca_Topic :: string
  ca_Partition :: int
  ca_Offset :: int
  ca_ProducerIdentity :: string
  ca_CorrelationID :: string
  ca_PayloadDigest :: string

datatype CreateOutcome = CreateInserted | CreateDuplicate | CreateConflict

record CreateCommand =
  co_IdempotencyKey :: string
  co_RequestDigest :: string
  co_Message :: OutboundMessage
  co_CommandAudit :: "CommandAudit option"

definition recordKafkaCommand ::
  "string \<Rightarrow> CreateCommand \<Rightarrow> message_id \<Rightarrow> 'z messaging_db_scheme \<Rightarrow> 'z messaging_db_scheme result" where
  "recordKafkaCommand commandID command messageID db =
     (case co_CommandAudit command of
        None \<Rightarrow> Inr db
      | Some audit \<Rightarrow>
          let k = (om_TenantID (co_Message command), ca_Topic audit, ca_Partition audit, ca_Offset audit);
              row = \<lparr> kc_id = commandID, kc_producer = ca_ProducerIdentity audit, kc_key = co_IdempotencyKey command,
                      kc_correlation = ca_CorrelationID audit, kc_digest = ca_PayloadDigest audit, kc_message = messageID \<rparr>
          in case db_kafka_commands db k of
               None \<Rightarrow> if commandID = '''' then Inl (Sentinel ErrIdempotencyConflict)
                        else Inr (db \<lparr> db_kafka_commands := (db_kafka_commands db)(k \<mapsto> row) \<rparr>)
             | Some old \<Rightarrow> if row \<lparr> kc_id := kc_id old \<rparr> = old \<and> kc_id old \<noteq> '''' then Inr db
                           else Inl (Sentinel ErrIdempotencyConflict))"

text \<open>
  \<^verbatim>\<open>validateMessageRouteSQL\<close> and the checks after it: the ordering key of the conversation.
\<close>

definition requested_outgoing :: "OutboundMessage \<Rightarrow> 'z messaging_db_scheme \<Rightarrow> string" where
  "requested_outgoing message db =
     (if om_LineID message = '''' then ''''
      else case db_lines db (om_TenantID message, om_LineID message) of
        None \<Rightarrow> ''''
      | Some line \<Rightarrow> if ln_connection line = om_ConnectionID message \<and> ln_active line then ln_outgoing line else '''')"

definition route_ordering_key :: "OutboundMessage \<Rightarrow> 'z messaging_db_scheme \<Rightarrow> string result" where
  "route_ordering_key message db =
     (if om_ConversationID message = '''' then Inr (''new:'' @ om_Recipient message)
      else case db_conversations db (om_TenantID message, om_ConnectionID message, om_ConversationID message) of
        None \<Rightarrow> Inl (Sentinel ErrInvalidRoute)
      | Some conversation \<Rightarrow>
          if cv_default conversation = ''''
             \<or> (om_LineID message \<noteq> '''' \<and> requested_outgoing message db \<noteq> cv_default conversation)
          then Inl (Sentinel ErrInvalidRoute)
          else Inr (if cv_ordering conversation = '''' then om_ConversationID message else cv_ordering conversation))"

definition outbound_row :: "OutboundMessage \<Rightarrow> string \<Rightarrow> message_row" where
  "outbound_row message orderingKey =
     \<lparr> ms_connection = om_ConnectionID message, ms_conversation = om_ConversationID message, ms_ordering = orderingKey,
       ms_direction = ''outbound'', ms_recipient = om_Recipient message,
       ms_line = (if om_LineID message = '''' then None else Some (om_LineID message)), ms_route = om_RouteMode message,
       ms_body = om_Text message, ms_provider_id = None, ms_tmp_id = Some (om_ProviderTmpID message), ms_transport = '''',
       ms_state = MessageStateQueued, ms_created = om_CreatedAt message, ms_updated = om_CreatedAt message \<rparr>"

definition insertOutboundMessage :: "OutboundMessage \<Rightarrow> string \<Rightarrow> 'z messaging_db_scheme \<Rightarrow> 'z messaging_db_scheme result" where
  "insertOutboundMessage message orderingKey db =
     (let k = (om_TenantID message, om_ID message) in
      if message_of db k \<noteq> None \<or> list_ex (\<lambda>(k', m). fst k' = om_TenantID message \<and> ms_connection m = om_ConnectionID message
           \<and> ms_tmp_id m = Some (om_ProviderTmpID message)) (db_messages db) then Inl unique_violation
      else if 65536 < length (om_Text message) then Inl check_violation
      else if db_connections db (om_TenantID message, om_ConnectionID message) = None
           \<or> (om_LineID message \<noteq> '''' \<and> db_lines db (om_TenantID message, om_LineID message) = None) then Inl fk_violation
      else Inr (put_message k (outbound_row message orderingKey) db))"

definition ensureMessageLane :: "instant \<Rightarrow> lkey \<Rightarrow> 'z messaging_db_scheme \<Rightarrow> 'z messaging_db_scheme" where
  "ensureMessageLane now k db =
     (if db_lanes db k = None
      then put_lane k \<lparr> lr_token = 0, lr_owner = None, lr_message = None, lr_expires = None, lr_updated = now \<rparr> db else db)"

definition insertOutboundMedia :: "OutboundMessage \<Rightarrow> 'z messaging_db_scheme \<Rightarrow> 'z messaging_db_scheme result" where
  "insertOutboundMedia message db =
     (let k = (om_TenantID message, om_ID message);
          ready = filter (\<lambda>mediaID. map_option mo_state (db_media db (om_TenantID message, mediaID)) = Some ''ready'') (om_MediaIDs message)
      in if om_MediaIDs message = [] then Inr db
         else if length ready \<noteq> length (om_MediaIDs message) then Inl (Wrap ''attach outbound media'' (Sentinel ErrInvalidCommand))
         else Inr (db \<lparr> db_message_media := (db_message_media db)(k \<mapsto>
            map (\<lambda>(i, mediaID). (i, \<lparr> ml_media = mediaID, ml_identity = None \<rparr>)) (enumerate 0 ready)) \<rparr>))"

definition insertMessageIdempotency ::
  "tenant_id \<times> string \<Rightarrow> string \<Rightarrow> message_id \<Rightarrow> 'z messaging_db_scheme \<Rightarrow> 'z messaging_db_scheme result" where
  "insertMessageIdempotency k digest messageID db =
     (if db_idempotency db k \<noteq> None then Inl unique_violation
      else if length digest \<noteq> 32 then Inl check_violation
      else Inr (db \<lparr> db_idempotency := (db_idempotency db)(k \<mapsto> (digest, messageID)) \<rparr>))"

text \<open>A status row with its event and the outbox rows of the event, as several operations write them.\<close>

definition append_status_event ::
  "codec \<Rightarrow> instant \<Rightarrow> instant \<Rightarrow> instant \<Rightarrow> string \<times> string \<times> string \<Rightarrow> OutboundMessage \<Rightarrow> MessageState \<Rightarrow> string \<Rightarrow> string
   \<Rightarrow> 'z messaging_db_scheme \<Rightarrow> 'z messaging_db_scheme result" where
  "append_status_event enc now wall occurredAt ids message state providerStatus reason db =
     (let (statusID, eventID, outboxID) = ids; tenantID = om_TenantID message; eventType = ''message.'' @ state_name state in
      bind_res (insertMessageStatus (status_of tenantID statusID (om_ID message) state providerStatus reason now) db) (\<lambda>db.
      bind_res (outboundMessageEventBody enc wall eventID eventType message state occurredAt) (\<lambda>body.
      bind_res (insertGatewayEvent (tenantID, eventID) (message_event_row eventType message body) db) (\<lambda>db.
      insertEventOutbox now tenantID outboxID eventID db))))"

definition create_message ::
  "codec \<Rightarrow> instant \<Rightarrow> instant \<Rightarrow> (nat \<Rightarrow> string) \<Rightarrow> CreateCommand \<Rightarrow> 'z messaging_db_scheme \<Rightarrow> 'z messaging_db_scheme result" where
  "create_message enc now wall newID command db =
     (let message = co_Message command; tenantID = om_TenantID message in
      bind_res (route_ordering_key message db) (\<lambda>orderingKey.
      bind_res (insertOutboundMessage message orderingKey db) (\<lambda>db.
      bind_res (insertOutboundMedia message (ensureMessageLane now (tenantID, om_ConnectionID message, orderingKey) db)) (\<lambda>db.
      bind_res (insertMessageIdempotency (tenantID, co_IdempotencyKey command) (co_RequestDigest command) (om_ID message) db) (\<lambda>db.
      bind_res (recordKafkaCommand (newID 0) command (om_ID message) db) (\<lambda>db.
      append_status_event enc now wall (om_CreatedAt message) (newID 1, newID 2, newID 3) message MessageStateQueued '''' '''' db))))))"

definition CreateOutbound ::
  "codec \<Rightarrow> fault \<Rightarrow> instant \<Rightarrow> instant \<Rightarrow> (nat \<Rightarrow> string) \<Rightarrow> CreateCommand \<Rightarrow> 'z messaging_db_scheme
   \<Rightarrow> (CreateOutcome \<times> OutboundMessage option) result \<times> 'z messaging_db_scheme" where
  "CreateOutbound enc f now wall newID command db =
     (let message = co_Message command; tenantID = om_TenantID message in
      if tenantID = '''' \<or> om_ID message = '''' \<or> om_ConnectionID message = '''' \<or> co_IdempotencyKey command = ''''
         \<or> om_State message \<noteq> MessageStateQueued then (Inl (Sentinel ErrInvalidCommand), db)
      else if om_ConversationID message \<noteq> '''' \<and> \<not> ValidProviderConversationID (om_ConversationID message)
      then (Inl (Sentinel ErrInvalidRoute), db)
      else inTenant f tenantID (\<lambda>db.
        case db_idempotency db (tenantID, co_IdempotencyKey command) of
          Some (storedDigest, storedMessageID) \<Rightarrow>
            if storedDigest \<noteq> co_RequestDigest command then Inr ((CreateConflict, None), db)
            else bind_res (loadOutboundMessage tenantID storedMessageID db) (\<lambda>stored.
                 bind_res (recordKafkaCommand (newID 0) command (om_ID stored) db) (\<lambda>db'.
                 Inr ((CreateDuplicate, Some stored), db')))
        | None \<Rightarrow> bind_res (create_message enc now wall newID command db) (\<lambda>db'. Inr ((CreateInserted, Some message), db'))) db)"

end
