(* ===== verification/Messaging_Service.thy ===== *)
theory Messaging_Service
  imports Message_Store
begin

text \<open>
  The application service of \<^verbatim>\<open>messaging/service.go\<close>: validation of a send command, its canonical
  digest and the submission, which HTTP and Kafka share. SHA-256 is a parameter of the definitions
  that hash; what is proved about digests names the absence of a collision as a hypothesis.
\<close>

record SendInput =
  si_ConnectionID :: connection_id
  si_ConversationID :: string
  si_Recipient :: string
  si_LineID :: line_id
  si_RouteMode :: string
  si_Text :: string
  si_MediaIDs :: "media_id list"

definition RouteModePhoneDefault :: string where
  "RouteModePhoneDefault = ''phone_default''"

definition validIdempotencyKey :: "string \<Rightarrow> bool" where
  "validIdempotencyKey key =
     (key \<noteq> '''' \<and> length key \<le> 200 \<and> TrimSpace key = key \<and> list_all (\<lambda>c. 0x21 \<le> byte_of c \<and> byte_of c \<le> 0x7e) key)"

fun media_ids_ok :: "media_id list \<Rightarrow> media_id list \<Rightarrow> bool" where
  "media_ids_ok seen [] = True"
| "media_ids_ok seen (mediaID # rest) = (mediaID \<noteq> '''' \<and> mediaID \<notin> set seen \<and> media_ids_ok (mediaID # seen) rest)"

definition validContent :: "SendInput \<Rightarrow> bool" where
  "validContent input =
     (valid_utf8 (si_Text input) \<and> length (si_Text input) \<le> 64 * 1024
      \<and> (TrimSpace (si_Text input) \<noteq> '''' \<or> si_MediaIDs input \<noteq> [])
      \<and> length (si_MediaIDs input) \<le> 16 \<and> media_ids_ok [] (si_MediaIDs input))"

definition validateRoute :: "SendInput \<Rightarrow> goerror" where
  "validateRoute input =
     (let conversationID = TrimSpace (si_ConversationID input); recipient = TrimSpace (si_Recipient input) in
      if conversationID \<noteq> ''''
      then if \<not> ValidProviderConversationID conversationID \<or> recipient \<noteq> '''' \<or> si_RouteMode input \<noteq> ''''
           then Some (Sentinel ErrInvalidRoute) else None
      else if si_RouteMode input \<noteq> RouteModePhoneDefault \<or> si_LineID input \<noteq> '''' \<or> recipient = '''' \<or> ContainsAny recipient '',;''
      then Some (Sentinel ErrInvalidRoute)
      else case ParseE164 recipient of Inl _ \<Rightarrow> Some (Sentinel ErrInvalidRoute) | Inr _ \<Rightarrow> None)"

section \<open>Digests\<close>

definition request_fields :: "SendInput \<Rightarrow> string list" where
  "request_fields input =
     [si_ConnectionID input, TrimSpace (si_ConversationID input), TrimSpace (si_Recipient input), si_LineID input,
      si_RouteMode input, si_Text input] @ si_MediaIDs input"

definition CanonicalRequestDigest :: "(string \<Rightarrow> string) \<Rightarrow> SendInput \<Rightarrow> string" where
  "CanonicalRequestDigest sha256 input = sha256 (concat (map (framed 8) (request_fields input)))"

text \<open>\<^verbatim>\<open>base64.RawURLEncoding\<close>: groups of six bits, without padding.\<close>

definition b64_alphabet :: string where
  "b64_alphabet = ''ABCDEFGHIJKLMNOPQRSTUVWXYZabcdefghijklmnopqrstuvwxyz0123456789-_''"

fun b64_encode :: "string \<Rightarrow> string" where
  "b64_encode (a # b # c # rest) =
     (let n = byte_of a * 65536 + byte_of b * 256 + byte_of c
      in map (\<lambda>s. b64_alphabet ! (n div 64 ^ s mod 64)) [3, 2, 1, 0] @ b64_encode rest)"
| "b64_encode [a, b] = (let n = byte_of a * 65536 + byte_of b * 256 in map (\<lambda>s. b64_alphabet ! (n div 64 ^ s mod 64)) [3, 2, 1])"
| "b64_encode [a] = (let n = byte_of a * 65536 in map (\<lambda>s. b64_alphabet ! (n div 64 ^ s mod 64)) [3, 2])"
| "b64_encode [] = ''''"

definition ProviderTemporaryID :: "(string \<Rightarrow> string) \<Rightarrow> tenant_id \<Rightarrow> message_id \<Rightarrow> string" where
  "ProviderTemporaryID sha256 tenantID messageID =
     ''sx-'' @ b64_encode (take 18 (sha256 (tenantID @ [CHR 0x00] @ messageID)))"

section \<open>Submission\<close>

definition outbound_message :: "(string \<Rightarrow> string) \<Rightarrow> instant \<Rightarrow> message_id \<Rightarrow> tenant_id \<Rightarrow> SendInput \<Rightarrow> OutboundMessage" where
  "outbound_message sha256 now messageID tenantID input =
     \<lparr> om_ID = messageID, om_TenantID = tenantID, om_ConnectionID = si_ConnectionID input,
       om_ConversationID = TrimSpace (si_ConversationID input), om_Recipient = TrimSpace (si_Recipient input),
       om_LineID = si_LineID input, om_RouteMode = si_RouteMode input, om_Text = si_Text input,
       om_MediaIDs = si_MediaIDs input, om_ProviderTmpID = ProviderTemporaryID sha256 tenantID messageID,
       om_ProviderMessageID = '''', om_Direction = ''outbound'', om_Transport = '''',
       om_Attachments = toAttachments (si_MediaIDs input), om_State = MessageStateQueued, om_CreatedAt = now \<rparr>"

text \<open>What a call of the store needs besides the command: the fault, the clocks, fresh identifiers and the encoders.\<close>

record submit_env =
  sv_fault :: fault
  sv_now :: instant
  sv_wall :: instant
  sv_messageID :: message_id
  sv_newID :: "nat \<Rightarrow> string"
  sv_codec :: codec
  sv_sha256 :: "string \<Rightarrow> string"

definition submit ::
  "submit_env \<Rightarrow> tenant_id \<Rightarrow> string \<Rightarrow> SendInput \<Rightarrow> CommandAudit option \<Rightarrow> 'z messaging_db_scheme
   \<Rightarrow> OutboundMessage result \<times> 'z messaging_db_scheme" where
  "submit env tenantID idempotencyKey input audit db =
     (if tenantID = '''' \<or> \<not> validIdempotencyKey idempotencyKey \<or> si_ConnectionID input = '''' \<or> \<not> validContent input
      then (Inl (Sentinel ErrInvalidCommand), db)
      else case validateRoute input of
        Some e \<Rightarrow> (Inl e, db)
      | None \<Rightarrow>
          if sv_messageID env = '''' then (Inl (Sentinel ErrInvalidCommand), db)
          else case CreateOutbound (sv_codec env) (sv_fault env) (sv_now env) (sv_wall env) (sv_newID env)
                      \<lparr> co_IdempotencyKey = idempotencyKey, co_RequestDigest = CanonicalRequestDigest (sv_sha256 env) input,
                        co_Message = outbound_message (sv_sha256 env) (sv_wall env) (sv_messageID env) tenantID input,
                        co_CommandAudit = audit \<rparr> db of
            (Inl e, db') \<Rightarrow> (Inl e, db')
          | (Inr (CreateConflict, _), db') \<Rightarrow> (Inl (Sentinel ErrIdempotencyConflict), db')
          | (Inr (_, Some message), db') \<Rightarrow> (Inr message, db')
          | (Inr (_, None), db') \<Rightarrow> (Inl (Opaque ''invalid message store result''), db'))"

definition CommandAudit_valid :: "CommandAudit \<Rightarrow> bool" where
  "CommandAudit_valid audit =
     (ca_Topic audit \<noteq> '''' \<and> length (ca_Topic audit) \<le> 249 \<and> 0 \<le> ca_Partition audit \<and> 0 \<le> ca_Offset audit
      \<and> ca_ProducerIdentity audit \<noteq> '''' \<and> length (ca_ProducerIdentity audit) \<le> 512 \<and> length (ca_CorrelationID audit) \<le> 512
      \<and> ca_PayloadDigest audit \<noteq> replicate 32 CHR 0x00)"

definition Submit ::
  "submit_env \<Rightarrow> tenant_id \<Rightarrow> string \<Rightarrow> SendInput \<Rightarrow> 'z messaging_db_scheme \<Rightarrow> OutboundMessage result \<times> 'z messaging_db_scheme" where
  "Submit env tenantID idempotencyKey input db = submit env tenantID idempotencyKey input None db"

definition SubmitAuthenticatedCommand ::
  "submit_env \<Rightarrow> tenant_id \<Rightarrow> string \<Rightarrow> SendInput \<Rightarrow> CommandAudit \<Rightarrow> 'z messaging_db_scheme
   \<Rightarrow> OutboundMessage result \<times> 'z messaging_db_scheme" where
  "SubmitAuthenticatedCommand env tenantID idempotencyKey input audit db =
     (if \<not> CommandAudit_valid audit then (Inl (Sentinel ErrInvalidCommand), db)
      else submit env tenantID idempotencyKey input (Some audit) db)"

definition Service_Get :: "fault \<Rightarrow> tenant_id \<Rightarrow> message_id \<Rightarrow> 'z messaging_db_scheme \<Rightarrow> OutboundMessage result" where
  "Service_Get f tenantID messageID db =
     (if tenantID = '''' \<or> messageID = '''' then Inl (Sentinel ErrNotFound)
      else bind_res (GetMessage f tenantID messageID db) (\<lambda>message.
        if om_TenantID message \<noteq> tenantID \<or> om_ID message \<noteq> messageID then Inl (Sentinel ErrNotFound) else Inr message))"

definition Service_List ::
  "(message_id \<Rightarrow> 'k::linorder) \<Rightarrow> fault \<Rightarrow> tenant_id \<Rightarrow> message_id \<Rightarrow> int \<Rightarrow> 'z messaging_db_scheme \<Rightarrow> MessagePage result" where
  "Service_List collate f tenantID after limit db =
     (if tenantID = '''' \<or> limit < 1 \<or> 200 < limit then Inl (Sentinel ErrInvalidCommand)
      else bind_res (ListMessages collate f tenantID after limit db) (\<lambda>page.
        if list_ex (\<lambda>message. om_TenantID message \<noteq> tenantID \<or> om_ID message = '''') (mp_Messages page)
        then Inl (Sentinel ErrNotFound) else Inr page))"

end
