(* ===== verification/Ingress_Projection.thy ===== *)
theory Ingress_Projection
  imports Message_Store
begin

text \<open>
  What a provider response is projected to (\<^verbatim>\<open>ingress/service.go\<close>): the records, the validation of
  a projection before any statement is built from it, the canonical form of a provider cursor, the
  identity of an attachment and the events of a projection. SHA-256, the protobuf cursor codec and
  the JSON encoding are arguments. A \<^verbatim>\<open>[32]byte\<close> is a string of length 32, the zero time is \<open>None\<close>,
  and the empty message state is \<open>no_state\<close>.
\<close>

section \<open>Records\<close>

definition no_state :: MessageState where
  "no_state = MessageStateOther ''''"

record ProjectedMessage =
  pm_ProviderMessageID :: string
  pm_ProviderTmpID :: string
  pm_ConversationID :: string
  pm_Direction :: string
  pm_Provenance :: string
  pm_ProviderStatus :: string
  pm_ProviderOccurredAt :: "instant option"
  pm_Actionable :: bool
  pm_Sender :: string
  pm_Recipients :: "string list"
  pm_Text :: string
  pm_Transport :: string
  pm_State :: MessageState

definition MessageProvenanceLive :: string where
  "MessageProvenanceLive = ''provider_live''"

definition MessageProvenanceHistory :: string where
  "MessageProvenanceHistory = ''provider_history''"

definition MessageProvenanceReplay :: string where
  "MessageProvenanceReplay = ''provider_replay''"

record ProjectedConversation =
  pc_ConversationID :: string
  pc_DefaultOutgoingID :: string
  pc_IsGroup :: bool

definition LineDiscoveryAuthenticatedGoogleSettings :: string where
  "LineDiscoveryAuthenticatedGoogleSettings = ''authenticated_google_settings''"

record ProjectedLine =
  pl_ID :: line_id
  pl_TenantID :: tenant_id
  pl_ConnectionID :: connection_id
  pl_ProviderParticipantID :: string
  pl_ProviderOutgoingID :: string
  pl_Phone :: string
  pl_DisplayName :: string
  pl_CarrierName :: string
  pl_ColorHex :: string
  pl_RCSEnabled :: bool
  pl_ProviderSIMNumber :: int
  pl_ProviderSIMPayloadType :: int
  pl_DiscoverySource :: string

datatype CursorSource = NoCursorSource | CursorSourceListMessages | CursorSourceListConversations | CursorSourceOther string

record Projection =
  pj_Conversations :: "ProjectedConversation list"
  pj_Messages :: "ProjectedMessage list"
  pj_Lines :: "ProjectedLine list"
  pj_LineSnapshot :: bool
  pj_Cursor :: string
  pj_CursorBase :: string
  pj_CursorCandidate :: string
  pj_CursorSource :: CursorSource
  pj_CursorConversationID :: string

definition empty_projection :: Projection where
  "empty_projection =
     \<lparr> pj_Conversations = [], pj_Messages = [], pj_Lines = [], pj_LineSnapshot = False, pj_Cursor = '''', pj_CursorBase = '''',
       pj_CursorCandidate = '''', pj_CursorSource = NoCursorSource, pj_CursorConversationID = '''' \<rparr>"

record MediaLocator =
  md_ProviderMessageID :: string
  md_Locator :: string
  md_Position :: int
  md_MIMEType :: string
  md_DeclaredSize :: int
  md_DisplayFilename :: string
  md_KeyEnvelope :: Envelope
  md_ThumbnailKeyEnvelope :: Envelope
  md_KeyDigest :: string
  md_ThumbnailKeyDigest :: string

record OutboxEvent =
  oe_ID :: string
  oe_Type :: string
  oe_AggregateID :: string
  oe_CanonicalBody :: string
  oe_PartitionTenant :: tenant_id
  oe_PartitionConnection :: connection_id
  oe_PartitionConversation :: string

record EnvelopeRecord =
  er_TenantID :: tenant_id
  er_ConnectionID :: connection_id
  er_OwnerID :: owner_id
  er_FencingToken :: token
  er_ProviderResponseID :: string
  er_Raw :: string
  er_Digest :: string
  er_Projection :: Projection
  er_Media :: "MediaLocator list"
  er_Events :: "OutboxEvent list"
  er_Poisoned :: bool
  er_PoisonReason :: string
  er_ACKPending :: bool
  er_ACKWithheld :: bool
  er_ReceivedAt :: instant

section \<open>States of the provider\<close>

text \<open>\<^verbatim>\<open>MapProviderMessageState\<close> of the provider adapter (\<^verbatim>\<open>provider/gmessages/durable_sink.go\<close>).\<close>

datatype MessageStatusType =
    OUTGOING_COMPLETE | OUTGOING_DELIVERED | OUTGOING_DISPLAYED | INCOMING_COMPLETE | INCOMING_DELIVERED | INCOMING_DISPLAYED
  | OUTGOING_FAILED_GENERIC | OUTGOING_FAILED_EMERGENCY_NUMBER | OUTGOING_CANCELED | OUTGOING_FAILED_TOO_LARGE
  | OUTGOING_FAILED_RECIPIENT_LOST_RCS | OUTGOING_FAILED_NO_RETRY_NO_FALLBACK | OUTGOING_FAILED_RECIPIENT_DID_NOT_DECRYPT
  | OUTGOING_FAILED_RECIPIENT_LOST_ENCRYPTION | OUTGOING_FAILED_RECIPIENT_DID_NOT_DECRYPT_NO_MORE_RETRY
  | OUTGOING_FAILED_RECIPIENT_NEGATIVE_DELIVERY | OUTGOING_FAILED_EMERGENCY_PROTOCOL_DETERMINATION_MESSAGE
  | OUTGOING_RESTRICTED | OUTGOING_FAILED_TO_ENCRYPT | OTHER_STATUS nat

definition MapProviderMessageState :: "MessageStatusType \<Rightarrow> MessageState" where
  "MapProviderMessageState status =
     (case status of
        OUTGOING_COMPLETE \<Rightarrow> MessageStateSent
      | OUTGOING_DELIVERED \<Rightarrow> MessageStateDelivered
      | OUTGOING_DISPLAYED \<Rightarrow> MessageStateRead
      | INCOMING_COMPLETE \<Rightarrow> MessageStateDelivered
      | INCOMING_DELIVERED \<Rightarrow> MessageStateDelivered
      | INCOMING_DISPLAYED \<Rightarrow> MessageStateRead
      | OTHER_STATUS _ \<Rightarrow> no_state
      | _ \<Rightarrow> MessageStateFailed)"

section \<open>Provider cursors\<close>

text \<open>
  The protobuf codec of a cursor: decoding gives the item and the timestamp of the cursor, encoding
  is deterministic and may fail.
\<close>

record cursor_codec =
  cc_decode :: "string \<Rightarrow> (string \<times> int) option"
  cc_encode :: "string \<times> int \<Rightarrow> string option"

definition MaxCursorBytes :: nat where
  "MaxCursorBytes = 4096"

definition CanonicalProviderCursor :: "cursor_codec \<Rightarrow> string \<Rightarrow> string result" where
  "CanonicalProviderCursor cc encoded =
     (if length encoded = 0 \<or> MaxCursorBytes < length encoded then Inl (Opaque ''provider cursor is absent or excessive'')
      else case cc_decode cc encoded of
        None \<Rightarrow> Inl (Opaque ''provider cursor semantic tuple is invalid'')
      | Some (item, timestamp) \<Rightarrow>
          if \<not> ValidProviderIdentifier item \<or> timestamp \<le> 0 then Inl (Opaque ''provider cursor semantic tuple is invalid'')
          else case cc_encode cc (item, timestamp) of
            None \<Rightarrow> Inl (Opaque ''provider cursor canonical encoding is invalid'')
          | Some canonical \<Rightarrow>
              if length canonical = 0 \<or> MaxCursorBytes < length canonical
              then Inl (Opaque ''provider cursor canonical encoding is invalid'') else Inr canonical)"

text \<open>The cursor a projection proposes: the candidate, or the committed cursor when there is none.\<close>

definition cursor_candidate :: "Projection \<Rightarrow> string" where
  "cursor_candidate p = (if pj_CursorCandidate p = '''' \<and> pj_Cursor p \<noteq> '''' then pj_Cursor p else pj_CursorCandidate p)"

definition canonical_optional :: "cursor_codec \<Rightarrow> string \<Rightarrow> string result" where
  "canonical_optional cc v = (if v = '''' then Inr '''' else CanonicalProviderCursor cc v)"

definition canonicalizeProjectionCursors :: "cursor_codec \<Rightarrow> Projection \<Rightarrow> Projection result" where
  "canonicalizeProjectionCursors cc p =
     bind_res (canonical_optional cc (pj_Cursor p)) (\<lambda>cursor.
     bind_res (canonical_optional cc (pj_CursorBase p)) (\<lambda>base.
     bind_res (canonical_optional cc (pj_CursorCandidate p)) (\<lambda>candidate.
     Inr (p \<lparr> pj_Cursor := cursor, pj_CursorBase := base, pj_CursorCandidate := candidate \<rparr>))))"

section \<open>Validation\<close>

definition validProviderString :: "string \<Rightarrow> nat \<Rightarrow> bool \<Rightarrow> bool" where
  "validProviderString v limit optional =
     (if v = '''' then optional else length v \<le> limit \<and> valid_utf8 v \<and> CHR 0x00 \<notin> set v \<and> TrimSpace v \<noteq> '''')"

definition validOptionalProviderIdentifier :: "string \<Rightarrow> bool" where
  "validOptionalProviderIdentifier v = (v = '''' \<or> ValidProviderIdentifier v)"

definition zero_digest :: string where
  "zero_digest = replicate 32 (CHR 0x00)"

definition empty_envelope :: "Envelope \<Rightarrow> bool" where
  "empty_envelope e =
     (env_Ciphertext e = '''' \<and> env_WrappedDEK e = '''' \<and> env_Nonce e = '''' \<and> env_KeyID e = '''' \<and> env_KeyVersion e = 0
      \<and> env_Version e = 0 \<and> env_Provider e = '''' \<and> env_Revision e = 0)"

definition validAttachmentKeyIdentity :: "Envelope \<Rightarrow> string \<Rightarrow> bool" where
  "validAttachmentKeyIdentity e fingerprint =
     (if empty_envelope e then fingerprint = zero_digest else Envelope_Validate e = None)"

definition projection_limits_ok :: "Projection \<Rightarrow> MediaLocator list \<Rightarrow> bool" where
  "projection_limits_ok p media =
     (length (pj_Conversations p) \<le> 256 \<and> length (pj_Messages p) \<le> 256 \<and> length (pj_Lines p) \<le> 16 \<and> length media \<le> 256
      \<and> length (pj_Cursor p) \<le> MaxCursorBytes \<and> length (pj_CursorBase p) \<le> MaxCursorBytes
      \<and> length (pj_CursorCandidate p) \<le> MaxCursorBytes)"

definition line_fields_ok :: "ProjectedLine \<Rightarrow> bool" where
  "line_fields_ok l =
     (pl_ID l \<noteq> '''' \<and> pl_TenantID l \<noteq> '''' \<and> pl_ConnectionID l \<noteq> '''' \<and> ValidProviderIdentifier (pl_ID l)
      \<and> ValidProviderIdentifier (pl_ProviderParticipantID l) \<and> ValidProviderIdentifier (pl_ProviderOutgoingID l)
      \<and> 0 \<le> pl_ProviderSIMNumber l \<and> 0 \<le> pl_ProviderSIMPayloadType l
      \<and> pl_DiscoverySource l = LineDiscoveryAuthenticatedGoogleSettings
      \<and> validProviderString (pl_DisplayName l) 255 True \<and> validProviderString (pl_CarrierName l) 255 True
      \<and> validProviderString (pl_ColorHex l) 64 True)"

fun validate_lines :: "line_id list \<Rightarrow> string list \<Rightarrow> ProjectedLine list \<Rightarrow> goerror" where
  "validate_lines lineIDs participantIDs [] = None"
| "validate_lines lineIDs participantIDs (l # rest) =
     (if \<not> line_fields_ok l then Some (Opaque ''provider line fields are invalid'')
      else if (case ParseE164 (pl_Phone l) of Inl _ \<Rightarrow> True | Inr phone \<Rightarrow> phone_value phone \<noteq> pl_Phone l)
      then Some (Opaque ''provider line phone is invalid'')
      else if pl_ID l \<in> set lineIDs then Some (Opaque ''provider line identity is duplicated'')
      else if pl_ProviderParticipantID l \<in> set participantIDs then Some (Opaque ''provider line participant is duplicated'')
      else validate_lines (pl_ID l # lineIDs) (pl_ProviderParticipantID l # participantIDs) rest)"

definition validate_cursor :: "cursor_codec \<Rightarrow> Projection \<Rightarrow> goerror" where
  "validate_cursor cc p =
     (if cursor_candidate p \<noteq> '''' then
        (case CanonicalProviderCursor cc (cursor_candidate p) of
           Inl _ \<Rightarrow> Some (Opaque ''provider cursor candidate is invalid'')
         | Inr canonicalCandidate \<Rightarrow>
             (case canonical_optional cc (pj_CursorBase p) of
                Inl _ \<Rightarrow> Some (Opaque ''provider cursor base is invalid'')
              | Inr canonicalBase \<Rightarrow>
                  if canonicalBase \<noteq> '''' \<and> canonicalBase = canonicalCandidate then Some (Opaque ''provider cursor did not advance'')
                  else (case pj_CursorSource p of
                     CursorSourceListMessages \<Rightarrow>
                       if \<not> ValidProviderConversationID (pj_CursorConversationID p)
                          \<or> CanonicalProviderCursor cc (pj_Cursor p) \<noteq> Inr canonicalCandidate
                       then Some (Opaque ''provider message cursor source or target is invalid'') else None
                   | CursorSourceListConversations \<Rightarrow>
                       if pj_CursorConversationID p \<noteq> ProviderPageCursorID \<or> pj_Cursor p \<noteq> ''''
                       then Some (Opaque ''provider conversation cursor source or target is invalid'') else None
                   | _ \<Rightarrow> Some (Opaque ''provider cursor source or target is invalid''))))
      else if pj_Cursor p \<noteq> '''' \<or> pj_CursorBase p \<noteq> '''' \<or> pj_CursorSource p \<noteq> NoCursorSource \<or> pj_CursorConversationID p \<noteq> ''''
      then Some (Opaque ''provider cursor metadata without a cursor is invalid'') else None)"

fun validate_conversations :: "string list \<Rightarrow> ProjectedConversation list \<Rightarrow> goerror" where
  "validate_conversations seen [] = None"
| "validate_conversations seen (c # rest) =
     (if \<not> ValidProviderConversationID (pc_ConversationID c) \<or> \<not> validOptionalProviderIdentifier (pc_DefaultOutgoingID c)
      then Some (Opaque ''provider conversation identity is invalid'')
      else if pc_ConversationID c \<in> set seen then Some (Opaque ''provider conversation is duplicated'')
      else validate_conversations (pc_ConversationID c # seen) rest)"

text \<open>Instants from the year 2000 to the year 2200, in UTC.\<close>

definition plausible_year :: "instant \<Rightarrow> bool" where
  "plausible_year t = (946684800000000 \<le> t \<and> t < 7289654400000000)"

definition message_fields_ok :: "ProjectedMessage \<Rightarrow> bool" where
  "message_fields_ok m =
     (ValidProviderIdentifier (pm_ProviderMessageID m) \<and> validOptionalProviderIdentifier (pm_ProviderTmpID m)
      \<and> ValidProviderConversationID (pm_ConversationID m) \<and> valid_utf8 (pm_Text m) \<and> CHR 0x00 \<notin> set (pm_Text m)
      \<and> length (pm_Text m) \<le> 65536)"

definition validate_message :: "ProjectedMessage \<Rightarrow> goerror" where
  "validate_message m =
     (if \<not> message_fields_ok m then Some (Opaque ''provider message fields are invalid'')
      else if pm_Transport m \<notin> {'''', ''sms'', ''mms'', ''rcs''} then Some (Opaque ''provider transport is invalid'')
      else if pm_Direction m \<notin> {'''', ''inbound'', ''outbound'', ''unknown''} then Some (Opaque ''provider message direction is invalid'')
      else if pm_Provenance m \<notin> {'''', MessageProvenanceLive, MessageProvenanceHistory, MessageProvenanceReplay}
      then Some (Opaque ''provider message provenance is invalid'')
      else if pm_Actionable m \<and> (pm_Direction m \<noteq> ''inbound'' \<or> pm_Provenance m \<noteq> MessageProvenanceLive)
      then Some (Opaque ''only live inbound messages may be actionable'')
      else if 128 < length (pm_ProviderStatus m) \<or> \<not> valid_utf8 (pm_ProviderStatus m)
              \<or> ContainsAny (pm_ProviderStatus m) [CHR 0x00, CHR 0x0D, CHR 0x0A] then Some (Opaque ''provider message status is invalid'')
      else if (case pm_ProviderOccurredAt m of None \<Rightarrow> False | Some t \<Rightarrow> \<not> plausible_year t)
      then Some (Opaque ''provider message timestamp is invalid'')
      else if pm_Sender m \<noteq> '''' \<and> (case ParseE164 (pm_Sender m) of Inl _ \<Rightarrow> True | Inr _ \<Rightarrow> False)
      then Some (Opaque ''provider message sender is invalid'')
      else if list_ex (\<lambda>r. case ParseE164 r of Inl _ \<Rightarrow> True | Inr _ \<Rightarrow> False) (pm_Recipients m)
      then Some (Opaque ''provider message recipient is invalid'')
      else if pm_State m \<noteq> no_state then MessageState_Validate (pm_State m) else None)"

fun validate_messages :: "string list \<Rightarrow> nat \<Rightarrow> ProjectedMessage list \<Rightarrow> goerror" where
  "validate_messages seen totalText [] = None"
| "validate_messages seen totalText (m # rest) =
     (case validate_message m of
        Some e \<Rightarrow> Some e
      | None \<Rightarrow>
          if pm_ProviderMessageID m \<in> set seen then Some (Opaque ''provider message is duplicated'')
          else if 4194304 < totalText + length (pm_Text m) then Some (Opaque ''provider projection text exceeds aggregate limit'')
          else validate_messages (pm_ProviderMessageID m # seen) (totalText + length (pm_Text m)) rest)"

definition media_fields_ok :: "string list \<Rightarrow> MediaLocator \<Rightarrow> bool" where
  "media_fields_ok messageIDs a =
     (md_ProviderMessageID a \<in> set messageIDs \<and> 0 \<le> md_Position a \<and> md_Position a < 16
      \<and> validProviderString (md_Locator a) 2048 False \<and> validProviderString (md_MIMEType a) 255 True
      \<and> validProviderString (md_DisplayFilename a) 255 True \<and> 0 \<le> md_DeclaredSize a \<and> md_DeclaredSize a \<le> 26214400)"

fun validate_media :: "string list \<Rightarrow> (string \<times> int) list \<Rightarrow> MediaLocator list \<Rightarrow> goerror" where
  "validate_media messageIDs seen [] = None"
| "validate_media messageIDs seen (a # rest) =
     (if \<not> media_fields_ok messageIDs a then Some (Opaque ''provider media fields are invalid'')
      else if \<not> validAttachmentKeyIdentity (md_KeyEnvelope a) (md_KeyDigest a)
              \<or> \<not> validAttachmentKeyIdentity (md_ThumbnailKeyEnvelope a) (md_ThumbnailKeyDigest a)
      then Some (Opaque ''provider media key identity is invalid'')
      else if (md_ProviderMessageID a, md_Position a) \<in> set seen
              \<or> 16 \<le> length (filter (\<lambda>x. fst x = md_ProviderMessageID a) seen)
      then Some (Opaque ''provider media position is duplicated or excessive'')
      else validate_media messageIDs ((md_ProviderMessageID a, md_Position a) # seen) rest)"

definition ValidateProjection :: "cursor_codec \<Rightarrow> Projection \<Rightarrow> MediaLocator list \<Rightarrow> goerror" where
  "ValidateProjection cc p media =
     (if \<not> projection_limits_ok p media then Some (Opaque ''provider projection cardinality exceeds limit'')
      else if pj_LineSnapshot p \<noteq> (pj_Lines p \<noteq> []) then Some (Opaque ''provider line snapshot is empty or ambiguous'')
      else case validate_lines [] [] (pj_Lines p) of Some e \<Rightarrow> Some e
      | None \<Rightarrow> (case validate_cursor cc p of Some e \<Rightarrow> Some e
      | None \<Rightarrow> (case validate_conversations [] (pj_Conversations p) of Some e \<Rightarrow> Some e
      | None \<Rightarrow> (case validate_messages [] 0 (pj_Messages p) of Some e \<Rightarrow> Some e
      | None \<Rightarrow> validate_media (map pm_ProviderMessageID (pj_Messages p)) [] media))))"

section \<open>Identity of an attachment\<close>

fun decimal :: "nat \<Rightarrow> string" where
  "decimal n = (if n < 10 then [char_of (48 + n)] else decimal (n div 10) @ [char_of (48 + n mod 10)])"

declare decimal.simps [simp del]

definition Itoa :: "int \<Rightarrow> string" where
  "Itoa i = (if i < 0 then ''-'' else '''') @ decimal (nat \<bar>i\<bar>)"

definition writeIdentityField :: "string \<Rightarrow> string" where
  "writeIdentityField v = framed 8 v"

definition writeKeyIdentity :: "string \<Rightarrow> Envelope \<Rightarrow> string" where
  "writeKeyIdentity fingerprint e =
     (if fingerprint \<noteq> zero_digest then writeIdentityField [CHR 0x01] @ writeIdentityField fingerprint
      else concat (map writeIdentityField
        [[CHR 0x00], decimal (env_Revision e), Itoa (env_Version e), env_Provider e, env_Ciphertext e, env_WrappedDEK e, env_Nonce e,
         env_KeyID e, Itoa (env_KeyVersion e)]))"

definition uint64_bytes :: "int \<Rightarrow> string" where
  "uint64_bytes i = put_uint64 (nat (i mod 2 ^ 64))"

definition AttachmentIdentityDigest :: "(string \<Rightarrow> string) \<Rightarrow> MediaLocator \<Rightarrow> string" where
  "AttachmentIdentityDigest sha256 a =
     sha256 (writeIdentityField (md_Locator a) @ writeIdentityField (md_MIMEType a) @ writeIdentityField (uint64_bytes (md_DeclaredSize a))
       @ writeIdentityField (md_DisplayFilename a) @ writeKeyIdentity (md_KeyDigest a) (md_KeyEnvelope a)
       @ writeKeyIdentity (md_ThumbnailKeyDigest a) (md_ThumbnailKeyEnvelope a))"

definition hex_digit :: "nat \<Rightarrow> char" where
  "hex_digit n = ''0123456789abcdef'' ! n"

definition stringHex :: "string \<Rightarrow> string" where
  "stringHex input = concat (map (\<lambda>c. [hex_digit (of_char c div 16), hex_digit (of_char c mod 16)]) input)"

definition AttachmentAggregateID :: "(string \<Rightarrow> string) \<Rightarrow> MediaLocator \<Rightarrow> string" where
  "AttachmentAggregateID sha256 a =
     ''attachment_'' @ stringHex (take 16 (sha256 (writeIdentityField (md_ProviderMessageID a)
       @ writeIdentityField (uint64_bytes (md_Position a)) @ writeIdentityField (AttachmentIdentityDigest sha256 a))))"

section \<open>Events of a projection\<close>

definition event_data :: "(string \<times> string) list \<Rightarrow> string \<Rightarrow> string" where
  "event_data data key = (case map_of data key of None \<Rightarrow> '''' | Some v \<Rightarrow> v)"

text \<open>The event body before a message is filled in; the zero values of the unset fields.\<close>

definition base_event :: "string \<Rightarrow> string \<Rightarrow> instant \<Rightarrow> tenant_id \<Rightarrow> connection_id \<Rightarrow> event_envelope" where
  "base_event eventID eventType occurredAt tenantID connectionID =
     \<lparr> ee_EventID = eventID, ee_Type = eventType, ee_Version = 0, ee_OccurredAt = Some occurredAt, ee_OccurredAtText = '''',
       ee_IngestedAt = None, ee_IngestedAtText = '''', ee_TenantID = tenantID, ee_ConnectionID = connectionID,
       ee_ConversationID = '''', ee_MessageID = '''', ee_ProviderMessageID = '''', ee_ProviderTmpID = '''', ee_Direction = '''',
       ee_Provenance = '''', ee_ProviderStatus = '''', ee_Actionable = False, ee_Sender = '''', ee_Recipients = [], ee_Text = '''',
       ee_Transport = '''', ee_Status = '''', ee_State = '''', ee_MediaID = '''', ee_MetadataPath = '''', ee_ContentPath = '''',
       ee_Media = [], ee_ProviderResponseID = '''', ee_Reason = '''', ee_Data = [] \<rparr>"

definition occurred_at :: "EnvelopeRecord \<Rightarrow> ProjectedMessage \<Rightarrow> instant" where
  "occurred_at record m = (case pm_ProviderOccurredAt m of None \<Rightarrow> er_ReceivedAt record | Some t \<Rightarrow> t)"

definition message_event :: "EnvelopeRecord \<Rightarrow> ProjectedMessage \<Rightarrow> event_envelope \<Rightarrow> event_envelope" where
  "message_event record m e =
     e \<lparr> ee_Direction := pm_Direction m, ee_Sender := pm_Sender m, ee_Recipients := pm_Recipients m, ee_Text := pm_Text m,
         ee_Transport := pm_Transport m, ee_Status := state_name (pm_State m), ee_State := state_name (pm_State m),
         ee_Provenance := pm_Provenance m, ee_ProviderStatus := pm_ProviderStatus m, ee_Actionable := pm_Actionable m,
         ee_IngestedAt := Some (er_ReceivedAt record), ee_OccurredAt := Some (occurred_at record m) \<rparr>"

definition contractEvent ::
  "codec \<Rightarrow> EnvelopeRecord \<Rightarrow> string \<Rightarrow> string \<Rightarrow> string \<Rightarrow> (string \<times> string) list \<Rightarrow> OutboxEvent" where
  "contractEvent enc record eventID eventType aggregateID data =
     (let e = (base_event eventID eventType (er_ReceivedAt record) (er_TenantID record) (er_ConnectionID record))
                \<lparr> ee_ConversationID := event_data data ''conversation_id'', ee_ProviderMessageID := event_data data ''provider_message_id'',
                  ee_ProviderResponseID := event_data data ''provider_response_id'', ee_Reason := event_data data ''reason'',
                  ee_Data := map (\<lambda>(k, v). (k, JString v)) data \<rparr>;
          e' = (if take 8 eventType = ''message.''
                then (case List.find (\<lambda>m. pm_ProviderMessageID m = aggregateID) (pj_Messages (er_Projection record)) of
                        None \<Rightarrow> e | Some m \<Rightarrow> message_event record m e) else e)
      in \<lparr> oe_ID = eventID, oe_Type = eventType, oe_AggregateID = aggregateID,
           oe_CanonicalBody = (case event_Marshal (fst enc) (snd enc) e' of Inl _ \<Rightarrow> '''' | Inr body \<Rightarrow> body),
           oe_PartitionTenant = er_TenantID record, oe_PartitionConnection = er_ConnectionID record,
           oe_PartitionConversation = ee_ConversationID e' \<rparr>)"

text \<open>\<^verbatim>\<open>a + "\x00" + b + ...\<close>\<close>

fun join_nul :: "string list \<Rightarrow> string" where
  "join_nul [] = []"
| "join_nul [p] = p"
| "join_nul (p # q # ps) = p @ CHR 0x00 # join_nul (q # ps)"

definition event_id :: "(string \<Rightarrow> string) \<Rightarrow> string list \<Rightarrow> string" where
  "event_id sha256 parts = ''evt_'' @ stringHex (take 16 (sha256 (join_nul parts)))"

definition buildEvent ::
  "(string \<Rightarrow> string) \<Rightarrow> codec \<Rightarrow> EnvelopeRecord \<Rightarrow> string \<Rightarrow> string \<Rightarrow> (string \<times> string) list \<Rightarrow> OutboxEvent" where
  "buildEvent sha256 enc record eventType aggregateID data =
     contractEvent enc record
       (event_id sha256 [er_TenantID record, er_ConnectionID record, er_ProviderResponseID record, eventType, aggregateID])
       eventType aggregateID data"

definition buildStableAggregateEvent ::
  "(string \<Rightarrow> string) \<Rightarrow> codec \<Rightarrow> EnvelopeRecord \<Rightarrow> string \<Rightarrow> string \<Rightarrow> (string \<times> string) list \<Rightarrow> OutboxEvent" where
  "buildStableAggregateEvent sha256 enc record eventType aggregateID data =
     contractEvent enc record (event_id sha256 [er_TenantID record, er_ConnectionID record, eventType, aggregateID])
       eventType aggregateID data"

definition message_event_type :: "ProjectedMessage \<Rightarrow> string" where
  "message_event_type m =
     (if pm_Actionable m then ''message.received''
      else if pm_Provenance m = MessageProvenanceHistory \<or> pm_Provenance m = MessageProvenanceReplay then ''message.imported''
      else ''message.updated'')"

definition conversation_projected :: "(string \<Rightarrow> string) \<Rightarrow> codec \<Rightarrow> EnvelopeRecord \<Rightarrow> ProjectedConversation \<Rightarrow> OutboxEvent" where
  "conversation_projected sha256 enc record c =
     buildEvent sha256 enc record ''conversation.updated'' (pc_ConversationID c) [(''conversation_id'', pc_ConversationID c)]"

definition message_projected :: "(string \<Rightarrow> string) \<Rightarrow> codec \<Rightarrow> EnvelopeRecord \<Rightarrow> ProjectedMessage \<Rightarrow> OutboxEvent" where
  "message_projected sha256 enc record m =
     buildEvent sha256 enc record (message_event_type m) (pm_ProviderMessageID m)
       [(''provider_message_id'', pm_ProviderMessageID m), (''conversation_id'', pm_ConversationID m)]"

definition media_projected :: "(string \<Rightarrow> string) \<Rightarrow> codec \<Rightarrow> EnvelopeRecord \<Rightarrow> MediaLocator \<Rightarrow> OutboxEvent" where
  "media_projected sha256 enc record a =
     buildStableAggregateEvent sha256 enc record ''media.pending'' (AttachmentAggregateID sha256 a)
       [(''provider_message_id'', md_ProviderMessageID a), (''attachment_index'', Itoa (md_Position a))]"

definition projectionEvents :: "(string \<Rightarrow> string) \<Rightarrow> codec \<Rightarrow> EnvelopeRecord \<Rightarrow> OutboxEvent list" where
  "projectionEvents sha256 enc record =
     (let events = map (conversation_projected sha256 enc record) (pj_Conversations (er_Projection record))
                 @ map (message_projected sha256 enc record) (pj_Messages (er_Projection record))
                 @ map (media_projected sha256 enc record) (er_Media record)
      in if events = []
         then [buildEvent sha256 enc record ''inbox.received'' (er_ProviderResponseID record)
                 [(''provider_response_id'', er_ProviderResponseID record)]]
         else events)"

end
