(* ===== verification/Dispatch_Store.thy ===== *)
theory Dispatch_Store
  imports Messaging_Service Ingress_Projection
begin

text \<open>
  The dispatch operations of \<^verbatim>\<open>store/postgres/dispatch.go\<close>. A lane serialises the messages of one
  ordering key; a claim of its oldest queued message takes the lane under a new lane token, and
  provider I/O starts only while the lane, the attempt, the message and the connection lease are
  still those of the claim. A claim whose owner vanished is recovered by the next claimant.

  Each statement locks the connection row before the others and every writer of a message of the
  connection does, so an operation is one atomic step and \<^verbatim>\<open>SKIP LOCKED\<close> skips nothing.
\<close>

record LaneKey =
  lk_TenantID :: tenant_id
  lk_ConnectionID :: connection_id
  lk_ConversationID :: string

record DispatchClaim =
  dc_Message :: OutboundMessage
  dc_AttemptID :: string
  dc_OrderingKey :: string
  dc_OwnerID :: owner_id
  dc_LaneToken :: nat
  dc_FencingToken :: token

definition validDispatchClaim :: "DispatchClaim \<Rightarrow> bool" where
  "validDispatchClaim claim =
     (om_TenantID (dc_Message claim) \<noteq> '''' \<and> om_ConnectionID (dc_Message claim) \<noteq> '''' \<and> om_ID (dc_Message claim) \<noteq> ''''
      \<and> dc_AttemptID claim \<noteq> '''' \<and> dc_LaneToken claim > 0 \<and> dc_FencingToken claim > 0)"

definition dispatchOrderingKey :: "DispatchClaim \<Rightarrow> string" where
  "dispatchOrderingKey claim =
     (if dc_OrderingKey claim \<noteq> '''' then dc_OrderingKey claim
      else if om_ConversationID (dc_Message claim) \<noteq> '''' then om_ConversationID (dc_Message claim)
      else if om_Recipient (dc_Message claim) \<noteq> '''' then ''new:'' @ om_Recipient (dc_Message claim) else '''')"

definition claim_mkey :: "DispatchClaim \<Rightarrow> mkey" where
  "claim_mkey claim = (om_TenantID (dc_Message claim), om_ID (dc_Message claim))"

definition claim_akey :: "DispatchClaim \<Rightarrow> tenant_id \<times> string" where
  "claim_akey claim = (om_TenantID (dc_Message claim), dc_AttemptID claim)"

definition claim_lkey :: "DispatchClaim \<Rightarrow> lkey" where
  "claim_lkey claim = (om_TenantID (dc_Message claim), om_ConnectionID (dc_Message claim), dispatchOrderingKey claim)"

section \<open>The locked rows\<close>

text \<open>The lease of an owner that has not expired, and the lane that is free or whose claim has expired.\<close>

definition lease_of_owner :: "instant \<Rightarrow> ckey \<Rightarrow> owner_id \<Rightarrow> 'z messaging_db_scheme \<Rightarrow> lease_row option" where
  "lease_of_owner now k ownerID db =
     (if db_connections db k = None then None
      else case db_leases db k of
        None \<Rightarrow> None
      | Some l \<Rightarrow> if ls_owner l = Some ownerID \<and> now < ls_expires l then Some l else None)"

definition claimable_lane :: "instant \<Rightarrow> lkey \<Rightarrow> 'z messaging_db_scheme \<Rightarrow> lane_row option" where
  "claimable_lane now k db =
     (case db_lanes db k of
        None \<Rightarrow> None
      | Some lane \<Rightarrow>
          if lr_owner lane = None \<or> (case lr_expires lane of None \<Rightarrow> False | Some e \<Rightarrow> e \<le> now) then Some lane else None)"

definition lease_matches :: "bool \<Rightarrow> instant \<Rightarrow> ckey \<Rightarrow> owner_id \<Rightarrow> token \<Rightarrow> 'z messaging_db_scheme \<Rightarrow> bool" where
  "lease_matches live now k ownerID fencingToken db =
     (db_connections db k \<noteq> None \<and>
      (case db_leases db k of
         None \<Rightarrow> False
       | Some l \<Rightarrow> ls_owner l = Some ownerID \<and> ls_token l = fencingToken \<and> (live \<longrightarrow> now < ls_expires l)))"

definition lane_matches :: "bool \<Rightarrow> instant \<Rightarrow> lkey \<Rightarrow> owner_id \<Rightarrow> nat \<Rightarrow> message_id \<Rightarrow> 'z messaging_db_scheme \<Rightarrow> bool" where
  "lane_matches live now k ownerID laneToken messageID db =
     (case db_lanes db k of
        None \<Rightarrow> False
      | Some lane \<Rightarrow> lr_owner lane = Some ownerID \<and> lr_token lane = laneToken \<and> lr_message lane = Some messageID
          \<and> (live \<longrightarrow> (case lr_expires lane of None \<Rightarrow> False | Some e \<Rightarrow> now < e)))"

definition attempt_matches :: "attempt_phase \<Rightarrow> DispatchClaim \<Rightarrow> owner_id \<Rightarrow> 'z messaging_db_scheme \<Rightarrow> bool" where
  "attempt_matches phase claim ownerID db =
     (case attempt_of db (claim_akey claim) of
        None \<Rightarrow> False
      | Some a \<Rightarrow> ap_message a = om_ID (dc_Message claim) \<and> ap_owner a = ownerID \<and> ap_lane_token a = dc_LaneToken claim
          \<and> ap_fencing a = dc_FencingToken claim \<and> ap_phase a = phase)"

definition message_dispatching :: "mkey \<Rightarrow> 'z messaging_db_scheme \<Rightarrow> bool" where
  "message_dispatching k db =
     (case message_of db k of None \<Rightarrow> False | Some m \<Rightarrow> ms_state m = MessageStateDispatching)"

definition claim_fenced :: "bool \<Rightarrow> instant \<Rightarrow> attempt_phase \<Rightarrow> DispatchClaim \<Rightarrow> owner_id \<Rightarrow> 'z messaging_db_scheme \<Rightarrow> bool" where
  "claim_fenced live now phase claim ownerID db =
     (lease_matches live now (om_TenantID (dc_Message claim), om_ConnectionID (dc_Message claim)) ownerID (dc_FencingToken claim) db
      \<and> lane_matches live now (claim_lkey claim) ownerID (dc_LaneToken claim) (om_ID (dc_Message claim)) db
      \<and> attempt_matches phase claim ownerID db \<and> message_dispatching (claim_mkey claim) db)"

definition free_lane :: "instant \<Rightarrow> lane_row \<Rightarrow> lane_row" where
  "free_lane now lane = lane \<lparr> lr_owner := None, lr_message := None, lr_expires := None, lr_updated := now \<rparr>"

section \<open>Claiming the next message\<close>

text \<open>The open attempt of the claim that a lane holds: the newest one, by creation and identifier.\<close>

definition lane_attempts :: "lkey \<Rightarrow> lane_row \<Rightarrow> 'z messaging_db_scheme \<Rightarrow> ((tenant_id \<times> string) \<times> attempt_row) list" where
  "lane_attempts k lane db = filter (\<lambda>(i, a). fst i = fst k \<and> ap_connection a = fst (snd k) \<and> ap_ordering a = snd (snd k)
      \<and> lr_message lane = Some (ap_message a) \<and> ap_lane_token a = lr_token lane \<and> ap_phase a \<noteq> AttemptComplete) (db_attempts db)"

definition stale_attempt ::
  "(string \<Rightarrow> 'k::linorder) \<Rightarrow> lkey \<Rightarrow> lane_row \<Rightarrow> 'z messaging_db_scheme \<Rightarrow> ((tenant_id \<times> string) \<times> attempt_row) option" where
  "stale_attempt collate k lane db =
     (case sort_key (\<lambda>(i, a). ap_created a) (sort_key (\<lambda>(i, a). collate (snd i)) (lane_attempts k lane db)) of
        [] \<Rightarrow> None | x # xs \<Rightarrow> Some (last (x # xs)))"

text \<open>
  Recovery of the attempt of an expired claim whose message is still dispatching: before provider
  I/O the message returns to the queue, afterwards it is uncertain and an event says so. The body
  of that event is built by the database; \<open>ce_jsonb\<close> stands for \<^verbatim>\<open>jsonb_build_object(...)::text\<close>
  with \<^verbatim>\<open>occurred_at\<close> formatted from the instant.
\<close>

record claim_env =
  ce_fault :: fault
  ce_now :: instant
  ce_newID :: "nat \<Rightarrow> string"
  ce_jsonb :: "instant \<Rightarrow> (string \<times> string) list \<Rightarrow> string"
  ce_release_first :: bool

definition recovery_event_row :: "claim_env \<Rightarrow> mkey \<Rightarrow> message_row \<Rightarrow> string \<Rightarrow> event_row" where
  "recovery_event_row env k m eventID =
     \<lparr> ev_type = ''message.uncertain'', ev_aggregate_type = ''message'', ev_aggregate_id = snd k,
       ev_connection = Some (ms_connection m), ev_conversation = ms_conversation m,
       ev_body = ce_jsonb env (ce_now env) [(''event_id'', eventID), (''type'', ''message.uncertain''), (''version'', ''1''), (''tenant_id'', fst k),
         (''connection_id'', ms_connection m), (''conversation_id'', ms_conversation m), (''message_id'', snd k),
         (''direction'', ''outbound''), (''status'', ''uncertain''), (''state'', ''uncertain'')] \<rparr>"

definition recovery_outbox :: "claim_env \<Rightarrow> tenant_id \<Rightarrow> string \<Rightarrow> 'z messaging_db_scheme \<Rightarrow> 'z messaging_db_scheme result" where
  "recovery_outbox env tenantID eventID db =
     bind_res (insert_outbox (ce_now env) tenantID (ce_newID env 4) eventID ''webhook'' db)
       (insert_outbox (ce_now env) tenantID (ce_newID env 5) eventID ''kafka'')"

definition recover_attempt ::
  "claim_env \<Rightarrow> tenant_id \<times> string \<Rightarrow> attempt_row \<Rightarrow> 'z messaging_db_scheme \<Rightarrow> 'z messaging_db_scheme result" where
  "recover_attempt env i a db =
     (let k = (fst i, ap_message a) in
      case message_of db k of
        None \<Rightarrow> Inr db
      | Some m \<Rightarrow>
          if ms_state m \<noteq> MessageStateDispatching then Inr db
          else let before = (ap_phase a = Claimed);
                   state = (if before then MessageStateQueued else MessageStateUncertain);
                   reason = (if before then ''crash_before_provider_io'' else ''provider_io_ambiguous'');
                   db1 = put_attempt i (a \<lparr> ap_phase := AttemptComplete, ap_result := reason, ap_completed := Some (ce_now env) \<rparr>)
                          (put_message k (m \<lparr> ms_state := state, ms_updated := ce_now env \<rparr>) db)
               in bind_res (insertMessageStatus (status_of (fst i) (ce_newID env 2) (ap_message a) state '''' reason (ce_now env)) db1) (\<lambda>db2.
                  if before then Inr db2
                  else bind_res (insertGatewayEvent (fst i, ce_newID env 3) (recovery_event_row env k m (ce_newID env 3)) db2)
                         (recovery_outbox env (fst i) (ce_newID env 3))))"

text \<open>The oldest queued message of a lane.\<close>

definition lane_queue :: "lkey \<Rightarrow> 'z messaging_db_scheme \<Rightarrow> (mkey \<times> message_row) list" where
  "lane_queue k db = filter (\<lambda>(i, m). fst i = fst k \<and> ms_connection m = fst (snd k) \<and> ms_ordering m = snd (snd k)
      \<and> ms_state m = MessageStateQueued) (db_messages db)"

definition lane_candidate :: "(string \<Rightarrow> 'k::linorder) \<Rightarrow> lkey \<Rightarrow> 'z messaging_db_scheme \<Rightarrow> (mkey \<times> message_row) option" where
  "lane_candidate collate k db =
     (case sort_key (\<lambda>(i, m). ms_created m) (sort_key (\<lambda>(i, m). collate (snd i)) (lane_queue k db)) of
        [] \<Rightarrow> None | x # xs \<Rightarrow> Some x)"

definition claim_of :: "LaneKey \<Rightarrow> owner_id \<Rightarrow> string \<Rightarrow> nat \<Rightarrow> token \<Rightarrow> mkey \<Rightarrow> message_row \<Rightarrow> media_id list \<Rightarrow> DispatchClaim" where
  "claim_of lane ownerID attemptID laneToken fencingToken i m mediaIDs =
     \<lparr> dc_Message = (outbound_of (lk_TenantID lane) (snd i) (m \<lparr> ms_state := MessageStateDispatching \<rparr>) mediaIDs)
          \<lparr> om_ProviderMessageID := '''', om_Direction := '''', om_Transport := '''', om_Attachments := [] \<rparr>,
       dc_AttemptID = attemptID, dc_OrderingKey = lk_ConversationID lane, dc_OwnerID = ownerID,
       dc_LaneToken = laneToken, dc_FencingToken = fencingToken \<rparr>"

definition take_lane ::
  "claim_env \<Rightarrow> LaneKey \<Rightarrow> owner_id \<Rightarrow> lane_row \<Rightarrow> token \<Rightarrow> mkey \<Rightarrow> message_row \<Rightarrow> 'z messaging_db_scheme
   \<Rightarrow> (DispatchClaim option \<times> 'z messaging_db_scheme) result" where
  "take_lane env lane ownerID row fencingToken i m db =
     (let k = (lk_TenantID lane, lk_ConnectionID lane, lk_ConversationID lane);
          attemptID = ce_newID env 0; now = ce_now env;
          db1 = put_lane k \<lparr> lr_token = lr_token row + 1, lr_owner = Some ownerID, lr_message = Some (snd i),
                  lr_expires = Some (now + 30000000), lr_updated = now \<rparr>
                 (put_message i (m \<lparr> ms_state := MessageStateDispatching, ms_updated := now \<rparr>) db)
      in if attempt_of db (lk_TenantID lane, attemptID) \<noteq> None then Inl (Wrap ''claim next message'' unique_violation)
         else bind_res (insertMessageStatus (status_of (lk_TenantID lane) (ce_newID env 1) (snd i) MessageStateDispatching '''' '''' now)
                (put_attempt (lk_TenantID lane, attemptID)
                   \<lparr> ap_message = snd i, ap_connection = lk_ConnectionID lane, ap_ordering = lk_ConversationID lane, ap_owner = ownerID,
                     ap_lane_token = lr_token row + 1, ap_fencing = fencingToken, ap_phase = Claimed, ap_result = '''',
                     ap_created = now, ap_started = None, ap_completed = None \<rparr> db1)) (\<lambda>db2.
              if ms_tmp_id m = None then Inl (Wrap ''claim next message'' scan_failure)
              else if attemptID = '''' \<or> fencingToken = 0 then Inl (Opaque ''invalid dispatch claim returned by database'')
              else Inr (Some (claim_of lane ownerID attemptID (lr_token row + 1) fencingToken i m (media_ids db i)), db2)))"

text \<open>
  \<^verbatim>\<open>ClaimNext\<close>. When a lane still names a message but has no open attempt for it, the release of
  the stale lane and the new claim update the same row in one statement, of which PostgreSQL keeps
  either; \<open>ce_release_first\<close> says which.
\<close>

definition claim_lane ::
  "(string \<Rightarrow> 'k::linorder) \<Rightarrow> claim_env \<Rightarrow> LaneKey \<Rightarrow> owner_id \<Rightarrow> lane_row \<Rightarrow> token \<Rightarrow> 'z messaging_db_scheme
   \<Rightarrow> (DispatchClaim option \<times> 'z messaging_db_scheme) result" where
  "claim_lane collate env lane ownerID row fencingToken db =
     (let k = (lk_TenantID lane, lk_ConnectionID lane, lk_ConversationID lane);
          release = (if lr_message row \<noteq> None then put_lane k (free_lane (ce_now env) row) else (\<lambda>db. db)) in
      case stale_attempt collate k row db of
        Some (i, a) \<Rightarrow> bind_res (recover_attempt env i a db) (\<lambda>db'. Inr (None, release db'))
      | None \<Rightarrow>
          (case lane_candidate collate k db of
             None \<Rightarrow> Inr (None, release db)
           | Some (i, m) \<Rightarrow>
               if lr_message row \<noteq> None \<and> ce_release_first env then Inr (None, release db)
               else take_lane env lane ownerID row fencingToken i m db))"

definition ClaimNext ::
  "(string \<Rightarrow> 'k::linorder) \<Rightarrow> claim_env \<Rightarrow> LaneKey \<Rightarrow> owner_id \<Rightarrow> 'z messaging_db_scheme
   \<Rightarrow> DispatchClaim option result \<times> 'z messaging_db_scheme" where
  "ClaimNext collate env lane ownerID db =
     (let k = (lk_TenantID lane, lk_ConnectionID lane, lk_ConversationID lane); now = ce_now env in
      if lk_TenantID lane = '''' \<or> lk_ConnectionID lane = '''' \<or> lk_ConversationID lane = '''' \<or> ownerID = '''' \<or> 256 < length ownerID
      then (Inl (Sentinel ErrInvalidRoute), db)
      else inTenant (ce_fault env) (lk_TenantID lane) (\<lambda>db.
        case lease_of_owner now (lk_TenantID lane, lk_ConnectionID lane) ownerID db of
          None \<Rightarrow> Inr (None, db)
        | Some lease \<Rightarrow>
            (case claimable_lane now k db of
               None \<Rightarrow> Inr (None, db)
             | Some row \<Rightarrow> claim_lane collate env lane ownerID row (ls_token lease) db)) db)"

section \<open>Provider I/O\<close>

definition dispatch_args_ok :: "DispatchClaim \<Rightarrow> owner_id \<Rightarrow> bool" where
  "dispatch_args_ok claim ownerID =
     (validDispatchClaim claim \<and> dispatchOrderingKey claim \<noteq> '''' \<and> ownerID \<noteq> '''' \<and> length ownerID \<le> 256)"

definition BeginProviderIO ::
  "fault \<Rightarrow> instant \<Rightarrow> DispatchClaim \<Rightarrow> owner_id \<Rightarrow> 'z messaging_db_scheme \<Rightarrow> bool result \<times> 'z messaging_db_scheme" where
  "BeginProviderIO f now claim ownerID db =
     (if \<not> dispatch_args_ok claim ownerID then (Inl (Sentinel ErrInvalidCommand), db)
      else inTenant f (om_TenantID (dc_Message claim)) (\<lambda>db.
        if \<not> claim_fenced True now Claimed claim ownerID db then Inr (False, db)
        else Inr (True, put_attempt (claim_akey claim)
               ((the (attempt_of db (claim_akey claim))) \<lparr> ap_phase := ProviderIOStarted, ap_started := Some now \<rparr>) db)) db)"

definition RenewProviderIO ::
  "fault \<Rightarrow> instant \<Rightarrow> DispatchClaim \<Rightarrow> owner_id \<Rightarrow> 'z messaging_db_scheme \<Rightarrow> bool result \<times> 'z messaging_db_scheme" where
  "RenewProviderIO f now claim ownerID db =
     (if \<not> dispatch_args_ok claim ownerID then (Inl (Sentinel ErrInvalidCommand), db)
      else inTenant f (om_TenantID (dc_Message claim)) (\<lambda>db.
        if \<not> claim_fenced True now ProviderIOStarted claim ownerID db
           \<or> ap_connection (the (attempt_of db (claim_akey claim))) \<noteq> om_ConnectionID (dc_Message claim)
           \<or> ap_ordering (the (attempt_of db (claim_akey claim))) \<noteq> dispatchOrderingKey claim then Inr (False, db)
        else Inr (True, put_lane (claim_lkey claim)
               ((the (db_lanes db (claim_lkey claim))) \<lparr> lr_expires := Some (now + 30000000), lr_updated := now \<rparr>) db)) db)"

text \<open>The statuses of a completion: one status, event and pair of outbox rows per state, with three identifiers each.\<close>

fun complete_states ::
  "codec \<Rightarrow> instant \<Rightarrow> instant \<Rightarrow> (nat \<Rightarrow> string) \<Rightarrow> nat \<Rightarrow> OutboundMessage \<Rightarrow> string \<Rightarrow> MessageState list
   \<Rightarrow> 'z messaging_db_scheme \<Rightarrow> 'z messaging_db_scheme result" where
  "complete_states enc now wall newID n message reason [] db = Inr db"
| "complete_states enc now wall newID n message reason (state # states) db =
     bind_res (append_status_event enc now wall wall (newID n, newID (n + 1), newID (n + 2)) message state ''gmessages'' reason db)
       (complete_states enc now wall newID (n + 3) message reason states)"

definition CompleteDispatch ::
  "codec \<Rightarrow> fault \<Rightarrow> instant \<Rightarrow> instant \<Rightarrow> (nat \<Rightarrow> string) \<Rightarrow> DispatchClaim \<Rightarrow> MessageState list \<Rightarrow> string
   \<Rightarrow> 'z messaging_db_scheme \<Rightarrow> goerror \<times> 'z messaging_db_scheme" where
  "CompleteDispatch enc f now wall newID claim states safeReason db =
     (if \<not> dispatch_args_ok claim (dc_OwnerID claim) \<or> states = [] \<or> 512 < length safeReason then (Some (Sentinel ErrInvalidCommand), db)
      else if list_ex (\<lambda>state. MessageState_Validate state \<noteq> None \<or> state = MessageStateQueued \<or> state = MessageStateDispatching) states
      then (Some (Sentinel ErrInvalidMessageState), db)
      else inTenantExec f (om_TenantID (dc_Message claim)) (\<lambda>db.
        if \<not> claim_fenced False now ProviderIOStarted claim (dc_OwnerID claim) db then Inl (Sentinel ErrDispatchFenceLost)
        else let finalState = DeriveMessageState (MessageStateDispatching # states);
                 m = the (message_of db (claim_mkey claim)); a = the (attempt_of db (claim_akey claim));
                 lane = the (db_lanes db (claim_lkey claim))
             in bind_res (complete_states enc now wall newID 0 (dc_Message claim) safeReason states db) (\<lambda>db'.
                Inr (put_lane (claim_lkey claim) (free_lane now lane)
                  (put_attempt (claim_akey claim) (a \<lparr> ap_phase := AttemptComplete, ap_result := safeReason, ap_completed := Some now \<rparr>)
                  (put_message (claim_mkey claim) (m \<lparr> ms_state := finalState, ms_updated := now \<rparr>) db'))))) db)"

definition ReleaseBeforeDispatch ::
  "fault \<Rightarrow> instant \<Rightarrow> string \<Rightarrow> DispatchClaim \<Rightarrow> string \<Rightarrow> 'z messaging_db_scheme \<Rightarrow> goerror \<times> 'z messaging_db_scheme" where
  "ReleaseBeforeDispatch f now statusID claim safeReason db =
     (if \<not> dispatch_args_ok claim (dc_OwnerID claim) \<or> 512 < length safeReason then (Some (Sentinel ErrInvalidCommand), db)
      else inTenantExec f (om_TenantID (dc_Message claim)) (\<lambda>db.
        if \<not> claim_fenced True now Claimed claim (dc_OwnerID claim) db then Inl (Sentinel ErrDispatchFenceLost)
        else let m = the (message_of db (claim_mkey claim)); a = the (attempt_of db (claim_akey claim));
                 lane = the (db_lanes db (claim_lkey claim))
             in insertMessageStatus (status_of (om_TenantID (dc_Message claim)) statusID (om_ID (dc_Message claim)) MessageStateQueued '''' safeReason now)
                  (put_message (claim_mkey claim) (m \<lparr> ms_state := MessageStateQueued, ms_updated := now \<rparr>)
                  (put_lane (claim_lkey claim) (free_lane now lane)
                  (put_attempt (claim_akey claim) (a \<lparr> ap_phase := AttemptComplete, ap_result := safeReason, ap_completed := Some now \<rparr>) db)))) db)"

section \<open>Queued lanes\<close>

text \<open>
  \<^verbatim>\<open>ListQueuedDispatchLanesAfter\<close>, the rotating cursor of the supervisor: the lanes with queued
  messages after a lane, in the order of connection and ordering key.
\<close>

definition queued_lanes :: "tenant_id \<Rightarrow> 'z messaging_db_scheme \<Rightarrow> (connection_id \<times> string) list" where
  "queued_lanes tenantID db =
     remdups (map (\<lambda>(i, m). (ms_connection m, ms_ordering m))
       (filter (\<lambda>(i, m). fst i = tenantID \<and> ms_state m = MessageStateQueued) (db_messages db)))"

definition ListQueuedDispatchLanesAfter ::
  "(connection_id \<times> string \<Rightarrow> 'k::linorder) \<Rightarrow> fault \<Rightarrow> tenant_id \<Rightarrow> LaneKey \<Rightarrow> int \<Rightarrow> 'z messaging_db_scheme \<Rightarrow> LaneKey list result" where
  "ListQueuedDispatchLanesAfter collate f tenantID after limit db =
     (if tenantID = '''' \<or> limit < 1 \<or> 256 < limit \<or> (lk_TenantID after \<noteq> '''' \<and> lk_TenantID after \<noteq> tenantID)
      then Inl (Sentinel ErrInvalidRoute)
      else fst (inTenant f tenantID (\<lambda>db.
        let lanes = take (nat limit) (sort_key collate (filter (\<lambda>l. lk_ConnectionID after = ''''
              \<or> collate (lk_ConnectionID after, lk_ConversationID after) < collate l) (queued_lanes tenantID db)))
        in if list_ex (\<lambda>(c, o'). c = '''' \<or> o' = '''') lanes then Inl (Opaque ''invalid dispatch lane returned by database'')
           else Inr (map (\<lambda>(c, o'). \<lparr> lk_TenantID = tenantID, lk_ConnectionID = c, lk_ConversationID = o' \<rparr>) lanes, db)) db))"

section \<open>The conversation of a new recipient\<close>

text \<open>
  \<^verbatim>\<open>RecordCreatedConversationFenced\<close> (\<^verbatim>\<open>messages.go\<close>): while the first message to a recipient is
  dispatched, the conversation the provider created for it is routed to the lane of the message,
  unless the conversation already has a lane with work of its own.
\<close>

definition existing_key :: "ckey \<Rightarrow> string \<Rightarrow> message_row \<Rightarrow> 'z messaging_db_scheme \<Rightarrow> string" where
  "existing_key ck conversationID m db =
     (case db_conversations db (fst ck, snd ck, conversationID) of
        None \<Rightarrow> ms_ordering m
      | Some conversation \<Rightarrow> if cv_ordering conversation = '''' then conversationID else cv_ordering conversation)"

definition open_attempts :: "lkey \<Rightarrow> 'z messaging_db_scheme \<Rightarrow> ((tenant_id \<times> string) \<times> attempt_row) list" where
  "open_attempts k db = filter (\<lambda>(i, a). fst i = fst k \<and> ap_connection a = fst (snd k) \<and> ap_ordering a = snd (snd k)
      \<and> ap_phase a \<noteq> AttemptComplete) (db_attempts db)"

definition lane_busy :: "lkey \<Rightarrow> message_id \<Rightarrow> 'z messaging_db_scheme \<Rightarrow> bool" where
  "lane_busy k messageID db =
     ((case db_lanes db k of None \<Rightarrow> False | Some lane \<Rightarrow> lr_message lane \<noteq> None)
      \<or> open_attempts k db \<noteq> []
      \<or> list_ex (\<lambda>(i, m). fst i = fst k \<and> ms_connection m = fst (snd k) \<and> ms_ordering m = snd (snd k) \<and> snd i \<noteq> messageID
           \<and> (ms_state m = MessageStateQueued \<or> ms_state m = MessageStateDispatching)) (db_messages db))"

definition RecordCreatedConversationFenced ::
  "fault \<Rightarrow> instant \<Rightarrow> tenant_id \<Rightarrow> connection_id \<Rightarrow> message_id \<Rightarrow> string \<Rightarrow> string \<Rightarrow> bool \<Rightarrow> owner_id \<Rightarrow> token
   \<Rightarrow> 'z messaging_db_scheme \<Rightarrow> goerror \<times> 'z messaging_db_scheme" where
  "RecordCreatedConversationFenced f now tenantID connectionID messageID conversationID defaultOutgoingID isGroup ownerID fencingToken db =
     (let ck = (tenantID, connectionID); mk = (tenantID, messageID) in
      if tenantID = '''' \<or> connectionID = '''' \<or> messageID = '''' \<or> \<not> ValidProviderConversationID conversationID
         \<or> \<not> ValidProviderIdentifier defaultOutgoingID \<or> ownerID = '''' \<or> 256 < length ownerID \<or> fencingToken = 0 \<or> isGroup
      then (Some (Sentinel ErrInvalidRoute), db)
      else inTenantExec f tenantID (\<lambda>db.
        case message_of db mk of
          None \<Rightarrow> Inl (Sentinel (Postgres ErrConnectionLeaseLost))
        | Some m \<Rightarrow>
            let current = ms_ordering m; existing = existing_key ck conversationID m db;
                routed = lease_matches True now ck ownerID fencingToken db \<and> ms_connection m = connectionID
                         \<and> ms_state m = MessageStateDispatching;
                attempt = list_ex (\<lambda>(i, a). ap_message a = messageID \<and> ap_owner a = ownerID \<and> ap_fencing a = fencingToken
                            \<and> ap_phase a = ProviderIOStarted) (open_attempts (tenantID, connectionID, current) db);
                lane = (case db_lanes db (tenantID, connectionID, current) of None \<Rightarrow> False
                        | Some l \<Rightarrow> lr_owner l = Some ownerID \<and> lr_message l = Some messageID)
            in if \<not> routed \<or> \<not> attempt \<or> \<not> lane then Inl (Sentinel (Postgres ErrConnectionLeaseLost))
               else if existing \<noteq> current \<and> lane_busy (tenantID, connectionID, existing) messageID db
               then Inl (Sentinel ErrCanonicalLaneBusy)
               else Inr (put_message mk (m \<lparr> ms_conversation := conversationID, ms_updated := now \<rparr>)
                      (db \<lparr> db_conversations := (db_conversations db)((tenantID, connectionID, conversationID) \<mapsto>
                          \<lparr> cv_default = defaultOutgoingID, cv_is_group = isGroup, cv_ordering = current,
                            cv_cursor = (case db_conversations db (tenantID, connectionID, conversationID) of None \<Rightarrow> None | Some c \<Rightarrow> cv_cursor c),
                            cv_updated = now \<rparr>) \<rparr>))) db)"

section \<open>Provider evidence\<close>

text \<open>
  The part of the inbox commit (\<^verbatim>\<open>messages.go\<close>) that writes message rows: a projected provider
  message is matched with a stored one by its temporary or provider identifier; a match is updated
  to the state derived from its whole history, otherwise a row is inserted. A temporary and a
  provider identifier name at most one message of a connection.
\<close>

record projected_message =
  pr_ID :: message_id
  pr_State :: MessageState
  pr_Direction :: string
  pr_Inserted :: bool
  pr_Transition :: MessageState

definition lockProjectedMessage :: "ckey \<Rightarrow> ProjectedMessage \<Rightarrow> 'z messaging_db_scheme \<Rightarrow> (mkey \<times> message_row) option" where
  "lockProjectedMessage ck p db =
     (let mine = filter (\<lambda>(i, m). fst i = fst ck \<and> ms_connection m = snd ck) (db_messages db) in
      case filter (\<lambda>(i, m). pm_ProviderTmpID p \<noteq> '''' \<and> ms_tmp_id m = Some (pm_ProviderTmpID p)) mine of
        x # xs \<Rightarrow> Some x
      | [] \<Rightarrow> (case filter (\<lambda>(i, m). ms_provider_id m = Some (pm_ProviderMessageID p)) mine of x # xs \<Rightarrow> Some x | [] \<Rightarrow> None))"

definition loadMessageStateHistory :: "mkey \<Rightarrow> 'z messaging_db_scheme \<Rightarrow> MessageState list" where
  "loadMessageStateHistory k db = map sr_state (filter (\<lambda>r. sr_tenant r = fst k \<and> sr_message r = snd k) (db_status db))"

definition record_provider_status ::
  "instant \<Rightarrow> string \<Rightarrow> mkey \<Rightarrow> ProjectedMessage \<Rightarrow> 'z messaging_db_scheme \<Rightarrow> 'z messaging_db_scheme result" where
  "record_provider_status now statusID k p db =
     (if pm_State p = no_state then Inr db
      else insertMessageStatus (status_of (fst k) statusID (snd k) (pm_State p)
          (if pm_ProviderStatus p = '''' then ''gmessages'' else pm_ProviderStatus p) '''' now) db)"

definition reconciled_row :: "instant \<Rightarrow> ProjectedMessage \<Rightarrow> MessageState \<Rightarrow> string \<Rightarrow> message_row \<Rightarrow> message_row" where
  "reconciled_row now p derived direction m =
     m \<lparr> ms_conversation := (if pm_ConversationID p = '''' then ms_conversation m else pm_ConversationID p),
         ms_provider_id := (if pm_ProviderMessageID p = '''' then ms_provider_id m else Some (pm_ProviderMessageID p)),
         ms_transport := (if pm_Transport p = '''' then ms_transport m else pm_Transport p),
         ms_state := derived,
         ms_body := (if ms_body m = '''' then pm_Text p else ms_body m),
         ms_direction := (if ms_direction m = ''unknown'' \<and> (direction = ''inbound'' \<or> direction = ''outbound'') then direction
                          else ms_direction m),
         ms_updated := now \<rparr>"

definition observed_states :: "ProjectedMessage \<Rightarrow> MessageState list" where
  "observed_states p = (if pm_State p = no_state then [] else [pm_State p])"

definition provider_id_taken :: "mkey \<Rightarrow> connection_id \<Rightarrow> ProjectedMessage \<Rightarrow> 'z messaging_db_scheme \<Rightarrow> bool" where
  "provider_id_taken k connectionID p db =
     (pm_ProviderMessageID p \<noteq> '''' \<and> list_ex (\<lambda>(k', m). k' \<noteq> k \<and> fst k' = fst k \<and> ms_connection m = connectionID
        \<and> ms_provider_id m = Some (pm_ProviderMessageID p)) (db_messages db))"

definition reconcile_message ::
  "instant \<Rightarrow> string \<Rightarrow> ProjectedMessage \<Rightarrow> mkey \<Rightarrow> message_row \<Rightarrow> 'z messaging_db_scheme
   \<Rightarrow> (projected_message \<times> 'z messaging_db_scheme) result" where
  "reconcile_message now statusID p k m db =
     (let stored = loadMessageStateHistory k db;
          history = (if stored = [] then [ms_state m] else stored) @ observed_states p;
          derived = DeriveMessageState history;
          named = pm_Direction p \<noteq> '''' \<and> pm_Direction p \<noteq> ''unknown'';
          direction = (if named \<and> ms_direction m = ''unknown'' then pm_Direction p else ms_direction m)
      in if named \<and> ms_direction m \<noteq> ''unknown'' \<and> ms_direction m \<noteq> pm_Direction p
         then Inl (Opaque ''provider message direction conflicts with durable identity'')
         else if MessageState_Validate derived \<noteq> None then Inl (Opaque ''invalid reconciled provider message state'')
         else if provider_id_taken k (ms_connection m) p db then Inl (Wrap ''reconcile provider message'' unique_violation)
         else bind_res (record_provider_status now statusID k p (put_message k (reconciled_row now p derived direction m) db)) (\<lambda>db'.
              Inr (\<lparr> pr_ID = snd k, pr_State = derived, pr_Direction = direction, pr_Inserted = False,
                     pr_Transition = (if direction = ''outbound'' \<and> derived \<noteq> ms_state m then derived else no_state) \<rparr>, db')))"

definition projected_row :: "instant \<Rightarrow> ckey \<Rightarrow> ProjectedMessage \<Rightarrow> message_row" where
  "projected_row now ck p =
     \<lparr> ms_connection = snd ck, ms_conversation = pm_ConversationID p, ms_ordering = pm_ConversationID p,
       ms_direction = (if pm_Direction p = '''' then ''inbound'' else pm_Direction p), ms_recipient = '''', ms_line = None,
       ms_route = '''', ms_body = pm_Text p, ms_provider_id = Some (pm_ProviderMessageID p),
       ms_tmp_id = (if pm_ProviderTmpID p = '''' then None else Some (pm_ProviderTmpID p)), ms_transport = pm_Transport p,
       ms_state = (if pm_State p = no_state then MessageStateUncertain else pm_State p),
       ms_created = now, ms_updated = now \<rparr>"

definition insert_projected ::
  "instant \<Rightarrow> string \<Rightarrow> string \<Rightarrow> ckey \<Rightarrow> ProjectedMessage \<Rightarrow> 'z messaging_db_scheme
   \<Rightarrow> (projected_message \<times> 'z messaging_db_scheme) result" where
  "insert_projected now candidateID statusID ck p db =
     (let k = (fst ck, candidateID); row = projected_row now ck p in
      if MessageState_Validate (ms_state row) \<noteq> None then Inl (Opaque ''invalid provider message state'')
      else if message_of db k \<noteq> None then Inl (Wrap ''load concurrent projected message winner'' (Sentinel ErrNoRows))
      else bind_res (record_provider_status now statusID k p (put_message k row db)) (\<lambda>db'.
           Inr (\<lparr> pr_ID = candidateID, pr_State = ms_state row, pr_Direction = ms_direction row, pr_Inserted = True,
                  pr_Transition = no_state \<rparr>, db')))"

definition project_message ::
  "instant \<Rightarrow> string \<Rightarrow> string \<Rightarrow> ckey \<Rightarrow> ProjectedMessage \<Rightarrow> 'z messaging_db_scheme
   \<Rightarrow> (projected_message \<times> 'z messaging_db_scheme) result" where
  "project_message now candidateID statusID ck p db =
     (case lockProjectedMessage ck p db of
        None \<Rightarrow> insert_projected now candidateID statusID ck p db
      | Some (k, m) \<Rightarrow> reconcile_message now statusID p k m db)"

end
