(* ===== verification/Dispatch_Machine.thy ===== *)
theory Dispatch_Machine
  imports Message_Store
begin

text \<open>
  The contract of the dispatch store as a state machine over what matters for sending: the state
  and the status history of every message, the attempts, and what every lane claims. A label names
  the message whose provider I/O a move starts. The machine starts the I/O of a message at most
  once; the store is proved to implement it.
\<close>

record machine_attempt =
  ma_message :: mkey
  ma_lane :: lkey
  ma_token :: nat
  ma_phase :: attempt_phase
  ma_started :: bool

record machine =
  mc_state :: "mkey \<rightharpoonup> MessageState"
  mc_history :: "mkey \<Rightarrow> MessageState list"
  mc_attempt :: "tenant_id \<times> string \<rightharpoonup> machine_attempt"
  mc_lane :: "lkey \<rightharpoonup> nat \<times> message_id option"

definition finish_attempt :: "tenant_id \<times> string \<Rightarrow> machine \<Rightarrow> machine" where
  "finish_attempt i v = v \<lparr> mc_attempt := (mc_attempt v)(i := map_option (\<lambda>a. a \<lparr> ma_phase := AttemptComplete \<rparr>) (mc_attempt v i)) \<rparr>"

definition observe :: "mkey \<Rightarrow> MessageState \<Rightarrow> MessageState list \<Rightarrow> machine \<Rightarrow> machine" where
  "observe k s hs v = v \<lparr> mc_state := (mc_state v)(k \<mapsto> s), mc_history := (mc_history v)(k := mc_history v k @ hs) \<rparr>"

definition set_lane :: "lkey \<Rightarrow> nat \<times> message_id option \<Rightarrow> machine \<Rightarrow> machine" where
  "set_lane l c v = v \<lparr> mc_lane := (mc_lane v)(l \<mapsto> c) \<rparr>"

text \<open>The open attempt of the claim a lane holds.\<close>

definition holds :: "machine \<Rightarrow> lkey \<Rightarrow> tenant_id \<times> string \<Rightarrow> machine_attempt \<Rightarrow> bool" where
  "holds v l i a \<longleftrightarrow> mc_attempt v i = Some a \<and> ma_phase a \<noteq> AttemptComplete \<and> ma_lane a = l
     \<and> mc_lane v l = Some (ma_token a, Some (snd (ma_message a)))"

inductive move :: "machine \<Rightarrow> mkey option \<Rightarrow> machine \<Rightarrow> bool" where
  mv_stay: "move v None v"
| mv_create: "mc_state v k = None \<Longrightarrow> move v None (set_lane l (case mc_lane v l of None \<Rightarrow> (0, None) | Some c \<Rightarrow> c)
     (observe k MessageStateQueued [MessageStateQueued] v))"
| mv_insert: "mc_state v k = None \<Longrightarrow> s \<noteq> MessageStateQueued \<Longrightarrow> MessageStateQueued \<notin> set hs \<Longrightarrow> move v None (observe k s hs v)"
| mv_claim: "mc_state v k = Some MessageStateQueued \<Longrightarrow> mc_attempt v i = None \<Longrightarrow> fst i = fst k \<Longrightarrow> fst l = fst k \<Longrightarrow>
     mc_lane v l = Some (tok, None) \<Longrightarrow>
     move v None (set_lane l (tok + 1, Some (snd k)) (observe k MessageStateDispatching [MessageStateDispatching]
       (v \<lparr> mc_attempt := (mc_attempt v)(i \<mapsto> \<lparr> ma_message = k, ma_lane = l, ma_token = tok + 1, ma_phase = Claimed, ma_started = False \<rparr>) \<rparr>)))"
| mv_begin: "mc_attempt v i = Some a \<Longrightarrow> ma_phase a = Claimed \<Longrightarrow> mc_state v (ma_message a) = Some MessageStateDispatching \<Longrightarrow>
     move v (Some (ma_message a)) (v \<lparr> mc_attempt := (mc_attempt v)(i \<mapsto> a \<lparr> ma_phase := ProviderIOStarted, ma_started := True \<rparr>) \<rparr>)"
| mv_requeue: "holds v l i a \<Longrightarrow> ma_phase a = Claimed \<Longrightarrow> mc_state v (ma_message a) = Some MessageStateDispatching \<Longrightarrow>
     move v None (set_lane l (ma_token a, None) (finish_attempt i (observe (ma_message a) MessageStateQueued [MessageStateQueued] v)))"
| mv_finish: "holds v l i a \<Longrightarrow> ma_phase a = ProviderIOStarted \<Longrightarrow> mc_state v (ma_message a) = Some MessageStateDispatching \<Longrightarrow>
     s \<noteq> MessageStateQueued \<Longrightarrow> MessageStateQueued \<notin> set hs \<Longrightarrow>
     move v None (set_lane l (ma_token a, None) (finish_attempt i (observe (ma_message a) s hs v)))"
| mv_abandon: "mc_lane v l = Some (tok, m) \<Longrightarrow> move v None (set_lane l (tok, None) v)"
| mv_evidence: "mc_state v k = Some s \<Longrightarrow> MessageStateQueued \<notin> set hs \<Longrightarrow>
     move v None (observe k (DeriveMessageState ((if mc_history v k = [] then [s] else mc_history v k) @ hs)) hs v)"

section \<open>The invariant\<close>

text \<open>An attempt matters for sending while it is open and for ever once its provider I/O started.\<close>

definition weighty :: "machine_attempt \<Rightarrow> bool" where
  "weighty a \<longleftrightarrow> ma_phase a \<noteq> AttemptComplete \<or> ma_started a"

text \<open>The history shows a dispatch after the last time the message was queued.\<close>

definition dispatched :: "MessageState list \<Rightarrow> bool" where
  "dispatched h \<longleftrightarrow> (\<exists>pre post. h = pre @ MessageStateDispatching # post \<and> MessageStateQueued \<notin> set post)"

definition machine_inv :: "machine \<Rightarrow> bool" where
  "machine_inv v \<longleftrightarrow>
     (\<forall>i a. mc_attempt v i = Some a \<longrightarrow> mc_state v (ma_message a) \<noteq> None \<and> fst i = fst (ma_message a) \<and> fst (ma_lane a) = fst i
        \<and> (ma_phase a = Claimed \<longrightarrow> \<not> ma_started a)
        \<and> (weighty a \<longrightarrow> mc_state v (ma_message a) \<noteq> Some MessageStateQueued \<and> dispatched (mc_history v (ma_message a)))) \<and>
     (\<forall>i j a b. mc_attempt v i = Some a \<longrightarrow> mc_attempt v j = Some b \<longrightarrow> weighty a \<longrightarrow> weighty b \<longrightarrow> ma_message a = ma_message b \<longrightarrow> i = j) \<and>
     (\<forall>l tok m. mc_lane v l = Some (tok, Some m) \<longrightarrow> (\<exists>i a. holds v l i a))"

lemma dispatched_append: "dispatched h \<Longrightarrow> MessageStateQueued \<notin> set hs \<Longrightarrow> dispatched (h @ hs)"
  unfolding dispatched_def by (metis Un_iff append.assoc append_Cons set_append)

lemma dispatched_now: "dispatched (h @ [MessageStateDispatching])"
  unfolding dispatched_def by (rule exI [of _ h], rule exI [of _ "[]"]) simp

lemma derive_step_not_queued:
  "fst cr \<noteq> MessageStateQueued \<Longrightarrow> s \<noteq> MessageStateQueued \<Longrightarrow> fst (derive_step s cr) \<noteq> MessageStateQueued"
  by (auto simp: derive_step_def split: MessageState.splits prod.splits)

lemma derive_fold_not_queued:
  "fst cr \<noteq> MessageStateQueued \<Longrightarrow> MessageStateQueued \<notin> set hs \<Longrightarrow> fst (fold derive_step hs cr) \<noteq> MessageStateQueued"
proof (induction hs arbitrary: cr)
  case (Cons s hs)
  then have "fst (derive_step s cr) \<noteq> MessageStateQueued" by (intro derive_step_not_queued) auto
  with Cons show ?case by simp
qed simp

lemma derive_step_dispatching:
  assumes "derive_inv cr"
  shows "fst (derive_step MessageStateDispatching cr) \<noteq> MessageStateQueued"
  using assms by (cases cr) (auto simp: derive_inv_def derive_step_def messageStateRank_def messageStateRankMust_def)

lemma derive_dispatched:
  assumes "dispatched h"
  shows "DeriveMessageState h \<noteq> MessageStateQueued"
proof -
  obtain pre post where h: "h = pre @ MessageStateDispatching # post" "MessageStateQueued \<notin> set post"
    using assms unfolding dispatched_def by blast
  have "derive_inv (fold derive_step pre (MessageStateOther '''', -1))"
    by (rule derive_fold_inv) (simp add: derive_inv_def)
  then have "fst (fold derive_step post (derive_step MessageStateDispatching (fold derive_step pre (MessageStateOther '''', -1)))) \<noteq> MessageStateQueued"
    by (intro derive_fold_not_queued derive_step_dispatching h(2))
  then show ?thesis by (simp add: DeriveMessageState_def h(1))
qed

lemma inv_attempt:
  "machine_inv v \<Longrightarrow> mc_attempt v i = Some a \<Longrightarrow> mc_state v (ma_message a) \<noteq> None \<and> fst i = fst (ma_message a) \<and> fst (ma_lane a) = fst i
     \<and> (ma_phase a = Claimed \<longrightarrow> \<not> ma_started a)
     \<and> (weighty a \<longrightarrow> mc_state v (ma_message a) \<noteq> Some MessageStateQueued \<and> dispatched (mc_history v (ma_message a)))"
  unfolding machine_inv_def by blast

lemma inv_unique:
  "machine_inv v \<Longrightarrow> mc_attempt v i = Some a \<Longrightarrow> mc_attempt v j = Some b \<Longrightarrow> weighty a \<Longrightarrow> weighty b \<Longrightarrow> ma_message a = ma_message b \<Longrightarrow> i = j"
  unfolding machine_inv_def by blast

lemma inv_lane: "machine_inv v \<Longrightarrow> mc_lane v l = Some (tok, Some m) \<Longrightarrow> \<exists>i a. holds v l i a"
  unfolding machine_inv_def by blast

lemma machine_invI:
  assumes "\<And>i a. mc_attempt v i = Some a \<Longrightarrow> mc_state v (ma_message a) \<noteq> None \<and> fst i = fst (ma_message a) \<and> fst (ma_lane a) = fst i
        \<and> (ma_phase a = Claimed \<longrightarrow> \<not> ma_started a)
        \<and> (weighty a \<longrightarrow> mc_state v (ma_message a) \<noteq> Some MessageStateQueued \<and> dispatched (mc_history v (ma_message a)))"
    "\<And>i j a b. mc_attempt v i = Some a \<Longrightarrow> mc_attempt v j = Some b \<Longrightarrow> weighty a \<Longrightarrow> weighty b \<Longrightarrow> ma_message a = ma_message b \<Longrightarrow> i = j"
    "\<And>l tok m. mc_lane v l = Some (tok, Some m) \<Longrightarrow> \<exists>i a. holds v l i a"
  shows "machine_inv v"
  unfolding machine_inv_def using assms by blast

lemma holds_weighty: "holds v l i a \<Longrightarrow> weighty a"
  by (simp add: holds_def weighty_def)

lemma holds_unique:
  assumes I: "machine_inv v" and a: "holds v l i a" and b: "holds v l' j b" and m: "ma_message a = ma_message b"
  shows "i = j \<and> l = l' \<and> a = b"
proof -
  have "i = j" using inv_unique [OF I _ _ holds_weighty [OF a] holds_weighty [OF b] m] a b by (simp add: holds_def)
  then show ?thesis using a b by (simp add: holds_def)
qed

text \<open>A state change of a message with what its history then shows keeps the attempts and lanes as they are.\<close>

lemma inv_observe:
  assumes I: "machine_inv v" and q: "\<And>i a. mc_attempt v i = Some a \<Longrightarrow> ma_message a = k \<Longrightarrow> weighty a \<Longrightarrow> s \<noteq> MessageStateQueued \<and> MessageStateQueued \<notin> set hs"
  shows "machine_inv (observe k s hs v)"
proof (rule machine_invI)
  fix i a assume a: "mc_attempt (observe k s hs v) i = Some a"
  then have a': "mc_attempt v i = Some a" by (simp add: observe_def)
  show "mc_state (observe k s hs v) (ma_message a) \<noteq> None \<and> fst i = fst (ma_message a) \<and> fst (ma_lane a) = fst i
        \<and> (ma_phase a = Claimed \<longrightarrow> \<not> ma_started a)
        \<and> (weighty a \<longrightarrow> mc_state (observe k s hs v) (ma_message a) \<noteq> Some MessageStateQueued
             \<and> dispatched (mc_history (observe k s hs v) (ma_message a)))"
    using inv_attempt [OF I a'] q [OF a'] by (auto simp: observe_def intro: dispatched_append)
next
  show "i = j" if "mc_attempt (observe k s hs v) i = Some a" "mc_attempt (observe k s hs v) j = Some b" "weighty a" "weighty b"
    "ma_message a = ma_message b" for i j a b
    using inv_unique [OF I, of i a j b] that by (simp add: observe_def)
next
  show "\<exists>i a. holds (observe k s hs v) l i a" if "mc_lane (observe k s hs v) l = Some (tok, Some m)" for l tok m
    using inv_lane [OF I, of l tok m] that by (simp add: observe_def holds_def)
qed

lemma inv_free_lane: "machine_inv v \<Longrightarrow> machine_inv (set_lane l (tok, None) v)"
proof (rule machine_invI)
  assume I: "machine_inv v"
  show "\<exists>i a. holds (set_lane l (tok, None) v) l' i a" if "mc_lane (set_lane l (tok, None) v) l' = Some (tok', Some m)" for l' tok' m
  proof -
    have "l' \<noteq> l" and "mc_lane v l' = Some (tok', Some m)" using that by (auto simp: set_lane_def split: if_splits)
    then show ?thesis using inv_lane [OF I, of l' tok' m] by (auto simp: holds_def set_lane_def)
  qed
qed (use inv_attempt inv_unique in \<open>auto simp: set_lane_def\<close>)

lemma inv_create:
  assumes I: "machine_inv v" and "mc_state v k = None"
  shows "machine_inv (observe k s hs v)"
  using inv_attempt [OF I] assms(2) by (intro inv_observe [OF I]) blast

lemma inv_finish:
  assumes I: "machine_inv v" and h: "holds v l i a"
  shows "machine_inv (set_lane l (tok, None) (finish_attempt i v))"
proof (rule machine_invI)
  let ?w = "set_lane l (tok, None) (finish_attempt i v)"
  have at: "mc_attempt ?w j = Some b \<Longrightarrow> \<exists>b'. mc_attempt v j = Some b' \<and> (weighty b \<longrightarrow> weighty b') \<and> ma_message b = ma_message b'
      \<and> ma_lane b = ma_lane b' \<and> ma_started b = ma_started b' \<and> (ma_phase b = Claimed \<longrightarrow> ma_phase b' = Claimed)" for j b
    using h by (auto simp: set_lane_def finish_attempt_def holds_def weighty_def split: if_splits)
  show "mc_state ?w (ma_message b) \<noteq> None \<and> fst j = fst (ma_message b) \<and> fst (ma_lane b) = fst j \<and> (ma_phase b = Claimed \<longrightarrow> \<not> ma_started b)
      \<and> (weighty b \<longrightarrow> mc_state ?w (ma_message b) \<noteq> Some MessageStateQueued \<and> dispatched (mc_history ?w (ma_message b)))"
    if b: "mc_attempt ?w j = Some b" for j b
  proof -
    obtain b' where b': "mc_attempt v j = Some b'" "weighty b \<longrightarrow> weighty b'" "ma_message b = ma_message b'" "ma_lane b = ma_lane b'"
      "ma_started b = ma_started b'" "ma_phase b = Claimed \<longrightarrow> ma_phase b' = Claimed" using at [OF b] by blast
    have "mc_state ?w = mc_state v" "mc_history ?w = mc_history v" by (simp_all add: set_lane_def finish_attempt_def)
    then show ?thesis using inv_attempt [OF I b'(1)] b' by auto
  qed
  show "j = j'" if "mc_attempt ?w j = Some b" "mc_attempt ?w j' = Some c" "weighty b" "weighty c" "ma_message b = ma_message c" for j j' b c
    using at [OF that(1)] at [OF that(2)] that(3-5) inv_unique [OF I] by metis
  show "\<exists>j b. holds ?w l' j b" if c: "mc_lane ?w l' = Some (tok', Some m)" for l' tok' m
  proof -
    have ne: "l' \<noteq> l" and "mc_lane v l' = Some (tok', Some m)" using c by (auto simp: set_lane_def finish_attempt_def split: if_splits)
    then obtain j b where jb: "holds v l' j b" using inv_lane [OF I] by blast
    then have "j \<noteq> i" using h ne by (auto simp: holds_def)
    then show ?thesis using jb ne by (intro exI [of _ j] exI [of _ b]) (simp add: holds_def set_lane_def finish_attempt_def)
  qed
qed

lemma observe_commute: "set_lane l c (finish_attempt i (observe k s hs v)) = observe k s hs (set_lane l c (finish_attempt i v))"
  by (simp add: set_lane_def finish_attempt_def observe_def)

lemma inv_requeue:
  assumes I: "machine_inv v" and h: "holds v l i a" and c: "ma_phase a = Claimed"
  shows "machine_inv (set_lane l (tok, None) (finish_attempt i (observe (ma_message a) s hs v)))"
  unfolding observe_commute
proof (rule inv_observe [OF inv_finish [OF I h]])
  fix j b assume b: "mc_attempt (set_lane l (tok, None) (finish_attempt i v)) j = Some b" "ma_message b = ma_message a" "weighty b"
  have i: "mc_attempt v i = Some a" using h by (simp add: holds_def)
  have "\<not> ma_started a" using inv_attempt [OF I i] c by blast
  then have "j \<noteq> i" using b i by (auto simp: set_lane_def finish_attempt_def weighty_def)
  then have "mc_attempt v j = Some b" using b(1) by (simp add: set_lane_def finish_attempt_def)
  then show "s \<noteq> MessageStateQueued \<and> MessageStateQueued \<notin> set hs"
    using inv_unique [OF I _ i b(3) holds_weighty [OF h] b(2)] \<open>j \<noteq> i\<close> by blast
qed

lemma inv_claim:
  assumes I: "machine_inv v" and q: "mc_state v k = Some MessageStateQueued" and n: "mc_attempt v i = None"
    and t: "fst i = fst k" "fst l = fst k"
  shows "machine_inv (set_lane l (tok', Some (snd k)) (observe k MessageStateDispatching [MessageStateDispatching]
       (v \<lparr> mc_attempt := (mc_attempt v)(i \<mapsto> \<lparr> ma_message = k, ma_lane = l, ma_token = tok', ma_phase = Claimed, ma_started = False \<rparr>) \<rparr>)))"
    (is "machine_inv ?w")
proof (rule machine_invI)
  let ?a = "\<lparr> ma_message = k, ma_lane = l, ma_token = tok', ma_phase = Claimed, ma_started = False \<rparr>"
  have at: "mc_attempt ?w = (mc_attempt v)(i \<mapsto> ?a)" by (simp add: set_lane_def observe_def)
  have light: "\<not> weighty b" if "mc_attempt v j = Some b" "ma_message b = k" for j b
    using inv_attempt [OF I that(1)] that(2) q by auto
  have st: "mc_state ?w = (mc_state v)(k \<mapsto> MessageStateDispatching)" by (simp add: set_lane_def observe_def)
  have hs: "mc_history ?w = (mc_history v)(k := mc_history v k @ [MessageStateDispatching])" by (simp add: set_lane_def observe_def)
  show "mc_state ?w (ma_message b) \<noteq> None \<and> fst j = fst (ma_message b) \<and> fst (ma_lane b) = fst j \<and> (ma_phase b = Claimed \<longrightarrow> \<not> ma_started b)
      \<and> (weighty b \<longrightarrow> mc_state ?w (ma_message b) \<noteq> Some MessageStateQueued \<and> dispatched (mc_history ?w (ma_message b)))"
    if b: "mc_attempt ?w j = Some b" for j b
  proof (cases "j = i")
    case True
    then have "b = ?a" using b at by simp
    then show ?thesis using t True by (simp add: st hs dispatched_now)
  next
    case False
    then have j: "mc_attempt v j = Some b" using b at by simp
    show ?thesis
    proof (cases "ma_message b = k")
      case True
      then show ?thesis using inv_attempt [OF I j] light [OF j] by (simp add: st)
    next
      case False
      then show ?thesis using inv_attempt [OF I j] by (simp add: st hs)
    qed
  qed
  show "j = j'" if "mc_attempt ?w j = Some b" "mc_attempt ?w j' = Some c" "weighty b" "weighty c" "ma_message b = ma_message c" for j j' b c
  proof (cases "j = i \<or> j' = i")
    case True
    then have "ma_message b = k" using that at by (metis fun_upd_same machine_attempt.select_convs(1) option.inject)
    then have "\<not> (j \<noteq> i \<or> j' \<noteq> i)" using that light at by (metis fun_upd_other)
    then show ?thesis by simp
  next
    case False
    then show ?thesis using that inv_unique [OF I, of j b j' c] at by simp
  qed
  show "\<exists>j b. holds ?w l' j b" if c: "mc_lane ?w l' = Some (tok'', Some m)" for l' tok'' m
  proof (cases "l' = l")
    case True
    have "holds ?w l i ?a" by (simp add: holds_def at) (simp add: set_lane_def)
    then show ?thesis using True by blast
  next
    case False
    then have "mc_lane v l' = Some (tok'', Some m)" using c by (simp add: set_lane_def observe_def)
    then obtain j b where jb: "holds v l' j b" using inv_lane [OF I] by blast
    then have "j \<noteq> i" using n by (metis holds_def option.distinct(1))
    then have "holds ?w l' j b" using jb False by (simp add: holds_def set_lane_def observe_def)
    then show ?thesis by blast
  qed
qed

lemma inv_begin:
  assumes I: "machine_inv v" and i: "mc_attempt v i = Some a" and c: "ma_phase a = Claimed"
  shows "machine_inv (v \<lparr> mc_attempt := (mc_attempt v)(i \<mapsto> a \<lparr> ma_phase := ProviderIOStarted, ma_started := True \<rparr>) \<rparr>)"
    (is "machine_inv ?w")
proof (rule machine_invI)
  have at: "mc_attempt ?w j = Some b \<Longrightarrow> \<exists>b'. mc_attempt v j = Some b' \<and> (weighty b \<longrightarrow> weighty b') \<and> ma_message b = ma_message b'
      \<and> ma_lane b = ma_lane b' \<and> (ma_phase b = Claimed \<longrightarrow> b = b')" for j b
    using i c by (auto simp: weighty_def split: if_splits)
  show "mc_state ?w (ma_message b) \<noteq> None \<and> fst j = fst (ma_message b) \<and> fst (ma_lane b) = fst j \<and> (ma_phase b = Claimed \<longrightarrow> \<not> ma_started b)
      \<and> (weighty b \<longrightarrow> mc_state ?w (ma_message b) \<noteq> Some MessageStateQueued \<and> dispatched (mc_history ?w (ma_message b)))"
    if b: "mc_attempt ?w j = Some b" for j b
  proof -
    obtain b' where b': "mc_attempt v j = Some b'" "weighty b \<longrightarrow> weighty b'" "ma_message b = ma_message b'" "ma_lane b = ma_lane b'"
      "ma_phase b = Claimed \<longrightarrow> b = b'" using at [OF b] by blast
    then show ?thesis using inv_attempt [OF I b'(1)] by auto
  qed
  show "j = j'" if "mc_attempt ?w j = Some b" "mc_attempt ?w j' = Some d" "weighty b" "weighty d" "ma_message b = ma_message d" for j j' b d
    using at [OF that(1)] at [OF that(2)] that(3-5) inv_unique [OF I] by metis
  show "\<exists>j b. holds ?w l j b" if l: "mc_lane ?w l = Some (tok, Some m)" for l tok m
  proof -
    obtain j b where jb: "holds v l j b" using l inv_lane [OF I, of l tok m] by auto
    show ?thesis
    proof (cases "j = i")
      case True
      then have "holds ?w l i (a \<lparr> ma_phase := ProviderIOStarted, ma_started := True \<rparr>)" using jb i by (simp add: holds_def)
      then show ?thesis by blast
    next
      case False
      then have "holds ?w l j b" using jb by (simp add: holds_def)
      then show ?thesis by blast
    qed
  qed
qed

lemma inv_evidence:
  assumes I: "machine_inv v" and "mc_state v k = Some s" and "MessageStateQueued \<notin> set hs"
  shows "machine_inv (observe k (DeriveMessageState ((if mc_history v k = [] then [s] else mc_history v k) @ hs)) hs v)"
proof (rule inv_observe [OF I])
  fix i a assume "mc_attempt v i = Some a" "ma_message a = k" "weighty a"
  then have d: "dispatched (mc_history v k)" using inv_attempt [OF I] by blast
  then have "mc_history v k \<noteq> []" by (auto simp: dispatched_def)
  then show "DeriveMessageState ((if mc_history v k = [] then [s] else mc_history v k) @ hs) \<noteq> MessageStateQueued \<and> MessageStateQueued \<notin> set hs"
    using derive_dispatched [OF dispatched_append [OF d assms(3)]] assms(3) by simp
qed

theorem machine_inv_move:
  assumes "move v lbl v'" "machine_inv v"
  shows "machine_inv v'"
  using assms
proof cases
  case (mv_create k l)
  have I: "machine_inv (observe k MessageStateQueued [MessageStateQueued] v)"
    using inv_create [OF assms(2) mv_create(3)] .
  show ?thesis
  proof (cases "mc_lane v l")
    case None
    then show ?thesis using mv_create inv_free_lane [OF I] by simp
  next
    case (Some c)
    then have "set_lane l c (observe k MessageStateQueued [MessageStateQueued] v) = observe k MessageStateQueued [MessageStateQueued] v"
      by (simp add: set_lane_def observe_def fun_upd_idem)
    then show ?thesis using mv_create Some I by simp
  qed
next
  case (mv_finish l i a s hs)
  have "machine_inv (observe (ma_message a) s hs (set_lane l (ma_token a, None) (finish_attempt i v)))"
    using mv_finish by (intro inv_observe [OF inv_finish [OF assms(2)]]) blast+
  then show ?thesis using mv_finish by (simp add: observe_commute)
next
  case (mv_evidence k s hs)
  then show ?thesis using inv_evidence [OF assms(2)] by blast
qed (auto intro: inv_create inv_claim inv_begin inv_requeue inv_free_lane assms(2))

section \<open>Provider I/O starts at most once\<close>

definition io_started :: "machine \<Rightarrow> mkey \<Rightarrow> bool" where
  "io_started v k \<longleftrightarrow> (\<exists>i a. mc_attempt v i = Some a \<and> ma_message a = k \<and> ma_started a)"

lemma io_started_move:
  assumes "move v lbl v'" "io_started v k"
  shows "io_started v' k"
proof -
  obtain i a where i: "mc_attempt v i = Some a" "ma_message a = k" "ma_started a" using assms(2) by (auto simp: io_started_def)
  have "\<exists>b. mc_attempt v' i = Some b \<and> ma_message b = k \<and> ma_started b"
    using assms(1) i by cases (auto simp: set_lane_def observe_def finish_attempt_def holds_def)
  then show ?thesis unfolding io_started_def by blast
qed

lemma move_starts_fresh:
  assumes "move v (Some k) v'" "machine_inv v"
  shows "\<not> io_started v k \<and> io_started v' k"
  using assms(1)
proof cases
  case (mv_begin i a)
  have "\<not> io_started v k"
  proof
    assume "io_started v k"
    then obtain j b where b: "mc_attempt v j = Some b" "ma_message b = k" "ma_started b" by (auto simp: io_started_def)
    have "i = j" using inv_unique [OF assms(2) mv_begin(3) b(1)] mv_begin b by (simp add: weighty_def)
    then show False using b mv_begin inv_attempt [OF assms(2) mv_begin(3)] by simp
  qed
  moreover have "mc_attempt v' i = Some (a \<lparr> ma_phase := ProviderIOStarted, ma_started := True \<rparr>)" using mv_begin by simp
  then have "io_started v' k" unfolding io_started_def
    by (intro exI [of _ i] exI [of _ "a \<lparr> ma_phase := ProviderIOStarted, ma_started := True \<rparr>"]) (simp add: mv_begin(1))
  ultimately show ?thesis by blast
qed

text \<open>Runs of a labelled relation, with the labels that occurred in their order.\<close>

inductive labelled_run :: "('s \<Rightarrow> 'l option \<Rightarrow> 's \<Rightarrow> bool) \<Rightarrow> 's \<Rightarrow> 'l list \<Rightarrow> 's \<Rightarrow> bool" for R where
  run_refl: "labelled_run R s [] s"
| run_step: "labelled_run R s ls s' \<Longrightarrow> R s' lbl s'' \<Longrightarrow> labelled_run R s (ls @ (case lbl of None \<Rightarrow> [] | Some k \<Rightarrow> [k])) s''"

text \<open>
  A store implements the machine when each of its steps is a move of the machine on its view; a
  step that reports the start of provider I/O is a move that starts it (a start whose commit was
  not acknowledged is not reported).
  Then every run of the store starts the provider I/O of a message at most once, never for a
  message whose I/O had started before the run, and the message never returns to the queue.
\<close>

locale dispatch_contract =
  fixes step :: "'db \<Rightarrow> mkey option \<Rightarrow> 'db \<Rightarrow> bool"
    and view :: "'db \<Rightarrow> machine"
    and wf :: "'db \<Rightarrow> bool"
  assumes refines: "wf db \<Longrightarrow> machine_inv (view db) \<Longrightarrow> step db lbl db' \<Longrightarrow>
      wf db' \<and> (\<exists>lbl'. (lbl = None \<or> lbl' = lbl) \<and> move (view db) lbl' (view db'))"
begin

lemma run_inv:
  "labelled_run step db ls db' \<Longrightarrow> wf db \<Longrightarrow> machine_inv (view db) \<Longrightarrow> wf db' \<and> machine_inv (view db')"
proof (induction rule: labelled_run.induct)
  case (run_step s ls s' lbl s'')
  then have I: "wf s'" "machine_inv (view s')" by blast+
  show ?case using refines [OF I run_step(2)] machine_inv_move [OF _ I(2)] by blast
qed simp

lemma run_starts_once:
  "labelled_run step db ls db' \<Longrightarrow> wf db \<Longrightarrow> machine_inv (view db) \<Longrightarrow>
   distinct ls \<and> (\<forall>k\<in>set ls. \<not> io_started (view db) k \<and> io_started (view db') k) \<and> (\<forall>k. io_started (view db) k \<longrightarrow> io_started (view db') k)"
proof (induction rule: labelled_run.induct)
  case (run_step s ls s' lbl s'')
  then have I: "wf s'" "machine_inv (view s')" using run_inv [OF run_step(1)] by blast+
  obtain lbl' where l: "lbl = None \<or> lbl' = lbl" and m: "move (view s') lbl' (view s'')" using refines [OF I run_step(2)] by blast
  show ?case
  proof (cases lbl)
    case None
    then show ?thesis using run_step.IH [OF run_step(4,5)] io_started_move [OF m] by simp
  next
    case (Some k)
    have "\<not> io_started (view s') k" "io_started (view s'') k" using Some move_starts_fresh [OF _ I(2), of k "view s''"] l m by auto
    moreover have "k \<notin> set ls" "\<not> io_started (view s) k" using calculation run_step.IH [OF run_step(4,5)] by blast+
    ultimately show ?thesis using Some run_step.IH [OF run_step(4,5)] io_started_move [OF m] by simp
  qed
qed simp

lemma started_not_queued:
  assumes "wf db" "machine_inv (view db)" "labelled_run step db ls db'" "io_started (view db) k"
  shows "mc_state (view db') k \<noteq> Some MessageStateQueued"
proof -
  have "io_started (view db') k" "machine_inv (view db')" using run_starts_once run_inv assms by blast+
  then show ?thesis using inv_attempt by (fastforce simp: io_started_def weighty_def)
qed

end

text \<open>The machine satisfies its own contract.\<close>

interpretation machine_itself: dispatch_contract move "\<lambda>v. v" "\<lambda>_. True"
  by unfold_locales blast

section \<open>Evidence before completion\<close>

text \<open>
  An open attempt whose message already has carrier evidence: nothing closes it any more, because
  every move that closes an attempt needs its message to be dispatching.
\<close>

definition stranded :: "machine \<Rightarrow> tenant_id \<times> string \<Rightarrow> bool" where
  "stranded v i \<longleftrightarrow> (\<exists>a. mc_attempt v i = Some a \<and> ma_phase a \<noteq> AttemptComplete \<and> mc_history v (ma_message a) \<noteq> []
     \<and> mc_state v (ma_message a) = Some (DeriveMessageState (mc_history v (ma_message a)))
     \<and> 4 \<le> messageStateRankMust (DeriveMessageState (mc_history v (ma_message a))))"

lemma low_rank: "messageStateRankMust MessageStateQueued = 0" "messageStateRankMust MessageStateDispatching = 1"
  by (simp_all add: messageStateRankMust_def messageStateRank_def)

lemma stranded_frame:
  assumes "stranded v i" "mc_attempt v' i = mc_attempt v i"
    "\<And>a. mc_attempt v i = Some a \<Longrightarrow> mc_state v' (ma_message a) = mc_state v (ma_message a) \<and> mc_history v' (ma_message a) = mc_history v (ma_message a)"
  shows "stranded v' i"
  using assms unfolding stranded_def by auto

lemma stranded_observe:
  assumes "stranded v i" "\<And>a. mc_attempt v i = Some a \<Longrightarrow> ma_message a \<noteq> k"
  shows "stranded (observe k s hs v) i"
  using assms(1) by (rule stranded_frame) (use assms(2) in \<open>auto simp: observe_def\<close>)

lemma stranded_state:
  "stranded v i \<Longrightarrow> mc_attempt v i = Some a \<Longrightarrow> mc_state v (ma_message a) \<noteq> None \<and> mc_state v (ma_message a) \<noteq> Some MessageStateQueued
     \<and> mc_state v (ma_message a) \<noteq> Some MessageStateDispatching"
  by (auto simp: stranded_def low_rank)

lemma stranded_finish:
  assumes "stranded v i" "mc_attempt v j = Some b" "mc_state v (ma_message b) = Some MessageStateDispatching"
  shows "stranded (set_lane l c (finish_attempt j (observe (ma_message b) s hs v))) i"
proof -
  have "i \<noteq> j" using stranded_state [OF assms(1)] assms(2,3) by blast
  moreover have "stranded (observe (ma_message b) s hs v) i"
    using stranded_state [OF assms(1)] assms(3) by (intro stranded_observe [OF assms(1)]) metis
  ultimately show ?thesis by (auto simp: set_lane_def finish_attempt_def intro: stranded_frame)
qed

lemma stranded_evidence:
  assumes s: "stranded v i"
  shows "stranded (observe k (DeriveMessageState ((if mc_history v k = [] then [st] else mc_history v k) @ hs)) hs v) i"
proof (cases "\<exists>a. mc_attempt v i = Some a \<and> ma_message a = k")
  case True
  then obtain a where a: "mc_attempt v i = Some a" "ma_message a = k" by blast
  then have *: "ma_phase a \<noteq> AttemptComplete" "mc_history v k \<noteq> []" "4 \<le> messageStateRankMust (DeriveMessageState (mc_history v k))"
    using s by (auto simp: stranded_def)
  then have "4 \<le> messageStateRankMust (DeriveMessageState (mc_history v k @ hs))" using derive_append_mono [of "mc_history v k" hs] by simp
  then show ?thesis using a * by (auto simp: stranded_def observe_def)
next
  case False
  then show ?thesis by (intro stranded_observe [OF s]) blast
qed

lemma stranded_move:
  assumes "move v lbl v'" and s: "stranded v i"
  shows "stranded v' i"
proof -
  obtain a where a: "mc_attempt v i = Some a" using s by (auto simp: stranded_def)
  note st = stranded_state [OF s a]
  show ?thesis using assms(1)
  proof cases
    case (mv_create k l)
    then have "stranded (observe k MessageStateQueued [MessageStateQueued] v) i" using a st by (intro stranded_observe [OF s]) auto
    then show ?thesis using mv_create by (auto simp: set_lane_def intro: stranded_frame)
  next
    case (mv_claim k j l tok)
    then have ne: "i \<noteq> j" "ma_message a \<noteq> k" using a st by auto
    then show ?thesis using mv_claim a by (intro stranded_frame [OF s]) (auto simp: set_lane_def observe_def)
  next
    case (mv_begin j b)
    then have "i \<noteq> j" using a st by auto
    then show ?thesis using mv_begin by (intro stranded_frame [OF s]) auto
  next
    case (mv_requeue l j b)
    then show ?thesis using stranded_finish [OF s, of j b] by (simp add: holds_def)
  next
    case (mv_finish l j b s' hs)
    then show ?thesis using stranded_finish [OF s, of j b] by (simp add: holds_def)
  next
    case (mv_evidence k s' hs)
    then show ?thesis using stranded_evidence [OF s] by blast
  next
    case (mv_insert k s' hs)
    then show ?thesis using a st by (auto intro!: stranded_observe [OF s])
  next
    case (mv_abandon l tok m)
    then show ?thesis by (auto simp: set_lane_def intro: stranded_frame [OF s])
  qed (use s in simp)
qed

context dispatch_contract
begin

lemma run_stranded:
  "labelled_run step db ls db' \<Longrightarrow> wf db \<Longrightarrow> machine_inv (view db) \<Longrightarrow> stranded (view db) i \<Longrightarrow> stranded (view db') i"
proof (induction rule: labelled_run.induct)
  case (run_step s ls s' lbl s'')
  then have I: "wf s'" "machine_inv (view s')" using run_inv [OF run_step(1)] by blast+
  show ?case using refines [OF I run_step(2)] stranded_move run_step by blast
qed simp

end

end
