(* ===== verification/Dispatch_Correct.thy ===== *)
theory Dispatch_Correct
  imports Dispatch_Store Dispatch_Machine
begin

text \<open>
  The message store implements the dispatch machine: every repository method that writes messages,
  attempts, lanes or statuses is a move of the machine on the view of the database.
\<close>

section \<open>The view of the database\<close>

definition attempt_view :: "tenant_id \<Rightarrow> attempt_row \<Rightarrow> machine_attempt" where
  "attempt_view t a = \<lparr> ma_message = (t, ap_message a), ma_lane = (t, ap_connection a, ap_ordering a), ma_token = ap_lane_token a,
     ma_phase = ap_phase a, ma_started = (ap_started a \<noteq> None) \<rparr>"

definition lane_view :: "lane_row \<Rightarrow> nat \<times> message_id option" where
  "lane_view r = (lr_token r, lr_message r)"

definition dispatch_view :: "'z messaging_db_scheme \<Rightarrow> machine" where
  "dispatch_view db = \<lparr> mc_state = (\<lambda>k. map_option ms_state (message_of db k)), mc_history = (\<lambda>k. loadMessageStateHistory k db),
     mc_attempt = (\<lambda>i. map_option (attempt_view (fst i)) (attempt_of db i)),
     mc_lane = (\<lambda>l. map_option lane_view (db_lanes db l)) \<rparr>"

text \<open>Primary keys: the enumerated tables have one row per key.\<close>

definition keys_ok :: "'z messaging_db_scheme \<Rightarrow> bool" where
  "keys_ok db \<longleftrightarrow> distinct (map fst (db_messages db)) \<and> distinct (map fst (db_attempts db))"

definition same_dispatch :: "'z messaging_db_scheme \<Rightarrow> 'z messaging_db_scheme \<Rightarrow> bool" where
  "same_dispatch db db' \<longleftrightarrow> db_messages db' = db_messages db \<and> db_attempts db' = db_attempts db \<and> db_lanes db' = db_lanes db"

inductive messaging_step ::
  "(string \<Rightarrow> 'k::linorder) \<Rightarrow> 'z messaging_db_scheme \<Rightarrow> mkey option \<Rightarrow> 'z messaging_db_scheme \<Rightarrow> bool" for collate where
  d_create: "CreateOutbound enc f now wall newID command db = (r, db') \<Longrightarrow> messaging_step collate db None db'"
| d_claim: "ClaimNext collate env lane ow db = (r', db') \<Longrightarrow> messaging_step collate db None db'"
| d_begin: "BeginProviderIO f now claim ow db = (b, db') \<Longrightarrow>
     messaging_step collate db (if b = Inr True then Some (claim_mkey claim) else None) db'"
| d_renew: "RenewProviderIO f now claim ow db = (b, db') \<Longrightarrow> messaging_step collate db None db'"
| d_complete: "CompleteDispatch enc f now wall newID claim states reason db = (e, db') \<Longrightarrow> messaging_step collate db None db'"
| d_release: "ReleaseBeforeDispatch f now statusID claim reason db = (e, db') \<Longrightarrow> messaging_step collate db None db'"
| d_route: "RecordCreatedConversationFenced f now t c m cid out grp ow tok db = (e, db') \<Longrightarrow> messaging_step collate db None db'"
| d_project: "project_message now cand statusID ck p db = Inr (v, db') \<Longrightarrow> pm_State p = MapProviderMessageState status \<Longrightarrow>
     messaging_step collate db None db'"
| d_other: "same_dispatch db db' \<Longrightarrow> db_status db' = db_status db \<Longrightarrow> messaging_step collate db None db'"

section \<open>The view after an update\<close>

lemma message_of_simps [simp]:
  "message_of (put_message k m db) = (message_of db)(k \<mapsto> m)"
  "message_of (put_attempt i a db) = message_of db" "message_of (put_lane l r db) = message_of db"
  "message_of (ensureMessageLane now l db) = message_of db"
  by (auto simp: message_of_def put_message_def put_attempt_def put_lane_def ensureMessageLane_def update_conv')

lemma attempt_of_simps [simp]:
  "attempt_of (put_attempt i a db) = (attempt_of db)(i \<mapsto> a)"
  "attempt_of (put_message k m db) = attempt_of db" "attempt_of (put_lane l r db) = attempt_of db"
  "attempt_of (ensureMessageLane now l db) = attempt_of db"
  by (auto simp: attempt_of_def put_message_def put_attempt_def put_lane_def ensureMessageLane_def update_conv')

lemma db_lanes_simps [simp]:
  "db_lanes (put_lane l r db) = (db_lanes db)(l \<mapsto> r)"
  "db_lanes (put_message k m db) = db_lanes db" "db_lanes (put_attempt i a db) = db_lanes db"
  by (simp_all add: put_message_def put_attempt_def put_lane_def)

lemma db_status_simps [simp]:
  "db_status (put_lane l r db) = db_status db" "db_status (put_message k m db) = db_status db"
  "db_status (put_attempt i a db) = db_status db" "db_status (ensureMessageLane now l db) = db_status db"
  by (simp_all add: put_message_def put_attempt_def put_lane_def ensureMessageLane_def)

lemma keys_ok_simps [simp]:
  "keys_ok db \<Longrightarrow> keys_ok (put_message k m db)" "keys_ok db \<Longrightarrow> keys_ok (put_attempt i a db)"
  "keys_ok (put_lane l r db) = keys_ok db" "keys_ok (ensureMessageLane now l db) = keys_ok db"
  by (simp_all add: keys_ok_def put_message_def put_attempt_def put_lane_def ensureMessageLane_def distinct_update)

lemma row_lookup: "keys_ok db \<Longrightarrow> (k, m) \<in> set (db_messages db) \<Longrightarrow> message_of db k = Some m"
  by (simp add: keys_ok_def message_of_def)

lemma attempt_lookup: "keys_ok db \<Longrightarrow> (i, a) \<in> set (db_attempts db) \<Longrightarrow> attempt_of db i = Some a"
  by (simp add: keys_ok_def attempt_of_def)

text \<open>Databases with the same dispatch tables.\<close>


lemma same_dispatchD:
  assumes "same_dispatch db db'"
  shows "message_of db' = message_of db" "attempt_of db' = attempt_of db" "db_lanes db' = db_lanes db" "keys_ok db' = keys_ok db"
    "db_messages db' = db_messages db" "db_attempts db' = db_attempts db"
  using assms by (auto simp: same_dispatch_def message_of_def attempt_of_def keys_ok_def)

lemma same_dispatch_trans: "same_dispatch a b \<Longrightarrow> same_dispatch b c \<Longrightarrow> same_dispatch a c"
  by (simp add: same_dispatch_def)

lemma insertMessageStatus_same:
  "insertMessageStatus row db = Inr db' \<Longrightarrow> same_dispatch db db' \<and> db_status db' = db_status db @ [row]"
  by (auto simp: insertMessageStatus_def same_dispatch_def split: if_splits)

lemma insert_event_same:
  "insertGatewayEvent k row db = Inr db' \<Longrightarrow> same_dispatch db db' \<and> db_status db' = db_status db"
  "insertEventOutbox now t o' e db = Inr db' \<Longrightarrow> same_dispatch db db' \<and> db_status db' = db_status db"
  "recovery_outbox env t e db = Inr db' \<Longrightarrow> same_dispatch db db' \<and> db_status db' = db_status db"
  by (auto simp: insertGatewayEvent_def recovery_outbox_def bind_res_Inr insert_outbox_Inr same_dispatch_def split: if_splits dest!: insertEventOutbox_adds)

lemma append_status_event_same:
  assumes "append_status_event enc now wall occ ids message state ps reason db = Inr db'"
  shows "same_dispatch db db' \<and> (\<exists>sid. db_status db' = db_status db @ [status_of (om_TenantID message) sid (om_ID message) state ps reason now])"
proof -
  obtain sid eid oid where ids: "ids = (sid, eid, oid)" by (cases ids)
  obtain db1 db2 body where
    s: "insertMessageStatus (status_of (om_TenantID message) sid (om_ID message) state ps reason now) db = Inr db1" and
    e: "insertGatewayEvent (om_TenantID message, eid) (message_event_row (''message.'' @ state_name state) message body) db1 = Inr db2" and
    ob: "insertEventOutbox now (om_TenantID message) oid eid db2 = Inr db'"
    using assms by (auto simp: append_status_event_def ids Let_def bind_res_Inr)
  show ?thesis
    using insertMessageStatus_same [OF s] insert_event_same(1) [OF e] insert_event_same(2) [OF ob] by (simp add: same_dispatch_def) blast
qed

lemma complete_states_same:
  "complete_states enc now wall newID n message reason states db = Inr db' \<Longrightarrow>
   same_dispatch db db' \<and> (\<exists>rows. db_status db' = db_status db @ rows \<and> map sr_state rows = states
     \<and> (\<forall>r\<in>set rows. sr_tenant r = om_TenantID message \<and> sr_message r = om_ID message))"
proof (induction states arbitrary: n db)
  case Nil
  then show ?case by (simp add: same_dispatch_def)
next
  case (Cons state states)
  then obtain db1 where db1: "append_status_event enc now wall wall (newID n, newID (n + 1), newID (n + 2)) message state ''gmessages'' reason db = Inr db1"
    "complete_states enc now wall newID (n + 3) message reason states db1 = Inr db'" by (auto simp: bind_res_Inr)
  obtain sid where s: "same_dispatch db db1" "db_status db1 = db_status db @ [status_of (om_TenantID message) sid (om_ID message) state ''gmessages'' reason now]"
    using append_status_event_same [OF db1(1)] by blast
  obtain rows where r: "same_dispatch db1 db'" "db_status db' = db_status db1 @ rows" "map sr_state rows = states"
    "\<forall>r\<in>set rows. sr_tenant r = om_TenantID message \<and> sr_message r = om_ID message" using Cons.IH [OF db1(2)] by blast
  show ?case
    using s r same_dispatch_trans [OF s(1) r(1)]
    by (intro conjI exI [of _ "status_of (om_TenantID message) sid (om_ID message) state ''gmessages'' reason now # rows"])
      (simp_all add: status_of_def)
qed

lemma view_eqI:
  assumes "message_of db' = message_of db" "attempt_of db' = attempt_of db" "db_lanes db' = db_lanes db" "db_status db' = db_status db"
  shows "dispatch_view db' = dispatch_view db"
  using assms by (simp add: dispatch_view_def loadMessageStateHistory_def)

lemma history_append:
  assumes "db_status db' = db_status db @ rows" "\<forall>r\<in>set rows. sr_tenant r = fst k \<and> sr_message r = snd k"
  shows "loadMessageStateHistory j db' = loadMessageStateHistory j db @ (if j = k then map sr_state rows else [])"
proof (cases "j = k")
  case True
  then show ?thesis using assms by (auto simp: loadMessageStateHistory_def intro: arg_cong [where f = "map sr_state"])
next
  case False
  then have "filter (\<lambda>r. sr_tenant r = fst j \<and> sr_message r = snd j) rows = []"
    using assms(2) by (auto simp: filter_empty_conv prod_eq_iff)
  then show ?thesis using assms(1) False by (simp add: loadMessageStateHistory_def)
qed

text \<open>The view after one message, its history, the attempts and the lanes changed.\<close>

lemma view_update:
  assumes "message_of db' = (message_of db)(k \<mapsto> m)" "db_status db' = db_status db @ rows"
    "\<forall>r\<in>set rows. sr_tenant r = fst k \<and> sr_message r = snd k" "attempt_of db' = A" "db_lanes db' = L"
  shows "dispatch_view db' = (observe k (ms_state m) (map sr_state rows) (dispatch_view db))
    \<lparr> mc_attempt := (\<lambda>i. map_option (attempt_view (fst i)) (A i)), mc_lane := (\<lambda>l. map_option lane_view (L l)) \<rparr>"
  unfolding dispatch_view_def observe_def using assms(1,4,5) history_append [OF assms(2,3)] by (auto simp: fun_eq_iff)

lemma view_fields [simp]:
  "mc_state (dispatch_view db) k = map_option ms_state (message_of db k)"
  "mc_history (dispatch_view db) k = loadMessageStateHistory k db"
  "mc_attempt (dispatch_view db) i = map_option (attempt_view (fst i)) (attempt_of db i)"
  "mc_lane (dispatch_view db) l = map_option lane_view (db_lanes db l)"
  by (simp_all add: dispatch_view_def)

text \<open>The tables of the view after an update of one attempt or one lane.\<close>

lemma table_views:
  "(\<lambda>i. map_option (attempt_view (fst i)) (attempt_of db i)) = mc_attempt (dispatch_view db)"
  "(\<lambda>i. map_option (attempt_view (fst i)) (((attempt_of db)(j \<mapsto> a)) i)) = (mc_attempt (dispatch_view db))(j \<mapsto> attempt_view (fst j) a)"
  "(\<lambda>l. map_option lane_view (db_lanes db l)) = mc_lane (dispatch_view db)"
  "(\<lambda>l. map_option lane_view (((db_lanes db)(l' \<mapsto> r)) l)) = (mc_lane (dispatch_view db))(l' \<mapsto> lane_view r)"
  by (auto simp: fun_eq_iff)

lemma view_put_attempt:
  "dispatch_view (put_attempt i a db) = (dispatch_view db) \<lparr> mc_attempt := (mc_attempt (dispatch_view db))(i \<mapsto> attempt_view (fst i) a) \<rparr>"
  by (rule machine.equality; (rule ext)?; simp add: loadMessageStateHistory_def)

lemma view_put_lane:
  "dispatch_view (put_lane l r db) = set_lane l (lane_view r) (dispatch_view db)"
  by (rule machine.equality; (rule ext)?; simp add: loadMessageStateHistory_def set_lane_def)

lemma attempt_view_simps [simp]:
  "ma_message (attempt_view t a) = (t, ap_message a)" "ma_lane (attempt_view t a) = (t, ap_connection a, ap_ordering a)"
  "ma_token (attempt_view t a) = ap_lane_token a" "ma_phase (attempt_view t a) = ap_phase a"
  "ma_started (attempt_view t a) = (ap_started a \<noteq> None)"
  by (simp_all add: attempt_view_def)

definition simulates :: "'z messaging_db_scheme \<Rightarrow> 'z messaging_db_scheme \<Rightarrow> bool" where
  "simulates db db' \<longleftrightarrow> (keys_ok db \<longrightarrow> machine_inv (dispatch_view db) \<longrightarrow>
     keys_ok db' \<and> move (dispatch_view db) None (dispatch_view db'))"

lemma simulatesI: "(keys_ok db \<Longrightarrow> machine_inv (dispatch_view db) \<Longrightarrow> keys_ok db' \<and> move (dispatch_view db) None (dispatch_view db')) \<Longrightarrow> simulates db db'"
  unfolding simulates_def by blast

lemma simulates_refl: "simulates db db"
  unfolding simulates_def using mv_stay by blast

lemma simulates_same:
  assumes "same_dispatch db db'" "db_status db' = db_status db"
  shows "simulates db db'"
proof (rule simulatesI)
  assume "keys_ok db"
  then show "keys_ok db' \<and> move (dispatch_view db) None (dispatch_view db')"
    using same_dispatchD [OF assms(1)] view_eqI [of db' db] assms(2) mv_stay by simp
qed

section \<open>Creating a message\<close>

lemma recordKafkaCommand_same:
  "recordKafkaCommand cid command mid db = Inr db' \<Longrightarrow> same_dispatch db db' \<and> db_status db' = db_status db"
  by (auto simp: recordKafkaCommand_def same_dispatch_def Let_def split: option.splits if_splits)

lemma recordKafkaCommand_simulates: "recordKafkaCommand cid command mid db = Inr db' \<Longrightarrow> simulates db db'"
  by (blast dest: recordKafkaCommand_same intro: simulates_same)

lemma insert_rest_same:
  "insertOutboundMedia message db = Inr db' \<Longrightarrow> same_dispatch db db' \<and> db_status db' = db_status db"
  "insertMessageIdempotency k digest mid db = Inr db' \<Longrightarrow> same_dispatch db db' \<and> db_status db' = db_status db"
  by (auto simp: insertOutboundMedia_def insertMessageIdempotency_def same_dispatch_def Let_def split: if_splits)

lemma create_message_same:
  assumes "create_message enc now wall newID command db = Inr db'"
  defines "message \<equiv> co_Message command"
  shows "\<exists>o' db1 sid. message_of db (om_TenantID message, om_ID message) = None
    \<and> db1 = ensureMessageLane now (om_TenantID message, om_ConnectionID message, o') (put_message (om_TenantID message, om_ID message) (outbound_row message o') db)
    \<and> same_dispatch db1 db' \<and> db_status db' = db_status db @ [status_of (om_TenantID message) sid (om_ID message) MessageStateQueued '''' '''' now]"
proof -
  obtain o' db0 db2 db3 db4 where
    r: "insertOutboundMessage message o' db = Inr db0" and
    m: "insertOutboundMedia message (ensureMessageLane now (om_TenantID message, om_ConnectionID message, o') db0) = Inr db2" and
    i: "insertMessageIdempotency (om_TenantID message, co_IdempotencyKey command) (co_RequestDigest command) (om_ID message) db2 = Inr db3" and
    k: "recordKafkaCommand (newID 0) command (om_ID message) db3 = Inr db4" and
    s: "append_status_event enc now wall (om_CreatedAt message) (newID 1, newID 2, newID 3) message MessageStateQueued '''' '''' db4 = Inr db'"
    using assms(1) by (auto simp: create_message_def message_def Let_def bind_res_Inr)
  have new: "message_of db (om_TenantID message, om_ID message) = None"
    and d0: "db0 = put_message (om_TenantID message, om_ID message) (outbound_row message o') db"
    using r by (auto simp: insertOutboundMessage_def Let_def split: if_splits)
  obtain sid where st: "same_dispatch db4 db'" "db_status db' = db_status db4 @ [status_of (om_TenantID message) sid (om_ID message) MessageStateQueued '''' '''' now]"
    using append_status_event_same [OF s] by blast
  show ?thesis
    using new d0 st insert_rest_same(1) [OF m] insert_rest_same(2) [OF i] recordKafkaCommand_same [OF k]
    by (intro exI [of _ o'] exI [of _ "ensureMessageLane now (om_TenantID message, om_ConnectionID message, o') db0"] exI [of _ sid])
      (simp add: same_dispatch_def)
qed

lemma create_message_simulates:
  assumes "create_message enc now wall newID command db = Inr db'"
  shows "simulates db db'"
proof (rule simulatesI)
  assume K: "keys_ok db"
  let ?m = "co_Message command" let ?k = "(om_TenantID ?m, om_ID ?m)"
  obtain o' db1 sid where n: "message_of db ?k = None"
    and d1: "db1 = ensureMessageLane now (om_TenantID ?m, om_ConnectionID ?m, o') (put_message ?k (outbound_row ?m o') db)"
    and s: "same_dispatch db1 db'" "db_status db' = db_status db @ [status_of (om_TenantID ?m) sid (om_ID ?m) MessageStateQueued '''' '''' now]"
    using create_message_same [OF assms] by blast
  let ?l = "(om_TenantID ?m, om_ConnectionID ?m, o')"
  let ?r = "case db_lanes db ?l of None \<Rightarrow> \<lparr> lr_token = 0, lr_owner = None, lr_message = None, lr_expires = None, lr_updated = now \<rparr> | Some r \<Rightarrow> r"
  have l: "db_lanes db' = (db_lanes db)(?l \<mapsto> ?r)" and m: "message_of db' = (message_of db)(?k \<mapsto> outbound_row ?m o')"
    and a: "attempt_of db' = attempt_of db"
    using same_dispatchD [OF s(1)] by (auto simp: d1 ensureMessageLane_def fun_upd_idem split: option.splits)
  have q: "ms_state (outbound_row ?m o') = MessageStateQueued" and v: "lane_view ?r = (case mc_lane (dispatch_view db) ?l of None \<Rightarrow> (0, None) | Some c \<Rightarrow> c)"
    by (simp_all add: outbound_row_def lane_view_def split: option.splits)
  have "dispatch_view db' = set_lane ?l (lane_view ?r) (observe ?k MessageStateQueued [MessageStateQueued] (dispatch_view db))"
    using view_update [OF m s(2) _ a l] unfolding table_views q by (simp add: status_of_def set_lane_def observe_def)
  then have "dispatch_view db' = set_lane ?l (case mc_lane (dispatch_view db) ?l of None \<Rightarrow> (0, None) | Some c \<Rightarrow> c)
      (observe ?k MessageStateQueued [MessageStateQueued] (dispatch_view db))" unfolding v .
  then show "keys_ok db' \<and> move (dispatch_view db) None (dispatch_view db')"
    using mv_create [of "dispatch_view db" ?k ?l] n K same_dispatchD(4) [OF s(1)] by (simp add: d1)
qed

lemma CreateOutbound_simulates:
  assumes "CreateOutbound enc f now wall newID command db = (r, db')"
  shows "simulates db db'"
proof (cases "db' = db")
  case False
  then have "inTenant f (om_TenantID (co_Message command)) (\<lambda>db.
        case db_idempotency db (om_TenantID (co_Message command), co_IdempotencyKey command) of
          Some (storedDigest, storedMessageID) \<Rightarrow>
            if storedDigest \<noteq> co_RequestDigest command then Inr ((CreateConflict, None), db)
            else bind_res (loadOutboundMessage (om_TenantID (co_Message command)) storedMessageID db) (\<lambda>stored.
                 bind_res (recordKafkaCommand (newID 0) command (om_ID stored) db) (\<lambda>db'.
                 Inr ((CreateDuplicate, Some stored), db')))
        | None \<Rightarrow> bind_res (create_message enc now wall newID command db) (\<lambda>db'. Inr ((CreateInserted, Some (co_Message command)), db'))) db = (r, db')"
    using assms by (simp add: CreateOutbound_def Let_def split: if_splits)
  then show ?thesis
    by (rule inTenant_rel [where R = simulates, OF _ simulates_refl])
      (auto simp: bind_res_Inr simulates_refl split: option.splits if_splits dest: create_message_simulates recordKafkaCommand_simulates)
qed (simp add: simulates_refl)

section \<open>Provider I/O\<close>

lemma claim_fencedE:
  assumes "claim_fenced live now phase claim ow db"
  obtains a m lane where "attempt_of db (claim_akey claim) = Some a" "message_of db (claim_mkey claim) = Some m"
    "db_lanes db (claim_lkey claim) = Some lane" "ap_message a = snd (claim_mkey claim)" "ap_lane_token a = dc_LaneToken claim"
    "ap_phase a = phase" "ms_state m = MessageStateDispatching" "lr_token lane = dc_LaneToken claim" "lr_message lane = Some (snd (claim_mkey claim))"
  using assms
  by (auto simp: claim_fenced_def attempt_matches_def lane_matches_def message_dispatching_def claim_mkey_def split: option.splits)

lemma claim_keys: "fst (claim_akey claim) = fst (claim_mkey claim)" "fst (claim_lkey claim) = fst (claim_mkey claim)"
  by (simp_all add: claim_akey_def claim_mkey_def claim_lkey_def)

text \<open>The attempt of a fenced claim is the one its lane holds: a lane names its message with the open attempt, which is unique.\<close>

lemma fenced_holds:
  assumes I: "machine_inv (dispatch_view db)" and c: "claim_fenced live now phase claim ow db" and p: "phase \<noteq> AttemptComplete"
    and a: "attempt_of db (claim_akey claim) = Some a"
  shows "holds (dispatch_view db) (claim_lkey claim) (claim_akey claim) (attempt_view (fst (claim_akey claim)) a)"
proof -
  obtain m lane where *: "message_of db (claim_mkey claim) = Some m" "db_lanes db (claim_lkey claim) = Some lane"
    "ap_message a = snd (claim_mkey claim)" "ap_lane_token a = dc_LaneToken claim" "ap_phase a = phase"
    "lr_token lane = dc_LaneToken claim" "lr_message lane = Some (snd (claim_mkey claim))"
    using c a by (auto elim!: claim_fencedE)
  have l: "mc_lane (dispatch_view db) (claim_lkey claim) = Some (dc_LaneToken claim, Some (snd (claim_mkey claim)))"
    using * by (simp add: lane_view_def)
  obtain i b where b: "holds (dispatch_view db) (claim_lkey claim) i b" using inv_lane [OF I l] by blast
  have i: "mc_attempt (dispatch_view db) i = Some b" using b by (simp add: holds_def del: view_fields)
  have "snd (ma_message b) = snd (claim_mkey claim)" using b l by (simp add: holds_def del: view_fields)
  moreover have "fst (ma_message b) = fst (claim_mkey claim)" using inv_attempt [OF I i] b by (simp add: holds_def claim_keys del: view_fields)
  ultimately have mb: "ma_message b = claim_mkey claim" by (simp add: prod_eq_iff)
  have v: "mc_attempt (dispatch_view db) (claim_akey claim) = Some (attempt_view (fst (claim_akey claim)) a)" using a by simp
  have "claim_akey claim = i"
    by (rule inv_unique [OF I v i _ holds_weighty [OF b]]) (use * p in \<open>simp_all add: weighty_def mb claim_keys prod_eq_iff\<close>)
  then show ?thesis using b v i by (simp del: view_fields)
qed

lemma BeginProviderIO_simulates:
  assumes "BeginProviderIO f now claim ow db = (b, db')" and K: "keys_ok db"
  shows "keys_ok db' \<and> (b \<noteq> Inr True \<and> db' = db \<or> b \<noteq> Inr False \<and> move (dispatch_view db) (Some (claim_mkey claim)) (dispatch_view db'))"
proof (cases "claim_fenced True now Claimed claim ow db")
  case False
  then have "db' = db \<and> b \<noteq> Inr True"
    using assms by (auto simp: BeginProviderIO_def inTenant_def split: if_splits fault.splits)
  then show ?thesis using K by blast
next
  case True
  obtain a m where a: "attempt_of db (claim_akey claim) = Some a" "ap_phase a = Claimed" "ap_message a = snd (claim_mkey claim)"
    "message_of db (claim_mkey claim) = Some m" "ms_state m = MessageStateDispatching"
    using True by (auto elim!: claim_fencedE)
  let ?b = "a \<lparr> ap_phase := ProviderIOStarted, ap_started := Some now \<rparr>"
  have "b \<noteq> Inr True \<and> db' = db \<or> b \<noteq> Inr False \<and> db' = put_attempt (claim_akey claim) ?b db"
    using assms a True by (auto simp: BeginProviderIO_def inTenant_def split: if_splits fault.splits)
  moreover have "keys_ok (put_attempt (claim_akey claim) ?b db)
      \<and> move (dispatch_view db) (Some (claim_mkey claim)) (dispatch_view (put_attempt (claim_akey claim) ?b db))"
  proof
    show "keys_ok (put_attempt (claim_akey claim) ?b db)" using K by simp
    have k: "(fst (claim_akey claim), ap_message a) = claim_mkey claim" using a by (simp add: claim_keys)
    have "dispatch_view (put_attempt (claim_akey claim) ?b db)
        = (dispatch_view db) \<lparr> mc_attempt := (mc_attempt (dispatch_view db))(claim_akey claim \<mapsto>
             (attempt_view (fst (claim_akey claim)) a) \<lparr> ma_phase := ProviderIOStarted, ma_started := True \<rparr>) \<rparr>"
      unfolding view_put_attempt by (simp add: attempt_view_def)
    then show "move (dispatch_view db) (Some (claim_mkey claim)) (dispatch_view (put_attempt (claim_akey claim) ?b db))"
      using mv_begin [of "dispatch_view db" "claim_akey claim" "attempt_view (fst (claim_akey claim)) a"] a k by simp
  qed
  ultimately show ?thesis using K by metis
qed

lemma RenewProviderIO_simulates:
  assumes "RenewProviderIO f now claim ow db = (b, db')"
  shows "simulates db db'"
proof -
  have "simulates db (put_lane (claim_lkey claim) ((the (db_lanes db (claim_lkey claim))) \<lparr> lr_expires := Some e, lr_updated := u \<rparr>) db)"
    if f: "claim_fenced True now ProviderIOStarted claim ow db" for e u
  proof (rule simulatesI)
    obtain lane where l: "db_lanes db (claim_lkey claim) = Some lane" using f by (auto elim: claim_fencedE)
    let ?db = "put_lane (claim_lkey claim) ((the (db_lanes db (claim_lkey claim))) \<lparr> lr_expires := Some e, lr_updated := u \<rparr>) db"
    have "dispatch_view ?db = dispatch_view db"
      unfolding view_put_lane by (rule machine.equality; (rule ext)?; simp add: set_lane_def l lane_view_def)
    then show "keys_ok db \<Longrightarrow> keys_ok ?db \<and> move (dispatch_view db) None (dispatch_view ?db)" using mv_stay by simp
  qed
  then show ?thesis
    using assms simulates_refl by (auto simp: RenewProviderIO_def inTenant_def split: if_splits fault.splits)
qed

lemma view_finish:
  assumes "message_of db' = (message_of db)(k \<mapsto> m)" "db_status db' = db_status db @ rows"
    "\<forall>r\<in>set rows. sr_tenant r = fst k \<and> sr_message r = snd k"
    "attempt_of db' = (attempt_of db)(i \<mapsto> a')" "db_lanes db' = (db_lanes db)(l \<mapsto> r)" "attempt_of db i = Some a"
    "attempt_view (fst i) a' = (attempt_view (fst i) a) \<lparr> ma_phase := AttemptComplete \<rparr>" "lane_view r = (tok, None)"
  shows "dispatch_view db' = set_lane l (tok, None) (finish_attempt i (observe k (ms_state m) (map sr_state rows) (dispatch_view db)))"
  unfolding view_update [OF assms(1-5)] table_views assms(7,8)
  using assms(6) by (simp add: set_lane_def finish_attempt_def observe_def)

lemma CompleteDispatch_simulates:
  assumes "CompleteDispatch enc f now wall newID claim states reason db = (e, db')"
  shows "simulates db db'"
proof (cases "db' = db")
  case False
  let ?op = "\<lambda>db. if \<not> claim_fenced False now ProviderIOStarted claim (dc_OwnerID claim) db then Inl (Sentinel ErrDispatchFenceLost)
        else let finalState = DeriveMessageState (MessageStateDispatching # states);
                 m = the (message_of db (claim_mkey claim)); a = the (attempt_of db (claim_akey claim));
                 lane = the (db_lanes db (claim_lkey claim))
             in bind_res (complete_states enc now wall newID 0 (dc_Message claim) reason states db) (\<lambda>db'.
                Inr (put_lane (claim_lkey claim) (free_lane now lane)
                  (put_attempt (claim_akey claim) (a \<lparr> ap_phase := AttemptComplete, ap_result := reason, ap_completed := Some now \<rparr>)
                  (put_message (claim_mkey claim) (m \<lparr> ms_state := finalState, ms_updated := now \<rparr>) db'))))"
  have r: "inTenantExec f (om_TenantID (dc_Message claim)) ?op db = (e, db')" and
    ok: "\<not> list_ex (\<lambda>state. MessageState_Validate state \<noteq> None \<or> state = MessageStateQueued \<or> state = MessageStateDispatching) states"
    using assms False by (auto simp: CompleteDispatch_def split: if_splits)
  have nq: "MessageStateQueued \<notin> set states" using ok by (auto simp: list_ex_iff)
  have "simulates db db''" if op: "?op db = Inr db''" for db''
  proof (rule simulatesI)
    assume K: "keys_ok db" and I: "machine_inv (dispatch_view db)"
    have c: "claim_fenced False now ProviderIOStarted claim (dc_OwnerID claim) db" using op by (simp split: if_splits)
    obtain a m lane where a: "attempt_of db (claim_akey claim) = Some a" "message_of db (claim_mkey claim) = Some m"
      "db_lanes db (claim_lkey claim) = Some lane" "ap_message a = snd (claim_mkey claim)" "ap_lane_token a = dc_LaneToken claim"
      "ap_phase a = ProviderIOStarted" "ms_state m = MessageStateDispatching" "lr_token lane = dc_LaneToken claim"
      using c by (auto elim!: claim_fencedE)
    obtain db1 where s: "complete_states enc now wall newID 0 (dc_Message claim) reason states db = Inr db1"
      and d: "db'' = put_lane (claim_lkey claim) (free_lane now lane)
                  (put_attempt (claim_akey claim) (a \<lparr> ap_phase := AttemptComplete, ap_result := reason, ap_completed := Some now \<rparr>)
                  (put_message (claim_mkey claim) (m \<lparr> ms_state := DeriveMessageState (MessageStateDispatching # states), ms_updated := now \<rparr>) db1))"
      using op c a by (auto simp: Let_def bind_res_Inr)
    obtain rows where rows: "same_dispatch db db1" "db_status db1 = db_status db @ rows" "map sr_state rows = states"
      "\<forall>r\<in>set rows. sr_tenant r = fst (claim_mkey claim) \<and> sr_message r = snd (claim_mkey claim)"
      using complete_states_same [OF s] by (auto simp: claim_mkey_def)
    note same = same_dispatchD [OF rows(1)]
    let ?s = "DeriveMessageState (MessageStateDispatching # states)"
    have "dispatched (MessageStateDispatching # states)" using nq unfolding dispatched_def by (intro exI [of _ "[]"] exI [of _ states]) simp
    then have sq: "?s \<noteq> MessageStateQueued" by (rule derive_dispatched)
    have k: "(fst (claim_akey claim), ap_message a) = claim_mkey claim" using a by (simp add: claim_keys)
    have v: "dispatch_view db'' = set_lane (claim_lkey claim) (dc_LaneToken claim, None)
        (finish_attempt (claim_akey claim) (observe (claim_mkey claim) ?s states (dispatch_view db)))"
      using view_finish [where db = db and db' = db'' and k = "claim_mkey claim" and m = "m \<lparr> ms_state := ?s, ms_updated := now \<rparr>"
          and rows = rows and i = "claim_akey claim" and l = "claim_lkey claim" and r = "free_lane now lane" and a = a and tok = "dc_LaneToken claim"]
        a rows same by (simp add: d attempt_view_def free_lane_def lane_view_def)
    have h: "holds (dispatch_view db) (claim_lkey claim) (claim_akey claim) (attempt_view (fst (claim_akey claim)) a)"
      by (rule fenced_holds [OF I c _ a(1)]) simp
    show "keys_ok db'' \<and> move (dispatch_view db) None (dispatch_view db'')"
      using mv_finish [OF h, of ?s states] K same a k sq nq unfolding v by (simp add: d)
  qed
  then show ?thesis using inTenantExec_rel [where R = simulates, OF r simulates_refl] by blast
qed (simp add: simulates_refl)

lemma ReleaseBeforeDispatch_simulates:
  assumes "ReleaseBeforeDispatch f now statusID claim reason db = (e, db')"
  shows "simulates db db'"
proof (cases "db' = db")
  case False
  let ?op = "\<lambda>db. if \<not> claim_fenced True now Claimed claim (dc_OwnerID claim) db then Inl (Sentinel ErrDispatchFenceLost)
        else let m = the (message_of db (claim_mkey claim)); a = the (attempt_of db (claim_akey claim));
                 lane = the (db_lanes db (claim_lkey claim))
             in insertMessageStatus (status_of (om_TenantID (dc_Message claim)) statusID (om_ID (dc_Message claim)) MessageStateQueued '''' reason now)
                  (put_message (claim_mkey claim) (m \<lparr> ms_state := MessageStateQueued, ms_updated := now \<rparr>)
                  (put_lane (claim_lkey claim) (free_lane now lane)
                  (put_attempt (claim_akey claim) (a \<lparr> ap_phase := AttemptComplete, ap_result := reason, ap_completed := Some now \<rparr>) db)))"
  have r: "inTenantExec f (om_TenantID (dc_Message claim)) ?op db = (e, db')"
    using assms False by (auto simp: ReleaseBeforeDispatch_def split: if_splits)
  have "simulates db db''" if op: "?op db = Inr db''" for db''
  proof (rule simulatesI)
    assume K: "keys_ok db" and I: "machine_inv (dispatch_view db)"
    have c: "claim_fenced True now Claimed claim (dc_OwnerID claim) db" using op by (simp split: if_splits)
    obtain a m lane where a: "attempt_of db (claim_akey claim) = Some a" "message_of db (claim_mkey claim) = Some m"
      "db_lanes db (claim_lkey claim) = Some lane" "ap_message a = snd (claim_mkey claim)" "ap_lane_token a = dc_LaneToken claim"
      "ap_phase a = Claimed" "ms_state m = MessageStateDispatching" "lr_token lane = dc_LaneToken claim"
      using c by (auto elim!: claim_fencedE)
    let ?m = "m \<lparr> ms_state := MessageStateQueued, ms_updated := now \<rparr>"
    let ?db1 = "put_message (claim_mkey claim) ?m (put_lane (claim_lkey claim) (free_lane now lane)
                  (put_attempt (claim_akey claim) (a \<lparr> ap_phase := AttemptComplete, ap_result := reason, ap_completed := Some now \<rparr>) db))"
    let ?row = "status_of (om_TenantID (dc_Message claim)) statusID (om_ID (dc_Message claim)) MessageStateQueued '''' reason now"
    have "insertMessageStatus ?row ?db1 = Inr db''" using op c a by (simp add: Let_def)
    then have s: "same_dispatch ?db1 db''" "db_status db'' = db_status db @ [?row]" using insertMessageStatus_same by fastforce+
    note same = same_dispatchD [OF s(1)]
    have k: "(fst (claim_akey claim), ap_message a) = claim_mkey claim" using a by (simp add: claim_keys)
    have v: "dispatch_view db'' = set_lane (claim_lkey claim) (dc_LaneToken claim, None)
        (finish_attempt (claim_akey claim) (observe (claim_mkey claim) MessageStateQueued [MessageStateQueued] (dispatch_view db)))"
      using view_finish [where db = db and db' = db'' and k = "claim_mkey claim" and m = ?m
          and rows = "[?row]" and i = "claim_akey claim" and l = "claim_lkey claim" and r = "free_lane now lane" and a = a and tok = "dc_LaneToken claim"]
        a same s(2) by (simp add: attempt_view_def free_lane_def lane_view_def status_of_def claim_mkey_def)
    have h: "holds (dispatch_view db) (claim_lkey claim) (claim_akey claim) (attempt_view (fst (claim_akey claim)) a)"
      by (rule fenced_holds [OF I c _ a(1)]) simp
    show "keys_ok db'' \<and> move (dispatch_view db) None (dispatch_view db'')"
      using mv_requeue [OF h] K same a k unfolding v by simp
  qed
  then show ?thesis using inTenantExec_rel [where R = simulates, OF r simulates_refl] by blast
qed (simp add: simulates_refl)

section \<open>Claims\<close>

lemma stale_attempt_Some:
  assumes "stale_attempt collate k lane db = Some (i, a)"
  shows "(i, a) \<in> set (db_attempts db) \<and> fst i = fst k \<and> ap_connection a = fst (snd k) \<and> ap_ordering a = snd (snd k)
    \<and> lr_message lane = Some (ap_message a) \<and> ap_lane_token a = lr_token lane \<and> ap_phase a \<noteq> AttemptComplete"
proof -
  let ?s = "sort_key (\<lambda>(i, a). ap_created a) (sort_key (\<lambda>(i, a). collate (snd i)) (lane_attempts k lane db))"
  have "?s \<noteq> []" and l: "last ?s = (i, a)" using assms by (auto simp: stale_attempt_def split: list.splits)
  then have "last ?s \<in> set ?s" by (intro last_in_set)
  then have "(i, a) \<in> set (lane_attempts k lane db)" by (simp add: l)
  then show ?thesis by (simp add: lane_attempts_def)
qed

lemma stale_attempt_None:
  assumes "stale_attempt collate k lane db = None" "(i, a) \<in> set (db_attempts db)" "fst i = fst k" "ap_connection a = fst (snd k)"
    "ap_ordering a = snd (snd k)" "lr_message lane = Some (ap_message a)" "ap_lane_token a = lr_token lane"
  shows "ap_phase a = AttemptComplete"
proof (rule ccontr)
  assume "ap_phase a \<noteq> AttemptComplete"
  then have "(i, a) \<in> set (lane_attempts k lane db)" using assms(2-) by (simp add: lane_attempts_def)
  moreover have "set (sort_key (\<lambda>(i, a). ap_created a) (sort_key (\<lambda>(i, a). collate (snd i)) (lane_attempts k lane db))) = {}"
    using assms(1) by (auto simp: stale_attempt_def simp del: set_sort split: list.splits)
  ultimately show False by simp
qed

lemma lane_candidate_Some:
  assumes "lane_candidate collate k db = Some (i, m)"
  shows "(i, m) \<in> set (lane_queue k db) \<and> (\<forall>x\<in>set (lane_queue k db). ms_created m \<le> ms_created (snd x))"
proof -
  let ?s = "sort_key (\<lambda>(i, m). ms_created m) (sort_key (\<lambda>(i, m). collate (snd i)) (lane_queue k db))"
  obtain xs where xs: "?s = (i, m) # xs" using assms by (auto simp: lane_candidate_def split: list.splits)
  have "sorted (map (\<lambda>(i, m). ms_created m) ?s)" by (rule sorted_sort_key)
  then have le: "\<forall>x\<in>set ?s. ms_created m \<le> ms_created (snd x)" unfolding xs by (auto simp: split_beta)
  have "set ?s = set (lane_queue k db)" by simp
  then show ?thesis using le xs by (metis list.set_intros(1))
qed

lemma lane_queue_row:
  "keys_ok db \<Longrightarrow> (i, m) \<in> set (lane_queue k db) \<Longrightarrow> message_of db i = Some m \<and> fst i = fst k \<and> ms_connection m = fst (snd k)
     \<and> ms_ordering m = snd (snd k) \<and> ms_state m = MessageStateQueued"
  by (auto simp: lane_queue_def dest: row_lookup)

lemma take_lane_simulates:
  assumes t: "take_lane env lane ow row tok i m db = Inr (c, db')" and K: "keys_ok db"
    and i: "message_of db i = Some m" "ms_state m = MessageStateQueued" "fst i = lk_TenantID lane"
    and row: "db_lanes db (lk_TenantID lane, lk_ConnectionID lane, lk_ConversationID lane) = Some row" "lr_message row = None"
  shows "keys_ok db' \<and> move (dispatch_view db) None (dispatch_view db')"
proof -
  let ?l = "(lk_TenantID lane, lk_ConnectionID lane, lk_ConversationID lane)" and ?i = "(lk_TenantID lane, ce_newID env 0)"
  let ?m = "m \<lparr> ms_state := MessageStateDispatching, ms_updated := ce_now env \<rparr>"
  let ?r = "\<lparr> lr_token = lr_token row + 1, lr_owner = Some ow, lr_message = Some (snd i), lr_expires = Some (ce_now env + 30000000), lr_updated = ce_now env \<rparr>"
  let ?a = "\<lparr> ap_message = snd i, ap_connection = lk_ConnectionID lane, ap_ordering = lk_ConversationID lane, ap_owner = ow,
       ap_lane_token = lr_token row + 1, ap_fencing = tok, ap_phase = Claimed, ap_result = '''',
       ap_created = ce_now env, ap_started = None, ap_completed = None \<rparr>"
  let ?row = "status_of (lk_TenantID lane) (ce_newID env 1) (snd i) MessageStateDispatching '''' '''' (ce_now env)"
  let ?db2 = "put_attempt ?i ?a (put_lane ?l ?r (put_message i ?m db))"
  have new: "attempt_of db ?i = None" and "insertMessageStatus ?row ?db2 = Inr db'"
    using t by (auto simp: take_lane_def Let_def bind_res_Inr split: if_splits)
  then have s: "same_dispatch ?db2 db'" "db_status db' = db_status db @ [?row]" using insertMessageStatus_same by fastforce+
  note same = same_dispatchD [OF s(1)]
  have mm: "message_of db' = (message_of db)(i \<mapsto> ?m)" and aa: "attempt_of db' = (attempt_of db)(?i \<mapsto> ?a)" and ll: "db_lanes db' = (db_lanes db)(?l \<mapsto> ?r)"
    using same by simp_all
  have ie: "(lk_TenantID lane, snd i) = i" by (simp add: i(3) prod_eq_iff)
  have v: "dispatch_view db' = (observe i MessageStateDispatching [MessageStateDispatching] (dispatch_view db))
      \<lparr> mc_attempt := (mc_attempt (dispatch_view db))(?i \<mapsto> attempt_view (lk_TenantID lane) ?a),
        mc_lane := (mc_lane (dispatch_view db))(?l \<mapsto> lane_view ?r) \<rparr>"
    using view_update [OF mm s(2) _ aa ll] unfolding table_views by (simp add: status_of_def i(3) del: view_fields)
  have "dispatch_view db' = set_lane ?l (lr_token row + 1, Some (snd i)) (observe i MessageStateDispatching [MessageStateDispatching]
       ((dispatch_view db) \<lparr> mc_attempt := (mc_attempt (dispatch_view db))(?i \<mapsto>
          \<lparr> ma_message = i, ma_lane = ?l, ma_token = lr_token row + 1, ma_phase = Claimed, ma_started = False \<rparr>) \<rparr>))"
    unfolding v by (rule machine.equality) (simp_all add: set_lane_def observe_def lane_view_def attempt_view_def ie del: view_fields)
  moreover have "keys_ok db'" using same(4) K by simp
  ultimately show ?thesis
    using mv_claim [of "dispatch_view db" i ?i ?l "lr_token row"] i row new by (simp add: lane_view_def)
qed

text \<open>Recovery of the attempt a lane holds, followed by the release of the lane.\<close>

lemma recover_attempt_cases:
  assumes "recover_attempt env i a db = Inr db'"
  obtains "db' = db" | m s rs reason where "message_of db (fst i, ap_message a) = Some m" "ms_state m = MessageStateDispatching"
    "s = (if ap_phase a = Claimed then MessageStateQueued else MessageStateUncertain)"
    "same_dispatch (put_attempt i (a \<lparr> ap_phase := AttemptComplete, ap_result := reason, ap_completed := Some (ce_now env) \<rparr>)
       (put_message (fst i, ap_message a) (m \<lparr> ms_state := s, ms_updated := ce_now env \<rparr>) db)) db'"
    "db_status db' = db_status db @ [status_of (fst i) rs (ap_message a) s '''' reason (ce_now env)]"
proof (cases "message_of db (fst i, ap_message a)")
  case None
  then show ?thesis using assms that(1) by (simp add: recover_attempt_def)
next
  case (Some m)
  show ?thesis
  proof (cases "ms_state m = MessageStateDispatching")
    case False
    then show ?thesis using assms that(1) Some by (simp add: recover_attempt_def)
  next
    case True
    define s where "s = (if ap_phase a = Claimed then MessageStateQueued else MessageStateUncertain)"
    define reason where "reason = (if ap_phase a = Claimed then ''crash_before_provider_io'' else ''provider_io_ambiguous'')"
    define db1 where "db1 = put_attempt i (a \<lparr> ap_phase := AttemptComplete, ap_result := reason, ap_completed := Some (ce_now env) \<rparr>)
       (put_message (fst i, ap_message a) (m \<lparr> ms_state := s, ms_updated := ce_now env \<rparr>) db)"
    obtain db2 where d2: "insertMessageStatus (status_of (fst i) (ce_newID env 2) (ap_message a) s '''' reason (ce_now env)) db1 = Inr db2"
      and rest: "(if ap_phase a = Claimed then Inr db2
                  else bind_res (insertGatewayEvent (fst i, ce_newID env 3) (recovery_event_row env (fst i, ap_message a) m (ce_newID env 3)) db2)
                         (recovery_outbox env (fst i) (ce_newID env 3))) = Inr db'"
      using assms Some True by (auto simp: recover_attempt_def s_def reason_def db1_def Let_def bind_res_Inr)
    have "same_dispatch db2 db' \<and> db_status db' = db_status db2"
    proof (cases "ap_phase a = Claimed")
      case True
      then show ?thesis using rest by (simp add: same_dispatch_def)
    next
      case False
      then obtain db3 where "insertGatewayEvent (fst i, ce_newID env 3) (recovery_event_row env (fst i, ap_message a) m (ce_newID env 3)) db2 = Inr db3"
        "recovery_outbox env (fst i) (ce_newID env 3) db3 = Inr db'" using rest by (auto simp: bind_res_Inr)
      then show ?thesis using insert_event_same(1,3) same_dispatch_trans by metis
    qed
    then have "same_dispatch db1 db'" "db_status db' = db_status db1 @ [status_of (fst i) (ce_newID env 2) (ap_message a) s '''' reason (ce_now env)]"
      using insertMessageStatus_same [OF d2] same_dispatch_trans by auto
    then show ?thesis using that(2) [OF Some True s_def, of reason "ce_newID env 2"] by (simp add: db1_def)
  qed
qed

lemma recovery_simulates:
  assumes r: "recover_attempt env i a db = Inr db1" and K: "keys_ok db" and I: "machine_inv (dispatch_view db)"
    and s: "stale_attempt collate k row db = Some (i, a)" and row: "db_lanes db k = Some row"
  shows "keys_ok (put_lane k (free_lane now row) db1) \<and> move (dispatch_view db) None (dispatch_view (put_lane k (free_lane now row) db1))"
  using r
proof (cases rule: recover_attempt_cases)
  case 1
  have "dispatch_view (put_lane k (free_lane now row) db) = set_lane k (lr_token row, None) (dispatch_view db)"
    unfolding view_put_lane by (simp add: lane_view_def free_lane_def)
  then show ?thesis using 1 K mv_abandon [of "dispatch_view db" k "lr_token row" "lr_message row"] row by (simp add: lane_view_def)
next
  case (2 m st rs reason)
  note sa = stale_attempt_Some [OF s]
  have a: "attempt_of db i = Some a" using sa attempt_lookup [OF K] by blast
  let ?v = "attempt_view (fst i) a" let ?k = "(fst i, ap_message a)"
  have h: "holds (dispatch_view db) k i ?v" using a sa row by (simp add: holds_def lane_view_def prod_eq_iff)
  let ?db' = "put_lane k (free_lane now row) db1"
  note same = same_dispatchD [OF 2(4)]
  have v: "dispatch_view ?db' = set_lane k (lr_token row, None) (finish_attempt i (observe ?k st [st] (dispatch_view db)))"
    using view_finish [where db = db and db' = ?db' and k = ?k and m = "m \<lparr> ms_state := st, ms_updated := ce_now env \<rparr>"
        and rows = "[status_of (fst i) rs (ap_message a) st '''' reason (ce_now env)]" and i = i and l = k and r = "free_lane now row"
        and a = a and tok = "lr_token row"] 2 same a
    by (simp add: status_of_def attempt_view_def free_lane_def lane_view_def)
  have "keys_ok ?db'" using same(4) K by simp
  moreover have "move (dispatch_view db) None (dispatch_view ?db')"
  proof (cases "ap_phase a = Claimed")
    case True
    then show ?thesis using mv_requeue [OF h] 2(1-3) sa unfolding v by simp
  next
    case False
    then have "ap_phase a = ProviderIOStarted" using sa by (cases "ap_phase a") simp_all
    then show ?thesis using mv_finish [OF h, of st "[st]"] 2(1-3) sa False unfolding v by simp
  qed
  ultimately show ?thesis ..
qed

lemma claim_lane_simulates:
  assumes op: "claim_lane collate env lane ow row tok db = Inr (c, db')"
    and row: "db_lanes db (lk_TenantID lane, lk_ConnectionID lane, lk_ConversationID lane) = Some row"
  shows "simulates db db'"
proof (rule simulatesI)
  assume K: "keys_ok db" and I: "machine_inv (dispatch_view db)"
  let ?k = "(lk_TenantID lane, lk_ConnectionID lane, lk_ConversationID lane)"
  show "keys_ok db' \<and> move (dispatch_view db) None (dispatch_view db')"
  proof (cases "stale_attempt collate ?k row db")
    case (Some x)
    obtain i a where x: "x = (i, a)" by (cases x)
    have s: "stale_attempt collate ?k row db = Some (i, a)" using Some x by simp
    then have "lr_message row \<noteq> None" using stale_attempt_Some by fastforce
    then obtain db1 where "recover_attempt env i a db = Inr db1" "db' = put_lane ?k (free_lane (ce_now env) row) db1"
      using op s by (auto simp: claim_lane_def Let_def bind_res_Inr)
    then show ?thesis using recovery_simulates [OF _ K I s row] by blast
  next
    case None
    have free: "lr_message row = None"
    proof (rule ccontr)
      assume "lr_message row \<noteq> None"
      then obtain mid where "mc_lane (dispatch_view db) ?k = Some (lr_token row, Some mid)" using row by (auto simp: lane_view_def)
      then obtain i b where b: "holds (dispatch_view db) ?k i b" using inv_lane [OF I] by blast
      then obtain a where a: "attempt_of db i = Some a" "b = attempt_view (fst i) a" by (auto simp: holds_def)
      then have "(i, a) \<in> set (db_attempts db)" by (simp add: attempt_of_def map_of_SomeD)
      then have "ap_phase a = AttemptComplete"
        using stale_attempt_None [OF None, of i a] b a row by (auto simp: holds_def lane_view_def)
      then show False using b a by (simp add: holds_def)
    qed
    show ?thesis
    proof (cases "lane_candidate collate ?k db")
      case None
      then have "db' = db" using op free \<open>stale_attempt collate ?k row db = None\<close> by (simp add: claim_lane_def Let_def)
      then show ?thesis using K mv_stay by simp
    next
      case (Some x)
      then have t: "take_lane env lane ow row tok (fst x) (snd x) db = Inr (c, db')"
        using op None free by (simp add: claim_lane_def Let_def split_beta)
      have "message_of db (fst x) = Some (snd x) \<and> fst (fst x) = lk_TenantID lane \<and> ms_state (snd x) = MessageStateQueued"
        using Some lane_candidate_Some [of collate ?k db "fst x" "snd x"] lane_queue_row [OF K, of "fst x" "snd x" ?k] by simp
      then show ?thesis using take_lane_simulates [OF t K _ _ _ row free] by blast
    qed
  qed
qed

lemma ClaimNext_simulates:
  assumes "ClaimNext collate env lane ow db = (r, db')"
  shows "simulates db db'"
proof (cases "db' = db")
  case False
  let ?k = "(lk_TenantID lane, lk_ConnectionID lane, lk_ConversationID lane)"
  have r: "inTenant (ce_fault env) (lk_TenantID lane) (\<lambda>db. case lease_of_owner (ce_now env) (lk_TenantID lane, lk_ConnectionID lane) ow db of
          None \<Rightarrow> Inr (None, db)
        | Some lease \<Rightarrow>
            (case claimable_lane (ce_now env) ?k db of
               None \<Rightarrow> Inr (None, db)
             | Some row \<Rightarrow> claim_lane collate env lane ow row (ls_token lease) db)) db = (r, db')"
    using assms False by (simp add: ClaimNext_def Let_def split: if_splits)
  show ?thesis
    by (rule inTenant_rel [where R = simulates, OF r simulates_refl])
      (auto simp: claimable_lane_def simulates_refl split: option.splits if_splits dest: claim_lane_simulates)
qed (simp add: simulates_refl)

section \<open>Routes and provider evidence\<close>

lemma RecordCreatedConversationFenced_simulates:
  assumes "RecordCreatedConversationFenced f now t c m cid out grp ow tok db = (e, db')"
  shows "simulates db db'"
proof -
  have "simulates db (put_message (t, m) (r \<lparr> ms_conversation := cid, ms_updated := now \<rparr>) (db \<lparr> db_conversations := cs \<rparr>))"
    if "message_of db (t, m) = Some r" for r cs
  proof (rule simulatesI)
    let ?db = "put_message (t, m) (r \<lparr> ms_conversation := cid, ms_updated := now \<rparr>) (db \<lparr> db_conversations := cs \<rparr>)"
    have d: "same_dispatch db (db \<lparr> db_conversations := cs \<rparr>)" by (simp add: same_dispatch_def)
    have "dispatch_view ?db = dispatch_view db"
      by (rule machine.equality; (rule ext)?; simp add: loadMessageStateHistory_def same_dispatchD [OF d] that)
    then show "keys_ok db \<Longrightarrow> keys_ok ?db \<and> move (dispatch_view db) None (dispatch_view ?db)"
      using mv_stay same_dispatchD(4) [OF d] by simp
  qed
  then show ?thesis
    using assms simulates_refl
    by (auto simp: RecordCreatedConversationFenced_def inTenantExec_def inTenant_def Let_def split: if_splits fault.splits option.splits)
qed

lemma MapProviderMessageState_not_queued: "MapProviderMessageState status \<noteq> MessageStateQueued"
  by (simp add: MapProviderMessageState_def no_state_def split: MessageStatusType.splits)

lemma record_provider_status_same:
  assumes "record_provider_status now sid k p db = Inr db'"
  shows "\<exists>rows. same_dispatch db db' \<and> db_status db' = db_status db @ rows \<and> (\<forall>r\<in>set rows. sr_tenant r = fst k \<and> sr_message r = snd k)
    \<and> map sr_state rows = observed_states p"
proof (cases "pm_State p = no_state")
  case True
  then show ?thesis using assms by (intro exI [of _ "[]"]) (simp add: record_provider_status_def same_dispatch_def observed_states_def)
next
  case False
  let ?row = "status_of (fst k) sid (snd k) (pm_State p) (if pm_ProviderStatus p = '''' then ''gmessages'' else pm_ProviderStatus p) '''' now"
  have "insertMessageStatus ?row db = Inr db'"
    using assms False by (simp add: record_provider_status_def)
  from insertMessageStatus_same [OF this] show ?thesis
    by (intro exI [of _ "[?row]"]) (simp add: False status_of_def observed_states_def)
qed

lemma lockProjectedMessage_row:
  "keys_ok db \<Longrightarrow> lockProjectedMessage ck p db = Some (k, m) \<Longrightarrow> message_of db k = Some m"
proof -
  assume K: "keys_ok db" and l: "lockProjectedMessage ck p db = Some (k, m)"
  define mine where "mine = filter (\<lambda>(i, m). fst i = fst ck \<and> ms_connection m = snd ck) (db_messages db)"
  have hd: "filter P mine = x # xs \<Longrightarrow> x \<in> set (db_messages db)" for P x xs
    unfolding mine_def by (metis filter_is_subset list.set_intros(1) subsetD)
  have "(k, m) \<in> set (db_messages db)"
    using l by (auto simp: lockProjectedMessage_def Let_def mine_def [symmetric] split: list.splits dest: hd)
  then show ?thesis by (rule row_lookup [OF K])
qed

lemma project_message_simulates:
  assumes "project_message now cand sid ck p db = Inr (v, db')" "pm_State p = MapProviderMessageState status"
  shows "simulates db db'"
proof (rule simulatesI)
  assume K: "keys_ok db"
  let ?hs = "observed_states p"
  have nq0: "pm_State p \<noteq> MessageStateQueued" using MapProviderMessageState_not_queued assms(2) by simp
  then have nq: "MessageStateQueued \<notin> set ?hs" by (simp add: observed_states_def)
  show "keys_ok db' \<and> move (dispatch_view db) None (dispatch_view db')"
  proof (cases "lockProjectedMessage ck p db")
    case None
    define s where "s = (if pm_State p = no_state then MessageStateUncertain else pm_State p)"
    define row where "row = projected_row now ck p"
    have n: "message_of db (fst ck, cand) = None" and st: "ms_state row = s"
      and rs: "record_provider_status now sid (fst ck, cand) p (put_message (fst ck, cand) row db) = Inr db'"
      using assms(1) None by (auto simp: project_message_def insert_projected_def row_def s_def projected_row_def Let_def bind_res_Inr split: if_splits)
    obtain rows where r: "same_dispatch (put_message (fst ck, cand) row db) db'" "db_status db' = db_status db @ rows"
      "\<forall>r\<in>set rows. sr_tenant r = fst (fst ck, cand) \<and> sr_message r = snd (fst ck, cand)" "map sr_state rows = ?hs"
      using record_provider_status_same [OF rs] by auto
    note same = same_dispatchD [OF r(1)]
    have mm: "message_of db' = (message_of db)((fst ck, cand) \<mapsto> row)" and aa: "attempt_of db' = attempt_of db" and ll: "db_lanes db' = db_lanes db"
      using same by simp_all
    have v: "dispatch_view db' = observe (fst ck, cand) s ?hs (dispatch_view db)"
      using view_update [OF mm r(2,3) aa ll] unfolding table_views st r(4) by (simp add: observe_def)
    have "s \<noteq> MessageStateQueued" using nq0 by (simp add: s_def)
    then show ?thesis using mv_insert [of "dispatch_view db" "(fst ck, cand)" s ?hs] n nq K same(4) unfolding v by simp
  next
    case (Some x)
    obtain k m where x: "x = (k, m)" by (cases x)
    have m: "message_of db k = Some m" using lockProjectedMessage_row [OF K] Some x by blast
    define d where "d = DeriveMessageState ((if loadMessageStateHistory k db = [] then [ms_state m] else loadMessageStateHistory k db) @ ?hs)"
    obtain direction where rs: "record_provider_status now sid k p (put_message k (reconciled_row now p d direction m) db) = Inr db'"
      using assms(1) Some x by (auto simp: project_message_def reconcile_message_def d_def Let_def bind_res_Inr split: if_splits)
    obtain rows where r: "same_dispatch (put_message k (reconciled_row now p d direction m) db) db'" "db_status db' = db_status db @ rows"
      "\<forall>r\<in>set rows. sr_tenant r = fst k \<and> sr_message r = snd k" "map sr_state rows = ?hs"
      using record_provider_status_same [OF rs] by auto
    note same = same_dispatchD [OF r(1)]
    have mm: "message_of db' = (message_of db)(k \<mapsto> reconciled_row now p d direction m)" and aa: "attempt_of db' = attempt_of db"
      and ll: "db_lanes db' = db_lanes db" using same by simp_all
    have st: "ms_state (reconciled_row now p d direction m) = d" by (simp add: reconciled_row_def)
    have v: "dispatch_view db' = observe k d ?hs (dispatch_view db)"
      using view_update [OF mm r(2,3) aa ll] unfolding table_views st r(4) by (simp add: observe_def)
    have "mc_state (dispatch_view db) k = Some (ms_state m)" by (simp add: m)
    from mv_evidence [OF this nq] have "move (dispatch_view db) None (dispatch_view db')" unfolding v d_def view_fields .
    then show ?thesis using K same(4) by simp
  qed
qed


section \<open>The store implements the machine\<close>

text \<open>
  Each transaction is one move with the label the step reports. The exception is a begin whose commit
  succeeded but whose acknowledgement was lost: it reports an error and starts the provider I/O in the
  store.
\<close>

definition lost_begin :: "'z messaging_db_scheme \<Rightarrow> mkey \<Rightarrow> 'z messaging_db_scheme \<Rightarrow> bool" where
  "lost_begin db k db' \<longleftrightarrow> (\<exists>f now claim ow e. BeginProviderIO f now claim ow db = (Inl e, db') \<and> k = claim_mkey claim)"

lemma messaging_step_moves:
  assumes "messaging_step collate db lbl db'" "keys_ok db" "machine_inv (dispatch_view db)"
  shows "keys_ok db' \<and> (move (dispatch_view db) lbl (dispatch_view db')
    \<or> (\<exists>k. lbl = None \<and> lost_begin db k db' \<and> move (dispatch_view db) (Some k) (dispatch_view db')))"
proof -
  have sim: "lbl = None \<Longrightarrow> simulates db db' \<Longrightarrow> ?thesis" using assms(2,3) unfolding simulates_def by blast
  show ?thesis using assms(1)
  proof cases
    case (d_begin f now claim ow b)
    note b = BeginProviderIO_simulates [OF d_begin(2) assms(2)]
    show ?thesis
    proof (cases b)
      case (Inl e)
      then have "lost_begin db (claim_mkey claim) db'" using d_begin(2) unfolding lost_begin_def by blast
      then show ?thesis using b d_begin(1) Inl mv_stay by (metis sum.distinct(1))
    next
      case (Inr r)
      then show ?thesis using b d_begin(1) mv_stay by (cases r) auto
    qed
  next
    case (d_project now cand statusID ck p v status)
    then show ?thesis using sim project_message_simulates by blast
  next
    case d_other
    then show ?thesis using sim simulates_same by blast
  qed (erule sim, erule CreateOutbound_simulates ClaimNext_simulates RenewProviderIO_simulates CompleteDispatch_simulates
      ReleaseBeforeDispatch_simulates RecordCreatedConversationFenced_simulates)+
qed

lemma messaging_step_refines:
  assumes "keys_ok db" "machine_inv (dispatch_view db)" "messaging_step collate db lbl db'"
  shows "keys_ok db' \<and> (\<exists>lbl'. (lbl = None \<or> lbl' = lbl) \<and> move (dispatch_view db) lbl' (dispatch_view db'))"
  using messaging_step_moves [OF assms(3,1,2)] by blast

interpretation message_store: dispatch_contract "messaging_step collate" dispatch_view keys_ok
  by unfold_locales (rule messaging_step_refines)

end
