(* ===== verification/Dispatcher.thy ===== *)
theory Dispatcher
  imports Dispatch_Correct "HOL-Library.Sublist"
begin

text \<open>
  The dispatcher of \<^verbatim>\<open>messaging/dispatch.go\<close> over the message store. The other processes act between
  the calls of the store: \<open>de_between n\<close> is what they do to the database before the n-th call. The
  ticks of the renewal goroutine that fall into the send are a list, each with its own interference.
\<close>

record Dispatcher =
  dp_ownerID :: owner_id
  dp_renew :: duration

definition NewDispatcher :: "bool \<Rightarrow> bool \<Rightarrow> owner_id \<Rightarrow> duration \<Rightarrow> Dispatcher result" where
  "NewDispatcher hasStore hasSender ownerID renewInterval =
     (if \<not> hasStore \<or> \<not> hasSender \<or> ownerID = '''' \<or> 256 < length ownerID then Inl (Sentinel ErrInvalidCommand)
      else let renew = (if renewInterval = 0 then 10 * second else renewInterval)
           in if renew < millisecond \<or> 15 * second < renew then Inl (Sentinel ErrInvalidCommand)
              else Inr \<lparr> dp_ownerID = ownerID, dp_renew = renew \<rparr>)"

record ProviderSendResult =
  ps_Accepted :: bool
  ps_FailureReason :: string
  ps_ConversationID :: string

record ProviderSendCommand =
  pc_Message :: OutboundMessage
  pc_FencingToken :: token

record 'db renew_tick =
  rt_fault :: fault
  rt_now :: instant
  rt_before :: "'db \<Rightarrow> 'db"

record 'db dispatch_env =
  de_claim :: claim_env
  de_fault :: "nat \<Rightarrow> fault"
  de_now :: "nat \<Rightarrow> instant"
  de_between :: "nat \<Rightarrow> 'db \<Rightarrow> 'db"
  de_ticks :: "'db renew_tick list"
  de_send :: "ProviderSendResult \<times> goerror"
  de_codec :: codec
  de_wall :: instant
  de_newID :: "nat \<Rightarrow> string"

text \<open>The renewal goroutine: it ends with the first tick that fails to renew, or when the send is over.\<close>

fun renewProviderIO ::
  "owner_id \<Rightarrow> DispatchClaim \<Rightarrow> 'z messaging_db_scheme renew_tick list \<Rightarrow> 'z messaging_db_scheme \<Rightarrow> goerror \<times> 'z messaging_db_scheme" where
  "renewProviderIO ownerID claim [] db = (None, db)"
| "renewProviderIO ownerID claim (tick # ticks) db =
     (case RenewProviderIO (rt_fault tick) (rt_now tick) claim ownerID (rt_before tick db) of
        (Inl e, db') \<Rightarrow> (Some e, db')
      | (Inr False, db') \<Rightarrow> (Some (Sentinel ErrDispatchFenceLost), db')
      | (Inr True, db') \<Rightarrow> renewProviderIO ownerID claim ticks db')"

text \<open>What is recorded about a send: the states and the reason, from the renewal, the error and the result.\<close>

definition dispatch_outcome :: "goerror \<Rightarrow> goerror \<Rightarrow> ProviderSendResult \<Rightarrow> MessageState list \<times> string" where
  "dispatch_outcome renewErr sendErr result =
     (if renewErr \<noteq> None then ([MessageStateUncertain], ''dispatch_fence_lost'')
      else if sendErr \<noteq> None then ([MessageStateUncertain], ''provider_io_ambiguous'')
      else if ps_Accepted result then ([MessageStateProviderAccepted, MessageStateAwaitingPhone], '''')
      else if ps_FailureReason result \<noteq> '''' then ([MessageStateFailed], ps_FailureReason result)
      else ([MessageStateUncertain], ''provider_response_ambiguous''))"

definition sent_claim :: "goerror \<Rightarrow> goerror \<Rightarrow> ProviderSendResult \<Rightarrow> DispatchClaim \<Rightarrow> DispatchClaim" where
  "sent_claim renewErr sendErr result claim =
     (if renewErr = None \<and> sendErr = None \<and> ps_ConversationID result \<noteq> ''''
      then claim \<lparr> dc_Message := (dc_Message claim) \<lparr> om_ConversationID := ps_ConversationID result \<rparr> \<rparr> else claim)"

text \<open>
  \<^verbatim>\<open>DispatchLane\<close>: whether a message was claimed and the error, the command given to \<^verbatim>\<open>SendOnce\<close>
  if it was called, and the database.
\<close>

definition dispatch_send ::
  "Dispatcher \<Rightarrow> 'z messaging_db_scheme dispatch_env \<Rightarrow> DispatchClaim \<Rightarrow> 'z messaging_db_scheme \<Rightarrow> goerror \<times> 'z messaging_db_scheme" where
  "dispatch_send d env claim db =
     (let (renewErr, db1) = renewProviderIO (dp_ownerID d) claim (de_ticks env) db;
          (result, sendErr) = de_send env;
          (states, reason) = dispatch_outcome renewErr sendErr result
      in CompleteDispatch (de_codec env) (de_fault env 2) (de_now env 2) (de_wall env) (de_newID env)
           (sent_claim renewErr sendErr result claim) states reason (de_between env 2 db1))"

definition DispatchLane ::
  "(string \<Rightarrow> 'k::linorder) \<Rightarrow> Dispatcher \<Rightarrow> 'z messaging_db_scheme dispatch_env \<Rightarrow> LaneKey \<Rightarrow> 'z messaging_db_scheme
   \<Rightarrow> (bool \<times> goerror) \<times> ProviderSendCommand option \<times> 'z messaging_db_scheme" where
  "DispatchLane collate d env lane db =
     (if lk_TenantID lane = '''' \<or> lk_ConnectionID lane = '''' \<or> lk_ConversationID lane = ''''
      then ((False, Some (Sentinel ErrInvalidRoute)), None, db)
      else case ClaimNext collate (de_claim env) lane (dp_ownerID d) (de_between env 0 db) of
        (Inl e, db1) \<Rightarrow> ((False, Some e), None, db1)
      | (Inr None, db1) \<Rightarrow> ((False, None), None, db1)
      | (Inr (Some claim), db1) \<Rightarrow>
          (case BeginProviderIO (de_fault env 1) (de_now env 1) claim (dp_ownerID d) (de_between env 1 db1) of
             (Inr True, db2) \<Rightarrow>
               (let (err, db3) = dispatch_send d env claim db2
                in ((True, err), Some \<lparr> pc_Message = dc_Message claim, pc_FencingToken = dc_FencingToken claim \<rparr>, db3))
           | (begun, db2) \<Rightarrow>
               (let (releaseErr, db3) = ReleaseBeforeDispatch (de_fault env 2) (de_now env 2) (de_newID env 0) claim ''fence_lost'' (de_between env 2 db2)
                in ((True, (case begun of Inl e \<Rightarrow> Some e
                            | Inr _ \<Rightarrow> (if releaseErr \<noteq> None then releaseErr else Some (Sentinel ErrDispatchFenceLost)))), None, db3))))"

section \<open>Dispatches are runs of the store\<close>

definition environment_ok :: "(string \<Rightarrow> 'k::linorder) \<Rightarrow> 'z messaging_db_scheme dispatch_env \<Rightarrow> bool" where
  "environment_ok collate env \<longleftrightarrow> (\<forall>n db. \<exists>ls. labelled_run (messaging_step collate) db ls (de_between env n db))
     \<and> (\<forall>tick\<in>set (de_ticks env). \<forall>db. \<exists>ls. labelled_run (messaging_step collate) db ls (rt_before tick db))"

lemma labelled_run_trans: "labelled_run R b ks c \<Longrightarrow> labelled_run R a ls b \<Longrightarrow> labelled_run R a (ls @ ks) c"
proof (induction rule: labelled_run.induct)
  case (run_step s ks s' lbl s'')
  then show ?case using labelled_run.run_step [of R a "ls @ ks" s' lbl s''] by simp
qed (simp add: run_refl)

lemma labelled_run_one: "R a lbl b \<Longrightarrow> labelled_run R a (case lbl of None \<Rightarrow> [] | Some k \<Rightarrow> [k]) b"
  using run_step [OF run_refl, of R a lbl b] by simp

definition reaches :: "(string \<Rightarrow> 'k::linorder) \<Rightarrow> 'z messaging_db_scheme \<Rightarrow> 'z messaging_db_scheme \<Rightarrow> bool" where
  "reaches collate db db' \<longleftrightarrow> (\<exists>ls. labelled_run (messaging_step collate) db ls db')"

lemma reaches_trans: "reaches collate a b \<Longrightarrow> reaches collate b c \<Longrightarrow> reaches collate a c"
  unfolding reaches_def by (blast intro: labelled_run_trans)

lemma reaches_refl: "reaches collate a a"
  unfolding reaches_def by (rule exI, rule run_refl)

lemma reaches_step: "messaging_step collate a None b \<Longrightarrow> reaches collate a b"
  unfolding reaches_def by (blast dest: labelled_run_one)

lemma renew_reaches:
  "\<forall>tick\<in>set ticks. \<forall>db. reaches collate db (rt_before tick db) \<Longrightarrow> renewProviderIO ow claim ticks db = (e, db') \<Longrightarrow> reaches collate db db'"
proof (induction ticks arbitrary: db)
  case Nil
  then show ?case unfolding reaches_def using run_refl by fastforce
next
  case (Cons tick ticks)
  obtain b db1 where r: "RenewProviderIO (rt_fault tick) (rt_now tick) claim ow (rt_before tick db) = (b, db1)" by fastforce
  have "reaches collate db (rt_before tick db)" using Cons.prems(1) by simp
  then have "reaches collate db db1" by (rule reaches_trans [OF _ reaches_step [OF d_renew [OF r]]])
  moreover have "db' = db1 \<or> renewProviderIO ow claim ticks db1 = (e, db')" using Cons.prems(2) r by (auto split: sum.splits bool.splits)
  ultimately show ?case using Cons.IH Cons.prems(1) reaches_trans by (metis list.set_intros(2))
qed

text \<open>A dispatch is a run of the store, which starts the provider I/O of the message it sends.\<close>

lemma dispatch_send_reaches:
  assumes "dispatch_send d env claim db = (e, db')" "environment_ok collate env"
  shows "reaches collate db db'"
proof -
  obtain renewErr db1 result sendErr states reason where r: "renewProviderIO (dp_ownerID d) claim (de_ticks env) db = (renewErr, db1)"
    and c: "CompleteDispatch (de_codec env) (de_fault env 2) (de_now env 2) (de_wall env) (de_newID env)
           (sent_claim renewErr sendErr result claim) states reason (de_between env 2 db1) = (e, db')"
    using assms(1) by (auto simp: dispatch_send_def Let_def split: prod.splits)
  have env: "reaches collate x (de_between env n x)" "\<forall>tick\<in>set (de_ticks env). \<forall>db. reaches collate db (rt_before tick db)" for n x
    using assms(2) by (auto simp: environment_ok_def reaches_def)
  show ?thesis
    using renew_reaches [OF env(2) r] env(1) [of db1 2] reaches_step [OF d_complete [OF c]] reaches_trans by metis
qed

lemma DispatchLane_run:
  assumes D: "DispatchLane collate d env lane db = (r, sent, db')" and E: "environment_ok collate env"
  shows "\<exists>ls. labelled_run (messaging_step collate) db ls db'
    \<and> (\<forall>cmd. sent = Some cmd \<longrightarrow> (om_TenantID (pc_Message cmd), om_ID (pc_Message cmd)) \<in> set ls)"
proof -
  have env: "reaches collate x (de_between env n x)" for n x using E by (simp add: environment_ok_def reaches_def)
  have plain: ?thesis if "sent = None" "reaches collate db db'" using that by (auto simp: reaches_def)
  show ?thesis
  proof (cases "lk_TenantID lane = '''' \<or> lk_ConnectionID lane = '''' \<or> lk_ConversationID lane = ''''")
    case True
    then have "sent = None" "db' = db" using D by (simp_all add: DispatchLane_def)
    then show ?thesis using run_refl by fastforce
  next
    case False
    obtain c db1 where c: "ClaimNext collate (de_claim env) lane (dp_ownerID d) (de_between env 0 db) = (c, db1)" by fastforce
    have r1: "reaches collate db db1" using reaches_trans [OF env reaches_step [OF d_claim [OF c]]] .
    show ?thesis
    proof (cases "\<exists>claim. c = Inr (Some claim)")
      case nc: False
      then have "sent = None" "db' = db1" using D c False by (auto simp: DispatchLane_def split: sum.splits option.splits)
      then show ?thesis using plain r1 by blast
    next
      case True
      then obtain claim where cl: "c = Inr (Some claim)" by blast
      obtain b db2 where b: "BeginProviderIO (de_fault env 1) (de_now env 1) claim (dp_ownerID d) (de_between env 1 db1) = (b, db2)" by fastforce
      obtain ls1 where ls1: "labelled_run (messaging_step collate) db ls1 (de_between env 1 db1)"
        using reaches_trans [OF r1 env] by (auto simp: reaches_def)
      let ?ks = "case if b = Inr True then Some (claim_mkey claim) else None of None \<Rightarrow> [] | Some k \<Rightarrow> [k]"
      have r2: "labelled_run (messaging_step collate) db (ls1 @ ?ks) db2"
        by (rule labelled_run_trans [OF _ ls1], rule labelled_run_one, rule d_begin [OF b])
      show ?thesis
      proof (cases "b = Inr True")
        case True
        obtain e where s: "dispatch_send d env claim db2 = (e, db')" and m: "sent = Some \<lparr> pc_Message = dc_Message claim, pc_FencingToken = dc_FencingToken claim \<rparr>"
          using D c cl b True False by (auto simp: DispatchLane_def split: prod.splits)
        obtain ls3 where "labelled_run (messaging_step collate) db2 ls3 db'" using dispatch_send_reaches [OF s E] by (auto simp: reaches_def)
        then have "labelled_run (messaging_step collate) db ((ls1 @ ?ks) @ ls3) db'" by (rule labelled_run_trans [OF _ r2])
        then show ?thesis using m True by (intro exI [of _ "(ls1 @ ?ks) @ ls3"]) (simp add: claim_mkey_def)
      next
        case nb: False
        obtain e where rel: "ReleaseBeforeDispatch (de_fault env 2) (de_now env 2) (de_newID env 0) claim ''fence_lost'' (de_between env 2 db2) = (e, db')"
          and "sent = None"
          using D c cl b nb False by (auto simp: DispatchLane_def split: prod.splits sum.splits bool.splits)
        moreover have "reaches collate db db2" using r2 by (auto simp: reaches_def)
        then have "reaches collate db db'" using reaches_trans env reaches_step [OF d_release [OF rel]] by metis
        ultimately show ?thesis using plain by blast
      qed
    qed
  qed
qed

section \<open>No message is sent twice\<close>

text \<open>A store without messages, attempts and lanes.\<close>

definition fresh_store :: "'z messaging_db_scheme \<Rightarrow> bool" where
  "fresh_store db \<longleftrightarrow> db_messages db = [] \<and> db_attempts db = [] \<and> db_lanes db = Map.empty"

lemma fresh_store_ok: "fresh_store db \<Longrightarrow> keys_ok db \<and> machine_inv (dispatch_view db)"
  by (auto simp: fresh_store_def keys_ok_def attempt_of_def intro!: machine_invI)

lemma fresh_run_distinct:
  "fresh_store db \<Longrightarrow> labelled_run (messaging_step collate) db ls db' \<Longrightarrow> distinct ls \<and> (\<forall>k\<in>set ls. io_started (dispatch_view db') k)"
  using message_store.run_starts_once fresh_store_ok by blast

text \<open>
  C5. At most one send per message. Let the processes of the gateway act in any way on an initially
  empty message store (creating, claiming, renewing, crashing, recovering, completing, importing
  provider evidence), and let two dispatches, one after the other and possibly by different
  processes, each call the provider, with any interference between their own steps, lost
  acknowledgements and failed transactions included. Then they send different messages, and no
  message that was sent is in the queue again.
\<close>

theorem no_message_sent_twice:
  assumes "fresh_store db0" and "reaches collate db0 db1"
    and "DispatchLane collate d1 env1 lane1 db1 = (r1, Some sent1, db2)" and "environment_ok collate env1"
    and "reaches collate db2 db3"
    and "DispatchLane collate d2 env2 lane2 db3 = (r2, Some sent2, db4)" and "environment_ok collate env2"
  shows "(om_TenantID (pc_Message sent1), om_ID (pc_Message sent1)) \<noteq> (om_TenantID (pc_Message sent2), om_ID (pc_Message sent2))
    \<and> map_option ms_state (message_of db4 (om_TenantID (pc_Message sent1), om_ID (pc_Message sent1))) \<noteq> Some MessageStateQueued"
proof -
  let ?R = "labelled_run (messaging_step collate)" and ?k1 = "(om_TenantID (pc_Message sent1), om_ID (pc_Message sent1))"
  obtain l0 l1 l2 l3 where l: "?R db0 l0 db1" "?R db1 l1 db2" "?k1 \<in> set l1" "?R db2 l2 db3" "?R db3 l3 db4"
    "(om_TenantID (pc_Message sent2), om_ID (pc_Message sent2)) \<in> set l3"
    using DispatchLane_run [OF assms(3,4)] DispatchLane_run [OF assms(6,7)] assms(2,5) unfolding reaches_def by blast
  have "?R db0 (((l0 @ l1) @ l2) @ l3) db4" using l by (blast intro: labelled_run_trans)
  note d = fresh_run_distinct [OF assms(1) this]
  have r2: "?R db0 (l0 @ l1) db2" and r4: "?R db2 (l2 @ l3) db4" using l by (blast intro: labelled_run_trans)+
  have "keys_ok db2 \<and> machine_inv (dispatch_view db2)" using message_store.run_inv [OF r2] fresh_store_ok [OF assms(1)] by blast
  moreover have "io_started (dispatch_view db2) ?k1" using fresh_run_distinct [OF assms(1) r2] l(3) by auto
  ultimately have "mc_state (dispatch_view db4) ?k1 \<noteq> Some MessageStateQueued" using message_store.started_not_queued r4 by blast
  then show ?thesis using d l(3,6) by auto
qed

section \<open>An example\<close>

text \<open>A store with one connection and lease, two messages to one recipient, and a dispatcher without interference.\<close>

definition demo_store :: messaging_db where
  "demo_store = \<lparr> db_tenants = db_tenants demo_db, db_connections = db_connections demo_db, db_sessions = db_sessions demo_db,
     db_leases = db_leases demo_db, db_health = db_health demo_db, db_lines = db_lines demo_db, db_events = db_events demo_db,
     db_outbox = db_outbox demo_db, db_admin_events = db_admin_events demo_db, db_messages = [], db_status = [],
     db_idempotency = Map.empty, db_lanes = Map.empty, db_attempts = [], db_conversations = Map.empty, db_media = Map.empty,
     db_message_media = Map.empty, db_kafka_commands = Map.empty \<rparr>"

definition demo_message :: "string \<Rightarrow> instant \<Rightarrow> OutboundMessage" where
  "demo_message i at = \<lparr> om_ID = i, om_TenantID = ''t1'', om_ConnectionID = ''c1'', om_ConversationID = '''', om_Recipient = ''+14155550100'',
     om_LineID = '''', om_RouteMode = ''phone_default'', om_Text = ''hi'', om_MediaIDs = [], om_ProviderTmpID = ''sx-'' @ i, om_ProviderMessageID = '''',
     om_Direction = ''outbound'', om_Transport = '''', om_Attachments = [], om_State = MessageStateQueued, om_CreatedAt = at \<rparr>"

definition demo_command :: "string \<Rightarrow> instant \<Rightarrow> CreateCommand" where
  "demo_command i at = \<lparr> co_IdempotencyKey = ''key-'' @ i, co_RequestDigest = replicate 32 CHR ''d'', co_Message = demo_message i at, co_CommandAudit = None \<rparr>"

definition demo_ids :: "string \<Rightarrow> nat \<Rightarrow> string" where
  "demo_ids p n = p @ replicate n CHR ''x''"

definition demo_created :: messaging_db where
  "demo_created = snd (CreateOutbound demo_codec NoFault 10 10 (demo_ids ''b'') (demo_command ''m2'' 6)
     (snd (CreateOutbound demo_codec NoFault 10 10 (demo_ids ''a'') (demo_command ''m1'' 5) demo_store)))"

definition demo_lane :: LaneKey where
  "demo_lane = \<lparr> lk_TenantID = ''t1'', lk_ConnectionID = ''c1'', lk_ConversationID = ''new:+14155550100'' \<rparr>"

definition demo_claim_env :: "string \<Rightarrow> claim_env" where
  "demo_claim_env p = \<lparr> ce_fault = NoFault, ce_now = 20, ce_newID = demo_ids p, ce_jsonb = (\<lambda>_ _. ''json''), ce_release_first = False \<rparr>"

definition demo_dispatcher :: Dispatcher where
  "demo_dispatcher = \<lparr> dp_ownerID = ''replica-a'', dp_renew = 10 * second \<rparr>"

definition demo_dispatch :: "string \<Rightarrow> messaging_db dispatch_env" where
  "demo_dispatch p = \<lparr> de_claim = demo_claim_env p, de_fault = (\<lambda>_. NoFault), de_now = (\<lambda>_. 30), de_between = (\<lambda>_ db. db),
     de_ticks = [\<lparr> rt_fault = NoFault, rt_now = 25, rt_before = (\<lambda>db. db) \<rparr>],
     de_send = (\<lparr> ps_Accepted = True, ps_FailureReason = '''', ps_ConversationID = '''' \<rparr>, None), de_codec = demo_codec,
     de_wall = 30, de_newID = demo_ids (p @ ''y'') \<rparr>"

definition demo_sent1 :: "(bool \<times> goerror) \<times> ProviderSendCommand option \<times> messaging_db" where
  "demo_sent1 = DispatchLane length demo_dispatcher (demo_dispatch ''c'') demo_lane demo_created"

definition demo_sent2 :: "(bool \<times> goerror) \<times> ProviderSendCommand option \<times> messaging_db" where
  "demo_sent2 = DispatchLane length demo_dispatcher (demo_dispatch ''d'') demo_lane (snd (snd demo_sent1))"

lemma demo_sent_messages:
  "map_option (\<lambda>c. om_ID (pc_Message c)) (fst (snd demo_sent1)) = Some ''m1''"
  "map_option (\<lambda>c. om_ID (pc_Message c)) (fst (snd demo_sent2)) = Some ''m2''"
  by code_simp+

lemma demo_sent_tenant: "map_option (\<lambda>c. om_TenantID (pc_Message c)) (fst (snd demo_sent1)) = Some ''t1''"
  by code_simp

lemma demo_created_reached: "reaches length demo_store demo_created"
  unfolding demo_created_def
  by (rule reaches_trans [OF reaches_step [OF d_create [OF prod.collapse [symmetric]]] reaches_step [OF d_create [OF prod.collapse [symmetric]]]])

lemma demo_environment_ok: "environment_ok length (demo_dispatch p)"
  using run_refl by (fastforce simp: environment_ok_def demo_dispatch_def)

lemma demo_fresh: "fresh_store demo_store"
  by (simp add: fresh_store_def demo_store_def)

theorem no_message_sent_twice_witness:
  "\<exists>r1 sent1 db2 r2 sent2 db4. DispatchLane length demo_dispatcher (demo_dispatch ''c'') demo_lane demo_created = (r1, Some sent1, db2)
     \<and> DispatchLane length demo_dispatcher (demo_dispatch ''d'') demo_lane db2 = (r2, Some sent2, db4)
     \<and> map_option ms_state (message_of db4 (om_TenantID (pc_Message sent1), om_ID (pc_Message sent1))) \<noteq> Some MessageStateQueued"
proof -
  obtain r1 s1 db2 where e1: "demo_sent1 = (r1, s1, db2)" by (cases demo_sent1)
  obtain r2 s2 db4 where e2: "demo_sent2 = (r2, s2, db4)" by (cases demo_sent2)
  obtain sent1 sent2 where s: "s1 = Some sent1" "s2 = Some sent2" using demo_sent_messages unfolding e1 e2 by auto
  have 1: "DispatchLane length demo_dispatcher (demo_dispatch ''c'') demo_lane demo_created = (r1, Some sent1, db2)"
    using e1 s by (simp add: demo_sent1_def)
  have 2: "DispatchLane length demo_dispatcher (demo_dispatch ''d'') demo_lane db2 = (r2, Some sent2, db4)"
    using e2 unfolding demo_sent2_def e1 s by simp
  from no_message_sent_twice [OF demo_fresh demo_created_reached 1 demo_environment_ok reaches_refl 2 demo_environment_ok] show ?thesis using 1 2 by blast
qed

section \<open>Every run of the store is a run of the machine\<close>

lemma store_run_machine:
  assumes "fresh_store db" and "labelled_run (messaging_step collate) db ls db'"
  shows "\<exists>ls'. labelled_run move (dispatch_view db) ls' (dispatch_view db') \<and> subseq ls ls'"
  using assms(2,1)
proof (induction rule: labelled_run.induct)
  case (run_refl s)
  then show ?case using labelled_run.run_refl by (intro exI [of _ "[]"]) simp
next
  case (run_step s ls s' lbl s'')
  obtain ls' where l: "labelled_run move (dispatch_view s) ls' (dispatch_view s')" "subseq ls ls'" using run_step by blast
  have "keys_ok s' \<and> machine_inv (dispatch_view s')" using message_store.run_inv [OF run_step(1)] fresh_store_ok [OF run_step(4)] by blast
  then obtain lbl' where m: "lbl = None \<or> lbl' = lbl" "move (dispatch_view s') lbl' (dispatch_view s'')" using message_store.refines run_step(2) by blast
  have "subseq (case lbl of None \<Rightarrow> [] | Some k \<Rightarrow> [k]) (case lbl' of None \<Rightarrow> [] | Some k \<Rightarrow> [k])" using m(1) by auto
  then show ?case using labelled_run.run_step [OF l(1) m(2)] list_emb_append_mono [OF l(2)] by blast
qed

lemma machine_run_distinct: "labelled_run move v ls v' \<Longrightarrow> machine_inv v \<Longrightarrow> distinct ls"
  using machine_itself.run_starts_once by blast

text \<open>
  C6. The message store implements the dispatch machine. In every database that any sequence of
  transactions of any processes makes of an empty message store, the invariant of the machine holds
  of the database view. Each further transaction is one move of the machine, with the label it
  reports; only a begin whose acknowledgement was lost starts the provider I/O of its message while it
  reports an error. So the whole history is a run of the machine that starts every message at most
  once, and starts the messages the store reported in the order it reported them.
\<close>

theorem store_implements_dispatch_machine:
  assumes "fresh_store db" and "labelled_run (messaging_step collate) db ls db'"
  shows "machine_inv (dispatch_view db')
    \<and> (\<forall>lbl db''. messaging_step collate db' lbl db'' \<longrightarrow> move (dispatch_view db') lbl (dispatch_view db'')
         \<or> (\<exists>k. lbl = None \<and> lost_begin db' k db'' \<and> move (dispatch_view db') (Some k) (dispatch_view db'')))
    \<and> (\<exists>ls'. labelled_run move (dispatch_view db) ls' (dispatch_view db') \<and> subseq ls ls' \<and> distinct ls')"
proof (intro conjI allI impI)
  have I: "keys_ok db'" "machine_inv (dispatch_view db')" using message_store.run_inv [OF assms(2)] fresh_store_ok [OF assms(1)] by blast+
  show "machine_inv (dispatch_view db')" by (rule I)
  show "move (dispatch_view db') lbl (dispatch_view db'')
      \<or> (\<exists>k. lbl = None \<and> lost_begin db' k db'' \<and> move (dispatch_view db') (Some k) (dispatch_view db''))"
    if "messaging_step collate db' lbl db''" for lbl db''
    using messaging_step_moves [OF that I] by blast
  show "\<exists>ls'. labelled_run move (dispatch_view db) ls' (dispatch_view db') \<and> subseq ls ls' \<and> distinct ls'"
    using store_run_machine [OF assms] machine_run_distinct fresh_store_ok [OF assms(1)] by blast
qed

text \<open>The example creates two messages, claims the first, starts its provider I/O, renews the claim and completes it.\<close>

theorem store_implements_dispatch_machine_witness:
  "\<exists>ls ls'. labelled_run (messaging_step length) demo_store ls (snd (snd demo_sent1)) \<and> (''t1'', ''m1'') \<in> set ls
     \<and> labelled_run move (dispatch_view demo_store) ls' (dispatch_view (snd (snd demo_sent1))) \<and> subseq ls ls' \<and> distinct ls'
     \<and> machine_inv (dispatch_view (snd (snd demo_sent1)))"
proof -
  obtain r s db2 where e: "demo_sent1 = (r, s, db2)" by (cases demo_sent1)
  obtain cmd where s: "s = Some cmd" "om_ID (pc_Message cmd) = ''m1''" "om_TenantID (pc_Message cmd) = ''t1''"
    using demo_sent_messages(1) demo_sent_tenant unfolding e by auto
  obtain ls1 where "labelled_run (messaging_step length) demo_store ls1 demo_created" using demo_created_reached by (auto simp: reaches_def)
  moreover obtain ls2 where "labelled_run (messaging_step length) demo_created ls2 db2" "(''t1'', ''m1'') \<in> set ls2"
    using DispatchLane_run [OF e [unfolded demo_sent1_def] demo_environment_ok] s by auto
  ultimately have "labelled_run (messaging_step length) demo_store (ls1 @ ls2) db2" "(''t1'', ''m1'') \<in> set (ls1 @ ls2)"
    by (auto intro: labelled_run_trans)
  then show ?thesis using store_implements_dispatch_machine [OF demo_fresh] unfolding e snd_conv by blast
qed

end
