(* ===== verification/Dispatch_Outcome.thy ===== *)
theory Dispatch_Outcome
  imports Dispatcher
begin

text \<open>
  What a claim and a dispatch guarantee on their own: claims are exclusive and in order, a completed
  dispatch records what the provider answered, and what happens when provider evidence overtakes
  the completion.
\<close>

section \<open>Claims\<close>

lemma claim_row:
  assumes "ClaimNext collate env lane ow db = (Inr (Some claim), db')"
  defines "k \<equiv> (lk_TenantID lane, lk_ConnectionID lane, lk_ConversationID lane)"
  obtains row tok i m where "claimable_lane (ce_now env) k db = Some row" "lane_candidate collate k db = Some (i, m)"
    "take_lane env lane ow row tok i m db = Inr (Some claim, db')"
    "lk_TenantID lane \<noteq> ''''" "ow \<noteq> ''''"
proof -
  have v: "lk_TenantID lane \<noteq> ''''" "ow \<noteq> ''''" using assms(1) by (auto simp: ClaimNext_def Let_def split: if_splits)
  have "(case lease_of_owner (ce_now env) (lk_TenantID lane, lk_ConnectionID lane) ow db of
          None \<Rightarrow> Inr (None, db)
        | Some lease \<Rightarrow>
            (case claimable_lane (ce_now env) k db of
               None \<Rightarrow> Inr (None, db)
             | Some row \<Rightarrow> claim_lane collate env lane ow row (ls_token lease) db)) = Inr (Some claim, db')"
    using assms(1) unfolding k_def by (auto simp: ClaimNext_def Let_def split: if_splits dest!: inTenant_value)
  then obtain tok row where r: "claimable_lane (ce_now env) k db = Some row" and c: "claim_lane collate env lane ow row tok db = Inr (Some claim, db')"
    by (auto split: option.splits)
  show thesis
  proof (cases "stale_attempt collate k row db")
    case (Some x)
    then show thesis using c by (auto simp: claim_lane_def k_def [symmetric] Let_def bind_res_Inr split: prod.splits)
  next
    case None
    then obtain x where x: "lane_candidate collate k db = Some x" using c by (auto simp: claim_lane_def k_def [symmetric] Let_def split: option.splits)
    then have "take_lane env lane ow row tok (fst x) (snd x) db = Inr (Some claim, db')"
      using c None by (auto simp: claim_lane_def k_def [symmetric] Let_def split_beta split: if_splits)
    then show thesis using that r x v by (metis prod.collapse)
  qed
qed

lemma take_lane_result:
  assumes "take_lane env lane ow row tok i m db = Inr (Some claim, db')" "fst i = lk_TenantID lane"
  shows "claim_mkey claim = i \<and> dc_LaneToken claim = lr_token row + 1 \<and> dc_OwnerID claim = ow \<and> dc_FencingToken claim = tok
    \<and> db_lanes db' (lk_TenantID lane, lk_ConnectionID lane, lk_ConversationID lane)
        = Some \<lparr> lr_token = lr_token row + 1, lr_owner = Some ow, lr_message = Some (snd i), lr_expires = Some (ce_now env + 30000000), lr_updated = ce_now env \<rparr>"
proof -
  obtain db1 where s: "insertMessageStatus (status_of (lk_TenantID lane) (ce_newID env 1) (snd i) MessageStateDispatching '''' '''' (ce_now env)) db1 = Inr db'"
    and l: "db_lanes db1 (lk_TenantID lane, lk_ConnectionID lane, lk_ConversationID lane)
        = Some \<lparr> lr_token = lr_token row + 1, lr_owner = Some ow, lr_message = Some (snd i), lr_expires = Some (ce_now env + 30000000), lr_updated = ce_now env \<rparr>"
    and c: "claim = claim_of lane ow (ce_newID env 0) (lr_token row + 1) tok i m (media_ids db i)"
    using assms(1) by (auto simp: take_lane_def Let_def bind_res_Inr split: if_splits)
  show ?thesis
    using insertMessageStatus_same [OF s] l c assms(2)
    by (simp add: same_dispatch_def claim_mkey_def claim_of_def outbound_of_def prod_eq_iff)
qed

lemma ClaimNext_busy:
  assumes "claimable_lane (ce_now env) (lk_TenantID lane, lk_ConnectionID lane, lk_ConversationID lane) db = None"
  shows "snd (ClaimNext collate env lane ow db) = db \<and> (\<forall>c. fst (ClaimNext collate env lane ow db) \<noteq> Inr (Some c))"
  using assms by (simp add: ClaimNext_def Let_def inTenant_def split: fault.split option.split)

text \<open>
  C11. Claims are taken in order and are exclusive: a claim is the queued message of its lane that
  was created first, under a lane token one higher than before; and until the claim expires, no
  claim of the lane, by any owner, succeeds or changes anything.
\<close>

theorem claim_oldest_and_exclusive:
  assumes "keys_ok db" and "ClaimNext collate env lane ow db = (Inr (Some claim), db')"
  defines "k \<equiv> (lk_TenantID lane, lk_ConnectionID lane, lk_ConversationID lane)"
  shows "(\<exists>m. (claim_mkey claim, m) \<in> set (lane_queue k db) \<and> (\<forall>x\<in>set (lane_queue k db). ms_created m \<le> ms_created (snd x)))
    \<and> map_option lr_token (db_lanes db' k) = map_option (\<lambda>r. lr_token r + 1) (db_lanes db k)
    \<and> (\<forall>env' ow'. ce_now env' < ce_now env + 30000000 \<longrightarrow>
         snd (ClaimNext collate env' lane ow' db') = db' \<and> (\<forall>c. fst (ClaimNext collate env' lane ow' db') \<noteq> Inr (Some c)))"
proof -
  obtain row tok i m where r: "claimable_lane (ce_now env) k db = Some row" "lane_candidate collate k db = Some (i, m)"
    and t: "take_lane env lane ow row tok i m db = Inr (Some claim, db')"
    by (rule claim_row [OF assms(2), folded k_def])
  note cand = lane_candidate_Some [OF r(2)]
  then have "fst i = lk_TenantID lane" using lane_queue_row [OF assms(1), of i m k] by (simp add: k_def)
  note res = take_lane_result [OF t this, folded k_def]
  have row: "db_lanes db k = Some row" using r(1) by (auto simp: claimable_lane_def split: option.splits if_splits)
  have busy: "claimable_lane now k db' = None" if "now < ce_now env + 30000000" for now
    using res that by (simp add: claimable_lane_def)
  have excl: "snd (ClaimNext collate env' lane ow' db') = db' \<and> (\<forall>c. fst (ClaimNext collate env' lane ow' db') \<noteq> Inr (Some c))"
    if "ce_now env' < ce_now env + 30000000" for env' ow'
    using busy [OF that] unfolding k_def by (rule ClaimNext_busy)
  have oldest: "(claim_mkey claim, m) \<in> set (lane_queue k db) \<and> (\<forall>x\<in>set (lane_queue k db). ms_created m \<le> ms_created (snd x))"
    using cand res by simp
  have token: "map_option lr_token (db_lanes db' k) = map_option (\<lambda>r. lr_token r + 1) (db_lanes db k)"
    using res row by simp
  show ?thesis by (intro conjI [OF exI [of _ m] conjI] oldest token allI impI excl)
qed

lemma demo_claim: "map_option claim_mkey (case fst (ClaimNext length (demo_claim_env ''c'') demo_lane ''replica-a'' demo_created) of Inr c \<Rightarrow> c | Inl _ \<Rightarrow> None) = Some (''t1'', ''m1'')"
  by code_simp

lemma demo_created_keys: "keys_ok demo_created"
  using demo_created_reached message_store.run_inv fresh_store_ok [OF demo_fresh] unfolding reaches_def by blast

theorem claim_oldest_and_exclusive_witness:
  "\<exists>claim db'. ClaimNext length (demo_claim_env ''c'') demo_lane ''replica-a'' demo_created = (Inr (Some claim), db')
     \<and> snd (ClaimNext length (demo_claim_env ''d'') demo_lane ''replica-b'' db') = db'"
proof -
  obtain r db' where r: "ClaimNext length (demo_claim_env ''c'') demo_lane ''replica-a'' demo_created = (r, db')" by fastforce
  obtain claim where "r = Inr (Some claim)" using demo_claim unfolding r by (auto split: sum.splits)
  then show ?thesis using r claim_oldest_and_exclusive [OF demo_created_keys, of length "demo_claim_env ''c''" demo_lane "''replica-a''" claim db']
    by (auto simp: demo_claim_env_def)
qed

section \<open>Completed dispatches\<close>

lemma derive_outcomes:
  "DeriveMessageState [MessageStateDispatching, MessageStateUncertain] = MessageStateUncertain"
  "DeriveMessageState [MessageStateDispatching, MessageStateFailed] = MessageStateFailed"
  "DeriveMessageState [MessageStateDispatching, MessageStateProviderAccepted, MessageStateAwaitingPhone] = MessageStateAwaitingPhone"
  by code_simp+

lemma CompleteDispatch_done:
  assumes "CompleteDispatch enc f now wall newID claim states reason db = (None, db')"
  shows "map_option ms_state (message_of db' (claim_mkey claim)) = Some (DeriveMessageState (MessageStateDispatching # states))
    \<and> (\<exists>a. attempt_of db' (claim_akey claim) = Some a \<and> ap_message a = om_ID (dc_Message claim) \<and> ap_phase a = AttemptComplete
         \<and> ap_result a = reason \<and> ap_completed a = Some now)
    \<and> map_option lr_message (db_lanes db' (claim_lkey claim)) = Some None
    \<and> loadMessageStateHistory (claim_mkey claim) db' = loadMessageStateHistory (claim_mkey claim) db @ states"
proof -
  let ?op = "\<lambda>db. if \<not> claim_fenced False now ProviderIOStarted claim (dc_OwnerID claim) db then Inl (Sentinel ErrDispatchFenceLost)
        else let finalState = DeriveMessageState (MessageStateDispatching # states);
                 m = the (message_of db (claim_mkey claim)); a = the (attempt_of db (claim_akey claim));
                 lane = the (db_lanes db (claim_lkey claim))
             in bind_res (complete_states enc now wall newID 0 (dc_Message claim) reason states db) (\<lambda>db'.
                Inr (put_lane (claim_lkey claim) (free_lane now lane)
                  (put_attempt (claim_akey claim) (a \<lparr> ap_phase := AttemptComplete, ap_result := reason, ap_completed := Some now \<rparr>)
                  (put_message (claim_mkey claim) (m \<lparr> ms_state := finalState, ms_updated := now \<rparr>) db'))))"
  have op: "?op db = Inr db'" using assms inTenantExec_ok [of f "om_TenantID (dc_Message claim)" ?op db db'] by (auto simp: CompleteDispatch_def split: if_splits)
  then have fenced: "claim_fenced False now ProviderIOStarted claim (dc_OwnerID claim) db" by (simp split: if_splits)
  obtain a where a: "attempt_of db (claim_akey claim) = Some a" "ap_message a = om_ID (dc_Message claim)"
    using fenced by (rule claim_fencedE) (simp add: claim_mkey_def)
  obtain db1 m lane where s: "complete_states enc now wall newID 0 (dc_Message claim) reason states db = Inr db1"
    and d: "db' = put_lane (claim_lkey claim) (free_lane now lane)
                  (put_attempt (claim_akey claim) (a \<lparr> ap_phase := AttemptComplete, ap_result := reason, ap_completed := Some now \<rparr>)
                  (put_message (claim_mkey claim) (m \<lparr> ms_state := DeriveMessageState (MessageStateDispatching # states), ms_updated := now \<rparr>) db1))"
    using op fenced a(1) by (auto simp: Let_def bind_res_Inr)
  obtain rows where rows: "db_status db1 = db_status db @ rows" "map sr_state rows = states"
    "\<forall>r\<in>set rows. sr_tenant r = fst (claim_mkey claim) \<and> sr_message r = snd (claim_mkey claim)"
    using complete_states_same [OF s] by (auto simp: claim_mkey_def)
  have "db_status db' = db_status db @ rows" using d rows(1) by simp
  from history_append [OF this rows(3), of "claim_mkey claim"] show ?thesis
    using rows(2) a(2) by (simp add: d free_lane_def)
qed

lemma claim_lane_key:
  assumes "ClaimNext collate env lane ow db = (Inr (Some claim), db')" "lk_ConversationID lane \<noteq> ''''"
  shows "claim_lkey claim = (lk_TenantID lane, lk_ConnectionID lane, lk_ConversationID lane)
    \<and> claim_lkey (sent_claim r s v claim) = claim_lkey claim \<and> claim_mkey (sent_claim r s v claim) = claim_mkey claim"
proof -
  let ?k = "(lk_TenantID lane, lk_ConnectionID lane, lk_ConversationID lane)"
  obtain row tok i m where t: "take_lane env lane ow row tok i m db = Inr (Some claim, db')"
    and q: "lane_candidate collate ?k db = Some (i, m)"
    by (rule claim_row [OF assms(1)])
  have c: "claim = claim_of lane ow (ce_newID env 0) (lr_token row + 1) tok i m (media_ids db i)"
    using t by (auto simp: take_lane_def Let_def bind_res_Inr split: if_splits)
  note q = lane_candidate_Some [OF q, THEN conjunct1]
  have "ms_connection m = lk_ConnectionID lane" "fst i = lk_TenantID lane" using q by (auto simp: lane_queue_def)
  then show ?thesis
    using assms(2) by (simp add: c claim_lkey_def claim_mkey_def claim_of_def dispatchOrderingKey_def outbound_of_def sent_claim_def)
qed

text \<open>Every tick of the renewal goroutine that fell into the send extended the claim.\<close>

inductive renewed ::
  "owner_id \<Rightarrow> DispatchClaim \<Rightarrow> 'z messaging_db_scheme renew_tick list \<Rightarrow> 'z messaging_db_scheme \<Rightarrow> 'z messaging_db_scheme \<Rightarrow> bool"
  for ow claim where
  renewed_none: "renewed ow claim [] db db"
| renewed_tick: "RenewProviderIO (rt_fault tick) (rt_now tick) claim ow (rt_before tick db) = (Inr True, db1) \<Longrightarrow> renewed ow claim ticks db1 db2
    \<Longrightarrow> renewed ow claim (tick # ticks) db db2"

inductive_simps renewed_simps [simp]: "renewed ow claim [] db db'" "renewed ow claim (tick # ticks) db db'"

lemma renewal_lost_iff: "fst (renewProviderIO ow claim ticks db) \<noteq> None \<longleftrightarrow> (\<nexists>db'. renewed ow claim ticks db db')"
proof (induction ticks arbitrary: db)
  case (Cons tick ticks)
  obtain r db1 where r: "RenewProviderIO (rt_fault tick) (rt_now tick) claim ow (rt_before tick db) = (r, db1)" by fastforce
  then show ?case using Cons [of db1] by (auto split: sum.splits bool.splits)
qed simp

text \<open>
  C10. A dispatch that called the provider and returned no error has recorded what the provider
  answered, in the message, in the attempt and in the lane. If every renewal tick extended the claim,
  the provider call did not fail and its answer is an acceptance, the message is awaiting the phone; if
  the answer is a refusal with a reason, the message failed and the attempt carries the reason; in every
  ambiguous case (a tick that did not extend the claim, a transport error, an answer that is neither)
  the message is uncertain and the attempt says which case it was. The attempt is closed and the lane
  is free for the next message.
\<close>

theorem dispatch_records_outcome:
  assumes "DispatchLane collate d env lane db = ((True, None), Some cmd, db')"
  shows "\<exists>claim db1 db2 state reason.
      ClaimNext collate (de_claim env) lane (dp_ownerID d) (de_between env 0 db) = (Inr (Some claim), db1)
    \<and> BeginProviderIO (de_fault env 1) (de_now env 1) claim (dp_ownerID d) (de_between env 1 db1) = (Inr True, db2)
    \<and> cmd = \<lparr> pc_Message = dc_Message claim, pc_FencingToken = dc_FencingToken claim \<rparr>
    \<and> (state, reason) =
        (if \<nexists>db3. renewed (dp_ownerID d) claim (de_ticks env) db2 db3 then (MessageStateUncertain, ''dispatch_fence_lost'')
         else if snd (de_send env) \<noteq> None then (MessageStateUncertain, ''provider_io_ambiguous'')
         else if ps_Accepted (fst (de_send env)) then (MessageStateAwaitingPhone, '''')
         else if ps_FailureReason (fst (de_send env)) \<noteq> '''' then (MessageStateFailed, ps_FailureReason (fst (de_send env)))
         else (MessageStateUncertain, ''provider_response_ambiguous''))
    \<and> map_option ms_state (message_of db' (om_TenantID (dc_Message claim), om_ID (dc_Message claim))) = Some state
    \<and> (\<exists>a. attempt_of db' (om_TenantID (dc_Message claim), dc_AttemptID claim) = Some a
         \<and> ap_message a = om_ID (dc_Message claim) \<and> ap_phase a = AttemptComplete \<and> ap_result a = reason)
    \<and> map_option lr_message (db_lanes db' (lk_TenantID lane, lk_ConnectionID lane, lk_ConversationID lane)) = Some None"
proof -
  have ne: "lk_ConversationID lane \<noteq> ''''" using assms by (auto simp: DispatchLane_def split: if_splits)
  obtain claim db1 db2 where c: "ClaimNext collate (de_claim env) lane (dp_ownerID d) (de_between env 0 db) = (Inr (Some claim), db1)"
    and b: "BeginProviderIO (de_fault env 1) (de_now env 1) claim (dp_ownerID d) (de_between env 1 db1) = (Inr True, db2)"
    and cmd: "cmd = \<lparr> pc_Message = dc_Message claim, pc_FencingToken = dc_FencingToken claim \<rparr>" and s: "dispatch_send d env claim db2 = (None, db')"
    using assms by (auto simp: DispatchLane_def split: if_splits prod.splits sum.splits option.splits bool.splits)
  obtain renewErr db3 where r: "renewProviderIO (dp_ownerID d) claim (de_ticks env) db2 = (renewErr, db3)" by fastforce
  obtain result sendErr where o': "de_send env = (result, sendErr)" by fastforce
  let ?o = "dispatch_outcome renewErr sendErr result" and ?claim = "sent_claim renewErr sendErr result claim"
  have "CompleteDispatch (de_codec env) (de_fault env 2) (de_now env 2) (de_wall env) (de_newID env) ?claim (fst ?o) (snd ?o) (de_between env 2 db3) = (None, db')"
    using s r o' by (simp add: dispatch_send_def split_beta)
  note finished = CompleteDispatch_done [OF this] and key = claim_lane_key [OF c ne, of renewErr sendErr result]
  have ids: "claim_akey ?claim = (om_TenantID (dc_Message claim), dc_AttemptID claim)" "om_ID (dc_Message ?claim) = om_ID (dc_Message claim)"
    by (simp_all add: sent_claim_def claim_akey_def)
  have lost: "renewErr \<noteq> None \<longleftrightarrow> (\<nexists>db3. renewed (dp_ownerID d) claim (de_ticks env) db2 db3)"
    using renewal_lost_iff [of "dp_ownerID d" claim "de_ticks env" db2] r by simp
  have "(DeriveMessageState (MessageStateDispatching # fst ?o), snd ?o) =
      (if renewErr \<noteq> None then (MessageStateUncertain, ''dispatch_fence_lost'')
       else if sendErr \<noteq> None then (MessageStateUncertain, ''provider_io_ambiguous'')
       else if ps_Accepted result then (MessageStateAwaitingPhone, '''')
       else if ps_FailureReason result \<noteq> '''' then (MessageStateFailed, ps_FailureReason result)
       else (MessageStateUncertain, ''provider_response_ambiguous''))"
    by (simp add: dispatch_outcome_def derive_outcomes)
  then show ?thesis
    using c b cmd finished key unfolding lost o' fst_conv snd_conv ids claim_mkey_def by metis
qed

lemma demo_sent_ok: "fst demo_sent1 = (True, None)"
  by code_simp

theorem dispatch_records_outcome_witness:
  "\<exists>cmd db'. DispatchLane length demo_dispatcher (demo_dispatch ''c'') demo_lane demo_created = ((True, None), Some cmd, db')
     \<and> map_option lr_message (db_lanes db' (''t1'', ''c1'', ''new:+14155550100'')) = Some None"
proof -
  obtain r s db' where e: "demo_sent1 = (r, s, db')" by (cases demo_sent1)
  obtain cmd where s: "s = Some cmd" "r = (True, None)" using demo_sent_messages(1) demo_sent_ok unfolding e by auto
  then have 1: "DispatchLane length demo_dispatcher (demo_dispatch ''c'') demo_lane demo_created = ((True, None), Some cmd, db')"
    using e by (simp add: demo_sent1_def)
  from dispatch_records_outcome [OF 1] show ?thesis using 1 by (auto simp: demo_lane_def)
qed

section \<open>Evidence that overtakes the completion\<close>

lemma derive_evidence_rank:
  assumes "s \<in> {MessageStateSent, MessageStateDelivered, MessageStateRead}"
  shows "4 \<le> messageStateRankMust (DeriveMessageState (h @ [s]))"
  using assms derive_fold_inv [OF derive_initial_inv, of h]
  by (cases "fold derive_step h (MessageStateOther '''', -1)")
    (auto simp: DeriveMessageState_def derive_inv_def derive_step_def messageStateRankMust_def messageStateRank_def split: if_splits MessageState.splits)

lemma derive_single_evidence:
  "s \<in> {MessageStateSent, MessageStateDelivered, MessageStateRead} \<Longrightarrow> DeriveMessageState [MessageStateDispatching, s] = DeriveMessageState [s]"
  by (auto simp: DeriveMessageState_def derive_step_def messageStateRankMust_def messageStateRank_def)

lemma evidence_mapped:
  "s \<in> {MessageStateSent, MessageStateDelivered, MessageStateRead} \<Longrightarrow> \<exists>status. s = MapProviderMessageState status"
  using MapProviderMessageState_def [of OUTGOING_COMPLETE] MapProviderMessageState_def [of OUTGOING_DELIVERED]
    MapProviderMessageState_def [of OUTGOING_DISPLAYED] by (auto intro: sym)

lemma echo_projected:
  assumes "project_message now cand sid ck p db = Inr (v, db')" "keys_ok db"
    and "pm_State p \<in> {MessageStateSent, MessageStateDelivered, MessageStateRead}"
    and "fst ck = fst k" "pr_ID v = snd k" "map_option ms_state (message_of db k) = Some MessageStateDispatching"
  shows "map_option ms_state (message_of db' k) = Some (DeriveMessageState (loadMessageStateHistory k db'))
    \<and> 4 \<le> messageStateRankMust (DeriveMessageState (loadMessageStateHistory k db')) \<and> loadMessageStateHistory k db' \<noteq> []
    \<and> attempt_of db' = attempt_of db"
proof (cases "lockProjectedMessage ck p db")
  case None
  then have "pr_ID v = cand \<and> message_of db (fst ck, cand) = None"
    using assms(1) by (auto simp: project_message_def insert_projected_def Let_def bind_res_Inr split: if_splits)
  then show ?thesis using assms(4-6) by (cases k) auto
next
  case (Some x)
  obtain k' m where x: "x = (k', m)" by (cases x)
  have m: "message_of db k' = Some m" using lockProjectedMessage_row [OF assms(2)] Some x by blast
  have os: "observed_states p = [pm_State p]" using assms(3) by (auto simp: observed_states_def no_state_def)
  define d where "d = DeriveMessageState ((if loadMessageStateHistory k' db = [] then [ms_state m] else loadMessageStateHistory k' db) @ [pm_State p])"
  obtain direction where rs: "record_provider_status now sid k' p (put_message k' (reconciled_row now p d direction m) db) = Inr db'"
    and v: "pr_ID v = snd k'"
    using assms(1) Some x os by (auto simp: project_message_def reconcile_message_def d_def Let_def bind_res_Inr split: if_splits)
  have "fst k' = fst ck" using Some x by (auto simp: lockProjectedMessage_def Let_def filter_eq_Cons_iff split: list.splits)
  then have k: "k' = k" using v assms(4,5) by (simp add: prod_eq_iff)
  have md: "ms_state m = MessageStateDispatching" using m assms(6) k by simp
  obtain rows where r: "same_dispatch (put_message k (reconciled_row now p d direction m) db) db'" "db_status db' = db_status db @ rows"
    "\<forall>r\<in>set rows. sr_tenant r = fst k \<and> sr_message r = snd k" "map sr_state rows = [pm_State p]"
    using record_provider_status_same [OF rs] os k by auto
  have h: "loadMessageStateHistory k db' = loadMessageStateHistory k db @ [pm_State p]"
    using history_append [OF r(2,3), of k] r(4) by simp
  have "d = DeriveMessageState (loadMessageStateHistory k db')"
    using derive_single_evidence [OF assms(3)] unfolding d_def h k md by simp
  then show ?thesis
    using same_dispatchD [OF r(1)] derive_evidence_rank [OF assms(3), of "loadMessageStateHistory k db"] h
    by (simp add: reconciled_row_def)
qed

lemma stranded_attempt:
  assumes "stranded (dispatch_view db) (claim_akey claim)" "keys_ok db" "claim_akey claim' = claim_akey claim"
  shows "fst (CompleteDispatch enc f now wall newID claim' states reason db) \<noteq> None
    \<and> (\<exists>a. attempt_of db (claim_akey claim) = Some a \<and> ap_phase a \<noteq> AttemptComplete
         \<and> (\<forall>m. lane_busy (fst (claim_akey claim), ap_connection a, ap_ordering a) m db))"
proof
  obtain a where a: "attempt_of db (claim_akey claim) = Some a" "ap_phase a \<noteq> AttemptComplete"
    using assms(1) by (auto simp: stranded_def attempt_view_def)
  then have "mc_attempt (dispatch_view db) (claim_akey claim) = Some (attempt_view (fst (claim_akey claim)) a)" by simp
  from stranded_state [OF assms(1) this] have "\<not> message_dispatching (fst (claim_akey claim), ap_message a) db"
    by (auto simp: message_dispatching_def attempt_view_def split: option.splits)
  then have "\<not> claim_fenced False now ProviderIOStarted claim' (dc_OwnerID claim') db"
    using a(1) assms(3) by (auto simp: claim_fenced_def attempt_matches_def claim_akey_def claim_mkey_def)
  then show "fst (CompleteDispatch enc f now wall newID claim' states reason db) \<noteq> None"
    by (auto simp: CompleteDispatch_def inTenantExec_def inTenant_def split: fault.splits)
  have "(claim_akey claim, a) \<in> set (db_attempts db)" using a(1) by (simp add: attempt_of_def map_of_SomeD)
  then have "open_attempts (fst (claim_akey claim), ap_connection a, ap_ordering a) db \<noteq> []"
    using a(2) by (auto simp: open_attempts_def filter_empty_conv)
  then show "\<exists>a. attempt_of db (claim_akey claim) = Some a \<and> ap_phase a \<noteq> AttemptComplete
         \<and> (\<forall>m. lane_busy (fst (claim_akey claim), ap_connection a, ap_ordering a) m db)"
    using a by (auto simp: lane_busy_def)
qed

text \<open>
  C37. Provider evidence that is committed between the start of the provider I/O of a message and its
  completion strands the attempt: whatever the processes do afterwards, the completion of the
  dispatch fails, the attempt is never closed, and its lane counts as busy for every message whose
  conversation the provider reports as created.
\<close>

theorem echo_strands_attempt:
  assumes "fresh_store db0" and "reaches collate db0 db"
    and "BeginProviderIO f now claim ow db = (Inr True, db1)"
    and "project_message now' cand sid (om_TenantID (dc_Message claim), c) p db1 = Inr (v, db2)"
    and "pr_ID v = om_ID (dc_Message claim)" and "pm_State p \<in> {MessageStateSent, MessageStateDelivered, MessageStateRead}"
    and "reaches collate db2 db3"
  shows "fst (CompleteDispatch enc f' now'' wall newID claim states reason db3) \<noteq> None
    \<and> (\<exists>a. attempt_of db3 (claim_akey claim) = Some a \<and> ap_phase a \<noteq> AttemptComplete
         \<and> (\<forall>m. lane_busy (om_TenantID (dc_Message claim), ap_connection a, ap_ordering a) m db3))"
proof -
  let ?I = "\<lambda>db. keys_ok db \<and> machine_inv (dispatch_view db)"
  have run: "?I x \<Longrightarrow> reaches collate x y \<Longrightarrow> ?I y" for x y using message_store.run_inv unfolding reaches_def by blast
  have I1: "?I db1"
    using run [OF fresh_store_ok [OF assms(1)] assms(2)] d_begin [OF assms(3)] message_store.refines machine_inv_move by blast
  have fenced: "claim_fenced True now Claimed claim ow db"
    and db1: "db1 = put_attempt (claim_akey claim) ((the (attempt_of db (claim_akey claim))) \<lparr> ap_phase := ProviderIOStarted, ap_started := Some now \<rparr>) db"
    using assms(3) by (auto simp: BeginProviderIO_def split: if_splits dest!: inTenant_value)
  obtain a where a: "attempt_of db1 (claim_akey claim) = Some a" "ap_phase a = ProviderIOStarted" "ap_message a = om_ID (dc_Message claim)"
    using fenced db1 by (auto elim!: claim_fencedE simp: claim_mkey_def)
  have md: "map_option ms_state (message_of db1 (claim_mkey claim)) = Some MessageStateDispatching"
    using fenced db1 by (auto elim!: claim_fencedE)

  have e: "map_option ms_state (message_of db2 (claim_mkey claim)) = Some (DeriveMessageState (loadMessageStateHistory (claim_mkey claim) db2))
    \<and> 4 \<le> messageStateRankMust (DeriveMessageState (loadMessageStateHistory (claim_mkey claim) db2))
    \<and> loadMessageStateHistory (claim_mkey claim) db2 \<noteq> [] \<and> attempt_of db2 = attempt_of db1"
    using I1 assms(5) by (intro echo_projected [OF assms(4) _ assms(6) _ _ md]) (simp_all add: claim_mkey_def)
  then have s2: "stranded (dispatch_view db2) (claim_akey claim)"
    using a by (auto simp: stranded_def attempt_view_def claim_akey_def claim_mkey_def)
  obtain status where st: "pm_State p = MapProviderMessageState status"
    using assms(6) evidence_mapped by blast
  have I2: "?I db2" using run [OF I1] reaches_step [OF d_project [OF assms(4) st]] by blast
  have s3: "stranded (dispatch_view db3) (claim_akey claim)"
    using message_store.run_stranded [OF _ _ _ s2] I2 assms(7) unfolding reaches_def by blast
  have "keys_ok db3" using run [OF I2 assms(7)] by blast
  from stranded_attempt [OF s3 this refl] show ?thesis by (simp add: claim_akey_def)
qed

definition demo_echo :: ProjectedMessage where
  "demo_echo = \<lparr> pm_ProviderMessageID = ''p1'', pm_ProviderTmpID = ''sx-m1'', pm_ConversationID = ''v1'', pm_Direction = ''outbound'',
     pm_Provenance = MessageProvenanceLive, pm_ProviderStatus = ''OUTGOING_COMPLETE'', pm_ProviderOccurredAt = None, pm_Actionable = False,
     pm_Sender = '''', pm_Recipients = [], pm_Text = ''hi'', pm_Transport = ''sms'', pm_State = MessageStateSent \<rparr>"

lemma demo_echo_run:
  "case ClaimNext length (demo_claim_env ''c'') demo_lane ''replica-a'' demo_created of
     (Inr (Some claim), db) \<Rightarrow>
       (case BeginProviderIO NoFault 25 claim ''replica-a'' db of
          (Inr True, db1) \<Rightarrow>
            (case project_message 26 ''m9'' ''s9'' (om_TenantID (dc_Message claim), ''c1'') demo_echo db1 of
               Inr (v, db2) \<Rightarrow> pr_ID v = om_ID (dc_Message claim) | _ \<Rightarrow> False)
        | _ \<Rightarrow> False)
   | _ \<Rightarrow> False"
  by code_simp

theorem echo_strands_attempt_witness:
  "\<exists>claim db db1 v db2. ClaimNext length (demo_claim_env ''c'') demo_lane ''replica-a'' demo_created = (Inr (Some claim), db)
     \<and> BeginProviderIO NoFault 25 claim ''replica-a'' db = (Inr True, db1)
     \<and> project_message 26 ''m9'' ''s9'' (om_TenantID (dc_Message claim), ''c1'') demo_echo db1 = Inr (v, db2)
     \<and> fst (CompleteDispatch demo_codec NoFault 30 30 (demo_ids ''z'') claim [MessageStateProviderAccepted, MessageStateAwaitingPhone] '''' db2) \<noteq> None"
proof -
  obtain claim db where c: "ClaimNext length (demo_claim_env ''c'') demo_lane ''replica-a'' demo_created = (Inr (Some claim), db)"
    using demo_echo_run by (auto split: prod.splits sum.splits option.splits)
  obtain db1 where b: "BeginProviderIO NoFault 25 claim ''replica-a'' db = (Inr True, db1)"
    using demo_echo_run unfolding c by (auto split: prod.splits sum.splits bool.splits)
  obtain v db2 where p: "project_message 26 ''m9'' ''s9'' (om_TenantID (dc_Message claim), ''c1'') demo_echo db1 = Inr (v, db2)"
    and v: "pr_ID v = om_ID (dc_Message claim)"
    using demo_echo_run unfolding c prod.case sum.case option.case b by (auto split: sum.splits)
  have "reaches length demo_store db" using demo_created_reached reaches_step [OF d_claim [OF c]] by (rule reaches_trans)
  from echo_strands_attempt [OF demo_fresh this b p v _ reaches_refl] show ?thesis
    using c b p by (fastforce simp: demo_echo_def)
qed

end
