(* ===== verification/Inbox_Store.thy ===== *)
theory Inbox_Store
  imports Dispatch_Store
begin

text \<open>
  The durable inbox of \<^verbatim>\<open>store/postgres/messages.go\<close>: \<^verbatim>\<open>CommitEnvelope\<close> stores a provider response
  with everything it projects to in one transaction, and the acknowledgement operations decide
  which responses may be acknowledged to the provider. A response identifier is reserved with the
  digest of its bytes; the reservation decides between the raw inbox and the compact table of
  rejected responses. The identifiers drawn by \<^verbatim>\<open>newID\<close> are given by a function of the call site
  and an index.
\<close>

section \<open>Rows\<close>

type_synonym rkey = "tenant_id \<times> connection_id \<times> string"

datatype disposition = DispositionInbox | DispositionRejected

record reservation_row =
  rv_digest :: string
  rv_disposition :: disposition
  rv_conflicted :: bool
  rv_occurrences :: nat
  rv_first :: instant
  rv_last :: instant

record inbox_row =
  ib_id :: string
  ib_digest :: string
  ib_raw :: string
  ib_poisoned :: bool
  ib_reason :: string
  ib_ack_pending :: bool
  ib_acked :: "instant option"
  ib_owner :: owner_id
  ib_token :: token
  ib_received :: instant

record rejected_row =
  rj_digest :: string
  rj_reason :: string
  rj_ack_pending :: bool
  rj_acked :: "instant option"
  rj_conflicted :: bool
  rj_occurrences :: nat
  rj_first :: instant
  rj_last :: instant

record conflict_row =
  cf_id :: string
  cf_digest :: string
  cf_size :: nat
  cf_sample :: string
  cf_occurrences :: nat
  cf_observed :: instant

record cursor_row =
  ch_base :: "string option"
  ch_response :: "string option"
  ch_observed :: instant

record budget_row =
  bg_advances :: nat
  bg_exhausted :: bool
  bg_response :: string
  bg_updated :: instant

text \<open>The sealed key of a job, absent when it has no ciphertext.\<close>

record fetch_job_row =
  fj_id :: string
  fj_connection :: connection_id
  fj_message :: string
  fj_locator :: string
  fj_mime :: string
  fj_size :: int
  fj_filename :: string
  fj_key :: "(string \<times> string \<times> string \<times> string \<times> int) option"
  fj_thumbnail :: "(string \<times> string \<times> string \<times> string \<times> int) option"
  fj_identity :: "string option"

record inbox_db = messaging_db +
  db_reservations :: "(rkey \<times> reservation_row) list"
  db_inbox :: "(rkey \<times> inbox_row) list"
  db_rejected :: "(rkey \<times> rejected_row) list"
  db_conflicts :: "rkey \<rightharpoonup> conflict_row"
  db_cursors :: "((rkey \<times> string) \<times> cursor_row) list"
  db_budgets :: "rkey \<rightharpoonup> budget_row"
  db_fetch_jobs :: "tenant_id \<times> media_id \<rightharpoonup> fetch_job_row"

definition reservation_of :: "'z inbox_db_scheme \<Rightarrow> rkey \<Rightarrow> reservation_row option" where
  "reservation_of db k = map_of (db_reservations db) k"

definition inbox_of :: "'z inbox_db_scheme \<Rightarrow> rkey \<Rightarrow> inbox_row option" where
  "inbox_of db k = map_of (db_inbox db) k"

definition rejected_of :: "'z inbox_db_scheme \<Rightarrow> rkey \<Rightarrow> rejected_row option" where
  "rejected_of db k = map_of (db_rejected db) k"

definition put_reservation :: "rkey \<Rightarrow> reservation_row \<Rightarrow> 'z inbox_db_scheme \<Rightarrow> 'z inbox_db_scheme" where
  "put_reservation k r db = db \<lparr> db_reservations := AList.update k r (db_reservations db) \<rparr>"

definition put_inbox :: "rkey \<Rightarrow> inbox_row \<Rightarrow> 'z inbox_db_scheme \<Rightarrow> 'z inbox_db_scheme" where
  "put_inbox k r db = db \<lparr> db_inbox := AList.update k r (db_inbox db) \<rparr>"

definition put_rejected :: "rkey \<Rightarrow> rejected_row \<Rightarrow> 'z inbox_db_scheme \<Rightarrow> 'z inbox_db_scheme" where
  "put_rejected k r db = db \<lparr> db_rejected := AList.update k r (db_rejected db) \<rparr>"

text \<open>An UPDATE of the row with the given key, if there is one.\<close>

definition update_inbox :: "rkey \<Rightarrow> (inbox_row \<Rightarrow> inbox_row) \<Rightarrow> 'z inbox_db_scheme \<Rightarrow> 'z inbox_db_scheme" where
  "update_inbox k g db = (case inbox_of db k of None \<Rightarrow> db | Some r \<Rightarrow> put_inbox k (g r) db)"

definition update_rejected :: "rkey \<Rightarrow> (rejected_row \<Rightarrow> rejected_row) \<Rightarrow> 'z inbox_db_scheme \<Rightarrow> 'z inbox_db_scheme" where
  "update_rejected k g db = (case rejected_of db k of None \<Rightarrow> db | Some r \<Rightarrow> put_rejected k (g r) db)"

section \<open>Limits\<close>

definition of_connection :: "rkey \<Rightarrow> rkey \<Rightarrow> bool" where
  "of_connection k k' = (fst k' = fst k \<and> fst (snd k') = fst (snd k))"

definition poisoned_rows :: "rkey \<Rightarrow> 'z inbox_db_scheme \<Rightarrow> (rkey \<times> inbox_row) list" where
  "poisoned_rows k db = filter (\<lambda>(k', r). of_connection k k' \<and> ib_poisoned r) (db_inbox db)"

definition poisoned_bytes :: "rkey \<Rightarrow> 'z inbox_db_scheme \<Rightarrow> nat" where
  "poisoned_bytes k db = sum_list (map (\<lambda>(k', r). length (ib_raw r)) (poisoned_rows k db))"

definition poisoned_reserved :: "rkey \<Rightarrow> 'z inbox_db_scheme \<Rightarrow> (rkey \<times> inbox_row) list" where
  "poisoned_reserved k db =
     filter (\<lambda>(k', r). map_option rv_disposition (reservation_of db k') = Some DispositionInbox) (poisoned_rows k db)"

definition rejected_reserved :: "rkey \<Rightarrow> 'z inbox_db_scheme \<Rightarrow> (rkey \<times> reservation_row) list" where
  "rejected_reserved k db = filter (\<lambda>(k', r). of_connection k k' \<and> rv_disposition r = DispositionRejected) (db_reservations db)"

definition MaxRejectedProviderResponses :: nat where
  "MaxRejectedProviderResponses = 256"

definition MaxPoisonedProviderInboxEntries :: nat where
  "MaxPoisonedProviderInboxEntries = 256"

definition MaxPoisonedProviderInboxBytes :: nat where
  "MaxPoisonedProviderInboxBytes = 33554432"

definition MaxProviderCursorAdvances :: nat where
  "MaxProviderCursorAdvances = 256"

definition bump :: "nat \<Rightarrow> nat" where
  "bump n = min (n + 1) 2147483647"

section \<open>Statements on reservations\<close>

text \<open>The stored response: its digest, disposition, whether it awaits an ACK, whether it is poisoned and why.\<close>

definition getProviderInbox :: "rkey \<Rightarrow> 'z inbox_db_scheme \<Rightarrow> (string \<times> disposition \<times> bool \<times> bool \<times> string) option" where
  "getProviderInbox k db =
     (case reservation_of db k of
        None \<Rightarrow> None
      | Some r \<Rightarrow>
          if rv_conflicted r then None
          else (case rv_disposition r of
            DispositionInbox \<Rightarrow>
              map_option (\<lambda>b. (rv_digest r, DispositionInbox, ib_ack_pending b, ib_poisoned b, ib_reason b)) (inbox_of db k)
          | DispositionRejected \<Rightarrow>
              map_option (\<lambda>j. (rv_digest r, DispositionRejected, rj_ack_pending j, True, rj_reason j)) (rejected_of db k)))"

text \<open>The insert of a reservation with its inbox row; the flag says whether the row was inserted.\<close>

definition insertProviderInbox :: "string \<Rightarrow> EnvelopeRecord \<Rightarrow> 'z inbox_db_scheme \<Rightarrow> (bool \<times> 'z inbox_db_scheme) result" where
  "insertProviderInbox inboxID record db =
     (let k = (er_TenantID record, er_ConnectionID record, er_ProviderResponseID record) in
      if er_Poisoned record \<and> \<not> (length (poisoned_reserved k db) < MaxPoisonedProviderInboxEntries
           \<and> poisoned_bytes k db + length (er_Raw record) \<le> MaxPoisonedProviderInboxBytes) then Inr (False, db)
      else if reservation_of db k \<noteq> None then Inr (False, db)
      else if inbox_of db k \<noteq> None then Inl unique_violation
      else Inr (True, put_inbox k
        \<lparr> ib_id = inboxID, ib_digest = er_Digest record, ib_raw = er_Raw record, ib_poisoned = er_Poisoned record,
          ib_reason = er_PoisonReason record, ib_ack_pending = (\<not> er_ACKWithheld record), ib_acked = None,
          ib_owner = er_OwnerID record, ib_token = er_FencingToken record, ib_received = er_ReceivedAt record \<rparr>
       (put_reservation k
        \<lparr> rv_digest = er_Digest record, rv_disposition = DispositionInbox, rv_conflicted = False, rv_occurrences = 1,
          rv_first = er_ReceivedAt record, rv_last = er_ReceivedAt record \<rparr> db)))"

definition insertProviderInboxConflict :: "instant \<Rightarrow> string \<Rightarrow> EnvelopeRecord \<Rightarrow> 'z inbox_db_scheme \<Rightarrow> 'z inbox_db_scheme" where
  "insertProviderInboxConflict now conflictID record db =
     (let k = (er_TenantID record, er_ConnectionID record, er_ProviderResponseID record) in
      case reservation_of db k of
        None \<Rightarrow> db
      | Some r \<Rightarrow>
          let db1 = put_reservation k (r \<lparr> rv_conflicted := True, rv_occurrences := bump (rv_occurrences r), rv_last := now \<rparr>) db in
          (case rv_disposition r of
             DispositionRejected \<Rightarrow> update_rejected k (\<lambda>j. j \<lparr> rj_conflicted := True, rj_ack_pending := False \<rparr>) db1
           | DispositionInbox \<Rightarrow>
               (update_inbox k (\<lambda>b. b \<lparr> ib_ack_pending := False \<rparr>) db1)
                 \<lparr> db_conflicts := (db_conflicts db)(k \<mapsto>
                     (case db_conflicts db k of
                        None \<Rightarrow> \<lparr> cf_id = conflictID, cf_digest = er_Digest record, cf_size = length (er_Raw record),
                                  cf_sample = take 256 (er_Raw record), cf_occurrences = 1, cf_observed = now \<rparr>
                      | Some c \<Rightarrow> c \<lparr> cf_occurrences := bump (cf_occurrences c), cf_observed := now \<rparr>)) \<rparr>))"

definition reopenProviderACK :: "rkey \<Rightarrow> 'z inbox_db_scheme \<Rightarrow> 'z inbox_db_scheme" where
  "reopenProviderACK k db =
     (case reservation_of db k of
        None \<Rightarrow> db
      | Some r \<Rightarrow>
          if rv_conflicted r then db
          else (case rv_disposition r of
            DispositionInbox \<Rightarrow> update_inbox k (\<lambda>b. b \<lparr> ib_ack_pending := True, ib_acked := None \<rparr>) db
          | DispositionRejected \<Rightarrow>
              update_rejected k (\<lambda>j. if rj_conflicted j then j else j \<lparr> rj_ack_pending := True, rj_acked := None \<rparr>) db))"

text \<open>
  \<^verbatim>\<open>finalizeProviderPoison\<close>: a stored response is marked as poisoned while the raw evidence of the
  connection is within its limits, and is otherwise compacted to a rejected response, of which a
  connection has a limited number too.
\<close>

definition compactProviderPoison :: "instant \<Rightarrow> rkey \<Rightarrow> string \<Rightarrow> 'z inbox_db_scheme \<Rightarrow> (bool \<times> 'z inbox_db_scheme) result" where
  "compactProviderPoison now k reason db =
     (case (inbox_of db k, reservation_of db k) of
        (Some b, Some r) \<Rightarrow>
          if ib_poisoned b \<or> rv_disposition r \<noteq> DispositionInbox
             \<or> \<not> length (rejected_reserved k db) < MaxRejectedProviderResponses then Inr (False, db)
          else
            let db1 = db \<lparr> db_conflicts := (db_conflicts db)(k := None), db_inbox := AList.delete k (db_inbox db) \<rparr> in
            if rv_digest r \<noteq> ib_digest b then Inr (False, db1)
            else if rejected_of db k \<noteq> None then Inl unique_violation
            else Inr (True, put_rejected k
                   \<lparr> rj_digest = rv_digest r, rj_reason = reason, rj_ack_pending = (\<not> rv_conflicted r), rj_acked = None,
                     rj_conflicted = rv_conflicted r, rj_occurrences = rv_occurrences r, rj_first = ib_received b, rj_last = now \<rparr>
                   (put_reservation k (r \<lparr> rv_disposition := DispositionRejected, rv_last := now \<rparr>) db1))
      | _ \<Rightarrow> Inr (False, db))"

text \<open>The flag is false when neither table has room, which is \<^verbatim>\<open>ErrProviderResponseCapacity\<close>.\<close>

definition finalizeProviderPoison :: "instant \<Rightarrow> rkey \<Rightarrow> string \<Rightarrow> 'z inbox_db_scheme \<Rightarrow> (bool \<times> 'z inbox_db_scheme) result" where
  "finalizeProviderPoison now k reason db =
     (case inbox_of db k of
        Some b \<Rightarrow>
          if \<not> ib_poisoned b \<and> length (poisoned_rows k db) < MaxPoisonedProviderInboxEntries
             \<and> poisoned_bytes k db + length (ib_raw b) \<le> MaxPoisonedProviderInboxBytes
          then Inr (True, put_inbox k (b \<lparr> ib_poisoned := True, ib_reason := reason \<rparr>) db)
          else compactProviderPoison now k reason db
      | None \<Rightarrow> compactProviderPoison now k reason db)"

text \<open>The response of a cursor scope whose budget is exhausted: digest, conflict flag and occurrences of the stored row.\<close>

definition upsertRejectedProviderResponse ::
  "EnvelopeRecord \<Rightarrow> 'z inbox_db_scheme \<Rightarrow> ((string \<times> bool \<times> nat) \<times> 'z inbox_db_scheme) option" where
  "upsertRejectedProviderResponse record db =
     (let k = (er_TenantID record, er_ConnectionID record, er_ProviderResponseID record); seen = er_ReceivedAt record in
      if length (rejected_reserved k db) < MaxRejectedProviderResponses
         \<or> map_option rv_disposition (reservation_of db k) = Some DispositionRejected
      then let r = (case reservation_of db k of
                      None \<Rightarrow> \<lparr> rv_digest = er_Digest record, rv_disposition = DispositionRejected, rv_conflicted = False,
                               rv_occurrences = 1, rv_first = seen, rv_last = seen \<rparr>
                    | Some old \<Rightarrow> old \<lparr> rv_last := seen, rv_occurrences := bump (rv_occurrences old),
                               rv_conflicted := (rv_conflicted old \<or> rv_digest old \<noteq> er_Digest record) \<rparr>)
           in if rv_disposition r \<noteq> DispositionRejected then None
              else let j = (case rejected_of db k of
                              None \<Rightarrow> \<lparr> rj_digest = rv_digest r, rj_reason = ''provider_cursor_budget_exhausted'',
                                       rj_ack_pending = (\<not> rv_conflicted r), rj_acked = None, rj_conflicted = rv_conflicted r,
                                       rj_occurrences = rv_occurrences r, rj_first = seen, rj_last = seen \<rparr>
                            | Some old \<Rightarrow> old \<lparr> rj_last := seen, rj_occurrences := rv_occurrences r, rj_conflicted := rv_conflicted r,
                                       rj_ack_pending := (\<not> rv_conflicted r),
                                       rj_acked := (if rv_conflicted r then rj_acked old else None) \<rparr>)
                   in Some ((rj_digest j, rj_conflicted j, rj_occurrences j), put_rejected k j (put_reservation k r db))
      else None)"

section \<open>The transaction of a response\<close>

datatype CommitResult =
  CommitInserted | CommitDuplicate | CommitConflict | CommitPoisoned | CommitDuplicatePoisoned | CommitDuplicateACKWithheld

datatype id_site =
    InboxID | ConflictID | PoisonOutboxID | CandidateMessageID | InboundStatusID | TransitionOutboxID | MediaID | JobID
  | EventOutboxID

record commit_env =
  ci_sha256 :: "string \<Rightarrow> string"
  ci_cursor :: cursor_codec
  ci_codec :: codec
  ci_rfc3339nano :: "instant option \<Rightarrow> string"
  ci_newID :: "id_site \<Rightarrow> nat \<Rightarrow> string"
  ci_now :: instant
  ci_wall :: instant

definition record_key :: "EnvelopeRecord \<Rightarrow> rkey" where
  "record_key record = (er_TenantID record, er_ConnectionID record, er_ProviderResponseID record)"

definition scope_key :: "EnvelopeRecord \<Rightarrow> rkey" where
  "scope_key record = (er_TenantID record, er_ConnectionID record, pj_CursorConversationID (er_Projection record))"

subsection \<open>Poisoned responses\<close>

definition event_row_of :: "string \<Rightarrow> string \<Rightarrow> string \<Rightarrow> connection_id \<Rightarrow> string \<Rightarrow> string \<Rightarrow> event_row" where
  "event_row_of eventType aggregateType aggregateID connectionID conversationID body =
     \<lparr> ev_type = eventType, ev_aggregate_type = aggregateType, ev_aggregate_id = aggregateID,
       ev_connection = (if connectionID = '''' then None else Some connectionID), ev_conversation = conversationID, ev_body = body \<rparr>"

definition stableInboxEventID :: "(string \<Rightarrow> string) \<Rightarrow> EnvelopeRecord \<Rightarrow> string \<Rightarrow> string" where
  "stableInboxEventID sha256 record reason =
     event_id sha256 [er_TenantID record, er_ConnectionID record, er_ProviderResponseID record, reason]"

definition providerPoisonEventBody :: "codec \<Rightarrow> instant \<Rightarrow> string \<Rightarrow> EnvelopeRecord \<Rightarrow> string \<Rightarrow> string result" where
  "providerPoisonEventBody enc wall eventID record reason =
     event_Marshal (fst enc) (snd enc)
       ((base_event eventID ''inbox.poisoned'' (if er_ReceivedAt record = zero_time then wall else er_ReceivedAt record)
           (er_TenantID record) (er_ConnectionID record))
          \<lparr> ee_ProviderResponseID := er_ProviderResponseID record, ee_Reason := reason \<rparr>)"

text \<open>
  \<^verbatim>\<open>poisonCursorEnvelope\<close>, and the same sequence for a conflicting attachment: the response is
  finalized as poisoned and one event with its outbox rows says so.
\<close>

definition poisonEnvelope ::
  "commit_env \<Rightarrow> EnvelopeRecord \<Rightarrow> string \<Rightarrow> 'z inbox_db_scheme \<Rightarrow> (CommitResult \<times> 'z inbox_db_scheme) result" where
  "poisonEnvelope env record reason db =
     bind_res (finalizeProviderPoison (ci_now env) (record_key record) reason db) (\<lambda>(moved, db).
     if \<not> moved then Inl (Wrap ''poison provider envelope'' (Sentinel (Ingress ErrProviderResponseCapacity)))
     else let eventID = stableInboxEventID (ci_sha256 env) record reason; tenantID = er_TenantID record in
       bind_res (providerPoisonEventBody (ci_codec env) (ci_wall env) eventID record reason) (\<lambda>body.
       bind_res (insertGatewayEvent (tenantID, eventID)
           (event_row_of ''inbox.poisoned'' ''provider_envelope'' (er_ProviderResponseID record) (er_ConnectionID record) '''' body) db) (\<lambda>db.
       bind_res (insertEventOutbox (ci_now env) tenantID (ci_newID env PoisonOutboxID 0) eventID db) (\<lambda>db.
       Inr (CommitPoisoned, db)))))"

subsection \<open>Cursor budgets and cycle detection\<close>

definition ensureProviderCursorBudget :: "instant \<Rightarrow> EnvelopeRecord \<Rightarrow> 'z inbox_db_scheme \<Rightarrow> 'z inbox_db_scheme" where
  "ensureProviderCursorBudget now record db =
     (if db_budgets db (scope_key record) = None
      then db \<lparr> db_budgets := (db_budgets db)(scope_key record \<mapsto>
             \<lparr> bg_advances = 0, bg_exhausted = False, bg_response = er_ProviderResponseID record, bg_updated = now \<rparr>) \<rparr>
      else db)"

definition cursor_of :: "'z inbox_db_scheme \<Rightarrow> rkey \<times> string \<Rightarrow> cursor_row option" where
  "cursor_of db k = map_of (db_cursors db) k"

definition put_cursor :: "rkey \<times> string \<Rightarrow> cursor_row \<Rightarrow> 'z inbox_db_scheme \<Rightarrow> 'z inbox_db_scheme" where
  "put_cursor k r db = db \<lparr> db_cursors := AList.update k r (db_cursors db) \<rparr>"

definition seedProviderCursorHistory :: "instant \<Rightarrow> rkey \<Rightarrow> string option \<Rightarrow> 'z inbox_db_scheme \<Rightarrow> 'z inbox_db_scheme" where
  "seedProviderCursorHistory now scope base db =
     (case base of
        None \<Rightarrow> db
      | Some digest \<Rightarrow>
          if cursor_of db (scope, digest) = None
          then put_cursor (scope, digest) \<lparr> ch_base = None, ch_response = None, ch_observed = now \<rparr> db else db)"

text \<open>The newest 64 cursors of the scope are kept.\<close>

definition pruneProviderCursorHistory :: "rkey \<Rightarrow> 'z inbox_db_scheme \<Rightarrow> 'z inbox_db_scheme" where
  "pruneProviderCursorHistory scope db =
     (let mine = filter (\<lambda>(k, r). fst k = scope) (db_cursors db);
          kept = map fst (take 64 (rev (sort_key (\<lambda>(k, r). (ch_observed r, snd k)) mine)))
      in db \<lparr> db_cursors := filter (\<lambda>(k, r). fst k = scope \<longrightarrow> k \<in> set kept) (db_cursors db) \<rparr>)"

definition incrementProviderCursorBudget :: "instant \<Rightarrow> EnvelopeRecord \<Rightarrow> 'z inbox_db_scheme \<Rightarrow> 'z inbox_db_scheme result" where
  "incrementProviderCursorBudget now record db =
     (case db_budgets db (scope_key record) of
        None \<Rightarrow> Inl (Wrap ''increment provider cursor budget'' (Sentinel ErrNoRows))
      | Some b \<Rightarrow>
          if bg_exhausted b \<or> MaxProviderCursorAdvances \<le> bg_advances b
          then Inl (Wrap ''increment provider cursor budget'' (Sentinel ErrNoRows))
          else Inr (db \<lparr> db_budgets := (db_budgets db)(scope_key record \<mapsto>
                 b \<lparr> bg_advances := bg_advances b + 1, bg_response := er_ProviderResponseID record, bg_updated := now \<rparr>) \<rparr>))"

definition exhaustProviderCursorBudget :: "instant \<Rightarrow> EnvelopeRecord \<Rightarrow> 'z inbox_db_scheme \<Rightarrow> 'z inbox_db_scheme result" where
  "exhaustProviderCursorBudget now record db =
     (case db_budgets db (scope_key record) of
        None \<Rightarrow> Inl (Wrap ''exhaust provider cursor budget'' (Sentinel ErrNoRows))
      | Some b \<Rightarrow>
          if bg_exhausted b \<or> bg_advances b < MaxProviderCursorAdvances
          then Inl (Wrap ''exhaust provider cursor budget'' (Sentinel ErrNoRows))
          else Inr (db \<lparr> db_budgets := (db_budgets db)(scope_key record \<mapsto>
                 b \<lparr> bg_exhausted := True, bg_response := er_ProviderResponseID record, bg_updated := now \<rparr>) \<rparr>))"

text \<open>
  The cursor of a stored response: a known cursor must have the same base, a new one needs budget.
  The result is the outcome of a poisoned response, or nothing when the commit goes on.
\<close>

definition cursor_base :: "commit_env \<Rightarrow> EnvelopeRecord \<Rightarrow> string option" where
  "cursor_base env record =
     (if pj_CursorBase (er_Projection record) = '''' then None else Some (ci_sha256 env (pj_CursorBase (er_Projection record))))"

definition insert_cursor :: "commit_env \<Rightarrow> EnvelopeRecord \<Rightarrow> string \<Rightarrow> 'z inbox_db_scheme \<Rightarrow> 'z inbox_db_scheme result" where
  "insert_cursor env record digest db =
     (let scope = scope_key record; base = cursor_base env record; db1 = seedProviderCursorHistory (ci_now env) scope base db in
      case cursor_of db1 (scope, digest) of
        Some _ \<Rightarrow> Inl (Wrap ''insert provider cursor history'' (Sentinel ErrNoRows))
      | None \<Rightarrow> incrementProviderCursorBudget (ci_now env) record
           (put_cursor (scope, digest) \<lparr> ch_base = base, ch_response = Some (er_ProviderResponseID record), ch_observed = ci_now env \<rparr> db1))"

definition advance_cursor ::
  "commit_env \<Rightarrow> EnvelopeRecord \<Rightarrow> string \<Rightarrow> nat \<Rightarrow> 'z inbox_db_scheme \<Rightarrow> (CommitResult option \<times> 'z inbox_db_scheme) result" where
  "advance_cursor env record candidate acceptedAdvances db =
     (let scope = scope_key record; digest = ci_sha256 env candidate;
          poison = (\<lambda>reason db. bind_res (poisonEnvelope env record reason db) (\<lambda>(r, db). Inr (Some r, db)));
          go_on = (\<lambda>db. Inr (None, pruneProviderCursorHistory scope db))
      in case cursor_of db (scope, digest) of
        Some stored \<Rightarrow> if ch_base stored \<noteq> cursor_base env record then poison ''provider_cursor_cycle'' db else go_on db
      | None \<Rightarrow>
          if MaxProviderCursorAdvances \<le> acceptedAdvances
          then bind_res (exhaustProviderCursorBudget (ci_now env) record db) (poison ''provider_cursor_budget_exhausted'')
          else bind_res (insert_cursor env record digest db) go_on)"

subsection \<open>Attachments\<close>

definition contractMedia :: "media_id \<Rightarrow> string \<Rightarrow> MediaLocator \<Rightarrow> event_media" where
  "contractMedia mediaID status a =
     \<lparr> em_ID = mediaID, em_Position = md_Position a, em_Status = status, em_MIMEType = md_MIMEType a, em_Size = md_DeclaredSize a,
       em_DisplayFilename = md_DisplayFilename a, em_MetadataPath = ''/v1/media/'' @ mediaID,
       em_ContentPath = (if status = ''ready'' then ''/v1/media/'' @ mediaID @ ''/content'' else '''') \<rparr>"

definition projected_tmp_id :: "EnvelopeRecord \<Rightarrow> MediaLocator \<Rightarrow> string" where
  "projected_tmp_id record a =
     (case List.find (\<lambda>m. pm_ProviderMessageID m = md_ProviderMessageID a) (pj_Messages (er_Projection record)) of
        None \<Rightarrow> '''' | Some m \<Rightarrow> pm_ProviderTmpID m)"

text \<open>The messages a locator names, those matched by the temporary identifier first.\<close>

definition attachment_messages :: "EnvelopeRecord \<Rightarrow> MediaLocator \<Rightarrow> 'z inbox_db_scheme \<Rightarrow> (mkey \<times> message_row) list" where
  "attachment_messages record a db =
     (let tmp = projected_tmp_id record a;
          mine = filter (\<lambda>(k, m). fst k = er_TenantID record \<and> ms_connection m = er_ConnectionID record) (db_messages db);
          by_tmp = (\<lambda>(k, m). tmp \<noteq> '''' \<and> ms_tmp_id m = Some tmp)
      in filter by_tmp mine @ filter (\<lambda>x. \<not> by_tmp x \<and> ms_provider_id (snd x) = Some (md_ProviderMessageID a)) mine)"

definition link_at :: "'z inbox_db_scheme \<Rightarrow> mkey \<Rightarrow> int \<Rightarrow> media_link option" where
  "link_at db k position =
     (case db_message_media db k of None \<Rightarrow> None | Some links \<Rightarrow> map_of links (nat position))"

text \<open>Media identifier, state, direction and stored identity of the attachment at the locator's position.\<close>

definition lockExistingAttachment ::
  "EnvelopeRecord \<Rightarrow> MediaLocator \<Rightarrow> 'z inbox_db_scheme \<Rightarrow> (media_id \<times> string \<times> string \<times> string) option" where
  "lockExistingAttachment record a db =
     (let tenantID = er_TenantID record;
          occupied = List.map_filter (\<lambda>(k, m). case link_at db k (md_Position a) of
              None \<Rightarrow> None
            | Some l \<Rightarrow> (case db_media db (tenantID, ml_media l) of
                None \<Rightarrow> None
              | Some o' \<Rightarrow> Some (ml_media l, mo_state o', ms_direction m,
                  case ml_identity l of Some d \<Rightarrow> d
                  | None \<Rightarrow> (case db_fetch_jobs db (tenantID, ml_media l) of None \<Rightarrow> '''' | Some j \<Rightarrow> (case fj_identity j of None \<Rightarrow> '''' | Some d \<Rightarrow> d)))))
            (attachment_messages record a db)
      in case occupied of [] \<Rightarrow> None | x # xs \<Rightarrow> Some x)"

definition bindOutboundAttachmentIdentity ::
  "commit_env \<Rightarrow> EnvelopeRecord \<Rightarrow> MediaLocator \<Rightarrow> 'z inbox_db_scheme \<Rightarrow> 'z inbox_db_scheme result" where
  "bindOutboundAttachmentIdentity env record a db =
     (let unbound = filter (\<lambda>(k, m). case link_at db k (md_Position a) of None \<Rightarrow> False | Some l \<Rightarrow> ml_identity l = None)
                     (attachment_messages record a db)
      in case unbound of
           [(k, m)] \<Rightarrow> Inr (db \<lparr> db_message_media := (db_message_media db)(k := map_option (\<lambda>links.
               map (\<lambda>(i, l). if i = nat (md_Position a) then (i, l \<lparr> ml_identity := Some (AttachmentIdentityDigest (ci_sha256 env) a) \<rparr>) else (i, l)) links)
               (db_message_media db k)) \<rparr>)
         | _ \<Rightarrow> Inl (Opaque ''outbound attachment identity changed during binding''))"

text \<open>
  The locators that are already attached: the aggregates that are reused with their media, or the
  outcome of a poisoned response when an attachment changed its identity.
\<close>

type_synonym media_map = "(string \<times> event_media) list"

fun reuse_attachments ::
  "commit_env \<Rightarrow> EnvelopeRecord \<Rightarrow> MediaLocator list \<Rightarrow> media_map \<Rightarrow> 'z inbox_db_scheme
   \<Rightarrow> ((CommitResult + media_map) \<times> 'z inbox_db_scheme) result" where
  "reuse_attachments env record [] reused db = Inr (Inr reused, db)"
| "reuse_attachments env record (a # rest) reused db =
     (let identity = AttachmentIdentityDigest (ci_sha256 env) a; aggregateID = AttachmentAggregateID (ci_sha256 env) a in
      case lockExistingAttachment record a db of
        None \<Rightarrow> reuse_attachments env record rest reused db
      | Some (mediaID, state, direction, storedIdentity) \<Rightarrow>
          if storedIdentity = identity
          then reuse_attachments env record rest ((aggregateID, contractMedia mediaID state a) # reused) db
          else if storedIdentity = '''' \<and> direction = ''outbound'' \<and> state = ''ready''
          then bind_res (bindOutboundAttachmentIdentity env record a db) (\<lambda>db.
               reuse_attachments env record rest ((aggregateID, contractMedia mediaID state a) # reused) db)
          else bind_res (poisonEnvelope env record ''media_identity_conflict'' db) (\<lambda>(r, db). Inr (Inl r, db)))"

subsection \<open>Conversations and messages\<close>

fun upsert_conversations ::
  "instant \<Rightarrow> ckey \<Rightarrow> ProjectedConversation list \<Rightarrow> 'z inbox_db_scheme \<Rightarrow> 'z inbox_db_scheme result" where
  "upsert_conversations now ck [] db = Inr db"
| "upsert_conversations now ck (c # rest) db =
     (let k = (fst ck, snd ck, pc_ConversationID c);
          row = (case db_conversations db k of
                   None \<Rightarrow> \<lparr> cv_default = pc_DefaultOutgoingID c, cv_is_group = pc_IsGroup c, cv_ordering = pc_ConversationID c,
                            cv_cursor = None, cv_updated = now \<rparr>
                 | Some old \<Rightarrow> old \<lparr> cv_default := pc_DefaultOutgoingID c, cv_is_group := pc_IsGroup c,
                            cv_ordering := (if cv_ordering old = '''' then pc_ConversationID c else cv_ordering old), cv_updated := now \<rparr>)
      in if \<not> ValidProviderConversationID (pc_ConversationID c)
            \<or> (pc_DefaultOutgoingID c \<noteq> '''' \<and> \<not> ValidProviderIdentifier (pc_DefaultOutgoingID c))
         then Inl (Opaque ''invalid provider conversation projection'')
         else upsert_conversations now ck rest (db \<lparr> db_conversations := (db_conversations db)(k \<mapsto> row) \<rparr>))"

definition receiptTransitionEventID :: "(string \<Rightarrow> string) \<Rightarrow> tenant_id \<Rightarrow> message_id \<Rightarrow> MessageState \<Rightarrow> ProjectedMessage \<Rightarrow> string" where
  "receiptTransitionEventID sha256 tenantID messageID state m =
     event_id sha256 [tenantID, messageID, state_name state, pm_ProviderMessageID m, pm_ProviderTmpID m]"

text \<open>The body of an event about a stored message, with the fields every such event shares.\<close>

definition stored_message_event ::
  "EnvelopeRecord \<Rightarrow> ProjectedMessage \<Rightarrow> message_id \<Rightarrow> string \<Rightarrow> string \<Rightarrow> string \<Rightarrow> bool \<Rightarrow> MessageState \<Rightarrow> event_envelope" where
  "stored_message_event record m messageID eventID eventType direction actionable state =
     (base_event eventID eventType (occurred_at record m) (er_TenantID record) (er_ConnectionID record))
       \<lparr> ee_IngestedAt := Some (er_ReceivedAt record), ee_ConversationID := pm_ConversationID m, ee_MessageID := messageID,
         ee_ProviderMessageID := pm_ProviderMessageID m, ee_ProviderTmpID := pm_ProviderTmpID m, ee_Direction := direction,
         ee_Provenance := pm_Provenance m, ee_ProviderStatus := pm_ProviderStatus m, ee_Actionable := actionable,
         ee_Sender := pm_Sender m, ee_Recipients := pm_Recipients m, ee_Text := pm_Text m, ee_Transport := pm_Transport m,
         ee_Status := state_name state, ee_State := state_name state \<rparr>"

definition transition_event ::
  "commit_env \<Rightarrow> EnvelopeRecord \<Rightarrow> nat \<Rightarrow> ProjectedMessage \<Rightarrow> projected_message \<Rightarrow> 'z inbox_db_scheme \<Rightarrow> 'z inbox_db_scheme result" where
  "transition_event env record n m v db =
     (if pr_Transition v = no_state then Inr db
      else let tenantID = er_TenantID record; eventType = ''message.'' @ state_name (pr_Transition v);
               eventID = receiptTransitionEventID (ci_sha256 env) tenantID (pr_ID v) (pr_Transition v) m in
        bind_res (event_Marshal (fst (ci_codec env)) (snd (ci_codec env))
            (stored_message_event record m (pr_ID v) eventID eventType ''outbound'' False (pr_Transition v))) (\<lambda>body.
        bind_res (insertGatewayEvent (tenantID, eventID)
            (event_row_of eventType ''message'' (pr_ID v) (er_ConnectionID record) (pm_ConversationID m) body) db) (\<lambda>db.
        insertEventOutbox (ci_now env) tenantID (ci_newID env TransitionOutboxID n) eventID db)))"

type_synonym message_map = "(string \<times> projected_message) list"

fun project_messages ::
  "commit_env \<Rightarrow> EnvelopeRecord \<Rightarrow> nat \<Rightarrow> ProjectedMessage list \<Rightarrow> message_map \<Rightarrow> 'z inbox_db_scheme
   \<Rightarrow> (message_map \<times> 'z inbox_db_scheme) result" where
  "project_messages env record n [] seen db = Inr (seen, db)"
| "project_messages env record n (m # rest) seen db =
     bind_res (project_message (ci_now env) (ci_newID env CandidateMessageID n) (ci_newID env InboundStatusID n)
         (er_TenantID record, er_ConnectionID record) m db) (\<lambda>(v, db).
     bind_res (transition_event env record n m v db) (\<lambda>db.
     project_messages env record (n + 1) rest ((pm_ProviderMessageID m, v) # seen) db))"

subsection \<open>Media objects and fetch jobs\<close>

definition envelopeSQLArgs :: "Envelope \<Rightarrow> (string \<times> string \<times> string \<times> string \<times> int) option" where
  "envelopeSQLArgs e =
     (if env_Ciphertext e = '''' then None
      else Some (env_Ciphertext e, env_WrappedDEK e, env_Nonce e, env_KeyID e, env_KeyVersion e))"

definition add_link :: "mkey \<Rightarrow> nat \<Rightarrow> media_link \<Rightarrow> 'z inbox_db_scheme \<Rightarrow> 'z inbox_db_scheme result" where
  "add_link k position l db =
     (let links = (case db_message_media db k of None \<Rightarrow> [] | Some ls \<Rightarrow> ls) in
      if list_ex (\<lambda>(i, x). i = position \<or> ml_media x = ml_media l) links then Inl unique_violation
      else Inr (db \<lparr> db_message_media := (db_message_media db)(k \<mapsto> links @ [(position, l)]) \<rparr>))"

definition insert_media ::
  "commit_env \<Rightarrow> EnvelopeRecord \<Rightarrow> nat \<Rightarrow> MediaLocator \<Rightarrow> message_id \<Rightarrow> 'z inbox_db_scheme \<Rightarrow> 'z inbox_db_scheme result" where
  "insert_media env record n a messageID db =
     (let tenantID = er_TenantID record; mediaID = ci_newID env MediaID n; size = max (md_DeclaredSize a) 0;
          identity = AttachmentIdentityDigest (ci_sha256 env) a in
      if db_media db (tenantID, mediaID) \<noteq> None \<or> db_fetch_jobs db (tenantID, mediaID) \<noteq> None then Inl unique_violation
      else bind_res (add_link (tenantID, messageID) (nat (md_Position a)) \<lparr> ml_media = mediaID, ml_identity = Some identity \<rparr>
             (db \<lparr> db_media := (db_media db)((tenantID, mediaID) \<mapsto>
                \<lparr> mo_message = Some messageID, mo_state = ''pending'', mo_mime = md_MIMEType a, mo_filename = md_DisplayFilename a,
                  mo_size = size \<rparr>) \<rparr>)) (\<lambda>db.
        Inr (db \<lparr> db_fetch_jobs := (db_fetch_jobs db)((tenantID, mediaID) \<mapsto>
          \<lparr> fj_id = ci_newID env JobID n, fj_connection = er_ConnectionID record, fj_message = md_ProviderMessageID a,
            fj_locator = md_Locator a, fj_mime = md_MIMEType a, fj_size = size, fj_filename = md_DisplayFilename a,
            fj_key = envelopeSQLArgs (md_KeyEnvelope a), fj_thumbnail = envelopeSQLArgs (md_ThumbnailKeyEnvelope a),
            fj_identity = Some identity \<rparr>) \<rparr>)))"

fun insert_all_media ::
  "commit_env \<Rightarrow> EnvelopeRecord \<Rightarrow> message_map \<Rightarrow> media_map \<Rightarrow> nat \<Rightarrow> MediaLocator list \<Rightarrow> media_map \<Rightarrow> 'z inbox_db_scheme
   \<Rightarrow> (media_map \<times> 'z inbox_db_scheme) result" where
  "insert_all_media env record messages reused n [] media db = Inr (media, db)"
| "insert_all_media env record messages reused n (a # rest) media db =
     (let aggregateID = AttachmentAggregateID (ci_sha256 env) a in
      if map_of reused aggregateID \<noteq> None then insert_all_media env record messages reused (n + 1) rest media db
      else case map_of messages (md_ProviderMessageID a) of
        None \<Rightarrow> Inl (Opaque ''provider media has no projected message'')
      | Some v \<Rightarrow>
          if pr_ID v = '''' then Inl (Opaque ''provider media has no projected message'')
          else bind_res (insert_media env record n a (pr_ID v) db) (\<lambda>db.
               insert_all_media env record messages reused (n + 1) rest
                 ((aggregateID, contractMedia (ci_newID env MediaID n) ''pending'' a) # media) db))"

subsection \<open>Events\<close>

definition actionableProviderMessage :: "ProjectedMessage \<Rightarrow> bool" where
  "actionableProviderMessage m =
     (pm_Actionable m \<and> pm_Direction m = ''inbound'' \<and> pm_Provenance m = MessageProvenanceLive
      \<and> pm_ProviderStatus m = ''INCOMING_COMPLETE'')"

definition media_identity_fields :: "event_media \<Rightarrow> string list" where
  "media_identity_fields x =
     [em_ID x, Itoa (em_Position x), em_Status x, em_MIMEType x, Itoa (em_Size x), em_DisplayFilename x, em_MetadataPath x, em_ContentPath x]"

definition semanticMessageEventID ::
  "commit_env \<Rightarrow> tenant_id \<Rightarrow> message_id \<Rightarrow> string \<Rightarrow> ProjectedMessage \<Rightarrow> MessageState \<Rightarrow> event_media list \<Rightarrow> string" where
  "semanticMessageEventID env tenantID messageID eventType m state media =
     (if eventType \<noteq> ''message.updated'' then event_id (ci_sha256 env) [tenantID, messageID, eventType]
      else ''evt_'' @ stringHex (take 16 (ci_sha256 env (concat (map writeIdentityField
        ([tenantID, messageID, eventType, pm_ProviderMessageID m, pm_ProviderTmpID m, pm_ConversationID m, pm_Direction m,
          pm_Provenance m, pm_ProviderStatus m, ci_rfc3339nano env (pm_ProviderOccurredAt m), pm_Sender m]
         @ sort (pm_Recipients m) @ [pm_Text m, pm_Transport m, state_name state]
         @ concat (map media_identity_fields (sort_key media_key media))))))))"

text \<open>The event type that is stored for a message event.\<close>

definition stored_event_type :: "ProjectedMessage \<Rightarrow> projected_message \<Rightarrow> string" where
  "stored_event_type m v =
     (if actionableProviderMessage m then ''message.received''
      else if pr_Inserted v \<and> (pm_Provenance m = MessageProvenanceHistory \<or> pm_Provenance m = MessageProvenanceReplay)
      then ''message.imported'' else ''message.updated'')"

definition semantic_type :: "string \<Rightarrow> bool" where
  "semantic_type t = (t = ''message.received'' \<or> t = ''message.imported'' \<or> t = ''message.updated'')"

text \<open>Identifier and row of a message event.\<close>

definition semantic_event ::
  "commit_env \<Rightarrow> EnvelopeRecord \<Rightarrow> message_map \<Rightarrow> media_map \<Rightarrow> OutboxEvent \<Rightarrow> (string \<times> event_row) result" where
  "semantic_event env record messages media e =
     (case (List.find (\<lambda>m. pm_ProviderMessageID m = oe_AggregateID e) (pj_Messages (er_Projection record)), map_of messages (oe_AggregateID e)) of
        (Some m, Some v) \<Rightarrow>
          if pr_ID v = '''' then Inl (Opaque ''message event has no projected message'')
          else let items = List.map_filter (\<lambda>a. if md_ProviderMessageID a = pm_ProviderMessageID m
                             then map_of media (AttachmentAggregateID (ci_sha256 env) a) else None) (er_Media record);
                   eventType = stored_event_type m v;
                   eventID = semanticMessageEventID env (er_TenantID record) (pr_ID v) eventType
                               (m \<lparr> pm_Direction := pr_Direction v \<rparr>) (pr_State v) items
               in bind_res (event_Marshal (fst (ci_codec env)) (snd (ci_codec env))
                    ((stored_message_event record m (pr_ID v) eventID eventType (pr_Direction v) (eventType = ''message.received'') (pr_State v))
                       \<lparr> ee_Media := items, ee_Data := [(''provider_message_id'', JString (pm_ProviderMessageID m)),
                                                     (''conversation_id'', JString (pm_ConversationID m))] \<rparr>)) (\<lambda>body.
                  Inr (eventID, event_row_of eventType ''message'' (pr_ID v) (er_ConnectionID record) (oe_PartitionConversation e) body))
      | _ \<Rightarrow> Inl (Opaque ''message event has no projected message''))"

definition media_event ::
  "commit_env \<Rightarrow> EnvelopeRecord \<Rightarrow> message_map \<Rightarrow> media_map \<Rightarrow> OutboxEvent \<Rightarrow> (string \<times> event_row) result" where
  "media_event env record messages media e =
     (case (map_of media (oe_AggregateID e), List.find (\<lambda>a. AttachmentAggregateID (ci_sha256 env) a = oe_AggregateID e) (rev (er_Media record))) of
        (Some x, Some a) \<Rightarrow>
          (case (List.find (\<lambda>m. pm_ProviderMessageID m = md_ProviderMessageID a) (pj_Messages (er_Projection record)),
                 map_of messages (md_ProviderMessageID a)) of
             (Some m, Some v) \<Rightarrow>
               if em_ID x = '''' \<or> pr_ID v = '''' then Inl (Opaque ''pending media event has no allocated media object'')
               else bind_res (event_Marshal (fst (ci_codec env)) (snd (ci_codec env))
                    ((base_event (oe_ID e) (oe_Type e) (er_ReceivedAt record) (er_TenantID record) (er_ConnectionID record))
                       \<lparr> ee_ConversationID := pm_ConversationID m, ee_MessageID := pr_ID v, ee_ProviderMessageID := md_ProviderMessageID a,
                         ee_MediaID := em_ID x, ee_MetadataPath := em_MetadataPath x, ee_Status := em_Status x, ee_State := em_Status x,
                         ee_Media := [x],
                         ee_Data := [(''provider_message_id'', JString (md_ProviderMessageID a)), (''message_id'', JString (pr_ID v)),
                           (''conversation_id'', JString (pm_ConversationID m)), (''attachment_index'', JNumber (md_Position a)),
                           (''media_id'', JString (em_ID x)), (''status'', JString (em_Status x)),
                           (''metadata_path'', JString (em_MetadataPath x))] \<rparr>)) (\<lambda>body.
                    Inr (oe_ID e, event_row_of (oe_Type e) ''media'' (em_ID x) (er_ConnectionID record) (pm_ConversationID m) body))
           | _ \<Rightarrow> Inl (Opaque ''pending media event has no allocated media object''))
      | _ \<Rightarrow> Inl (Opaque ''pending media event has no allocated media object''))"

definition ingress_event ::
  "commit_env \<Rightarrow> EnvelopeRecord \<Rightarrow> message_map \<Rightarrow> media_map \<Rightarrow> OutboxEvent \<Rightarrow> (string \<times> event_row) result" where
  "ingress_event env record messages media e =
     (if semantic_type (oe_Type e) then semantic_event env record messages media e
      else if oe_Type e = ''media.pending'' then media_event env record messages media e
      else Inr (oe_ID e, event_row_of (oe_Type e) ''provider_envelope'' (oe_AggregateID e) (er_ConnectionID record)
             (oe_PartitionConversation e) (oe_CanonicalBody e)))"

fun insert_events ::
  "commit_env \<Rightarrow> EnvelopeRecord \<Rightarrow> message_map \<Rightarrow> media_map \<Rightarrow> media_map \<Rightarrow> nat \<Rightarrow> OutboxEvent list \<Rightarrow> 'z inbox_db_scheme
   \<Rightarrow> 'z inbox_db_scheme result" where
  "insert_events env record messages reused media n [] db = Inr db"
| "insert_events env record messages reused media n (e # rest) db =
     (if oe_Type e = ''media.pending'' \<and> map_of reused (oe_AggregateID e) \<noteq> None
      then insert_events env record messages reused media (n + 1) rest db
      else if oe_ID e = '''' \<or> oe_Type e = '''' \<or> oe_CanonicalBody e = '''' \<or> 1048576 < length (oe_CanonicalBody e)
      then Inl (Opaque ''invalid durable event'')
      else bind_res (ingress_event env record messages media e) (\<lambda>(eventID, row).
        if semantic_type (oe_Type e) \<and> db_events db (er_TenantID record, eventID) \<noteq> None
        then insert_events env record messages reused media (n + 1) rest db
        else bind_res (insertGatewayEvent (er_TenantID record, eventID) row db) (\<lambda>db.
             bind_res (insertEventOutbox (ci_now env) (er_TenantID record) (ci_newID env EventOutboxID n) eventID db) (\<lambda>db.
             insert_events env record messages reused media (n + 1) rest db))))"

subsection \<open>The commit\<close>

definition line_record_of :: "ProjectedLine \<Rightarrow> E164Phone \<Rightarrow> LineRecord" where
  "line_record_of l phone =
     \<lparr> lrec_Line = \<lparr> line_ID = pl_ID l, line_TenantID = pl_TenantID l, line_ConnectionID = pl_ConnectionID l,
                    line_ProviderParticipantID = pl_ProviderParticipantID l, line_ProviderOutgoingID = pl_ProviderOutgoingID l,
                    line_DisplayName = pl_DisplayName l \<rparr>,
       lrec_Phone = phone, lrec_CarrierName = pl_CarrierName l, lrec_ColorHex = pl_ColorHex l, lrec_RCSEnabled = pl_RCSEnabled l,
       lrec_ProviderSIMNumber = pl_ProviderSIMNumber l, lrec_ProviderSIMPayloadType = pl_ProviderSIMPayloadType l,
       lrec_DiscoverySource = LineDiscoveryAuthenticatedGoogleSettings \<rparr>"

fun projected_line_records :: "EnvelopeRecord \<Rightarrow> ProjectedLine list \<Rightarrow> LineRecord list result" where
  "projected_line_records record [] = Inr []"
| "projected_line_records record (l # rest) =
     (if pl_TenantID l \<noteq> er_TenantID record \<or> pl_ConnectionID l \<noteq> er_ConnectionID record
         \<or> pl_DiscoverySource l \<noteq> LineDiscoveryAuthenticatedGoogleSettings
      then Inl (Opaque ''provider line snapshot crossed its durable scope'')
      else case ParseE164 (pl_Phone l) of
        Inl e \<Rightarrow> Inl (Wrap ''parse projected line phone'' e)
      | Inr phone \<Rightarrow> bind_res (projected_line_records record rest) (\<lambda>rs. Inr (line_record_of l phone # rs)))"

definition replace_projected_lines :: "EnvelopeRecord \<Rightarrow> 'z inbox_db_scheme \<Rightarrow> 'z inbox_db_scheme result" where
  "replace_projected_lines record db =
     (if \<not> pj_LineSnapshot (er_Projection record) then Inr db
      else bind_res (projected_line_records record (pj_Lines (er_Projection record))) (\<lambda>records.
        case validateLineReplacement (er_TenantID record) (er_ConnectionID record) records of
          Some e \<Rightarrow> Inl (Wrap ''validate durable line snapshot'' e)
        | None \<Rightarrow> replaceLineRows (er_TenantID record) (er_ConnectionID record) records db))"

definition advance_committed_cursor :: "instant \<Rightarrow> EnvelopeRecord \<Rightarrow> 'z inbox_db_scheme \<Rightarrow> 'z inbox_db_scheme result" where
  "advance_committed_cursor now record db =
     (let p = er_Projection record; k = scope_key record in
      if pj_Cursor p = '''' then Inr db
      else if pj_CursorSource p \<noteq> CursorSourceListMessages \<or> \<not> ValidProviderConversationID (pj_CursorConversationID p)
      then Inl (Opaque ''invalid committed cursor source or target'')
      else Inr (db \<lparr> db_conversations := (db_conversations db)(k \<mapsto>
             (case db_conversations db k of
                None \<Rightarrow> \<lparr> cv_default = '''', cv_is_group = False, cv_ordering = '''', cv_cursor = Some (pj_Cursor p), cv_updated = now \<rparr>
              | Some c \<Rightarrow> c \<lparr> cv_cursor := Some (pj_Cursor p), cv_updated := now \<rparr>)) \<rparr>))"

text \<open>Everything a new response projects to, after its row and reservation were inserted.\<close>

definition project_envelope ::
  "commit_env \<Rightarrow> EnvelopeRecord \<Rightarrow> 'z inbox_db_scheme \<Rightarrow> (CommitResult \<times> 'z inbox_db_scheme) result" where
  "project_envelope env record db =
     bind_res (reuse_attachments env record (er_Media record) [] db) (\<lambda>(reused, db).
     case reused of
       Inl outcome \<Rightarrow> Inr (outcome, db)
     | Inr reused \<Rightarrow>
         bind_res (upsert_conversations (ci_now env) (er_TenantID record, er_ConnectionID record) (pj_Conversations (er_Projection record)) db) (\<lambda>db.
         bind_res (project_messages env record 0 (pj_Messages (er_Projection record)) [] db) (\<lambda>(messages, db).
         bind_res (insert_all_media env record messages reused 0 (er_Media record) reused db) (\<lambda>(media, db).
         bind_res (insert_events env record messages reused media 0 (er_Events record) db) (\<lambda>db.
         bind_res (advance_committed_cursor (ci_now env) record db) (\<lambda>db.
         Inr (if er_Poisoned record then CommitPoisoned else CommitInserted, db)))))))"

definition insert_envelope ::
  "commit_env \<Rightarrow> EnvelopeRecord \<Rightarrow> string \<Rightarrow> nat \<Rightarrow> 'z inbox_db_scheme \<Rightarrow> (CommitResult \<times> 'z inbox_db_scheme) result" where
  "insert_envelope env record candidate acceptedAdvances db =
     bind_res (insertProviderInbox (ci_newID env InboxID 0) record db) (\<lambda>(inserted, db).
     if \<not> inserted
     then Inl (if er_Poisoned record then Joined [Sentinel (Ingress ErrProviderResponseCapacity), Sentinel (Ingress ErrConflictingEnvelope)]
               else Sentinel (Ingress ErrConflictingEnvelope))
     else bind_res (replace_projected_lines record db) (\<lambda>db.
       if candidate = '''' then project_envelope env record db
       else bind_res (advance_cursor env record candidate acceptedAdvances db) (\<lambda>(outcome, db).
            case outcome of Some r \<Rightarrow> Inr (r, db) | None \<Rightarrow> project_envelope env record db)))"

text \<open>A response whose identifier is stored: an exact repetition, or a conflict that fences the ACK.\<close>

definition repeated_envelope ::
  "commit_env \<Rightarrow> EnvelopeRecord \<Rightarrow> string \<times> disposition \<times> bool \<times> bool \<times> string \<Rightarrow> 'z inbox_db_scheme
   \<Rightarrow> (CommitResult \<times> 'z inbox_db_scheme) result" where
  "repeated_envelope env record stored db =
     (let (digest, disp, ackPending, poisoned, reason) = stored; k = record_key record in
      if length digest = 32 \<and> digest = er_Digest record then
        (if disp = DispositionInbox \<and> poisoned \<and> reason = ''invalid_settings_snapshot'' then Inr (CommitDuplicateACKWithheld, db)
         else let db' = (if \<not> ackPending \<and> \<not> er_ACKWithheld record then reopenProviderACK k db else db)
              in Inr (if poisoned then CommitDuplicatePoisoned else CommitDuplicate, db'))
      else let db1 = insertProviderInboxConflict (ci_now env) (ci_newID env ConflictID 0) record db in
        if disp = DispositionInbox \<and> \<not> poisoned
        then bind_res (finalizeProviderPoison (ci_now env) k ''response_id_digest_conflict'' db1) (\<lambda>(moved, db2). Inr (CommitConflict, db2))
        else Inr (CommitConflict, db1))"

definition rejected_envelope ::
  "EnvelopeRecord \<Rightarrow> 'z inbox_db_scheme \<Rightarrow> (CommitResult \<times> 'z inbox_db_scheme) result" where
  "rejected_envelope record db =
     (case upsertRejectedProviderResponse record db of
        None \<Rightarrow> Inl (Joined [Sentinel (Ingress ErrProviderResponseCapacity), Sentinel (Ingress ErrConflictingEnvelope)])
      | Some ((storedDigest, conflicted, occurrences), db') \<Rightarrow>
          Inr (if conflicted \<or> \<not> (length storedDigest = 32 \<and> storedDigest = er_Digest record) then CommitConflict
               else if 1 < occurrences then CommitDuplicatePoisoned else CommitPoisoned, db'))"

definition commit_envelope ::
  "commit_env \<Rightarrow> EnvelopeRecord \<Rightarrow> 'z inbox_db_scheme \<Rightarrow> (CommitResult \<times> 'z inbox_db_scheme) result" where
  "commit_envelope env record db =
     (let candidate = cursor_candidate (er_Projection record);
          db1 = (if candidate = '''' then db else ensureProviderCursorBudget (ci_now env) record db);
          budget = (if candidate = '''' then None else db_budgets db1 (scope_key record));
          advances = (case budget of None \<Rightarrow> 0 | Some b \<Rightarrow> bg_advances b)
      in if \<not> owned_lease db (er_TenantID record, er_ConnectionID record) (er_OwnerID record) (er_FencingToken record) (ci_now env)
         then Inl (Sentinel (Postgres ErrConnectionLeaseLost))
         else if MaxProviderCursorAdvances < advances then Inl (Opaque ''provider cursor budget is corrupt'')
         else case getProviderInbox (record_key record) db1 of
           Some stored \<Rightarrow> repeated_envelope env record stored db1
         | None \<Rightarrow>
             if (case budget of None \<Rightarrow> False | Some b \<Rightarrow> bg_exhausted b) then rejected_envelope record db1
             else insert_envelope env record candidate advances db1)"

definition CommitEnvelope ::
  "fault \<Rightarrow> commit_env \<Rightarrow> EnvelopeRecord \<Rightarrow> 'z inbox_db_scheme \<Rightarrow> CommitResult result \<times> 'z inbox_db_scheme" where
  "CommitEnvelope f env record db =
     (if er_TenantID record = '''' \<or> er_ConnectionID record = '''' \<or> \<not> ValidProviderResponseID (er_ProviderResponseID record)
         \<or> er_OwnerID record = '''' \<or> er_FencingToken record = 0 \<or> er_Raw record = '''' \<or> 4194304 < length (er_Raw record)
         \<or> \<not> er_ACKPending record \<or> (er_ACKWithheld record \<and> \<not> er_Poisoned record)
      then (Inl (Sentinel ErrInvalidIdentifier), db)
      else case canonicalizeProjectionCursors (ci_cursor env) (er_Projection record) of
        Inl _ \<Rightarrow> (Inl (Sentinel ErrInvalidIdentifier), db)
      | Inr projection \<Rightarrow>
          let record' = record \<lparr> er_Projection := projection \<rparr> in
          if ValidateProjection (ci_cursor env) projection (er_Media record') \<noteq> None then (Inl (Sentinel ErrInvalidIdentifier), db)
          else inTenant f (er_TenantID record') (commit_envelope env record') db)"

end
