(* ===== verification/Ingress_Service.thy ===== *)
theory Ingress_Service
  imports Inbox_Store Lease_Store
begin

text \<open>
  The two sides of the inbox: \<^verbatim>\<open>ingress.Service.Process\<close> turns a decoded or undecodable provider
  response into one commit and says whether it may be acknowledged; the acknowledgement operations
  of \<^verbatim>\<open>store/postgres/messages.go\<close> list, coordinate and record acknowledgements under the fence of
  the connection lease.
\<close>

section \<open>Processing a response\<close>

record ProviderEnvelope =
  pe_TenantID :: tenant_id
  pe_ConnectionID :: connection_id
  pe_OwnerID :: owner_id
  pe_FencingToken :: token
  pe_ProviderResponseID :: string
  pe_Raw :: string
  pe_Projection :: Projection
  pe_Media :: "MediaLocator list"
  pe_DecodeError :: goerror
  pe_ACKWithheld :: bool
  pe_PoisonReason :: string

record ProcessResult =
  po_ACKEligible :: bool
  po_ACKWithheld :: bool
  po_Duplicate :: bool
  po_Poisoned :: bool

definition PoisonReasonInvalidSettingsSnapshot :: string where
  "PoisonReasonInvalidSettingsSnapshot = ''invalid_settings_snapshot''"

definition MaxRawEnvelopeBytes :: nat where
  "MaxRawEnvelopeBytes = 4194304"

definition valid_record :: "commit_env \<Rightarrow> instant \<Rightarrow> ProviderEnvelope \<Rightarrow> EnvelopeRecord" where
  "valid_record env received e =
     \<lparr> er_TenantID = pe_TenantID e, er_ConnectionID = pe_ConnectionID e, er_OwnerID = pe_OwnerID e, er_FencingToken = pe_FencingToken e,
       er_ProviderResponseID = pe_ProviderResponseID e, er_Raw = pe_Raw e, er_Digest = ci_sha256 env (pe_Raw e),
       er_Projection = pe_Projection e, er_Media = pe_Media e, er_Events = [], er_Poisoned = False, er_PoisonReason = '''',
       er_ACKPending = True, er_ACKWithheld = pe_ACKWithheld e, er_ReceivedAt = received \<rparr>"

definition process_record :: "commit_env \<Rightarrow> instant \<Rightarrow> ProviderEnvelope \<Rightarrow> EnvelopeRecord" where
  "process_record env received e =
     (let record = valid_record env received e;
          projectionErr = ValidateProjection (ci_cursor env) (pe_Projection e) (pe_Media e);
          reason = (if pe_ACKWithheld e then pe_PoisonReason e
                    else if pe_DecodeError e \<noteq> None then ''decode_failed'' else ''projection_invalid'');
          poisoned = record \<lparr> er_Poisoned := True, er_PoisonReason := reason, er_Projection := empty_projection, er_Media := [] \<rparr>
      in if pe_DecodeError e \<noteq> None \<or> projectionErr \<noteq> None
         then poisoned \<lparr> er_Events := [buildEvent (ci_sha256 env) (ci_codec env) poisoned ''inbox.poisoned'' (pe_ProviderResponseID e) [(''reason'', reason)]] \<rparr>
         else record \<lparr> er_Events := projectionEvents (ci_sha256 env) (ci_codec env) record \<rparr>)"

definition process_result :: "EnvelopeRecord \<Rightarrow> CommitResult \<Rightarrow> ProcessResult result" where
  "process_result record r =
     (let eligible = \<not> er_ACKWithheld record; withheld = er_ACKWithheld record in
      case r of
        CommitInserted \<Rightarrow> Inr \<lparr> po_ACKEligible = eligible, po_ACKWithheld = withheld, po_Duplicate = False, po_Poisoned = er_Poisoned record \<rparr>
      | CommitDuplicate \<Rightarrow> Inr \<lparr> po_ACKEligible = eligible, po_ACKWithheld = withheld, po_Duplicate = True, po_Poisoned = er_Poisoned record \<rparr>
      | CommitPoisoned \<Rightarrow> Inr \<lparr> po_ACKEligible = eligible, po_ACKWithheld = withheld, po_Duplicate = False, po_Poisoned = True \<rparr>
      | CommitDuplicatePoisoned \<Rightarrow> Inr \<lparr> po_ACKEligible = eligible, po_ACKWithheld = withheld, po_Duplicate = True, po_Poisoned = True \<rparr>
      | CommitDuplicateACKWithheld \<Rightarrow> Inr \<lparr> po_ACKEligible = False, po_ACKWithheld = True, po_Duplicate = True, po_Poisoned = True \<rparr>
      | CommitConflict \<Rightarrow> Inl (Sentinel (Ingress ErrConflictingEnvelope)))"

definition Process ::
  "fault \<Rightarrow> commit_env \<Rightarrow> instant \<Rightarrow> ProviderEnvelope \<Rightarrow> 'z inbox_db_scheme \<Rightarrow> ProcessResult result \<times> 'z inbox_db_scheme" where
  "Process f env received e db =
     (if pe_TenantID e = '''' \<or> pe_ConnectionID e = '''' \<or> pe_OwnerID e = '''' \<or> pe_FencingToken e = 0 \<or> pe_Raw e = ''''
         \<or> MaxRawEnvelopeBytes < length (pe_Raw e) then (Inl (Sentinel ErrInvalidIdentifier), db)
      else if \<not> ValidProviderResponseID (pe_ProviderResponseID e)
      then (Inl (Joined [Sentinel (Ingress ErrInvalidProviderResponseID), Sentinel ErrInvalidIdentifier]), db)
      else if pe_ACKWithheld e \<and> (pe_DecodeError e = None \<or> pe_PoisonReason e \<noteq> PoisonReasonInvalidSettingsSnapshot)
      then (Inl (Sentinel ErrInvalidIdentifier), db)
      else let record = process_record env received e; (r, db') = CommitEnvelope f env record db
           in (bind_res r (process_result record), db'))"

section \<open>Acknowledgements\<close>

text \<open>A response that may be acknowledged: unconflicted, stored, and awaiting an acknowledgement.\<close>

definition ack_eligible :: "'z inbox_db_scheme \<Rightarrow> rkey \<Rightarrow> bool" where
  "ack_eligible db k =
     (case reservation_of db k of
        None \<Rightarrow> False
      | Some r \<Rightarrow> \<not> rv_conflicted r \<and>
          (case rv_disposition r of
             DispositionInbox \<Rightarrow> (case inbox_of db k of None \<Rightarrow> False | Some b \<Rightarrow> ib_ack_pending b)
           | DispositionRejected \<Rightarrow> (case rejected_of db k of None \<Rightarrow> False | Some j \<Rightarrow> rj_ack_pending j \<and> \<not> rj_conflicted j)))"

definition mark_acked :: "instant \<Rightarrow> rkey \<Rightarrow> 'z inbox_db_scheme \<Rightarrow> 'z inbox_db_scheme" where
  "mark_acked now k db =
     (if \<not> ack_eligible db k then db
      else case map_option rv_disposition (reservation_of db k) of
        Some DispositionInbox \<Rightarrow> update_inbox k (\<lambda>b. b \<lparr> ib_ack_pending := False, ib_acked := Some now \<rparr>) db
      | _ \<Rightarrow> update_rejected k (\<lambda>j. j \<lparr> rj_ack_pending := False, rj_acked := Some now \<rparr>) db)"

definition ack_ids_ok :: "string list \<Rightarrow> bool" where
  "ack_ids_ok ids = (ids \<noteq> [] \<and> length ids \<le> 256 \<and> list_all ValidProviderResponseID ids \<and> distinct ids)"

definition response_key :: "ckey \<Rightarrow> string \<Rightarrow> rkey" where
  "response_key ck i = (fst ck, snd ck, i)"

text \<open>
  \<^verbatim>\<open>MarkProviderACKedFenced\<close>: the rows are updated when the lease is owned; the flag also says whether
  every identifier was eligible.
\<close>

definition MarkProviderACKedFenced ::
  "fault \<Rightarrow> instant \<Rightarrow> tenant_id \<Rightarrow> connection_id \<Rightarrow> owner_id \<Rightarrow> token \<Rightarrow> string list \<Rightarrow> 'z inbox_db_scheme
   \<Rightarrow> bool result \<times> 'z inbox_db_scheme" where
  "MarkProviderACKedFenced f now tenantID connectionID ownerID fencingToken ids db =
     (if tenantID = '''' \<or> connectionID = '''' \<or> ownerID = '''' \<or> fencingToken = 0 \<or> \<not> ack_ids_ok ids
      then (Inl (Sentinel ErrInvalidIdentifier), db)
      else inTenant f tenantID (\<lambda>db.
        if \<not> owned_lease db (tenantID, connectionID) ownerID fencingToken now then Inr (False, db)
        else Inr (list_all (\<lambda>i. ack_eligible db (response_key (tenantID, connectionID) i)) ids,
                  fold (\<lambda>i. mark_acked now (response_key (tenantID, connectionID) i)) ids db)) db)"

text \<open>
  \<^verbatim>\<open>ListPendingProviderACKsFenced\<close>: the pending rows of both tables, each sorted and limited, then
  merged, sorted and limited again. Text sorts under the collation of the database. A row has the
  response identifier, the time the response was received and the text that breaks ties.
\<close>

definition inbox_pending_rows :: "ckey \<Rightarrow> 'z inbox_db_scheme \<Rightarrow> (string \<times> instant \<times> string) list" where
  "inbox_pending_rows ck db =
     List.map_filter (\<lambda>((t, c, i), b). case reservation_of db (t, c, i) of
         None \<Rightarrow> None
       | Some r \<Rightarrow> if (t, c) = ck \<and> rv_disposition r = DispositionInbox \<and> \<not> rv_conflicted r \<and> ib_ack_pending b
                   then Some (i, ib_received b, ib_id b) else None) (db_inbox db)"

definition rejected_pending_rows :: "ckey \<Rightarrow> 'z inbox_db_scheme \<Rightarrow> (string \<times> instant \<times> string) list" where
  "rejected_pending_rows ck db =
     List.map_filter (\<lambda>((t, c, i), j). case reservation_of db (t, c, i) of
         None \<Rightarrow> None
       | Some r \<Rightarrow> if (t, c) = ck \<and> rv_disposition r = DispositionRejected \<and> \<not> rv_conflicted r \<and> rj_ack_pending j \<and> \<not> rj_conflicted j
                   then Some (i, rj_first j, ''rejected:'' @ i) else None) (db_rejected db)"

definition by_inbox_id :: "(string \<Rightarrow> 'k::linorder) \<Rightarrow> string \<times> instant \<times> string \<Rightarrow> instant \<times> 'k" where
  "by_inbox_id collate row = (fst (snd row), collate (snd (snd row)))"

definition by_response_id :: "(string \<Rightarrow> 'k::linorder) \<Rightarrow> string \<times> instant \<times> string \<Rightarrow> instant \<times> 'k" where
  "by_response_id collate row = (fst (snd row), collate (fst row))"

definition listPendingProviderACKs :: "(string \<Rightarrow> 'k::linorder) \<Rightarrow> ckey \<Rightarrow> nat \<Rightarrow> 'z inbox_db_scheme \<Rightarrow> string list" where
  "listPendingProviderACKs collate ck limit db =
     (let inbox_pending = take limit (sort_key (by_inbox_id collate) (inbox_pending_rows ck db));
          rejected_pending = take limit (sort_key (by_response_id collate) (rejected_pending_rows ck db));
          pending = take limit (sort_key (by_inbox_id collate) (inbox_pending @ rejected_pending))
      in map fst (take limit (sort_key (by_inbox_id collate) pending)))"

definition ListPendingProviderACKsFenced ::
  "(string \<Rightarrow> 'k::linorder) \<Rightarrow> fault \<Rightarrow> instant \<Rightarrow> tenant_id \<Rightarrow> connection_id \<Rightarrow> owner_id \<Rightarrow> token \<Rightarrow> int \<Rightarrow> 'z inbox_db_scheme
   \<Rightarrow> string list result \<times> 'z inbox_db_scheme" where
  "ListPendingProviderACKsFenced collate f now tenantID connectionID ownerID fencingToken limit db =
     (if tenantID = '''' \<or> connectionID = '''' \<or> ownerID = '''' \<or> fencingToken = 0 \<or> limit < 1 \<or> 256 < limit
      then (Inl (Sentinel ErrInvalidIdentifier), db)
      else inTenant f tenantID (\<lambda>db.
        if \<not> locked_lease db (tenantID, connectionID) ownerID fencingToken now then Inl (Sentinel (Postgres ErrConnectionLeaseLost))
        else let ids = listPendingProviderACKs collate (tenantID, connectionID) (nat limit) db in
          if \<not> list_all ValidProviderResponseID ids
          then Inl (Joined [Sentinel (Ingress ErrInvalidProviderResponseID), Sentinel ErrInvalidIdentifier])
          else Inr (ids, db)) db)"

text \<open>The committed cursor of a conversation, empty when the conversation or its cursor is absent or the cursor is too long.\<close>

definition LoadCommittedCursor ::
  "fault \<Rightarrow> tenant_id \<Rightarrow> connection_id \<Rightarrow> string \<Rightarrow> 'z inbox_db_scheme \<Rightarrow> string result \<times> 'z inbox_db_scheme" where
  "LoadCommittedCursor f tenantID connectionID conversationID db =
     (if tenantID = '''' \<or> connectionID = '''' \<or> (conversationID \<noteq> ProviderPageCursorID \<and> \<not> ValidProviderConversationID conversationID)
      then (Inl (Sentinel ErrInvalidIdentifier), db)
      else inTenant f tenantID (\<lambda>db.
        Inr (case db_conversations db (tenantID, connectionID, conversationID) of
               None \<Rightarrow> ''''
             | Some c \<Rightarrow> (case cv_cursor c of None \<Rightarrow> '''' | Some cursor \<Rightarrow> if length cursor \<le> 4096 then cursor else ''''), db)) db)"

definition ProviderACKCoordinationHardTimeout :: duration where
  "ProviderACKCoordinationHardTimeout = 5 * second"

record ACKCoordinationResult =
  ac_AdmittedIDs :: "string list"
  ac_ProviderError :: goerror

text \<open>
  \<^verbatim>\<open>CoordinateProviderACKsFenced\<close>: the eligible identifiers are sent to the provider while their rows
  are locked. The result has the identifiers that were sent, if the callback was called. The first
  fault is one of the statements before the callback, the second one of those after it.
\<close>

definition CoordinateProviderACKsFenced ::
  "fault \<Rightarrow> fault \<Rightarrow> instant \<Rightarrow> tenant_id \<Rightarrow> connection_id \<Rightarrow> owner_id \<Rightarrow> token \<Rightarrow> duration \<Rightarrow> string list \<Rightarrow> (string list \<Rightarrow> goerror)
   \<Rightarrow> 'z inbox_db_scheme \<Rightarrow> (ACKCoordinationResult \<times> goerror) \<times> string list option \<times> 'z inbox_db_scheme" where
  "CoordinateProviderACKsFenced f1 f2 now tenantID connectionID ownerID fencingToken leaseTTL ids send db =
     (let ck = (tenantID, connectionID); empty = \<lparr> ac_AdmittedIDs = [], ac_ProviderError = None \<rparr>;
          admitted = filter (\<lambda>i. ack_eligible db (response_key ck i)) ids; result = empty \<lparr> ac_AdmittedIDs := admitted \<rparr>;
          db1 = db \<lparr> db_leases := (db_leases db)(ck := map_option (\<lambda>l. l \<lparr> ls_expires := max (ls_expires l) (now + micros leaseTTL), ls_updated := now \<rparr>)
                                                   (db_leases db ck)) \<rparr>;
          commit = (\<lambda>db' sent. case f2 of NoFault \<Rightarrow> ((result, None), sent, db') | Aborted e \<Rightarrow> ((result, Some e), sent, db)
                                      | CommitLost e \<Rightarrow> ((result, Some e), sent, db'))
      in if tenantID = '''' \<or> connectionID = '''' \<or> ownerID = '''' \<or> fencingToken = 0 \<or> leaseTTL \<le> ProviderACKCoordinationHardTimeout
            \<or> maximumLeaseTTL < leaseTTL \<or> \<not> ack_ids_ok ids then ((empty, Some (Sentinel ErrInvalidIdentifier)), None, db)
         else case f1 of
           Aborted e \<Rightarrow> ((empty, Some e), None, db)
         | _ \<Rightarrow>
             if \<not> owned_lease db ck ownerID fencingToken now then ((empty, Some (Sentinel (Postgres ErrConnectionLeaseLost))), None, db)
             else if admitted = [] then commit db1 None
             else case send admitted of
               Some e \<Rightarrow> ((result \<lparr> ac_ProviderError := Some e \<rparr>, None), Some admitted, db)
             | None \<Rightarrow> commit (fold (\<lambda>i. mark_acked now (response_key ck i)) admitted db1) (Some admitted))"

end
