(* ===== verification/Inbox_Correct.thy ===== *)
theory Inbox_Correct
  imports Ingress_Service Dispatcher
begin

text \<open>
  The inbox keeps one digest and one disposition per response identifier, projects a response at
  most once, bounds the evidence of a connection, and never acknowledges a conflicting response.
  A commit is also a run of the message store, so what is proved about dispatches holds with it.
\<close>

section \<open>What the parts of a commit leave alone\<close>

definition same_inbox :: "'z inbox_db_scheme \<Rightarrow> 'z inbox_db_scheme \<Rightarrow> bool" where
  "same_inbox db db' \<longleftrightarrow> db_reservations db' = db_reservations db \<and> db_inbox db' = db_inbox db \<and> db_rejected db' = db_rejected db"

lemma same_inbox_refl [simp]: "same_inbox db db"
  by (simp add: same_inbox_def)

lemma same_inbox_trans: "same_inbox a b \<Longrightarrow> same_inbox b c \<Longrightarrow> same_inbox a c"
  by (simp add: same_inbox_def)

text \<open>A projection step of a commit: a run of the message store that leaves the inbox alone.\<close>

definition projecting :: "(string \<Rightarrow> 'k::linorder) \<Rightarrow> 'z inbox_db_scheme \<Rightarrow> 'z inbox_db_scheme \<Rightarrow> bool" where
  "projecting collate db db' \<longleftrightarrow> same_inbox db db' \<and> reaches collate db db'"

named_theorems projecting_intros

lemma projecting_refl [simp]: "projecting collate db db"
  by (simp add: projecting_def reaches_refl)

lemma projecting_trans: "projecting collate a b \<Longrightarrow> projecting collate b c \<Longrightarrow> projecting collate a c"
  unfolding projecting_def by (blast intro: same_inbox_trans reaches_trans)

lemma projecting_other:
  "same_dispatch db db' \<Longrightarrow> db_status db' = db_status db \<Longrightarrow> same_inbox db db' \<Longrightarrow> projecting collate db db'"
  unfolding projecting_def by (blast intro: reaches_step d_other)

lemma insert_event_projecting:
  "insertGatewayEvent k row db = Inr db' \<Longrightarrow> projecting collate db db'"
  "insertEventOutbox now t o' e db = Inr db' \<Longrightarrow> projecting collate db db'"
  by (auto intro!: projecting_other simp: insertGatewayEvent_def same_dispatch_def same_inbox_def split: if_splits dest!: insertEventOutbox_adds)

lemma upsert_lines_tables:
  "upsert_lines t c recs db = Inr db' \<Longrightarrow> gateway_db.more db' = gateway_db.more db"
  by (induction t c recs db rule: upsert_lines.induct) (auto simp: Let_def split: option.splits if_splits)

lemma more_projecting:
  assumes "gateway_db.more db' = gateway_db.more (db :: 'z inbox_db_scheme)"
  shows "projecting collate db db'"
  using assms by (intro projecting_other; cases db; cases db'; simp add: same_dispatch_def same_inbox_def)

lemma replace_projected_lines_projecting:
  assumes "replace_projected_lines rcd db = Inr db'"
  shows "projecting collate db db'"
proof (cases "pj_LineSnapshot (er_Projection rcd)")
  case True
  then obtain recs db1 where u: "upsert_lines (er_TenantID rcd) (er_ConnectionID rcd) recs db = Inr db1"
    and d: "db' = retire_lines (er_TenantID rcd) (er_ConnectionID rcd) (map (\<lambda>rec. line_ID (lrec_Line rec)) recs) db1"
    using assms by (auto simp: replace_projected_lines_def replaceLineRows_def bind_res_Inr split: option.splits)
  have "gateway_db.more db' = gateway_db.more db" using upsert_lines_tables [OF u] by (simp add: d retire_lines_def)
  then show ?thesis by (rule more_projecting)
qed (use assms in \<open>simp add: replace_projected_lines_def\<close>)

lemma upsert_conversations_projecting:
  "upsert_conversations now ck cs db = Inr db' \<Longrightarrow> projecting collate db db'"
proof (induction now ck cs db rule: upsert_conversations.induct)
  case (2 now ck c rest db)
  obtain row where "upsert_conversations now ck rest (db \<lparr> db_conversations := row \<rparr>) = Inr db'"
    and "projecting collate (db \<lparr> db_conversations := row \<rparr>) db'"
    using 2 by (auto simp: Let_def split: if_splits)
  moreover have "projecting collate db (db \<lparr> db_conversations := row \<rparr>)"
    by (rule projecting_other) (simp_all add: same_dispatch_def same_inbox_def)
  ultimately show ?case by (blast intro: projecting_trans)
qed simp

lemma record_provider_status_same_inbox:
  "record_provider_status now sid k p (put_message k' m db) = Inr db' \<Longrightarrow> same_inbox db db'"
  by (auto simp: record_provider_status_def insertMessageStatus_def put_message_def same_inbox_def split: if_splits)

lemma project_message_same_inbox:
  assumes "project_message now cand sid ck p db = Inr (v, db')"
  shows "same_inbox db db'"
proof -
  obtain k k' m where "record_provider_status now sid k p (put_message k' m db) = Inr db'"
    using assms unfolding project_message_def insert_projected_def reconcile_message_def Let_def
    by (simp add: bind_res_Inr split: option.splits if_splits prod.splits) (blast+)?
  then show ?thesis by (rule record_provider_status_same_inbox)
qed

lemma transition_event_projecting:
  assumes "transition_event env rcd n m v db = Inr db'"
  shows "projecting collate db db'"
  using assms by (auto simp: transition_event_def Let_def bind_res_Inr split: if_splits
      dest!: insert_event_projecting(1) [where collate = collate] insert_event_projecting(2) [where collate = collate] intro: projecting_trans)

text \<open>The messages of a projection carry states of the provider adapter.\<close>

definition from_provider :: "ProjectedMessage list \<Rightarrow> bool" where
  "from_provider ms \<longleftrightarrow> (\<forall>m\<in>set ms. pm_State m \<in> range MapProviderMessageState)"

lemma project_messages_projecting:
  "project_messages env rcd n ms seen db = Inr (seen', db') \<Longrightarrow> from_provider ms \<Longrightarrow> projecting collate db db'"
proof (induction env rcd n ms seen db rule: project_messages.induct)
  case (2 env rcd n m rest seen db)
  obtain v db1 db2 where p: "project_message (ci_now env) (ci_newID env CandidateMessageID n) (ci_newID env InboundStatusID n)
         (er_TenantID rcd, er_ConnectionID rcd) m db = Inr (v, db1)"
    and t: "transition_event env rcd n m v db1 = Inr db2"
    and r: "project_messages env rcd (n + 1) rest ((pm_ProviderMessageID m, v) # seen) db2 = Inr (seen', db')"
    using "2.prems"(1) by (auto simp: bind_res_Inr)
  obtain status where s: "pm_State m = MapProviderMessageState status" using "2.prems"(2) by (auto simp: from_provider_def)
  have "projecting collate db db1"
    unfolding projecting_def using project_message_same_inbox [OF p] reaches_step [OF d_project [OF p s]] by blast
  moreover have "projecting collate db2 db'" using "2.IH" [OF r] "2.prems"(2) by (simp add: from_provider_def)
  ultimately show ?case using transition_event_projecting [OF t] by (blast intro: projecting_trans)
qed simp

lemma insert_media_projecting:
  "insert_media env rcd n a mid db = Inr db' \<Longrightarrow> projecting collate db db'"
  by (rule projecting_other)
    (auto simp: insert_media_def add_link_def same_dispatch_def same_inbox_def Let_def bind_res_Inr split: if_splits)

lemma insert_all_media_projecting:
  "insert_all_media env rcd messages reused n as media db = Inr (media', db') \<Longrightarrow> projecting collate db db'"
proof (induction env rcd messages reused n as media db rule: insert_all_media.induct)
  case (2 env rcd messages reused n a rest media db)
  show ?case
  proof (cases "map_of reused (AttachmentAggregateID (ci_sha256 env) a) = None")
    case True
    then obtain v db1 where v: "map_of messages (md_ProviderMessageID a) = Some v" "pr_ID v \<noteq> ''''"
      and m: "insert_media env rcd n a (pr_ID v) db = Inr db1"
      and r: "insert_all_media env rcd messages reused (n + 1) rest
           ((AttachmentAggregateID (ci_sha256 env) a, contractMedia (ci_newID env MediaID n) ''pending'' a) # media) db1 = Inr (media', db')"
      using "2.prems" by (auto simp: Let_def bind_res_Inr split: option.splits if_splits)
    have "projecting collate db1 db'" using "2.IH"(2) [OF refl _ v r] True by simp
    then show ?thesis using insert_media_projecting [OF m] projecting_trans by blast
  next
    case False
    then show ?thesis using "2.IH"(1) [OF refl] "2.prems" by (simp add: Let_def)
  qed
qed simp

lemma insert_events_projecting:
  "insert_events env rcd messages reused media n es db = Inr db' \<Longrightarrow> projecting collate db db'"
proof (induction es arbitrary: n db)
  case (Cons e rest)
  show ?case
  proof (cases "oe_Type e = ''media.pending'' \<and> map_of reused (oe_AggregateID e) \<noteq> None")
    case True
    then show ?thesis using Cons by (auto)
  next
    case False
    then have "insert_events env rcd messages reused media (n + 1) rest db = Inr db'
        \<or> (\<exists>eventID row db1 db2. insertGatewayEvent (er_TenantID rcd, eventID) row db = Inr db1
          \<and> insertEventOutbox (ci_now env) (er_TenantID rcd) (ci_newID env EventOutboxID n) eventID db1 = Inr db2
          \<and> insert_events env rcd messages reused media (n + 1) rest db2 = Inr db')"
      using Cons.prems by (auto simp: bind_res_Inr split: if_splits)
    then show ?thesis
      by (elim disjE exE conjE) (erule Cons.IH, rule projecting_trans [OF insert_event_projecting(1)
          projecting_trans [OF insert_event_projecting(2) Cons.IH]])
  qed
qed simp

lemma advance_committed_cursor_projecting:
  "advance_committed_cursor now rcd db = Inr db' \<Longrightarrow> projecting collate db db'"
  by (rule projecting_other) (auto simp: advance_committed_cursor_def same_dispatch_def same_inbox_def Let_def split: if_splits)

lemma bind_identity_projecting:
  "bindOutboundAttachmentIdentity env rcd a db = Inr db' \<Longrightarrow> projecting collate db db'"
  by (rule projecting_other)
    (auto simp: bindOutboundAttachmentIdentity_def same_dispatch_def same_inbox_def Let_def split: list.splits)

lemma insert_cursor_projecting:
  "insert_cursor env rcd digest db = Inr db' \<Longrightarrow> projecting collate db db'"
  by (rule projecting_other)
    (auto simp: insert_cursor_def seedProviderCursorHistory_def incrementProviderCursorBudget_def put_cursor_def same_dispatch_def
      same_inbox_def Let_def split: option.splits if_splits)

lemma exhaust_projecting:
  "exhaustProviderCursorBudget now rcd db = Inr db' \<Longrightarrow> projecting collate db db'"
  by (rule projecting_other)
    (auto simp: exhaustProviderCursorBudget_def same_dispatch_def same_inbox_def split: option.splits if_splits)

lemma prune_projecting: "projecting collate db (pruneProviderCursorHistory scope db)"
  by (rule projecting_other) (simp_all add: pruneProviderCursorHistory_def same_dispatch_def same_inbox_def Let_def)

lemma ensure_budget_projecting: "projecting collate db (ensureProviderCursorBudget now rcd db)"
  by (rule projecting_other) (simp_all add: ensureProviderCursorBudget_def same_dispatch_def same_inbox_def)

section \<open>Counting rows of an association list\<close>

definition weigh :: "('k \<times> 'v \<Rightarrow> nat) \<Rightarrow> ('k \<times> 'v) list \<Rightarrow> nat" where
  "weigh g xs = sum_list (map g xs)"

lemma weigh_update:
  "weigh g (AList.update k v xs) + (case map_of xs k of None \<Rightarrow> 0 | Some old \<Rightarrow> g (k, old)) = weigh g xs + g (k, v)"
  by (induction xs) (auto simp: weigh_def split: option.splits)

lemma weigh_delete:
  "distinct (map fst xs) \<Longrightarrow>
   weigh g (AList.delete k xs) + (case map_of xs k of None \<Rightarrow> 0 | Some old \<Rightarrow> g (k, old)) = weigh g xs"
proof (induction xs)
  case (Cons x xs)
  show ?case
  proof (cases "fst x = k")
    case True
    then have "AList.delete k xs = xs" using Cons.prems by (intro AList.delete_id) auto
    then show ?thesis using True by (cases x) (simp add: weigh_def delete_simps)
  next
    case False
    then show ?thesis using Cons by (cases x) (auto simp: weigh_def delete_simps split: option.splits)
  qed
qed (simp add: weigh_def delete_simps)

lemma weigh_filter: "sum_list (map g (filter P xs)) = weigh (\<lambda>x. if P x then g x else 0) xs"
  by (induction xs) (auto simp: weigh_def)

lemma length_weigh: "length (filter P xs) = weigh (\<lambda>x. if P x then 1 else 0) xs"
  by (induction xs) (auto simp: weigh_def)

definition poison_unit :: "rkey \<Rightarrow> rkey \<times> inbox_row \<Rightarrow> nat" where
  "poison_unit q x = (if of_connection q (fst x) \<and> ib_poisoned (snd x) then 1 else 0)"

definition poison_size :: "rkey \<Rightarrow> rkey \<times> inbox_row \<Rightarrow> nat" where
  "poison_size q x = (if of_connection q (fst x) \<and> ib_poisoned (snd x) then length (ib_raw (snd x)) else 0)"

definition rejected_unit :: "rkey \<Rightarrow> rkey \<times> reservation_row \<Rightarrow> nat" where
  "rejected_unit q x = (if of_connection q (fst x) \<and> rv_disposition (snd x) = DispositionRejected then 1 else 0)"

lemma usage_weigh:
  "length (poisoned_rows q db) = weigh (poison_unit q) (db_inbox db)"
  "poisoned_bytes q db = weigh (poison_size q) (db_inbox db)"
  "length (rejected_reserved q db) = weigh (rejected_unit q) (db_reservations db)"
  by (auto simp: poisoned_rows_def poisoned_bytes_def rejected_reserved_def length_weigh weigh_filter poison_unit_def [abs_def]
      poison_size_def [abs_def] rejected_unit_def [abs_def] split_beta intro!: arg_cong2 [where f = weigh] ext)

section \<open>The invariant of the inbox\<close>

definition row_ok :: "reservation_row option \<times> inbox_row option \<times> rejected_row option \<Rightarrow> bool" where
  "row_ok e = (case e of
      (None, b, j) \<Rightarrow> b = None \<and> j = None
    | (Some r, b, j) \<Rightarrow>
        (case rv_disposition r of
           DispositionInbox \<Rightarrow> j = None \<and> (case b of None \<Rightarrow> False | Some b \<Rightarrow> ib_digest b = rv_digest r \<and> (rv_conflicted r \<longrightarrow> \<not> ib_ack_pending b)
               \<and> (ib_poisoned b \<and> ib_reason b = PoisonReasonInvalidSettingsSnapshot \<longrightarrow> \<not> ib_ack_pending b))
         | DispositionRejected \<Rightarrow> b = None \<and> (case j of None \<Rightarrow> False | Some j \<Rightarrow> rj_digest j = rv_digest r \<and> rj_conflicted j = rv_conflicted r
               \<and> (rv_conflicted r \<longrightarrow> \<not> rj_ack_pending j))))"

definition stored :: "'z inbox_db_scheme \<Rightarrow> rkey \<Rightarrow> reservation_row option \<times> inbox_row option \<times> rejected_row option" where
  "stored db k = (reservation_of db k, inbox_of db k, rejected_of db k)"

definition within_limits :: "'z inbox_db_scheme \<Rightarrow> bool" where
  "within_limits db \<longleftrightarrow> (\<forall>q. length (poisoned_rows q db) \<le> MaxPoisonedProviderInboxEntries
     \<and> poisoned_bytes q db \<le> MaxPoisonedProviderInboxBytes \<and> length (rejected_reserved q db) \<le> MaxRejectedProviderResponses)"

definition inbox_keys :: "'z inbox_db_scheme \<Rightarrow> bool" where
  "inbox_keys db \<longleftrightarrow> distinct (map fst (db_reservations db)) \<and> distinct (map fst (db_inbox db)) \<and> distinct (map fst (db_rejected db))"

definition inbox_inv :: "'z inbox_db_scheme \<Rightarrow> bool" where
  "inbox_inv db \<longleftrightarrow> inbox_keys db \<and> (\<forall>k. row_ok (stored db k)) \<and> within_limits db"

text \<open>What every transaction keeps of a reservation, and of a response whose ACK is withheld.\<close>

definition withheld :: "inbox_row \<Rightarrow> bool" where
  "withheld b \<longleftrightarrow> ib_poisoned b \<and> ib_reason b = PoisonReasonInvalidSettingsSnapshot"

definition row_kept ::
  "reservation_row option \<times> inbox_row option \<times> rejected_row option \<Rightarrow> reservation_row option \<times> inbox_row option \<times> rejected_row option \<Rightarrow> bool" where
  "row_kept e e' \<longleftrightarrow>
     (\<forall>r. fst e = Some r \<longrightarrow> (\<exists>r'. fst e' = Some r' \<and> rv_digest r' = rv_digest r \<and> (rv_conflicted r \<longrightarrow> rv_conflicted r')))
   \<and> (\<forall>b. fst (snd e) = Some b \<and> withheld b \<longrightarrow> (\<exists>b'. fst (snd e') = Some b' \<and> withheld b'))"

definition inbox_kept :: "'z inbox_db_scheme \<Rightarrow> 'z inbox_db_scheme \<Rightarrow> bool" where
  "inbox_kept db db' \<longleftrightarrow> inbox_inv db' \<and> (\<forall>k. row_kept (stored db k) (stored db' k))"

lemma row_kept_refl [simp]: "row_kept e e"
  by (simp add: row_kept_def)

lemma row_kept_trans: "row_kept a b \<Longrightarrow> row_kept b c \<Longrightarrow> row_kept a c"
  unfolding row_kept_def by (metis (no_types, lifting))

lemma inbox_kept_refl: "inbox_inv db \<Longrightarrow> inbox_kept db db"
  by (simp add: inbox_kept_def)

lemma inbox_kept_trans: "inbox_kept a b \<Longrightarrow> inbox_kept b c \<Longrightarrow> inbox_kept a c"
  unfolding inbox_kept_def using row_kept_trans by blast

lemma same_inbox_stored: "same_inbox db db' \<Longrightarrow> stored db' = stored db"
  by (rule ext) (simp add: same_inbox_def stored_def reservation_of_def inbox_of_def rejected_of_def)

lemma same_inbox_kept: "same_inbox db db' \<Longrightarrow> inbox_inv db \<Longrightarrow> inbox_kept db db'"
  using same_inbox_stored [of db db']
  by (simp add: inbox_kept_def inbox_inv_def inbox_keys_def within_limits_def usage_weigh same_inbox_def)

section \<open>The statements on reservations keep the invariant\<close>

lemma stored_simps [simp]:
  "stored (put_reservation k r db) = (stored db)(k := (Some r, snd (stored db k)))"
  "stored (put_inbox k b db) = (stored db)(k := (fst (stored db k), Some b, snd (snd (stored db k))))"
  "stored (put_rejected k j db) = (stored db)(k := (fst (stored db k), fst (snd (stored db k)), Some j))"
  "stored (db \<lparr> db_conflicts := c \<rparr>) = stored db"
  by (auto simp: fun_eq_iff stored_def reservation_of_def inbox_of_def rejected_of_def put_reservation_def put_inbox_def put_rejected_def
      update_conv')

lemma of_stored:
  "reservation_of db k = fst (stored db k)" "inbox_of db k = fst (snd (stored db k))" "rejected_of db k = snd (snd (stored db k))"
  by (simp_all add: stored_def)

lemma kept_reservation:
  "inbox_kept db db' \<Longrightarrow> reservation_of db k = Some r \<Longrightarrow>
   \<exists>r'. reservation_of db' k = Some r' \<and> rv_digest r' = rv_digest r \<and> (rv_conflicted r \<longrightarrow> rv_conflicted r')"
  unfolding of_stored inbox_kept_def row_kept_def by blast

lemma kept_withheld:
  "inbox_kept db db' \<Longrightarrow> inbox_of db k = Some b \<Longrightarrow> withheld b \<Longrightarrow> \<exists>b'. inbox_of db' k = Some b' \<and> withheld b'"
  unfolding of_stored inbox_kept_def row_kept_def by blast

lemma inbox_keys_simps [simp]:
  "inbox_keys db \<Longrightarrow> inbox_keys (put_reservation k r db)" "inbox_keys db \<Longrightarrow> inbox_keys (put_inbox k b db)"
  "inbox_keys db \<Longrightarrow> inbox_keys (put_rejected k j db)" "inbox_keys (db \<lparr> db_conflicts := c \<rparr>) = inbox_keys db"
  by (simp_all add: inbox_keys_def put_reservation_def put_inbox_def put_rejected_def distinct_update)

lemma put_tables [simp]:
  "db_inbox (put_inbox k b db) = AList.update k b (db_inbox db)" "db_inbox (put_reservation k r db) = db_inbox db"
  "db_inbox (put_rejected k j db) = db_inbox db" "db_reservations (put_inbox k b db) = db_reservations db"
  "db_reservations (put_reservation k r db) = AList.update k r (db_reservations db)" "db_reservations (put_rejected k j db) = db_reservations db"
  by (simp_all add: put_reservation_def put_inbox_def put_rejected_def)

lemma of_connection_same:
  assumes "of_connection q k"
  shows "poison_unit q = poison_unit k \<and> poison_size q = poison_size k \<and> rejected_unit q = rejected_unit k"
proof -
  have "of_connection q k' = of_connection k k'" for k' using assms by (auto simp: of_connection_def)
  then show ?thesis by (auto simp: poison_unit_def poison_size_def rejected_unit_def)
qed

lemma kept_at:
  assumes "inbox_inv db" "inbox_keys db'" "within_limits db'" "stored db' = (stored db)(k := e)" "row_ok e" "row_kept (stored db k) e"
  shows "inbox_kept db db'"
  using assms by (auto simp: inbox_kept_def inbox_inv_def)

text \<open>Changes of the weight of a table by a changed row.\<close>

lemma weigh_put:
  "weigh (poison_unit q) (AList.update k b (db_inbox db)) + (case inbox_of db k of None \<Rightarrow> 0 | Some old \<Rightarrow> poison_unit q (k, old))
     = weigh (poison_unit q) (db_inbox db) + poison_unit q (k, b)"
  "weigh (poison_size q) (AList.update k b (db_inbox db)) + (case inbox_of db k of None \<Rightarrow> 0 | Some old \<Rightarrow> poison_size q (k, old))
     = weigh (poison_size q) (db_inbox db) + poison_size q (k, b)"
  "weigh (rejected_unit q) (AList.update k r (db_reservations db)) + (case reservation_of db k of None \<Rightarrow> 0 | Some old \<Rightarrow> rejected_unit q (k, old))
     = weigh (rejected_unit q) (db_reservations db) + rejected_unit q (k, r)"
  unfolding inbox_of_def reservation_of_def by (rule weigh_update)+

lemma same_weight:
  assumes "inbox_of db k = Some b" "ib_poisoned b' = ib_poisoned b" "ib_raw b' = ib_raw b"
  shows "weigh (poison_unit q) (AList.update k b' (db_inbox db)) = weigh (poison_unit q) (db_inbox db)"
    "weigh (poison_size q) (AList.update k b' (db_inbox db)) = weigh (poison_size q) (db_inbox db)"
  using weigh_put(1,2) [of q k b' db] assms by (simp_all add: poison_unit_def poison_size_def split: if_splits)

lemma same_disposition:
  assumes "reservation_of db k = Some r" "rv_disposition r' = rv_disposition r"
  shows "weigh (rejected_unit q) (AList.update k r' (db_reservations db)) = weigh (rejected_unit q) (db_reservations db)"
  using weigh_put(3) [of q k r' db] assms by (simp add: rejected_unit_def)

lemma inv_limits:
  assumes "inbox_inv db"
  shows "weigh (poison_unit q) (db_inbox db) \<le> MaxPoisonedProviderInboxEntries"
    "weigh (poison_size q) (db_inbox db) \<le> MaxPoisonedProviderInboxBytes"
    "weigh (rejected_unit q) (db_reservations db) \<le> MaxRejectedProviderResponses"
  using assms unfolding inbox_inv_def within_limits_def usage_weigh by blast+

lemma limitsI:
  assumes "\<And>q. weigh (poison_unit q) (db_inbox db) \<le> MaxPoisonedProviderInboxEntries \<and> weigh (poison_size q) (db_inbox db) \<le> MaxPoisonedProviderInboxBytes
      \<and> weigh (rejected_unit q) (db_reservations db) \<le> MaxRejectedProviderResponses"
  shows "within_limits db"
  unfolding within_limits_def usage_weigh using assms by blast

lemma inv_row: "inbox_inv db \<Longrightarrow> row_ok (stored db k)"
  unfolding inbox_inv_def by blast

lemma poisoned_reserved_eq:
  assumes "inbox_inv db"
  shows "poisoned_reserved k db = poisoned_rows k db"
proof -
  have "map_option rv_disposition (reservation_of db k') = Some DispositionInbox" if "(k', b) \<in> set (db_inbox db)" for k' b
  proof -
    have "inbox_of db k' = Some b" using that assms by (simp add: inbox_of_def inbox_inv_def inbox_keys_def)
    moreover note inv_row [OF assms, of k']
    ultimately show ?thesis by (auto simp: row_ok_def stored_def split: option.splits disposition.splits)
  qed
  then show ?thesis unfolding poisoned_reserved_def by (intro filter_True) (auto simp: poisoned_rows_def)
qed

lemma insertProviderInbox_kept:
  assumes I: "inbox_inv db" and ins: "insertProviderInbox i rcd db = Inr (inserted, db')"
    and W: "er_PoisonReason rcd = PoisonReasonInvalidSettingsSnapshot \<Longrightarrow> er_ACKWithheld rcd"
  shows "inbox_kept db db' \<and> (if inserted then reservation_of db (record_key rcd) = None
      \<and> map_option rv_digest (reservation_of db' (record_key rcd)) = Some (er_Digest rcd) else db' = db)"
proof (cases inserted)
  case False
  then have "db' = db" using ins by (auto simp: insertProviderInbox_def Let_def split: if_splits)
  then show ?thesis using inbox_kept_refl [OF I] False by simp
next
  case True
  let ?k = "record_key rcd"
  define b where "b = \<lparr> ib_id = i, ib_digest = er_Digest rcd, ib_raw = er_Raw rcd, ib_poisoned = er_Poisoned rcd,
          ib_reason = er_PoisonReason rcd, ib_ack_pending = (\<not> er_ACKWithheld rcd), ib_acked = None,
          ib_owner = er_OwnerID rcd, ib_token = er_FencingToken rcd, ib_received = er_ReceivedAt rcd \<rparr>"
  define r where "r = \<lparr> rv_digest = er_Digest rcd, rv_disposition = DispositionInbox, rv_conflicted = False, rv_occurrences = 1,
          rv_first = er_ReceivedAt rcd, rv_last = er_ReceivedAt rcd \<rparr>"
  have g: "er_Poisoned rcd \<Longrightarrow> length (poisoned_rows ?k db) < MaxPoisonedProviderInboxEntries
           \<and> poisoned_bytes ?k db + length (er_Raw rcd) \<le> MaxPoisonedProviderInboxBytes"
    and n: "reservation_of db ?k = None" "inbox_of db ?k = None" and d: "db' = put_inbox ?k b (put_reservation ?k r db)"
    using ins True poisoned_reserved_eq [OF I, of ?k]
    by (auto simp: insertProviderInbox_def record_key_def b_def r_def Let_def split: if_splits)
  have s: "stored db ?k = (None, None, None)" using inv_row [OF I, of ?k] n by (auto simp: row_ok_def stored_def split: option.splits)
  have "within_limits db'"
  proof (rule limitsI)
    fix q
    have u: "poison_unit q (?k, b) = (if of_connection q ?k \<and> er_Poisoned rcd then 1 else 0)"
      "poison_size q (?k, b) = (if of_connection q ?k \<and> er_Poisoned rcd then length (er_Raw rcd) else 0)" "rejected_unit q (?k, r) = 0"
      by (simp_all add: poison_unit_def poison_size_def rejected_unit_def b_def r_def)
    have w: "weigh (poison_unit q) (db_inbox db') = weigh (poison_unit q) (db_inbox db) + poison_unit q (?k, b)"
      "weigh (poison_size q) (db_inbox db') = weigh (poison_size q) (db_inbox db) + poison_size q (?k, b)"
      "weigh (rejected_unit q) (db_reservations db') = weigh (rejected_unit q) (db_reservations db)"
      using weigh_put(1,2) [of q ?k b db] weigh_put(3) [of q ?k r db] n u(3) by (simp_all add: d)
    show "weigh (poison_unit q) (db_inbox db') \<le> MaxPoisonedProviderInboxEntries \<and> weigh (poison_size q) (db_inbox db') \<le> MaxPoisonedProviderInboxBytes
      \<and> weigh (rejected_unit q) (db_reservations db') \<le> MaxRejectedProviderResponses"
      using inv_limits [OF I, of q] g of_connection_same [of q ?k] unfolding w u usage_weigh by (auto split: if_splits)
  qed
  moreover have "inbox_keys db'" using I by (simp add: d inbox_inv_def)
  moreover have "stored db' = (stored db)(?k := (Some r, Some b, None))" using s by (simp add: d)
  moreover have "row_ok (Some r, Some b, None)" using W by (auto simp: row_ok_def r_def b_def)
  ultimately have "inbox_kept db db'" using s by (intro kept_at [OF I]) (auto simp: row_kept_def)
  then show ?thesis using True n by (simp add: d of_stored(1) r_def)
qed

text \<open>An update of a reservation and of its row that changes neither disposition nor evidence.\<close>

lemma put_inbox_kept:
  assumes I: "inbox_inv db" and s: "stored db k = (Some r, Some b, None)" and r: "rv_disposition r = DispositionInbox"
    and r': "rv_disposition r' = DispositionInbox" "rv_digest r' = rv_digest r" "rv_conflicted r \<longrightarrow> rv_conflicted r'"
    and b': "ib_digest b' = ib_digest b" "ib_raw b' = ib_raw b" "ib_poisoned b' = ib_poisoned b" "ib_reason b' = ib_reason b"
      "ib_ack_pending b' \<longrightarrow> \<not> rv_conflicted r' \<and> \<not> withheld b"
  shows "inbox_kept db (put_inbox k b' (put_reservation k r' db))"
proof (rule kept_at [OF I, of _ k "(Some r', Some b', None)"])
  have o': "inbox_of db k = Some b" "reservation_of db k = Some r" using s by (simp_all add: of_stored)
  show "within_limits (put_inbox k b' (put_reservation k r' db))"
    using inv_limits [OF I] same_weight [OF o'(1) b'(3,2)] same_disposition [OF o'(2), of r'] r r' by (intro limitsI) simp
  show "row_ok (Some r', Some b', None)"
    using inv_row [OF I, of k] s r r' b' by (auto simp: row_ok_def withheld_def)
qed (use I s r' b' in \<open>auto simp: inbox_inv_def row_kept_def withheld_def\<close>)

lemma put_rejected_kept:
  assumes I: "inbox_inv db" and s: "stored db k = (Some r, None, Some j)" and r: "rv_disposition r = DispositionRejected"
    and r': "rv_disposition r' = DispositionRejected" "rv_digest r' = rv_digest r" "rv_conflicted r \<longrightarrow> rv_conflicted r'"
    and j': "rj_digest j' = rj_digest j" "rj_conflicted j' = rv_conflicted r'" "rj_ack_pending j' \<longrightarrow> \<not> rv_conflicted r'"
  shows "inbox_kept db (put_rejected k j' (put_reservation k r' db))"
proof (rule kept_at [OF I, of _ k "(Some r', None, Some j')"])
  have o': "reservation_of db k = Some r" using s by (simp add: of_stored)
  show "within_limits (put_rejected k j' (put_reservation k r' db))"
    using inv_limits [OF I] same_disposition [OF o', of r'] r r' by (intro limitsI) simp
  show "row_ok (Some r', None, Some j')"
    using inv_row [OF I, of k] s r r' j' by (auto simp: row_ok_def)
qed (use I s r' j' in \<open>auto simp: inbox_inv_def row_kept_def\<close>)

lemma stored_cases:
  assumes "inbox_inv db"
  obtains (free) "stored db k = (None, None, None)"
  | (inbox) r b where "stored db k = (Some r, Some b, None)" "rv_disposition r = DispositionInbox" "ib_digest b = rv_digest r"
      "rv_conflicted r \<longrightarrow> \<not> ib_ack_pending b" "withheld b \<longrightarrow> \<not> ib_ack_pending b"
  | (rejected) r j where "stored db k = (Some r, None, Some j)" "rv_disposition r = DispositionRejected" "rj_digest j = rv_digest r"
      "rj_conflicted j = rv_conflicted r" "rv_conflicted r \<longrightarrow> \<not> rj_ack_pending j"
  using inv_row [OF assms, of k]
  by (cases "stored db k") (auto simp: row_ok_def withheld_def split: option.splits disposition.splits)

lemma put_same [simp]:
  "inbox_inv db \<Longrightarrow> reservation_of db k = Some r \<Longrightarrow> put_reservation k r db = db"
proof -
  have "map_of xs k = Some r \<Longrightarrow> AList.update k r xs = xs" for xs by (induction xs) (auto split: if_splits)
  then show "reservation_of db k = Some r \<Longrightarrow> put_reservation k r db = db" by (simp add: put_reservation_def reservation_of_def)
qed

lemma reopenProviderACK_kept:
  assumes I: "inbox_inv db" and w: "\<And>b. inbox_of db k = Some b \<Longrightarrow> \<not> withheld b"
  shows "inbox_kept db (reopenProviderACK k db)"
  using I
proof (cases rule: stored_cases [of db k])
  case free
  then show ?thesis using inbox_kept_refl [OF I] by (simp add: reopenProviderACK_def of_stored)
next
  case (inbox r b)
  let ?b = "b \<lparr> ib_ack_pending := True, ib_acked := None \<rparr>"
  have "\<not> rv_conflicted r \<Longrightarrow> inbox_kept db (put_inbox k ?b (put_reservation k r db))"
    using inbox w [of b] by (intro put_inbox_kept [OF I inbox(1,2)]) (auto simp: of_stored)
  then show ?thesis using inbox inbox_kept_refl [OF I] put_same [OF I, of k r]
    by (auto simp: reopenProviderACK_def update_inbox_def of_stored)
next
  case (rejected r j)
  let ?j = "j \<lparr> rj_ack_pending := True, rj_acked := None \<rparr>"
  have "\<not> rv_conflicted r \<Longrightarrow> inbox_kept db (put_rejected k ?j (put_reservation k r db))"
    using rejected by (intro put_rejected_kept [OF I rejected(1,2)]) auto
  then show ?thesis using rejected inbox_kept_refl [OF I] put_same [OF I, of k r]
    by (auto simp: reopenProviderACK_def update_rejected_def of_stored)
qed

lemma mark_acked_kept:
  assumes I: "inbox_inv db"
  shows "inbox_kept db (mark_acked now k db)"
  using I
proof (cases rule: stored_cases [of db k])
  case free
  then show ?thesis using inbox_kept_refl [OF I] by (simp add: mark_acked_def ack_eligible_def of_stored)
next
  case (inbox r b)
  let ?b = "b \<lparr> ib_ack_pending := False, ib_acked := Some now \<rparr>"
  have "inbox_kept db (put_inbox k ?b (put_reservation k r db))"
    using inbox by (intro put_inbox_kept [OF I inbox(1,2)]) auto
  then show ?thesis using inbox inbox_kept_refl [OF I] put_same [OF I, of k r]
    by (auto simp: mark_acked_def update_inbox_def of_stored)
next
  case (rejected r j)
  let ?j = "j \<lparr> rj_ack_pending := False, rj_acked := Some now \<rparr>"
  have "inbox_kept db (put_rejected k ?j (put_reservation k r db))"
    using rejected by (intro put_rejected_kept [OF I rejected(1,2)]) auto
  then show ?thesis using rejected inbox_kept_refl [OF I] put_same [OF I, of k r]
    by (auto simp: mark_acked_def update_rejected_def of_stored)
qed

lemma conflicts_kept: "inbox_kept db db' \<Longrightarrow> inbox_kept db (db' \<lparr> db_conflicts := c \<rparr>)"
  by (simp add: inbox_kept_def inbox_inv_def within_limits_def usage_weigh)

lemma insertProviderInboxConflict_kept:
  assumes I: "inbox_inv db" and r: "reservation_of db (record_key rcd) = Some r"
  shows "inbox_kept db (insertProviderInboxConflict now c rcd db)
    \<and> map_option rv_conflicted (reservation_of (insertProviderInboxConflict now c rcd db) (record_key rcd)) = Some True"
  using I
proof (cases rule: stored_cases [of db "record_key rcd"])
  case (inbox r' b)
  let ?k = "record_key rcd" and ?r = "r \<lparr> rv_conflicted := True, rv_occurrences := bump (rv_occurrences r), rv_last := now \<rparr>"
  let ?b = "b \<lparr> ib_ack_pending := False \<rparr>"
  have "r' = r" using inbox r by (simp add: of_stored)
  then have "inbox_kept db (put_inbox ?k ?b (put_reservation ?k ?r db))"
    using inbox by (intro put_inbox_kept [OF I inbox(1,2)]) auto
  then show ?thesis
    using inbox r \<open>r' = r\<close> by (auto simp: insertProviderInboxConflict_def record_key_def [symmetric] update_inbox_def of_stored Let_def intro: conflicts_kept)
next
  case (rejected r' j)
  let ?k = "record_key rcd" and ?r = "r \<lparr> rv_conflicted := True, rv_occurrences := bump (rv_occurrences r), rv_last := now \<rparr>"
  let ?j = "j \<lparr> rj_conflicted := True, rj_ack_pending := False \<rparr>"
  have "r' = r" using rejected r by (simp add: of_stored)
  then have "inbox_kept db (put_rejected ?k ?j (put_reservation ?k ?r db))"
    using rejected by (intro put_rejected_kept [OF I rejected(1,2)]) auto
  then show ?thesis
    using rejected r \<open>r' = r\<close> by (auto simp: insertProviderInboxConflict_def record_key_def [symmetric] update_rejected_def of_stored Let_def)
qed (use r in \<open>simp add: of_stored\<close>)

lemma delete_inbox [simp]:
  "stored (db \<lparr> db_conflicts := c, db_inbox := AList.delete k (db_inbox db) \<rparr>) = (stored db)(k := (fst (stored db k), None, snd (snd (stored db k))))"
  by (auto simp: fun_eq_iff stored_def reservation_of_def inbox_of_def rejected_of_def AList.delete_conv')

lemma delete_inbox_keys:
  "inbox_keys db \<Longrightarrow> inbox_keys (db \<lparr> db_conflicts := c, db_inbox := AList.delete k (db_inbox db) \<rparr>)"
  by (auto simp: inbox_keys_def intro: AList.distinct_delete)

lemma compactProviderPoison_kept:
  assumes I: "inbox_inv db" and c: "compactProviderPoison now k reason db = Inr (moved, db')"
  shows "inbox_kept db db'"
  using I
proof (cases rule: stored_cases [of db k])
  case (inbox r b)
  show ?thesis
  proof (cases "ib_poisoned b \<or> \<not> length (rejected_reserved k db) < MaxRejectedProviderResponses")
    case True
    then have "db' = db" using c inbox by (auto simp: compactProviderPoison_def of_stored)
    then show ?thesis using inbox_kept_refl [OF I] by simp
  next
    case False
    define db1 where "db1 = db \<lparr> db_conflicts := (db_conflicts db)(k := None), db_inbox := AList.delete k (db_inbox db) \<rparr>"
    define r' where "r' = r \<lparr> rv_disposition := DispositionRejected, rv_last := now \<rparr>"
    define j where "j = \<lparr> rj_digest = rv_digest r, rj_reason = reason, rj_ack_pending = (\<not> rv_conflicted r), rj_acked = None,
                     rj_conflicted = rv_conflicted r, rj_occurrences = rv_occurrences r, rj_first = ib_received b, rj_last = now \<rparr>"
    have d: "db' = put_rejected k j (put_reservation k r' db1)"
      using c inbox False by (simp add: compactProviderPoison_def of_stored Let_def db1_def r'_def j_def)
    have s1: "stored db1 = (stored db)(k := (Some r, None, None))" using inbox by (simp add: db1_def)
    have "within_limits db'"
    proof (rule limitsI)
      fix q
      have ib: "inbox_of db k = Some b" "reservation_of db k = Some r" using inbox by (simp_all add: of_stored)
      have z: "poison_unit q (k, b) = 0" "poison_size q (k, b) = 0" using False by (simp_all add: poison_unit_def poison_size_def)
      have dk: "distinct (map fst (db_inbox db))" using I by (simp add: inbox_inv_def inbox_keys_def)
      have w: "weigh (poison_unit q) (db_inbox db') = weigh (poison_unit q) (db_inbox db)"
        "weigh (poison_size q) (db_inbox db') = weigh (poison_size q) (db_inbox db)"
        using weigh_delete [OF dk, of "poison_unit q" k] weigh_delete [OF dk, of "poison_size q" k] ib z by (simp_all add: d db1_def inbox_of_def)
      have u: "rejected_unit q (k, r) = 0" "rejected_unit q (k, r') = (if of_connection q k then 1 else 0)"
        using inbox by (simp_all add: rejected_unit_def r'_def)
      have v: "weigh (rejected_unit q) (db_reservations db') = weigh (rejected_unit q) (db_reservations db) + rejected_unit q (k, r')"
        using weigh_put(3) [of q k r' db] ib u(1) by (simp add: d db1_def)
      show "weigh (poison_unit q) (db_inbox db') \<le> MaxPoisonedProviderInboxEntries \<and> weigh (poison_size q) (db_inbox db') \<le> MaxPoisonedProviderInboxBytes
        \<and> weigh (rejected_unit q) (db_reservations db') \<le> MaxRejectedProviderResponses"
        using inv_limits [OF I, of q] False of_connection_same [of q k] unfolding w v u usage_weigh by (auto split: if_splits)
    qed
    moreover have "inbox_keys db1" unfolding db1_def using I by (intro delete_inbox_keys) (simp add: inbox_inv_def)
    then have "inbox_keys db'" by (simp add: d)
    moreover have "stored db' = (stored db)(k := (Some r', None, Some j))" by (simp add: d s1)
    moreover have "row_ok (Some r', None, Some j)" by (auto simp: row_ok_def r'_def j_def)
    moreover have "row_kept (stored db k) (Some r', None, Some j)" using inbox False by (auto simp: row_kept_def r'_def withheld_def)
    ultimately show ?thesis by (intro kept_at [OF I])
  qed
qed (use c inbox_kept_refl [OF I] in \<open>auto simp: compactProviderPoison_def of_stored\<close>)

lemma finalizeProviderPoison_kept:
  assumes I: "inbox_inv db" and f: "finalizeProviderPoison now k reason db = Inr (moved, db')" and "reason \<noteq> PoisonReasonInvalidSettingsSnapshot"
  shows "inbox_kept db db'"
proof (cases "\<exists>b. inbox_of db k = Some b \<and> \<not> ib_poisoned b \<and> length (poisoned_rows k db) < MaxPoisonedProviderInboxEntries
             \<and> poisoned_bytes k db + length (ib_raw b) \<le> MaxPoisonedProviderInboxBytes")
  case False
  then have "compactProviderPoison now k reason db = Inr (moved, db')" using f by (auto simp: finalizeProviderPoison_def split: option.splits if_splits)
  then show ?thesis by (rule compactProviderPoison_kept [OF I])
next
  case True
  then obtain b where b: "inbox_of db k = Some b" "\<not> ib_poisoned b" "length (poisoned_rows k db) < MaxPoisonedProviderInboxEntries"
    "poisoned_bytes k db + length (ib_raw b) \<le> MaxPoisonedProviderInboxBytes" by blast
  define b' where "b' = b \<lparr> ib_poisoned := True, ib_reason := reason \<rparr>"
  have d: "db' = put_inbox k b' db" using f b by (simp add: finalizeProviderPoison_def b'_def)
  obtain r where s: "stored db k = (Some r, Some b, None)" "rv_disposition r = DispositionInbox"
    using I b(1) by (cases rule: stored_cases [of db k]) (auto simp: of_stored)
  have "within_limits db'"
  proof (rule limitsI)
    fix q
    have u: "poison_unit q (k, b) = 0" "poison_size q (k, b) = 0" "poison_unit q (k, b') = (if of_connection q k then 1 else 0)"
      "poison_size q (k, b') = (if of_connection q k then length (ib_raw b) else 0)"
      using b(2) by (simp_all add: poison_unit_def poison_size_def b'_def)
    have w: "weigh (poison_unit q) (db_inbox db') = weigh (poison_unit q) (db_inbox db) + poison_unit q (k, b')"
      "weigh (poison_size q) (db_inbox db') = weigh (poison_size q) (db_inbox db) + poison_size q (k, b')"
      using weigh_put(1,2) [of q k b' db] b(1) u by (simp_all add: d)
    show "weigh (poison_unit q) (db_inbox db') \<le> MaxPoisonedProviderInboxEntries \<and> weigh (poison_size q) (db_inbox db') \<le> MaxPoisonedProviderInboxBytes
        \<and> weigh (rejected_unit q) (db_reservations db') \<le> MaxRejectedProviderResponses"
      using inv_limits [OF I, of q] b(3,4) of_connection_same [of q k] unfolding w u usage_weigh by (auto simp: d split: if_splits)
  qed
  moreover have "row_ok (Some r, Some b', None)" using inv_row [OF I, of k] s assms(3) by (auto simp: row_ok_def b'_def)
  ultimately show ?thesis
    using I s b(2) by (intro kept_at [OF I, of _ k "(Some r, Some b', None)"]) (auto simp: d inbox_inv_def row_kept_def withheld_def)
qed

lemma upsertRejectedProviderResponse_kept:
  assumes I: "inbox_inv db" and u: "upsertRejectedProviderResponse rcd db = Some ((digest, conflicted, occurrences), db')"
  shows "inbox_kept db db' \<and> (reservation_of db (record_key rcd) = None \<longrightarrow> digest = er_Digest rcd \<and> \<not> conflicted \<and> occurrences = 1)
    \<and> (\<forall>r. reservation_of db (record_key rcd) = Some r \<longrightarrow> conflicted = (rv_conflicted r \<or> rv_digest r \<noteq> er_Digest rcd))"
  using I
proof (cases rule: stored_cases [of db "record_key rcd"])
  case free
  let ?k = "record_key rcd"
  define r where "r = \<lparr> rv_digest = er_Digest rcd, rv_disposition = DispositionRejected, rv_conflicted = False,
     rv_occurrences = 1, rv_first = er_ReceivedAt rcd, rv_last = er_ReceivedAt rcd \<rparr>"
  define j where "j = \<lparr> rj_digest = er_Digest rcd, rj_reason = ''provider_cursor_budget_exhausted'',
     rj_ack_pending = True, rj_acked = None, rj_conflicted = False,
     rj_occurrences = 1, rj_first = er_ReceivedAt rcd, rj_last = er_ReceivedAt rcd \<rparr>"
  have g: "length (rejected_reserved ?k db) < MaxRejectedProviderResponses" and d: "db' = put_rejected ?k j (put_reservation ?k r db)"
    and o': "digest = er_Digest rcd" "\<not> conflicted" "occurrences = 1"
    using u free by (auto simp: upsertRejectedProviderResponse_def record_key_def [symmetric] of_stored Let_def r_def j_def split: if_splits)
  have "within_limits db'"
  proof (rule limitsI)
    fix q
    have v: "weigh (rejected_unit q) (db_reservations db') = weigh (rejected_unit q) (db_reservations db) + (if of_connection q ?k then 1 else 0)"
      using weigh_put(3) [of q ?k r db] free by (simp add: d of_stored rejected_unit_def r_def)
    show "weigh (poison_unit q) (db_inbox db') \<le> MaxPoisonedProviderInboxEntries \<and> weigh (poison_size q) (db_inbox db') \<le> MaxPoisonedProviderInboxBytes
        \<and> weigh (rejected_unit q) (db_reservations db') \<le> MaxRejectedProviderResponses"
      using inv_limits [OF I, of q] g of_connection_same [of q ?k] unfolding v usage_weigh by (auto simp: d split: if_splits)
  qed
  moreover have "row_ok (Some r, None, Some j)" by (simp add: row_ok_def r_def j_def)
  ultimately have "inbox_kept db db'"
    using I free by (intro kept_at [OF I, of _ ?k "(Some r, None, Some j)"]) (auto simp: d inbox_inv_def row_kept_def)
  then show ?thesis using o' free by (simp add: of_stored)
next
  case (inbox r b)
  then show ?thesis using u by (auto simp: upsertRejectedProviderResponse_def record_key_def [symmetric] of_stored Let_def split: if_splits)
next
  case (rejected r j)
  let ?k = "record_key rcd" and ?c = "rv_conflicted r \<or> rv_digest r \<noteq> er_Digest rcd"
  define r' where "r' = r \<lparr> rv_last := er_ReceivedAt rcd, rv_occurrences := bump (rv_occurrences r), rv_conflicted := ?c \<rparr>"
  define j' where "j' = j \<lparr> rj_last := er_ReceivedAt rcd, rj_occurrences := rv_occurrences r', rj_conflicted := rv_conflicted r',
      rj_ack_pending := (\<not> rv_conflicted r'), rj_acked := (if rv_conflicted r' then rj_acked j else None) \<rparr>"
  have d: "db' = put_rejected ?k j' (put_reservation ?k r' db)" and o': "conflicted = ?c"
    using u rejected by (auto simp: upsertRejectedProviderResponse_def record_key_def [symmetric] of_stored Let_def r'_def j'_def split: if_splits)
  have "inbox_kept db db'"
    unfolding d using rejected by (intro put_rejected_kept [OF I rejected(1,2)]) (auto simp: r'_def j'_def)
  then show ?thesis using o' rejected by (simp add: of_stored)
qed

section \<open>Commits\<close>

text \<open>A commit keeps the inbox and is a run of the message store.\<close>

definition committing :: "(string \<Rightarrow> 'k::linorder) \<Rightarrow> 'z inbox_db_scheme \<Rightarrow> 'z inbox_db_scheme \<Rightarrow> bool" where
  "committing collate db db' \<longleftrightarrow> inbox_kept db db' \<and> reaches collate db db'"

lemma committing_refl: "inbox_inv db \<Longrightarrow> committing collate db db"
  by (simp add: committing_def inbox_kept_refl reaches_refl)

lemma committing_trans: "committing collate a b \<Longrightarrow> committing collate b c \<Longrightarrow> committing collate a c"
  unfolding committing_def by (blast intro: inbox_kept_trans reaches_trans)

lemma committing_inv: "committing collate a b \<Longrightarrow> inbox_inv b"
  by (simp add: committing_def inbox_kept_def)

lemma projecting_committing: "projecting collate db db' \<Longrightarrow> inbox_inv db \<Longrightarrow> committing collate db db'"
  by (simp add: committing_def projecting_def same_inbox_kept)

definition same_messaging :: "'z inbox_db_scheme \<Rightarrow> 'z inbox_db_scheme \<Rightarrow> bool" where
  "same_messaging db db' \<longleftrightarrow>
     db' \<lparr> db_reservations := db_reservations db, db_inbox := db_inbox db, db_rejected := db_rejected db, db_conflicts := db_conflicts db,
          db_budgets := db_budgets db \<rparr> = db"

lemma same_messaging_refl [simp]: "same_messaging db db"
  by (simp add: same_messaging_def)

lemma same_messaging_reaches:
  assumes "same_messaging db db'"
  shows "reaches collate db db'"
proof -
  have "same_dispatch db db' \<and> db_status db' = db_status db"
    using assms unfolding same_messaging_def same_dispatch_def by (metis (no_types, lifting) inbox_db.surjective inbox_db.update_convs(1,2,3,4,6)
        messaging_db.select_convs)
  then show ?thesis using reaches_step [OF d_other] by blast
qed

lemma same_messaging_trans: "same_messaging a b \<Longrightarrow> same_messaging b c \<Longrightarrow> same_messaging a c"
  unfolding same_messaging_def by (cases a; cases b; cases c) simp

lemma put_same_messaging [simp]:
  "same_messaging db (put_reservation k r db') = same_messaging db db'"
  "same_messaging db (put_inbox k b db') = same_messaging db db'"
  "same_messaging db (put_rejected k j db') = same_messaging db db'"
  "same_messaging db (update_inbox k g db') = same_messaging db db'"
  "same_messaging db (update_rejected k h db') = same_messaging db db'"
  "same_messaging db (db' \<lparr> db_conflicts := c \<rparr>) = same_messaging db db'"
  "same_messaging db (db' \<lparr> db_inbox := i \<rparr>) = same_messaging db db'"
  "same_messaging db (db' \<lparr> db_budgets := bg \<rparr>) = same_messaging db db'"
  by (simp_all add: same_messaging_def put_reservation_def put_inbox_def put_rejected_def update_inbox_def update_rejected_def split: option.splits)

lemma inbox_statements_same:
  "insertProviderInbox i rcd db = Inr (inserted, db') \<Longrightarrow> same_messaging db db'"
  "same_messaging db (insertProviderInboxConflict now c rcd db)"
  "same_messaging db (reopenProviderACK k db)"
  "same_messaging db (mark_acked now k db)"
  "compactProviderPoison now k reason db = Inr (moved, db') \<Longrightarrow> same_messaging db db'"
  "upsertRejectedProviderResponse rcd db = Some (x, db') \<Longrightarrow> same_messaging db db'"
  "same_messaging db (ensureProviderCursorBudget now rcd db)"
  by (auto simp: insertProviderInbox_def insertProviderInboxConflict_def reopenProviderACK_def mark_acked_def compactProviderPoison_def
      upsertRejectedProviderResponse_def ensureProviderCursorBudget_def Let_def split: if_splits option.splits disposition.splits)

lemma finalize_same: "finalizeProviderPoison now k reason db = Inr (moved, db') \<Longrightarrow> same_messaging db db'"
  by (auto simp: finalizeProviderPoison_def inbox_statements_same(5) split: if_splits option.splits)

lemma kept_committing: "inbox_kept db db' \<Longrightarrow> same_messaging db db' \<Longrightarrow> committing collate db db'"
  by (simp add: committing_def same_messaging_reaches)

lemma poisonEnvelope_committing:
  assumes "inbox_inv db" "poisonEnvelope env rcd reason db = Inr (r, db')" "reason \<noteq> PoisonReasonInvalidSettingsSnapshot"
  shows "committing collate db db' \<and> r = CommitPoisoned"
proof -
  obtain db1 db2 eventID row o' where f: "finalizeProviderPoison (ci_now env) (record_key rcd) reason db = Inr (True, db1)"
    and g: "insertGatewayEvent (er_TenantID rcd, eventID) row db1 = Inr db2"
    and o': "insertEventOutbox (ci_now env) (er_TenantID rcd) o' eventID db2 = Inr db'" and r: "r = CommitPoisoned"
    using assms(2) by (auto simp: poisonEnvelope_def Let_def bind_res_Inr split: if_splits)
  have "committing collate db db1" using finalizeProviderPoison_kept [OF assms(1) f assms(3)] finalize_same [OF f] by (rule kept_committing)
  moreover have "projecting collate db1 db'" using insert_event_projecting(1) [OF g] insert_event_projecting(2) [OF o'] by (rule projecting_trans)
  ultimately show ?thesis using r committing_trans projecting_committing committing_inv by blast
qed

lemma poison_reasons [simp]:
  "''provider_cursor_cycle'' \<noteq> PoisonReasonInvalidSettingsSnapshot" "''provider_cursor_budget_exhausted'' \<noteq> PoisonReasonInvalidSettingsSnapshot"
  "''media_identity_conflict'' \<noteq> PoisonReasonInvalidSettingsSnapshot" "''response_id_digest_conflict'' \<noteq> PoisonReasonInvalidSettingsSnapshot"
  "''decode_failed'' \<noteq> PoisonReasonInvalidSettingsSnapshot" "''projection_invalid'' \<noteq> PoisonReasonInvalidSettingsSnapshot"
  "'''' \<noteq> PoisonReasonInvalidSettingsSnapshot"
  by (simp_all add: PoisonReasonInvalidSettingsSnapshot_def)

text \<open>A response that is found to be bad after it was stored: the transaction goes on to poison it.\<close>

definition poisons ::
  "(string \<Rightarrow> 'k::linorder) \<Rightarrow> commit_env \<Rightarrow> EnvelopeRecord \<Rightarrow> CommitResult \<Rightarrow> 'z inbox_db_scheme \<Rightarrow> 'z inbox_db_scheme \<Rightarrow> bool" where
  "poisons collate env rcd r db db' \<longleftrightarrow>
     (\<exists>db1 reason. projecting collate db db1 \<and> reason \<noteq> PoisonReasonInvalidSettingsSnapshot \<and> poisonEnvelope env rcd reason db1 = Inr (r, db'))"

lemma poisonsI:
  "poisonEnvelope env rcd reason db1 = Inr (r, db') \<Longrightarrow> projecting collate db db1 \<Longrightarrow> reason \<noteq> PoisonReasonInvalidSettingsSnapshot \<Longrightarrow>
   poisons collate env rcd r db db'"
  unfolding poisons_def by blast

lemma projecting_poisons: "projecting collate a b \<Longrightarrow> poisons collate env rcd r b c \<Longrightarrow> poisons collate env rcd r a c"
  unfolding poisons_def by (blast intro: projecting_trans)

lemma poisons_committing:
  assumes "inbox_inv db" "poisons collate env rcd r db db'"
  shows "committing collate db db' \<and> r = CommitPoisoned"
proof -
  obtain db1 reason where p: "projecting collate db db1" "reason \<noteq> PoisonReasonInvalidSettingsSnapshot" "poisonEnvelope env rcd reason db1 = Inr (r, db')"
    using assms(2) unfolding poisons_def by blast
  have c: "committing collate db db1" using p(1) assms(1) by (rule projecting_committing)
  show ?thesis using poisonEnvelope_committing [OF committing_inv [OF c] p(3,2), of collate] committing_trans [OF c] by blast
qed

lemma advance_cursor_shape:
  assumes "advance_cursor env rcd candidate n db = Inr (outcome, db')"
  shows "(case outcome of None \<Rightarrow> projecting collate db db' | Some r \<Rightarrow> poisons collate env rcd r db db')"
proof -
  consider (poison) r where "poisonEnvelope env rcd ''provider_cursor_cycle'' db = Inr (r, db')" "outcome = Some r"
    | (exhausted) r db1 where "exhaustProviderCursorBudget (ci_now env) rcd db = Inr db1"
        "poisonEnvelope env rcd ''provider_cursor_budget_exhausted'' db1 = Inr (r, db')" "outcome = Some r"
    | (known) "db' = pruneProviderCursorHistory (scope_key rcd) db" "outcome = None"
    | (new) db1 where "insert_cursor env rcd (ci_sha256 env candidate) db = Inr db1" "db' = pruneProviderCursorHistory (scope_key rcd) db1" "outcome = None"
    using assms by (auto simp: advance_cursor_def Let_def bind_res_Inr split: option.splits if_splits intro: that)
  then show ?thesis
  proof cases
    case poison
    then show ?thesis using poisonsI [OF poison(1) projecting_refl] by simp
  next
    case exhausted
    then show ?thesis using poisonsI [OF exhausted(2) exhaust_projecting [OF exhausted(1)]] by simp
  next
    case known
    then show ?thesis by (simp add: prune_projecting)
  next
    case new
    then show ?thesis using projecting_trans [OF insert_cursor_projecting [OF new(1)] prune_projecting] by simp
  qed
qed

lemma reuse_attachments_shape:
  "reuse_attachments env rcd as reused db = Inr (outcome, db') \<Longrightarrow>
   (case outcome of Inr _ \<Rightarrow> projecting collate db db' | Inl r \<Rightarrow> poisons collate env rcd r db db')"
proof (induction as arbitrary: reused db)
  case (Cons a rest)
  let ?id = "AttachmentIdentityDigest (ci_sha256 env) a" and ?agg = "AttachmentAggregateID (ci_sha256 env) a"
  show ?case
  proof (cases "lockExistingAttachment rcd a db")
    case None
    then show ?thesis using Cons by (simp add: Let_def)
  next
    case (Some x)
    obtain mediaID state direction stored where x: "x = (mediaID, state, direction, stored)" by (cases x) auto
    consider (same) "stored = ?id" | (bind) "stored \<noteq> ?id" "stored = '''' \<and> direction = ''outbound'' \<and> state = ''ready''"
      | (poison) "stored \<noteq> ?id" "\<not> (stored = '''' \<and> direction = ''outbound'' \<and> state = ''ready'')" by blast
    then show ?thesis
    proof cases
      case same
      then show ?thesis using Cons Some x by (simp add: Let_def)
    next
      case bind
      then obtain db1 where b: "bindOutboundAttachmentIdentity env rcd a db = Inr db1"
        and r: "reuse_attachments env rcd rest ((?agg, contractMedia mediaID state a) # reused) db1 = Inr (outcome, db')"
        using Cons.prems Some x by (auto simp: Let_def bind_res_Inr)
      note c = bind_identity_projecting [OF b, of collate]
      show ?thesis using Cons.IH [OF r] projecting_trans [OF c] projecting_poisons [OF c] by (cases outcome) auto
    next
      case poison
      then obtain r where p: "poisonEnvelope env rcd ''media_identity_conflict'' db = Inr (r, db')" and "outcome = Inl r"
        using Cons.prems Some x by (auto simp: Let_def bind_res_Inr)
      then show ?thesis using poisonsI [OF p projecting_refl] by simp
    qed
  qed
qed auto

definition settles ::
  "(string \<Rightarrow> 'k::linorder) \<Rightarrow> commit_env \<Rightarrow> EnvelopeRecord \<Rightarrow> CommitResult \<Rightarrow> 'z inbox_db_scheme \<Rightarrow> 'z inbox_db_scheme \<Rightarrow> bool" where
  "settles collate env rcd r db db' \<longleftrightarrow>
     projecting collate db db' \<and> r = (if er_Poisoned rcd then CommitPoisoned else CommitInserted) \<or> poisons collate env rcd r db db'"

lemma projecting_settles: "projecting collate a b \<Longrightarrow> settles collate env rcd r b c \<Longrightarrow> settles collate env rcd r a c"
  unfolding settles_def by (blast intro: projecting_trans projecting_poisons)

lemma settles_committing:
  "inbox_inv db \<Longrightarrow> settles collate env rcd r db db' \<Longrightarrow> committing collate db db' \<and> r \<in> {CommitInserted, CommitPoisoned}"
  unfolding settles_def by (elim disjE conjE) (simp add: projecting_committing, frule (1) poisons_committing, simp)

lemma project_envelope_shape:
  assumes p: "project_envelope env rcd db = Inr (r, db')" and s: "from_provider (pj_Messages (er_Projection rcd))"
  shows "settles collate env rcd r db db'"
proof -
  obtain outcome db1 where u: "reuse_attachments env rcd (er_Media rcd) [] db = Inr (outcome, db1)"
    using p by (auto simp: project_envelope_def bind_res_Inr)
  note c = reuse_attachments_shape [OF u, of collate]
  show ?thesis
  proof (cases outcome)
    case (Inl a)
    then show ?thesis using c p u by (auto simp: project_envelope_def settles_def)
  next
    case (Inr reused)
    then obtain db2 messages db3 media db4 db5 where
        1: "upsert_conversations (ci_now env) (er_TenantID rcd, er_ConnectionID rcd) (pj_Conversations (er_Projection rcd)) db1 = Inr db2"
      and 2: "project_messages env rcd 0 (pj_Messages (er_Projection rcd)) [] db2 = Inr (messages, db3)"
      and 3: "insert_all_media env rcd messages reused 0 (er_Media rcd) reused db3 = Inr (media, db4)"
      and 4: "insert_events env rcd messages reused media 0 (er_Events rcd) db4 = Inr db5"
      and 5: "advance_committed_cursor (ci_now env) rcd db5 = Inr db'" and r: "r = (if er_Poisoned rcd then CommitPoisoned else CommitInserted)"
      using p u by (auto simp: project_envelope_def bind_res_Inr)
    have "projecting collate db1 db'"
      using upsert_conversations_projecting [OF 1] project_messages_projecting [OF 2 s] insert_all_media_projecting [OF 3]
        insert_events_projecting [OF 4] advance_committed_cursor_projecting [OF 5] by (blast intro: projecting_trans)
    then show ?thesis using c r Inr by (auto simp: settles_def intro: projecting_trans)
  qed
qed

lemma insert_envelope_shape:
  assumes ins: "insert_envelope env rcd candidate n db = Inr (r, db')" and s: "from_provider (pj_Messages (er_Projection rcd))"
  obtains db1 where "insertProviderInbox (ci_newID env InboxID 0) rcd db = Inr (True, db1)" "settles collate env rcd r db1 db'"
proof -
  obtain db1 db2 where i: "insertProviderInbox (ci_newID env InboxID 0) rcd db = Inr (True, db1)" and l: "replace_projected_lines rcd db1 = Inr db2"
    and rest: "(if candidate = '''' then project_envelope env rcd db2
       else bind_res (advance_cursor env rcd candidate n db2) (\<lambda>(outcome, db).
            case outcome of Some r \<Rightarrow> Inr (r, db) | None \<Rightarrow> project_envelope env rcd db)) = Inr (r, db')"
    using ins by (auto simp: insert_envelope_def bind_res_Inr split: if_splits)
  have "settles collate env rcd r db2 db'"
  proof (cases "candidate = ''''")
    case True
    then show ?thesis using project_envelope_shape [OF _ s] rest by simp
  next
    case False
    then obtain outcome db3 where a: "advance_cursor env rcd candidate n db2 = Inr (outcome, db3)"
      and e: "(case outcome of Some r \<Rightarrow> Inr (r, db3) | None \<Rightarrow> project_envelope env rcd db3) = Inr (r, db')"
      using rest by (auto simp: bind_res_Inr)
    show ?thesis
    proof (cases outcome)
      case None
      then have "settles collate env rcd r db3 db'" using project_envelope_shape [OF _ s] e by simp
      then show ?thesis using projecting_settles advance_cursor_shape [OF a, of collate] None by auto
    qed (use advance_cursor_shape [OF a, of collate] e in \<open>simp add: settles_def\<close>)
  qed
  then show ?thesis using that [OF i] projecting_settles [OF replace_projected_lines_projecting [OF l]] by blast
qed

lemma insert_envelope_committing:
  assumes I: "inbox_inv db" and ins: "insert_envelope env rcd candidate n db = Inr (r, db')"
    and W: "er_PoisonReason rcd = PoisonReasonInvalidSettingsSnapshot \<Longrightarrow> er_ACKWithheld rcd"
    and s: "from_provider (pj_Messages (er_Projection rcd))"
  shows "committing collate db db' \<and> r \<in> {CommitInserted, CommitPoisoned} \<and> reservation_of db (record_key rcd) = None
    \<and> map_option rv_digest (reservation_of db' (record_key rcd)) = Some (er_Digest rcd)"
proof -
  obtain db1 where i: "insertProviderInbox (ci_newID env InboxID 0) rcd db = Inr (True, db1)" and t: "settles collate env rcd r db1 db'"
    using insert_envelope_shape [OF ins s] by blast
  note k = insertProviderInbox_kept [OF I i W]
  have c1: "committing collate db db1" using k inbox_statements_same(1) [OF i] by (auto intro: kept_committing)
  note c2 = settles_committing [OF committing_inv [OF c1] t]
  have "map_option rv_digest (reservation_of db' (record_key rcd)) = Some (er_Digest rcd)"
    using k c2 kept_reservation [of db1 db' "record_key rcd"] unfolding committing_def by fastforce
  then show ?thesis using k c1 c2 by (auto intro: committing_trans)
qed

text \<open>A stored response that is delivered again: nothing is projected, and only the same bytes are a duplicate.\<close>

definition is_duplicate :: "CommitResult \<Rightarrow> bool" where
  "is_duplicate r = (r \<in> {CommitDuplicate, CommitDuplicatePoisoned, CommitDuplicateACKWithheld})"

definition repeats :: "EnvelopeRecord \<Rightarrow> CommitResult \<Rightarrow> 'z inbox_db_scheme \<Rightarrow> 'z inbox_db_scheme \<Rightarrow> bool" where
  "repeats rcd r db db' \<longleftrightarrow> inbox_kept db db' \<and> same_messaging db db' \<and>
     (\<forall>v. reservation_of db (record_key rcd) = Some v \<longrightarrow>
        (if is_duplicate r then rv_digest v = er_Digest rcd \<and> \<not> rv_conflicted v
         else r = CommitConflict \<and> (\<exists>v'. reservation_of db' (record_key rcd) = Some v' \<and> rv_conflicted v')))"

lemma repeated_envelope_repeats:
  assumes I: "inbox_inv db" and g: "getProviderInbox (record_key rcd) db = Some st" and r: "repeated_envelope env rcd st db = Inr (r, db')"
  shows "repeats rcd r db db'"
proof -
  let ?k = "record_key rcd"
  obtain digest disp ackPending poisoned reason where st: "st = (digest, disp, ackPending, poisoned, reason)" by (cases st) auto
  obtain v where v: "reservation_of db ?k = Some v" "\<not> rv_conflicted v" "digest = rv_digest v"
    and w: "\<And>b. inbox_of db ?k = Some b \<Longrightarrow> disp = DispositionInbox \<and> poisoned = ib_poisoned b \<and> reason = ib_reason b"
    using I g st by (cases rule: stored_cases [of db ?k]) (auto simp: getProviderInbox_def of_stored split: if_splits)
  show ?thesis
  proof (cases "length digest = 32 \<and> digest = er_Digest rcd")
    case True
    define db1 where "db1 = (if \<not> ackPending \<and> \<not> er_ACKWithheld rcd then reopenProviderACK ?k db else db)"
    consider "r = CommitDuplicateACKWithheld" "db' = db" | "r \<in> {CommitDuplicate, CommitDuplicatePoisoned}" "db' = db1"
        "\<not> (disp = DispositionInbox \<and> poisoned \<and> reason = PoisonReasonInvalidSettingsSnapshot)"
      using r True by (auto simp: repeated_envelope_def st db1_def Let_def PoisonReasonInvalidSettingsSnapshot_def split: if_splits)
    then have "inbox_kept db db' \<and> same_messaging db db' \<and> is_duplicate r"
    proof cases
      case 2
      then have "\<not> withheld b" if "inbox_of db ?k = Some b" for b using w [OF that] by (auto simp: withheld_def)
      then show ?thesis using 2 reopenProviderACK_kept [OF I, of ?k] inbox_statements_same(3) [of db ?k] inbox_kept_refl [OF I]
        by (auto simp: db1_def is_duplicate_def)
    qed (use inbox_kept_refl [OF I] in \<open>simp add: is_duplicate_def\<close>)
    then show ?thesis using True v by (simp add: repeats_def)
  next
    case False
    define db1 where "db1 = insertProviderInboxConflict (ci_now env) (ci_newID env ConflictID 0) rcd db"
    have k1: "inbox_kept db db1" "map_option rv_conflicted (reservation_of db1 ?k) = Some True"
      using insertProviderInboxConflict_kept [OF I v(1)] by (simp_all add: db1_def)
    have s1: "same_messaging db db1" by (simp add: db1_def inbox_statements_same(2))
    have "r = CommitConflict" "db' = db1 \<or> (\<exists>moved. finalizeProviderPoison (ci_now env) ?k ''response_id_digest_conflict'' db1 = Inr (moved, db'))"
      using r False by (auto simp: repeated_envelope_def st db1_def [symmetric] Let_def bind_res_Inr split: if_splits)
    moreover have "inbox_inv db1" using k1(1) by (simp add: inbox_kept_def)
    ultimately have k2: "inbox_kept db1 db'" "same_messaging db1 db'"
      by (auto intro: finalizeProviderPoison_kept finalize_same inbox_kept_refl)
    then have "\<exists>v'. reservation_of db' ?k = Some v' \<and> rv_conflicted v'" using k1(2) kept_reservation [OF k2(1), of ?k] by auto
    then show ?thesis using \<open>r = CommitConflict\<close> inbox_kept_trans [OF k1(1) k2(1)] same_messaging_trans [OF s1 k2(2)]
      by (simp add: repeats_def is_duplicate_def)
  qed
qed

lemma rejected_envelope_repeats:
  assumes I: "inbox_inv db" and g: "getProviderInbox (record_key rcd) db = None" and r: "rejected_envelope rcd db = Inr (r, db')"
  shows "repeats rcd r db db'
    \<and> (reservation_of db (record_key rcd) = None \<longrightarrow> map_option rv_digest (reservation_of db' (record_key rcd)) = Some (er_Digest rcd))"
proof -
  let ?k = "record_key rcd"
  obtain digest conflicted occurrences where u: "upsertRejectedProviderResponse rcd db = Some ((digest, conflicted, occurrences), db')"
    and o': "r = (if conflicted \<or> \<not> (length digest = 32 \<and> digest = er_Digest rcd) then CommitConflict
               else if 1 < occurrences then CommitDuplicatePoisoned else CommitPoisoned)"
    using r by (auto simp: rejected_envelope_def split: option.splits)
  note k = upsertRejectedProviderResponse_kept [OF I u]
  have c: "rv_conflicted v" if "reservation_of db ?k = Some v" for v
    using I g that by (cases rule: stored_cases [of db ?k]) (auto simp: getProviderInbox_def of_stored split: if_splits)
  have "map_option rv_digest (reservation_of db' ?k) = Some (er_Digest rcd)" if "reservation_of db ?k = None"
    using u that by (auto simp: upsertRejectedProviderResponse_def record_key_def [symmetric] of_stored Let_def split: if_splits)
  moreover have "repeats rcd r db db'"
    using k inbox_statements_same(6) [OF u] c o' kept_reservation [of db db' ?k] by (auto simp: repeats_def is_duplicate_def)
  ultimately show ?thesis by blast
qed

text \<open>What one commit does: it repeats a stored response, or stores a new one.\<close>

definition commits :: "(string \<Rightarrow> 'k::linorder) \<Rightarrow> EnvelopeRecord \<Rightarrow> CommitResult \<Rightarrow> 'z inbox_db_scheme \<Rightarrow> 'z inbox_db_scheme \<Rightarrow> bool" where
  "commits collate rcd r db db' \<longleftrightarrow> committing collate db db' \<and>
     (case reservation_of db (record_key rcd) of
        Some v \<Rightarrow> repeats rcd r db db'
      | None \<Rightarrow> map_option rv_digest (reservation_of db' (record_key rcd)) = Some (er_Digest rcd))"

lemma same_inbox_reservation: "same_inbox db db' \<Longrightarrow> reservation_of db' = reservation_of db"
  by (simp add: same_inbox_def reservation_of_def fun_eq_iff)

lemma repeats_after:
  assumes "same_messaging db db1" "same_inbox db db1" "inbox_inv db" "repeats rcd r db1 db'"
  shows "repeats rcd r db db'"
  using assms inbox_kept_trans [OF same_inbox_kept [OF assms(2,3)]] same_messaging_trans same_inbox_reservation [OF assms(2)]
  unfolding repeats_def by metis

lemma ensure_budget_inbox: "same_inbox db (ensureProviderCursorBudget now rcd db)"
  by (auto simp: same_inbox_def ensureProviderCursorBudget_def)

lemma repeats_committing: "repeats rcd r db db' \<Longrightarrow> committing collate db db'"
  by (simp add: repeats_def kept_committing)

lemma stored_digest:
  assumes "repeats rcd r db db'" "reservation_of db (record_key rcd) = Some v" "is_duplicate r"
  shows "map_option rv_digest (reservation_of db' (record_key rcd)) = Some (er_Digest rcd)"
  using assms kept_reservation [of db db' "record_key rcd" v] by (auto simp: repeats_def)

lemma kept_inv: "same_inbox db db1 \<Longrightarrow> inbox_inv db \<Longrightarrow> inbox_inv db1"
  using same_inbox_kept unfolding inbox_kept_def by blast

text \<open>The three ways of a commit, after the budget row of its cursor scope exists.\<close>

lemma commit_envelope_cases:
  assumes c: "commit_envelope env rcd db = Inr (r, db')"
  obtains (repeated) db1 st where "same_inbox db db1" "getProviderInbox (record_key rcd) db1 = Some st"
      "repeated_envelope env rcd st db1 = Inr (r, db')" "same_messaging db db1"
  | (rejected) db1 where "same_inbox db db1" "getProviderInbox (record_key rcd) db1 = None" "rejected_envelope rcd db1 = Inr (r, db')"
      "same_messaging db db1" "cursor_candidate (er_Projection rcd) \<noteq> ''''"
  | (new) db1 n where "same_inbox db db1" "insert_envelope env rcd (cursor_candidate (er_Projection rcd)) n db1 = Inr (r, db')"
      "same_messaging db db1"
proof -
  let ?k = "record_key rcd" and ?cand = "cursor_candidate (er_Projection rcd)"
  define db1 where "db1 = (if ?cand = '''' then db else ensureProviderCursorBudget (ci_now env) rcd db)"
  have s: "same_inbox db db1" "same_messaging db db1" using inbox_statements_same(7) ensure_budget_inbox by (auto simp: db1_def)
  consider st where "getProviderInbox ?k db1 = Some st" "repeated_envelope env rcd st db1 = Inr (r, db')"
    | "getProviderInbox ?k db1 = None" "rejected_envelope rcd db1 = Inr (r, db')" "?cand \<noteq> ''''"
    | n where "insert_envelope env rcd ?cand n db1 = Inr (r, db')"
    using c unfolding commit_envelope_def Let_def db1_def [symmetric] by (auto split: option.splits if_splits)
  then show ?thesis using s that by cases blast+
qed

lemma commit_envelope_commits:
  assumes I: "inbox_inv db" and c: "commit_envelope env rcd db = Inr (r, db')"
    and W: "er_PoisonReason rcd = PoisonReasonInvalidSettingsSnapshot \<Longrightarrow> er_ACKWithheld rcd"
    and s: "from_provider (pj_Messages (er_Projection rcd))"
  shows "commits collate rcd r db db'"
  using c
proof (cases rule: commit_envelope_cases)
  case (repeated db1 st)
  have p: "repeats rcd r db db'" by (rule repeats_after [OF repeated(4,1) I repeated_envelope_repeats [OF kept_inv [OF repeated(1) I] repeated(2,3)]])
  moreover have "reservation_of db (record_key rcd) \<noteq> None"
    using repeated(2) same_inbox_reservation [OF repeated(1)] by (auto simp: getProviderInbox_def split: option.splits)
  ultimately show ?thesis using repeats_committing by (auto simp: commits_def)
next
  case (rejected db1)
  note e = rejected_envelope_repeats [OF kept_inv [OF rejected(1) I] rejected(2,3)]
  then have p: "repeats rcd r db db'" using repeats_after [OF rejected(4,1) I] by blast
  then show ?thesis using e repeats_committing same_inbox_reservation [OF rejected(1)] by (auto simp: commits_def split: option.splits)
next
  case (new db1 n)
  note e = insert_envelope_committing [OF kept_inv [OF new(1) I] new(2) W s, of collate]
  have "committing collate db db1" using kept_committing [OF same_inbox_kept [OF new(1) I] new(3)] .
  then have "committing collate db db'" using e committing_trans by blast
  then show ?thesis using e same_inbox_reservation [OF new(1)] by (simp add: commits_def)
qed

lemma process_record_fields [simp]:
  "er_TenantID (process_record env t e) = pe_TenantID e" "er_ConnectionID (process_record env t e) = pe_ConnectionID e"
  "er_ProviderResponseID (process_record env t e) = pe_ProviderResponseID e" "er_Digest (process_record env t e) = ci_sha256 env (pe_Raw e)"
  "er_ACKWithheld (process_record env t e) = pe_ACKWithheld e"
  "er_PoisonReason (process_record env t e) = PoisonReasonInvalidSettingsSnapshot \<Longrightarrow> pe_ACKWithheld e"
  "from_provider (pj_Messages (pe_Projection e)) \<Longrightarrow> from_provider (pj_Messages (er_Projection (process_record env t e)))"
  by (auto simp: process_record_def valid_record_def Let_def empty_projection_def from_provider_def split: if_splits)

lemma canonicalize_messages: "canonicalizeProjectionCursors cc p = Inr p' \<Longrightarrow> pj_Messages p' = pj_Messages p"
  by (auto simp: canonicalizeProjectionCursors_def bind_res_Inr)

definition envelope_key :: "ProviderEnvelope \<Rightarrow> rkey" where
  "envelope_key e = (pe_TenantID e, pe_ConnectionID e, pe_ProviderResponseID e)"

lemma Process_shape:
  assumes "Process f env t e db = (r, db')"
  obtains (failed) err where "r = Inl err" "db' = db"
  | (committed) p v where "canonicalizeProjectionCursors (ci_cursor env) (er_Projection (process_record env t e)) = Inr p"
      "commit_envelope env (process_record env t e \<lparr> er_Projection := p \<rparr>) db = Inr (v, db')"
      "\<And>res. r = Inr res \<Longrightarrow> process_result (process_record env t e) v = Inr res"
      "pe_ACKWithheld e \<Longrightarrow> pe_DecodeError e \<noteq> None \<and> pe_PoisonReason e = PoisonReasonInvalidSettingsSnapshot"
proof -
  let ?rec = "process_record env t e"
  consider err where "r = Inl err" "db' = db"
    | p x where "canonicalizeProjectionCursors (ci_cursor env) (er_Projection ?rec) = Inr p"
        "inTenant f (pe_TenantID e) (commit_envelope env (?rec \<lparr> er_Projection := p \<rparr>)) db = (x, db')" "r = bind_res x (process_result ?rec)"
        "pe_ACKWithheld e \<longrightarrow> pe_DecodeError e \<noteq> None \<and> pe_PoisonReason e = PoisonReasonInvalidSettingsSnapshot"
    using assms by (auto simp: Process_def CommitEnvelope_def Let_def split: if_splits sum.splits prod.splits)
  then show ?thesis
  proof cases
    case 2
    then consider err where "x = Inl err" "db' = db"
      | v where "commit_envelope env (?rec \<lparr> er_Projection := p \<rparr>) db = Inr (v, db')" "x = Inr v \<or> (\<exists>err. x = Inl err)"
      by (auto simp: inTenant_def split: if_splits fault.splits sum.splits)
    then show ?thesis
    proof cases
      case (1 err)
      then show ?thesis using 2(3) failed by simp
    next
      case (2 v)
      then show ?thesis using committed [OF \<open>canonicalizeProjectionCursors _ _ = _\<close> 2(1)] \<open>r = bind_res _ _\<close> \<open>pe_ACKWithheld e \<longrightarrow> _\<close> by auto
    qed
  qed (rule failed)
qed

lemma record_key_process [simp]: "record_key (process_record env t e \<lparr> er_Projection := p \<rparr>) = envelope_key e"
  by (simp add: record_key_def envelope_key_def)

lemma process_result_duplicate:
  "process_result rcd v = Inr res \<Longrightarrow> v \<noteq> CommitConflict \<and> po_Duplicate res = is_duplicate v"
  by (cases v) (auto simp: process_result_def is_duplicate_def Let_def)

lemma Process_commits:
  assumes I: "inbox_inv db" and s: "from_provider (pj_Messages (pe_Projection e))" and p: "Process f env t e db = (r, db')"
  obtains (failed) err where "r = Inl err" "db' = db"
  | (committed) rcd v where "commits collate rcd v db db'" "record_key rcd = envelope_key e" "er_Digest rcd = ci_sha256 env (pe_Raw e)"
      "\<And>res. r = Inr res \<Longrightarrow> v \<noteq> CommitConflict \<and> po_Duplicate res = is_duplicate v"
  using p
proof (cases rule: Process_shape)
  case (committed p v)
  have "commits collate (process_record env t e \<lparr> er_Projection := p \<rparr>) v db db'"
    by (rule commit_envelope_commits [OF I committed(2)]) (use s canonicalize_messages [OF committed(1)] process_record_fields in auto)
  then show ?thesis using that(2) committed(3) process_result_duplicate by fastforce
qed (rule that(1))

section \<open>Runs of the inbox\<close>

lemma mark_all_kept:
  "inbox_inv db \<Longrightarrow> inbox_kept db (fold (\<lambda>i. mark_acked now (response_key ck i)) ids db)
     \<and> same_messaging db (fold (\<lambda>i. mark_acked now (response_key ck i)) ids db)"
proof (induction ids arbitrary: db)
  case (Cons i ids)
  let ?db = "mark_acked now (response_key ck i) db"
  have k: "inbox_kept db ?db" "same_messaging db ?db" by (rule mark_acked_kept [OF Cons.prems], rule inbox_statements_same(4))
  then have "inbox_inv ?db" by (simp add: inbox_kept_def)
  then show ?case using Cons.IH [of ?db] inbox_kept_trans [OF k(1)] same_messaging_trans [OF k(2)] by simp
qed (simp add: inbox_kept_refl)

lemma mark_all_committing:
  "inbox_inv db \<Longrightarrow> committing collate db (fold (\<lambda>i. mark_acked now (response_key ck i)) ids db)"
  by (rule kept_committing) (simp_all add: mark_all_kept)

lemma MarkProviderACKedFenced_committing:
  assumes "inbox_inv db" "MarkProviderACKedFenced f now t c ow tok ids db = (r, db')"
  shows "committing collate db db'"
proof -
  consider "db' = db" | "db' = fold (\<lambda>i. mark_acked now (response_key (t, c) i)) ids db"
    using assms(2) by (auto simp: MarkProviderACKedFenced_def inTenant_def split: if_splits fault.splits)
  then show ?thesis by cases (simp_all add: committing_refl mark_all_committing assms(1))
qed

lemma leases_committing: "inbox_inv db \<Longrightarrow> committing collate db (db \<lparr> db_leases := l \<rparr>)"
  by (rule projecting_committing) (auto intro!: projecting_other simp: same_dispatch_def same_inbox_def)

lemma CoordinateProviderACKsFenced_committing:
  assumes "inbox_inv db" "CoordinateProviderACKsFenced f1 f2 now t c ow tok ttl ids send db = (res, sent, db')"
  shows "committing collate db db' \<and> (\<forall>ids'. sent = Some ids' \<longrightarrow> (\<forall>i\<in>set ids'. ack_eligible db (response_key (t, c) i)))"
proof -
  obtain l where "db' = db \<or> db' = db \<lparr> db_leases := l \<rparr> \<or> (\<exists>ids. db' = fold (\<lambda>i. mark_acked now (response_key (t, c) i)) ids (db \<lparr> db_leases := l \<rparr>))"
    and s: "\<forall>ids'. sent = Some ids' \<longrightarrow> ids' = filter (\<lambda>i. ack_eligible db (response_key (t, c) i)) ids"
    using assms(2) by (auto simp: CoordinateProviderACKsFenced_def Let_def split: if_splits fault.splits option.splits)
  moreover have "committing collate db (fold (\<lambda>i. mark_acked now (response_key (t, c) i)) ids (db \<lparr> db_leases := l \<rparr>))" for ids
    using leases_committing [OF assms(1), of collate l] by (rule committing_trans) (rule mark_all_committing [OF committing_inv [OF leases_committing [OF assms(1)]]])
  ultimately show ?thesis using committing_refl [OF assms(1)] leases_committing [OF assms(1)] by auto
qed

text \<open>
  One transaction of the gateway: a response is processed, acknowledgements are recorded or
  coordinated, or the message store takes a step of its own.
\<close>

inductive inbox_step :: "(string \<Rightarrow> 'k::linorder) \<Rightarrow> 'z inbox_db_scheme \<Rightarrow> 'z inbox_db_scheme \<Rightarrow> bool" for collate where
  i_process: "Process f env t e db = (r, db') \<Longrightarrow> from_provider (pj_Messages (pe_Projection e)) \<Longrightarrow> inbox_step collate db db'"
| i_mark: "MarkProviderACKedFenced f now t c ow tok ids db = (b, db') \<Longrightarrow> inbox_step collate db db'"
| i_coordinate: "CoordinateProviderACKsFenced f1 f2 now t c ow tok ttl ids send db = (res, sent, db') \<Longrightarrow> inbox_step collate db db'"
| i_messaging: "messaging_step collate db sent db' \<Longrightarrow> same_inbox db db' \<Longrightarrow> inbox_step collate db db'"

inductive inbox_run :: "(string \<Rightarrow> 'k::linorder) \<Rightarrow> 'z inbox_db_scheme \<Rightarrow> 'z inbox_db_scheme \<Rightarrow> bool" for collate where
  inbox_run_refl [intro!]: "inbox_run collate db db"
| inbox_run_step: "inbox_run collate db db1 \<Longrightarrow> inbox_step collate db1 db2 \<Longrightarrow> inbox_run collate db db2"

lemma commits_committing: "commits collate rcd v db db' \<Longrightarrow> committing collate db db'"
  by (simp add: commits_def)

lemma messaging_step_reaches: "messaging_step collate db sent db' \<Longrightarrow> reaches collate db db'"
  unfolding reaches_def by (rule exI, rule run_step [OF run_refl])

lemma inbox_step_committing: "inbox_step collate db db' \<Longrightarrow> inbox_inv db \<Longrightarrow> committing collate db db'"
proof (induction rule: inbox_step.induct)
  case (i_process f env t e db r db')
  from i_process(3,2,1) show ?case by (cases rule: Process_commits [where collate = collate]) (auto simp: committing_refl i_process(3) commits_committing)
next
  case (i_messaging db sent db')
  then show ?case unfolding committing_def using same_inbox_kept [OF i_messaging(2,3)] messaging_step_reaches [OF i_messaging(1)] by simp
qed (simp_all add: MarkProviderACKedFenced_committing CoordinateProviderACKsFenced_committing)

lemma inbox_run_committing: "inbox_run collate db db' \<Longrightarrow> inbox_inv db \<Longrightarrow> committing collate db db'"
  by (induction rule: inbox_run.induct) (blast intro: committing_refl committing_trans inbox_step_committing committing_inv)+

lemma inbox_run_kept: "inbox_run collate db db' \<Longrightarrow> inbox_inv db \<Longrightarrow> inbox_kept db db'"
  using inbox_run_committing unfolding committing_def by blast

definition empty_inbox :: "'z inbox_db_scheme \<Rightarrow> bool" where
  "empty_inbox db \<longleftrightarrow> db_reservations db = [] \<and> db_inbox db = [] \<and> db_rejected db = []"

lemma empty_inbox_inv: "empty_inbox db \<Longrightarrow> inbox_inv db"
  by (simp add: empty_inbox_def inbox_inv_def inbox_keys_def row_ok_def stored_def reservation_of_def inbox_of_def rejected_of_def
      within_limits_def usage_weigh weigh_def)

text \<open>A response that was processed successfully is reserved with the digest of its bytes.\<close>

lemma Process_reserves:
  assumes "inbox_inv db" "from_provider (pj_Messages (pe_Projection e))" "Process f env t e db = (Inr res, db')"
  shows "inbox_inv db' \<and> map_option rv_digest (reservation_of db' (envelope_key e)) = Some (ci_sha256 env (pe_Raw e))"
  using assms
proof (cases rule: Process_commits [where collate = "\<lambda>_. 0 :: nat"])
  case (committed rcd v)
  then have v: "v \<noteq> CommitConflict" and I': "inbox_inv db'" using committing_inv commits_committing by blast+
  show ?thesis
  proof (cases "reservation_of db (envelope_key e)")
    case None
    then show ?thesis using committed(1-3) I' by (auto simp: commits_def)
  next
    case (Some x)
    then have "repeats rcd v db db'" "is_duplicate v" using committed(1,2) v by (auto simp: commits_def repeats_def split: if_splits)
    then show ?thesis using stored_digest [of rcd v db db' x] Some committed(2,3) I' by simp
  qed
qed simp

lemma Process_again:
  assumes "inbox_inv db" "from_provider (pj_Messages (pe_Projection e))" "Process f env t e db = (r, db')"
    and v: "reservation_of db (envelope_key e) = Some v"
  shows "same_messaging db db' \<and> (\<forall>res. r = Inr res \<longrightarrow> po_Duplicate res \<and> rv_digest v = ci_sha256 env (pe_Raw e))
    \<and> (rv_digest v \<noteq> ci_sha256 env (pe_Raw e) \<longrightarrow> db' = db \<or> map_option rv_conflicted (reservation_of db' (envelope_key e)) = Some True)"
  using assms(1-3)
proof (cases rule: Process_commits [where collate = "\<lambda>_. 0 :: nat"])
  case (committed rcd x)
  then have p: "repeats rcd x db db'" using v by (simp add: commits_def)
  have "is_duplicate x" if "r = Inr res" for res using p committed(2) committed(4) [OF that] v by (auto simp: repeats_def split: if_splits)
  then show ?thesis using p committed(2,3,4) v by (auto simp: repeats_def split: if_splits)
qed simp

end
