(* ===== verification/Sorted_Limits.thy ===== *)
theory Sorted_Limits
  imports Main "HOL-Library.Multiset"
begin

text \<open>
  Queries that sort and limit the rows of several tables before they sort and limit their union:
  a limit may be pushed below a stable merge.
\<close>

text \<open>A stable merge of two sorted lists, and the limit that may be pushed below it.\<close>

fun smerge :: "('a \<Rightarrow> 'b::linorder) \<Rightarrow> 'a list \<Rightarrow> 'a list \<Rightarrow> 'a list" where
  "smerge f [] ys = ys"
| "smerge f xs [] = xs"
| "smerge f (x # xs) (y # ys) = (if f x \<le> f y then x # smerge f xs (y # ys) else y # smerge f (x # xs) ys)"

lemma mset_smerge [simp]: "mset (smerge f xs ys) = mset xs + mset ys"
  by (induction f xs ys rule: smerge.induct) auto

lemma set_smerge [simp]: "set (smerge f xs ys) = set xs \<union> set ys"
  by (metis mset_smerge set_mset_mset set_mset_union)

lemma sorted_smerge: "sorted (map f xs) \<Longrightarrow> sorted (map f ys) \<Longrightarrow> sorted (map f (smerge f xs ys))"
  by (induction f xs ys rule: smerge.induct) (auto)

lemma filter_smerge:
  "sorted (map f xs) \<Longrightarrow> sorted (map f ys) \<Longrightarrow> filter (\<lambda>x. f k = f x) (smerge f xs ys) = filter (\<lambda>x. f k = f x) xs @ filter (\<lambda>x. f k = f x) ys"
proof (induction f xs ys rule: smerge.induct)
  case (3 f x xs y ys)
  have "filter (\<lambda>z. f y = f z) xs = []" if "\<not> f x \<le> f y"
    using "3.prems"(1) that by (auto simp: filter_empty_conv)
  then show ?case using 3 by auto
qed auto

lemma filter_sort_key: "filter (\<lambda>x. f k = f x) (sort_key f xs) = filter (\<lambda>x. f k = f x) xs"
proof -
  have "(\<lambda>x. f k = f x) = (\<lambda>x. f x = f k)" by auto
  then show ?thesis by (simp add: sort_key_stable)
qed

lemma sort_key_append: "sort_key f (xs @ ys) = smerge f (sort_key f xs) (sort_key f ys)"
  by (rule properties_for_sort_key) (simp_all add: filter_smerge sorted_smerge filter_sort_key)

lemma take_smerge: "n \<le> a \<Longrightarrow> n \<le> b \<Longrightarrow> take n (smerge f (take a xs) (take b ys)) = take n (smerge f xs ys)"
proof (induction f xs ys arbitrary: n a b rule: smerge.induct)
  case (3 f x xs y ys)
  show ?case
  proof (cases n)
    case (Suc m)
    then obtain a' b' where ab: "a = Suc a'" "b = Suc b'" using "3.prems" by (cases a; cases b) auto
    show ?thesis
    proof (cases "f x \<le> f y")
      case True
      then show ?thesis using "3.IH"(1) [OF True, of m a' b] "3.prems" Suc ab by simp
    next
      case False
      then show ?thesis using "3.IH"(2) [OF False, of m a b'] "3.prems" Suc ab by simp
    qed
  qed simp
next
  case (2 f v va)
  then show ?case by (cases a; cases n) (auto simp: min_def)
qed (simp add: min_def)

lemma take_sort_append:
  "take n (sort_key f (take n (sort_key f xs) @ take n (sort_key f ys))) = take n (sort_key f (xs @ ys))"
proof -
  have "sort_key f (take n (sort_key f zs)) = take n (sort_key f zs)" for zs
    by (rule sort_key_id_if_sorted) (simp add: take_map [symmetric] sorted_wrt_take)
  then show ?thesis by (simp add: sort_key_append take_smerge)
qed

text \<open>Keys that order the same way sort the same way.\<close>

lemma sort_key_cong_order:
  assumes "\<And>x y. x \<in> set xs \<Longrightarrow> y \<in> set xs \<Longrightarrow> (f x \<le> f y) = (g x \<le> g y)"
  shows "sort_key f xs = sort_key g xs"
proof (rule properties_for_sort_key)
  have "(f x = f k) = (g x = g k)" if "x \<in> set xs" "k \<in> set xs" for x k
    using assms [OF that] assms [OF that(2,1)] by (metis order_antisym order_refl)
  then have "filter (\<lambda>x. f k = f x) ys = filter (\<lambda>x. g k = g x) ys" if "k \<in> set xs" "set ys \<subseteq> set xs" for k ys
    using that by (intro filter_cong) (auto simp: eq_commute [of "f k"] eq_commute [of "g k"])
  then show "filter (\<lambda>x. f k = f x) (sort_key g xs) = filter (\<lambda>x. f k = f x) xs" if "k \<in> set (sort_key g xs)" for k
    using that by (simp add: filter_sort_key)
  have "sorted_wrt (\<lambda>x y. g x \<le> g y) (sort_key g xs)" by (metis sorted_map sorted_sort_key)
  then have "sorted_wrt (\<lambda>x y. f x \<le> f y) (sort_key g xs)"
    by (rule sorted_wrt_mono_rel [rotated]) (simp add: assms)
  then show "sorted (map f (sort_key g xs))" by (simp add: sorted_map)
qed simp

end
