(* ===== verification/Inbox_Guarantees.thy ===== *)
theory Inbox_Guarantees
  imports Inbox_Correct Sorted_Limits
begin

text \<open>
  What the inbox guarantees over any run of the gateway: a response is projected once, the evidence
  kept of bad responses is bounded, and a conflicting or withheld response is never acknowledged.
\<close>

section \<open>An example\<close>

text \<open>A store with one lease, and a response with one live inbound message.\<close>

definition demo_inbox :: inbox_db where
  "demo_inbox = messaging_db.extend demo_store (inbox_db.fields [] [] [] Map.empty [] Map.empty Map.empty)"

definition demo_site :: "string \<Rightarrow> id_site \<Rightarrow> nat \<Rightarrow> string" where
  "demo_site p s n = p @ (case s of InboxID \<Rightarrow> ''inbox'' | ConflictID \<Rightarrow> ''conflict'' | PoisonOutboxID \<Rightarrow> ''poison'' | CandidateMessageID \<Rightarrow> ''message''
      | InboundStatusID \<Rightarrow> ''status'' | TransitionOutboxID \<Rightarrow> ''transition'' | MediaID \<Rightarrow> ''media'' | JobID \<Rightarrow> ''job'' | EventOutboxID \<Rightarrow> ''outbox'')
     @ replicate n CHR ''x''"

definition demo_commit :: "string \<Rightarrow> commit_env" where
  "demo_commit p = \<lparr> ci_sha256 = (\<lambda>s. take 32 (s @ replicate 32 CHR ''0'')), ci_cursor = \<lparr> cc_decode = (\<lambda>_. None), cc_encode = (\<lambda>_. None) \<rparr>,
     ci_codec = demo_codec, ci_rfc3339nano = (\<lambda>_. ''2026-01-01T00:00:00Z''), ci_newID = demo_site p, ci_now = 10, ci_wall = 10 \<rparr>"

definition demo_inbound :: ProjectedMessage where
  "demo_inbound = \<lparr> pm_ProviderMessageID = ''p1'', pm_ProviderTmpID = '''', pm_ConversationID = ''v1'', pm_Direction = ''inbound'',
     pm_Provenance = MessageProvenanceLive, pm_ProviderStatus = ''INCOMING_COMPLETE'', pm_ProviderOccurredAt = None, pm_Actionable = True,
     pm_Sender = ''+14155550100'', pm_Recipients = [], pm_Text = ''hello'', pm_Transport = ''sms'', pm_State = MapProviderMessageState INCOMING_COMPLETE \<rparr>"

definition demo_response :: "string \<Rightarrow> ProviderEnvelope" where
  "demo_response raw = \<lparr> pe_TenantID = ''t1'', pe_ConnectionID = ''c1'', pe_OwnerID = ''replica-a'', pe_FencingToken = 4, pe_ProviderResponseID = ''r1'',
     pe_Raw = raw, pe_Projection = empty_projection \<lparr> pj_Messages := [demo_inbound] \<rparr>, pe_Media = [], pe_DecodeError = None,
     pe_ACKWithheld = False, pe_PoisonReason = '''' \<rparr>"

definition demo_processed :: "ProcessResult result \<times> inbox_db" where
  "demo_processed = Process NoFault (demo_commit ''a-'') 9 (demo_response ''raw'') demo_inbox"

lemma demo_processed_ok:
  "case demo_processed of (Inr res, db) \<Rightarrow> po_ACKEligible res \<and> \<not> po_Duplicate res \<and> length (db_messages db) = 1 | _ \<Rightarrow> False"
  by code_simp

lemma demo_provider: "from_provider (pj_Messages (pe_Projection (demo_response raw)))"
  by (simp add: from_provider_def demo_response_def empty_projection_def demo_inbound_def)

lemma demo_inbox_empty: "empty_inbox demo_inbox"
  by (simp add: empty_inbox_def demo_inbox_def messaging_db.defs inbox_db.defs)

section \<open>Guarantees\<close>

text \<open>
  C3. A provider response is projected once. After a response was processed, and whatever the
  gateway did since, processing any response with the same identifier leaves every table but those
  of the inbox and the cursor budget unchanged; it succeeds only for the same bytes, up to their
  digest, and then as a duplicate; other bytes change nothing or mark the response as conflicting.
\<close>

theorem response_projected_once:
  assumes "empty_inbox db0" and "inbox_run collate db0 db"
    and "Process f env t e db = (Inr res, db1)" and "from_provider (pj_Messages (pe_Projection e))"
    and "inbox_run collate db1 db2"
    and "Process f' env' t' e' db2 = (r', db3)" and "from_provider (pj_Messages (pe_Projection e'))"
    and "envelope_key e' = envelope_key e"
  shows "same_messaging db2 db3
    \<and> (\<forall>res'. r' = Inr res' \<longrightarrow> po_Duplicate res' \<and> ci_sha256 env' (pe_Raw e') = ci_sha256 env (pe_Raw e))
    \<and> (ci_sha256 env' (pe_Raw e') \<noteq> ci_sha256 env (pe_Raw e) \<longrightarrow>
         db3 = db2 \<or> map_option rv_conflicted (reservation_of db3 (envelope_key e)) = Some True)"
proof -
  have I: "inbox_inv db" using inbox_run_committing [OF assms(2) empty_inbox_inv [OF assms(1)]] by (rule committing_inv)
  note p = Process_reserves [OF I assms(4,3)]
  have k: "inbox_kept db1 db2" using inbox_run_kept [OF assms(5)] p by blast
  then obtain v where v: "reservation_of db2 (envelope_key e') = Some v" "rv_digest v = ci_sha256 env (pe_Raw e)"
    using p kept_reservation [OF k, of "envelope_key e"] assms(8) by auto
  have "inbox_inv db2" using k by (simp add: inbox_kept_def)
  from Process_again [OF this assms(7,6) v(1)] show ?thesis using v(2) assms(8) by auto
qed

theorem response_projected_once_witness:
  "\<exists>res db1. demo_processed = (Inr res, db1) \<and> length (db_messages db1) = 1
     \<and> same_messaging db1 (snd (Process NoFault (demo_commit ''a-'') 12 (demo_response ''raw'') db1))"
proof -
  obtain res db1 where p: "demo_processed = (Inr res, db1)" "length (db_messages db1) = 1"
    using demo_processed_ok by (auto split: prod.splits sum.splits)
  obtain r' db3 where q: "Process NoFault (demo_commit ''a-'') 12 (demo_response ''raw'') db1 = (r', db3)" by fastforce
  from response_projected_once [OF demo_inbox_empty inbox_run_refl [of length] p(1) [unfolded demo_processed_def] demo_provider inbox_run_refl q demo_provider refl]
  have "same_messaging db1 (snd (Process NoFault (demo_commit ''a-'') 12 (demo_response ''raw'') db1))" by (simp add: q)
  then show ?thesis using p by blast
qed

text \<open>
  C15. The evidence kept of undecodable, invalid and conflicting responses is bounded for every
  connection: at most 256 poisoned responses of together at most 32 MiB in the raw inbox, and at
  most 256 compacted rejections, whatever the provider sends.
\<close>

theorem quarantine_bounded:
  assumes "empty_inbox db" and "inbox_run collate db db'"
  shows "length (poisoned_rows k db') \<le> 256 \<and> poisoned_bytes k db' \<le> 32 * 1024 * 1024 \<and> length (rejected_reserved k db') \<le> 256"
proof -
  have "inbox_inv db'" using inbox_run_committing [OF assms(2) empty_inbox_inv [OF assms(1)]] by (rule committing_inv)
  from inv_limits [OF this, of k] show ?thesis
    by (simp add: usage_weigh MaxPoisonedProviderInboxEntries_def MaxPoisonedProviderInboxBytes_def MaxRejectedProviderResponses_def)
qed

definition demo_undecodable :: ProviderEnvelope where
  "demo_undecodable = (demo_response ''garbage'') \<lparr> pe_DecodeError := Some (Opaque ''decode'') \<rparr>"

definition demo_poisoned :: "ProcessResult result \<times> inbox_db" where
  "demo_poisoned = Process NoFault (demo_commit ''a-'') 9 demo_undecodable demo_inbox"

lemma demo_poisoned_row: "length (poisoned_rows (''t1'', ''c1'', ''r1'') (snd demo_poisoned)) = 1"
  by code_simp

theorem quarantine_bounded_witness:
  "length (poisoned_rows (''t1'', ''c1'', ''r1'') (snd demo_poisoned)) = 1
   \<and> poisoned_bytes (''t1'', ''c1'', ''r1'') (snd demo_poisoned) \<le> 32 * 1024 * 1024"
proof -
  have "inbox_step length demo_inbox (snd demo_poisoned)"
    using demo_provider [of "''garbage''"] unfolding demo_poisoned_def
    by (intro i_process [OF prod.collapse [symmetric]]) (simp add: demo_undecodable_def)
  then have "inbox_run length demo_inbox (snd demo_poisoned)" by (rule inbox_run_step [OF inbox_run_refl])
  from quarantine_bounded [OF demo_inbox_empty this] demo_poisoned_row show ?thesis by blast
qed

section \<open>Acknowledgements\<close>

lemma eligible_same:
  assumes "stored db' k = stored db k"
  shows "ack_eligible db' k = ack_eligible db k"
  unfolding ack_eligible_def of_stored assms ..

lemma projecting_eligible: "projecting collate db db' \<Longrightarrow> ack_eligible db' k = ack_eligible db k"
  by (rule eligible_same, rule fun_cong [OF same_inbox_stored]) (simp add: projecting_def)

lemma finalize_eligible:
  assumes I: "inbox_inv db" and f: "finalizeProviderPoison now k reason db = Inr (moved, db')" and a: "ack_eligible db k"
  shows "ack_eligible db' k"
  using I
proof (cases rule: stored_cases [of db k])
  case (inbox r b)
  then show ?thesis using f a
    by (auto simp: finalizeProviderPoison_def compactProviderPoison_def ack_eligible_def of_stored Let_def split: if_splits)
next
  case (rejected r j)
  then show ?thesis using f a by (auto simp: finalizeProviderPoison_def compactProviderPoison_def of_stored)
qed (use a in \<open>simp add: ack_eligible_def of_stored\<close>)

lemma poisonEnvelope_eligible:
  assumes I: "inbox_inv db" and p: "poisonEnvelope env rcd reason db = Inr (r, db')" and a: "ack_eligible db (record_key rcd)"
  shows "ack_eligible db' (record_key rcd)"
proof -
  obtain db1 db2 eventID row o' where f: "finalizeProviderPoison (ci_now env) (record_key rcd) reason db = Inr (True, db1)"
    and g: "insertGatewayEvent (er_TenantID rcd, eventID) row db1 = Inr db2" and o': "insertEventOutbox (ci_now env) (er_TenantID rcd) o' eventID db2 = Inr db'"
    using p by (auto simp: poisonEnvelope_def Let_def bind_res_Inr split: if_splits)
  show ?thesis using finalize_eligible [OF I f a]
    by (simp add: projecting_eligible [OF insert_event_projecting(1) [OF g, of "\<lambda>_. 0 :: nat"]]
        projecting_eligible [OF insert_event_projecting(2) [OF o', of "\<lambda>_. 0 :: nat"]])
qed

lemma settles_eligible:
  assumes "inbox_inv db" "settles collate env rcd r db db'" "ack_eligible db (record_key rcd)"
  shows "ack_eligible db' (record_key rcd)"
proof -
  have "ack_eligible db' (record_key rcd)" if p: "projecting collate db db1" "poisonEnvelope env rcd reason db1 = Inr (r, db')" for db1 reason
    using poisonEnvelope_eligible [OF committing_inv [OF projecting_committing [OF p(1) assms(1)]] p(2)] projecting_eligible [OF p(1)] assms(3) by simp
  then show ?thesis using assms(2,3) projecting_eligible unfolding settles_def poisons_def by blast
qed

lemma reopen_eligible:
  assumes I: "inbox_inv db" and g: "getProviderInbox k db = Some (digest, disp, ackPending, poisoned, reason)"
  shows "ack_eligible (if \<not> ackPending then reopenProviderACK k db else db) k"
  using I
proof (cases rule: stored_cases [of db k])
  case (inbox r b)
  then show ?thesis using g
    by (auto simp: getProviderInbox_def reopenProviderACK_def update_inbox_def ack_eligible_def of_stored split: if_splits)
next
  case (rejected r j)
  then show ?thesis using g
    by (auto simp: getProviderInbox_def reopenProviderACK_def update_rejected_def ack_eligible_def of_stored split: if_splits)
qed (use g in \<open>simp add: getProviderInbox_def of_stored\<close>)

lemma repeated_envelope_eligible:
  assumes I: "inbox_inv db" and g: "getProviderInbox (record_key rcd) db = Some st" and r: "repeated_envelope env rcd st db = Inr (r, db')"
    and w: "\<not> er_ACKWithheld rcd" "r \<noteq> CommitConflict" "r \<noteq> CommitDuplicateACKWithheld"
  shows "ack_eligible db' (record_key rcd)"
proof -
  obtain digest disp ackPending poisoned reason where st: "st = (digest, disp, ackPending, poisoned, reason)" by (cases st) auto
  have "db' = (if \<not> ackPending then reopenProviderACK (record_key rcd) db else db)"
    using r w by (auto simp: repeated_envelope_def st Let_def bind_res_Inr split: if_splits)
  then show ?thesis using reopen_eligible [OF I g [unfolded st]] by simp
qed

lemma rejected_envelope_eligible:
  assumes I: "inbox_inv db" and r: "rejected_envelope rcd db = Inr (r, db')" and w: "r \<noteq> CommitConflict"
  shows "ack_eligible db' (record_key rcd)"
proof -
  let ?k = "record_key rcd"
  obtain digest occurrences where u: "upsertRejectedProviderResponse rcd db = Some ((digest, False, occurrences), db')"
    using r w by (auto simp: rejected_envelope_def split: option.splits if_splits)
  show ?thesis using I
  proof (cases rule: stored_cases [of db ?k])
    case (rejected x j)
    then show ?thesis using u
      by (auto simp: upsertRejectedProviderResponse_def record_key_def [symmetric] ack_eligible_def of_stored Let_def split: if_splits)
  qed (use u in \<open>auto simp: upsertRejectedProviderResponse_def record_key_def [symmetric] ack_eligible_def of_stored Let_def split: if_splits\<close>)
qed

lemma insertProviderInbox_eligible:
  "insertProviderInbox i rcd db = Inr (True, db') \<Longrightarrow> ack_eligible db' (record_key rcd) = (\<not> er_ACKWithheld rcd)"
  by (auto simp: insertProviderInbox_def record_key_def [symmetric] ack_eligible_def of_stored Let_def split: if_splits)

lemma commit_envelope_eligible:
  assumes I: "inbox_inv db" and c: "commit_envelope env rcd db = Inr (r, db')"
    and W: "er_PoisonReason rcd = PoisonReasonInvalidSettingsSnapshot \<Longrightarrow> er_ACKWithheld rcd"
    and s: "from_provider (pj_Messages (er_Projection rcd))"
    and w: "\<not> er_ACKWithheld rcd" "r \<noteq> CommitConflict" "r \<noteq> CommitDuplicateACKWithheld"
  shows "ack_eligible db' (record_key rcd)"
  using c
proof (cases rule: commit_envelope_cases)
  case (repeated db1 st)
  then show ?thesis using repeated_envelope_eligible [OF _ repeated(2,3) w] kept_inv [OF repeated(1) I] by blast
next
  case (rejected db1)
  then show ?thesis using rejected_envelope_eligible [OF _ rejected(3) w(2)] kept_inv [OF rejected(1) I] by blast
next
  case (new db1 n)
  obtain db2 where i: "insertProviderInbox (ci_newID env InboxID 0) rcd db1 = Inr (True, db2)" and t: "settles (\<lambda>_. 0 :: nat) env rcd r db2 db'"
    using insert_envelope_shape [OF new(2) s] by blast
  have "inbox_inv db2" using insertProviderInbox_kept [OF _ i W] kept_inv [OF new(1) I] by (simp add: inbox_kept_def)
  then show ?thesis using settles_eligible [OF _ t] insertProviderInbox_eligible [OF i] w(1) by blast
qed

text \<open>
  C13. A response is reported as eligible for an acknowledgement only when it is durably pending
  one: its reservation is unconflicted, and its stored or compacted row awaits the ACK.
\<close>

theorem reported_eligible_is_pending:
  assumes "empty_inbox db0" and "inbox_run collate db0 db"
    and "Process f env t e db = (Inr res, db')" and "from_provider (pj_Messages (pe_Projection e))" and "po_ACKEligible res"
  shows "ack_eligible db' (envelope_key e)"
  using assms(3)
proof (cases rule: Process_shape)
  case (committed p v)
  let ?rcd = "process_record env t e \<lparr> er_Projection := p \<rparr>"
  have I: "inbox_inv db" using inbox_run_committing [OF assms(2) empty_inbox_inv [OF assms(1)]] by (rule committing_inv)
  have "\<not> er_ACKWithheld ?rcd" "v \<noteq> CommitConflict" "v \<noteq> CommitDuplicateACKWithheld"
    using committed(3) [OF refl] assms(5) by (auto simp: process_result_def Let_def split: CommitResult.splits)
  moreover have "from_provider (pj_Messages (er_Projection ?rcd))" using assms(4) canonicalize_messages [OF committed(1)] by simp
  ultimately have "ack_eligible db' (record_key ?rcd)"
    by (intro commit_envelope_eligible [OF I committed(2)]) (use process_record_fields(6) in auto)
  then show ?thesis by simp
qed simp

text \<open>The pending responses of a connection, from the oldest on, without any limit.\<close>

definition all_pending :: "(string \<Rightarrow> 'k::linorder) \<Rightarrow> ckey \<Rightarrow> 'z inbox_db_scheme \<Rightarrow> string list" where
  "all_pending collate ck db = map fst (sort_key (by_inbox_id collate) (inbox_pending_rows ck db @ rejected_pending_rows ck db))"

definition prefix_stable :: "(string \<Rightarrow> 'k::linorder) \<Rightarrow> bool" where
  "prefix_stable collate \<longleftrightarrow> (\<forall>a b. (collate (''rejected:'' @ a) \<le> collate (''rejected:'' @ b)) = (collate a \<le> collate b))"

lemma rejected_rows_sorted:
  assumes "prefix_stable collate"
  shows "sort_key (by_response_id collate) (rejected_pending_rows ck db) = sort_key (by_inbox_id collate) (rejected_pending_rows ck db)"
proof (rule sort_key_cong_order)
  have "snd (snd row) = ''rejected:'' @ fst row" if "row \<in> set (rejected_pending_rows ck db)" for row
    using that by (auto simp: rejected_pending_rows_def List.map_filter_def split: option.splits if_splits)
  then show "(by_response_id collate x \<le> by_response_id collate y) = (by_inbox_id collate x \<le> by_inbox_id collate y)"
    if "x \<in> set (rejected_pending_rows ck db)" "y \<in> set (rejected_pending_rows ck db)" for x y
    using that assms by (simp add: by_response_id_def by_inbox_id_def prefix_stable_def less_eq_prod_def)
qed

lemma list_pending_take:
  assumes "prefix_stable collate"
  shows "listPendingProviderACKs collate ck limit db = take limit (all_pending collate ck db)"
proof -
  let ?f = "by_inbox_id collate"
  have "sort_key ?f (take limit (sort_key ?f zs)) = take limit (sort_key ?f zs)" for zs
    by (rule sort_key_id_if_sorted) (simp add: take_map [symmetric] sorted_wrt_take)
  then show ?thesis
    by (simp add: listPendingProviderACKs_def all_pending_def rejected_rows_sorted [OF assms] take_sort_append take_map)
qed

lemma set_all_pending:
  assumes I: "inbox_inv db"
  shows "set (all_pending collate (t, c) db) = {i. ack_eligible db (t, c, i)}"
proof (rule set_eqI)
  fix i
  have keys: "distinct (map fst (db_inbox db))" "distinct (map fst (db_rejected db))" using I by (simp_all add: inbox_inv_def inbox_keys_def)
  have rows: "((t, c, i), b) \<in> set (db_inbox db) \<longleftrightarrow> inbox_of db (t, c, i) = Some b" "((t, c, i), j) \<in> set (db_rejected db) \<longleftrightarrow> rejected_of db (t, c, i) = Some j" for b j
    using keys by (simp_all add: inbox_of_def rejected_of_def)
  have "i \<in> set (all_pending collate (t, c) db) \<longleftrightarrow>
      (\<exists>b r. ((t, c, i), b) \<in> set (db_inbox db) \<and> reservation_of db (t, c, i) = Some r \<and> rv_disposition r = DispositionInbox \<and> \<not> rv_conflicted r \<and> ib_ack_pending b)
    \<or> (\<exists>j r. ((t, c, i), j) \<in> set (db_rejected db) \<and> reservation_of db (t, c, i) = Some r \<and> rv_disposition r = DispositionRejected
           \<and> \<not> rv_conflicted r \<and> rj_ack_pending j \<and> \<not> rj_conflicted j)"
    by (force simp: all_pending_def inbox_pending_rows_def rejected_pending_rows_def List.map_filter_def split: option.splits if_splits)
  also have "\<dots> \<longleftrightarrow> ack_eligible db (t, c, i)"
    unfolding rows by (auto simp: ack_eligible_def split: option.splits disposition.splits)
  finally show "i \<in> set (all_pending collate (t, c) db) \<longleftrightarrow> i \<in> {i. ack_eligible db (t, c, i)}" by simp
qed

text \<open>
  C14. The listing of pending acknowledgements, which limits each table before it merges them,
  returns the same as the whole sorted list of pending responses cut once at the limit, and that
  list has exactly the responses that may be acknowledged. The collation of the database is assumed
  to order texts as it orders them behind a common prefix.
\<close>

theorem listing_equals_reference:
  assumes "empty_inbox db0" and "inbox_run coll db0 db" and "prefix_stable collate"
    and "ListPendingProviderACKsFenced collate f now t c ow tok limit db = (Inr ids, db')"
  shows "ids = take (nat limit) (all_pending collate (t, c) db) \<and> set (all_pending collate (t, c) db) = {i. ack_eligible db (t, c, i)} \<and> db' = db"
proof -
  have I: "inbox_inv db" using inbox_run_committing [OF assms(2) empty_inbox_inv [OF assms(1)]] by (rule committing_inv)
  have "ids = listPendingProviderACKs collate (t, c) (nat limit) db" "db' = db"
    using assms(4) by (auto simp: ListPendingProviderACKsFenced_def Let_def split: if_splits dest!: inTenant_value)
  then show ?thesis by (simp only: list_pending_take [OF assms(3)] set_all_pending [OF I])
qed

lemma demo_listed:
  "ListPendingProviderACKsFenced length NoFault 11 ''t1'' ''c1'' ''replica-a'' 4 10 (snd demo_processed) = (Inr [''r1''], snd demo_processed)"
proof -
  have "fst (ListPendingProviderACKsFenced length NoFault 11 ''t1'' ''c1'' ''replica-a'' 4 10 (snd demo_processed)) = Inr [''r1'']" by code_simp
  then show ?thesis by (auto simp: ListPendingProviderACKsFenced_def Let_def split: if_splits)
qed

theorem listing_equals_reference_witness:
  "take 10 (all_pending length (''t1'', ''c1'') (snd demo_processed)) = [''r1'']"
proof -
  have "inbox_step length demo_inbox (snd demo_processed)"
    unfolding demo_processed_def by (rule i_process [OF prod.collapse [symmetric] demo_provider])
  then have run: "inbox_run length demo_inbox (snd demo_processed)" by (rule inbox_run_step [OF inbox_run_refl])
  have "prefix_stable (length :: string \<Rightarrow> nat)" by (simp add: prefix_stable_def)
  from listing_equals_reference [OF demo_inbox_empty run this demo_listed] show ?thesis by simp
qed

text \<open>
  C9. A conflicting response, and a response whose acknowledgement is withheld, is never sent to
  the provider as acknowledged, whatever the gateway does after the conflict or the refusal was
  recorded; what is sent was pending, and is part of what the caller asked for.
\<close>

theorem refused_response_never_acknowledged:
  assumes "empty_inbox db0" and "inbox_run collate db0 db" and "inbox_run collate db db1"
    and "map_option rv_conflicted (reservation_of db (t, c, i)) = Some True \<or> map_option withheld (inbox_of db (t, c, i)) = Some True"
    and "CoordinateProviderACKsFenced f1 f2 now t c ow tok ttl ids send db1 = (res, Some sent, db2)"
  shows "i \<notin> set sent \<and> set sent \<subseteq> set ids \<inter> {i. ack_eligible db1 (t, c, i)}"
proof -
  have I: "inbox_inv db" using inbox_run_committing [OF assms(2) empty_inbox_inv [OF assms(1)]] by (rule committing_inv)
  note k = inbox_run_kept [OF assms(3) I]
  then have I1: "inbox_inv db1" by (simp add: inbox_kept_def)
  have "\<not> ack_eligible db1 (t, c, i)"
    using assms(4)
  proof
    assume "map_option rv_conflicted (reservation_of db (t, c, i)) = Some True"
    then show ?thesis using kept_reservation [OF k, of "(t, c, i)"] by (auto simp: ack_eligible_def)
  next
    assume "map_option withheld (inbox_of db (t, c, i)) = Some True"
    then obtain b where "inbox_of db1 (t, c, i) = Some b" "withheld b" using kept_withheld [OF k, of "(t, c, i)"] by auto
    with I1 show ?thesis by (cases rule: stored_cases [of db1 "(t, c, i)"]) (auto simp: ack_eligible_def of_stored)
  qed
  moreover have "sent = filter (\<lambda>i. ack_eligible db1 (t, c, i)) ids"
    using assms(5) by (auto simp: CoordinateProviderACKsFenced_def response_key_def Let_def split: if_splits fault.splits option.splits)
  ultimately show ?thesis by auto
qed

definition demo_settings :: ProviderEnvelope where
  "demo_settings = (demo_response ''settings'') \<lparr> pe_ProviderResponseID := ''r0'', pe_DecodeError := Some (Opaque ''decode''), pe_ACKWithheld := True,
     pe_PoisonReason := PoisonReasonInvalidSettingsSnapshot \<rparr>"

definition demo_withheld :: inbox_db where
  "demo_withheld = snd (Process NoFault (demo_commit ''a-'') 9 demo_settings demo_inbox)"

definition demo_both :: inbox_db where
  "demo_both = snd (Process NoFault (demo_commit ''b-'') 9 (demo_response ''raw'') demo_withheld)"

lemma demo_withheld_row: "map_option withheld (inbox_of demo_withheld (''t1'', ''c1'', ''r0'')) = Some True"
  by code_simp

lemma demo_coordinated:
  "fst (snd (CoordinateProviderACKsFenced NoFault NoFault 11 ''t1'' ''c1'' ''replica-a'' 4 minute [''r0'', ''r1''] (\<lambda>_. None) demo_both)) = Some [''r1'']"
  by code_simp

theorem refused_response_never_acknowledged_witness:
  "\<exists>sent. fst (snd (CoordinateProviderACKsFenced NoFault NoFault 11 ''t1'' ''c1'' ''replica-a'' 4 minute [''r0'', ''r1''] (\<lambda>_. None) demo_both)) = Some sent
     \<and> ''r0'' \<notin> set sent"
proof -
  have "inbox_step length demo_inbox demo_withheld"
    using demo_provider [of "''settings''"] unfolding demo_withheld_def by (intro i_process [OF prod.collapse [symmetric]]) (simp add: demo_settings_def)
  then have 1: "inbox_run length demo_inbox demo_withheld" by (rule inbox_run_step [OF inbox_run_refl])
  have "inbox_step length demo_withheld demo_both"
    unfolding demo_both_def by (rule i_process [OF prod.collapse [symmetric] demo_provider])
  then have 2: "inbox_run length demo_withheld demo_both" by (rule inbox_run_step [OF inbox_run_refl])
  obtain res db' where "CoordinateProviderACKsFenced NoFault NoFault 11 ''t1'' ''c1'' ''replica-a'' 4 minute [''r0'', ''r1''] (\<lambda>_. None) demo_both = (res, Some [''r1''], db')"
    using demo_coordinated by (metis prod.collapse)
  from refused_response_never_acknowledged [OF demo_inbox_empty 1 2 disjI2 [OF demo_withheld_row] this] show ?thesis
    using demo_coordinated by blast
qed

theorem reported_eligible_is_pending_witness:
  "\<exists>res db1. demo_processed = (Inr res, db1) \<and> po_ACKEligible res \<and> ack_eligible db1 (envelope_key (demo_response ''raw''))"
proof -
  obtain res db1 where p: "demo_processed = (Inr res, db1)" "po_ACKEligible res"
    using demo_processed_ok by (auto split: prod.splits sum.splits)
  from reported_eligible_is_pending [OF demo_inbox_empty inbox_run_refl [of length] p(1) [unfolded demo_processed_def] demo_provider p(2)] show ?thesis
    using p by blast
qed

end
