(* ===== verification/Delivery_Store.thy ===== *)
theory Delivery_Store
  imports Inbox_Store
begin

text \<open>
  The delivery operations of \<^verbatim>\<open>store/postgres/delivery.go\<close>: webhook endpoints with their sealed
  secrets, the deliveries of events to endpoints under claim tokens and endpoint generations, the
  dead letters of deliveries and of Kafka commands, and the claims of the Kafka outbox. A statement
  with several common table expressions is one function: every part reads the tables as they were
  before the statement, and the parts that write touch different rows or different tables. Rows
  another transaction holds are not skipped, as a transaction is one step. \<^verbatim>\<open>collate\<close> is the
  collation of the text columns in \<^verbatim>\<open>ORDER BY\<close>.
\<close>

section \<open>Rows\<close>

record sealed_secret =
  sec_ciphertext :: string
  sec_wrapped_dek :: string
  sec_nonce :: string
  sec_key_id :: string
  sec_key_version :: int

text \<open>The columns of the previous secret are set together by a rotation and cleared together.\<close>

record endpoint_row =
  ep_destination :: string
  ep_key_id :: string
  ep_secret :: sealed_secret
  ep_previous :: "(string \<times> sealed_secret \<times> instant) option"
  ep_active :: bool
  ep_created :: instant
  ep_generation :: nat

datatype delivery_state = DeliveryPending | DeliveryDelivering | DeliverySucceeded | DeliveryDead

record delivery_row =
  wd_endpoint :: string
  wd_event :: string
  wd_body :: string
  wd_state :: delivery_state
  wd_attempts :: nat
  wd_cycle :: nat
  wd_available :: instant
  wd_claimed_by :: "string option"
  wd_claim_expires :: "instant option"
  wd_completed :: "instant option"
  wd_token :: nat
  wd_generation :: nat
  wd_http_started :: "instant option"

record webhook_attempt_row =
  wa_delivery :: string
  wa_number :: nat
  wa_started :: instant
  wa_finished :: "instant option"
  wa_status :: "int option"
  wa_error :: string

record webhook_dlq_row =
  wq_delivery :: string
  wq_event :: string
  wq_body :: string
  wq_error :: string
  wq_dead :: instant
  wq_replayed :: "instant option"

datatype kafka_state = KafkaPending | KafkaPublishing | KafkaPublished

record kafka_delivery_row =
  kd_event :: string
  kd_topic :: string
  kd_partition_key :: string
  kd_attempts :: nat
  kd_state :: kafka_state
  kd_available :: instant
  kd_published :: "instant option"

record command_dlq_row =
  cq_topic :: string
  cq_partition :: int
  cq_offset :: int
  cq_payload :: string
  cq_error :: string
  cq_attempts :: nat
  cq_correlation :: string
  cq_dead :: instant

type_synonym dkey = "tenant_id \<times> string"

record delivery_db = inbox_db +
  db_endpoints :: "(dkey \<times> endpoint_row) list"
  db_deliveries :: "(dkey \<times> delivery_row) list"
  db_webhook_attempts :: "(dkey \<times> webhook_attempt_row) list"
  db_webhook_dlq :: "(dkey \<times> webhook_dlq_row) list"
  db_kafka_deliveries :: "(dkey \<times> kafka_delivery_row) list"
  db_command_dlq :: "(dkey \<times> command_dlq_row) list"

definition endpoint_of :: "'z delivery_db_scheme \<Rightarrow> dkey \<Rightarrow> endpoint_row option" where
  "endpoint_of db k = map_of (db_endpoints db) k"

definition delivery_of :: "'z delivery_db_scheme \<Rightarrow> dkey \<Rightarrow> delivery_row option" where
  "delivery_of db k = map_of (db_deliveries db) k"

definition dlq_of :: "'z delivery_db_scheme \<Rightarrow> dkey \<Rightarrow> webhook_dlq_row option" where
  "dlq_of db k = map_of (db_webhook_dlq db) k"

text \<open>An UPDATE with a WHERE clause.\<close>

definition update_where :: "('k \<Rightarrow> 'r \<Rightarrow> bool) \<Rightarrow> ('r \<Rightarrow> 'r) \<Rightarrow> ('k \<times> 'r) list \<Rightarrow> ('k \<times> 'r) list" where
  "update_where p f rows = map (\<lambda>(k, r). (k, if p k r then f r else r)) rows"

lemma update_where_simps [simp]:
  "map fst (update_where p f rows) = map fst rows"
  "fst ` set (update_where p f rows) = fst ` set rows"
  "map_of (update_where p f rows) k = map_option (\<lambda>r. if p k r then f r else r) (map_of rows k)"
  by (induction rows) (auto simp: update_where_def)

lemma set_update_where: "(k, r') \<in> set (update_where p f rows) \<longleftrightarrow> (\<exists>r. (k, r) \<in> set rows \<and> r' = (if p k r then f r else r))"
  by (force simp: update_where_def)

section \<open>Endpoints\<close>

record Endpoint =
  en_ID :: string
  en_TenantID :: tenant_id
  en_Destination :: string
  en_KeyID :: string
  en_Active :: bool
  en_CreatedAt :: instant

record EndpointRecord =
  eo_Endpoint :: Endpoint
  eo_Secret :: Envelope

record EndpointRotation =
  ero_TenantID :: tenant_id
  ero_EndpointID :: string
  ero_KeyID :: string
  ero_Secret :: Envelope
  ero_PreviousValidUntil :: "instant option"

definition MaxEndpointsPerTenant :: int where
  "MaxEndpointsPerTenant = 128"

definition secret_columns :: "Envelope \<Rightarrow> sealed_secret" where
  "secret_columns e = \<lparr> sec_ciphertext = env_Ciphertext e, sec_wrapped_dek = env_WrappedDEK e, sec_nonce = env_Nonce e,
     sec_key_id = env_KeyID e, sec_key_version = env_KeyVersion e \<rparr>"

definition active_endpoints :: "tenant_id \<Rightarrow> 'z delivery_db_scheme \<Rightarrow> (dkey \<times> endpoint_row) list" where
  "active_endpoints tenantID db = filter (\<lambda>(k, e). fst k = tenantID \<and> ep_active e) (db_endpoints db)"

definition endpoint_taken :: "tenant_id \<Rightarrow> Endpoint \<Rightarrow> 'z delivery_db_scheme \<Rightarrow> bool" where
  "endpoint_taken tenantID endpoint db =
     list_ex (\<lambda>(k, e). fst k = tenantID
       \<and> (snd k = en_ID endpoint \<or> ep_destination e = en_Destination endpoint \<or> ep_key_id e = en_KeyID endpoint)) (db_endpoints db)"

definition new_endpoint :: "EndpointRecord \<Rightarrow> endpoint_row" where
  "new_endpoint rcd =
     \<lparr> ep_destination = en_Destination (eo_Endpoint rcd), ep_key_id = en_KeyID (eo_Endpoint rcd),
       ep_secret = secret_columns (eo_Secret rcd), ep_previous = None, ep_active = True,
       ep_created = en_CreatedAt (eo_Endpoint rcd), ep_generation = 1 \<rparr>"

definition CreateEndpoint :: "fault \<Rightarrow> EndpointRecord \<Rightarrow> int \<Rightarrow> 'z delivery_db_scheme \<Rightarrow> goerror \<times> 'z delivery_db_scheme" where
  "CreateEndpoint f rcd maxEndpoints db =
     (let endpoint = eo_Endpoint rcd; tenantID = en_TenantID endpoint in
      if tenantID = '''' \<or> en_ID endpoint = '''' \<or> en_Destination endpoint = '''' \<or> en_KeyID endpoint = ''''
         \<or> Envelope_Validate (eo_Secret rcd) \<noteq> None \<or> env_Provider (eo_Secret rcd) \<noteq> ''webhook''
         \<or> maxEndpoints < 1 \<or> MaxEndpointsPerTenant < maxEndpoints
      then (Some (Sentinel ErrInvalidEndpoint), db)
      else inTenantExec f tenantID (\<lambda>db.
        if maxEndpoints \<le> int (length (active_endpoints tenantID db)) then Inl (Sentinel ErrEndpointQuotaExceeded)
        else if endpoint_taken tenantID endpoint db then Inl unique_violation
        else if db_tenants db tenantID = None then Inl fk_violation
        else Inr (db \<lparr> db_endpoints := db_endpoints db @ [((tenantID, en_ID endpoint), new_endpoint rcd)] \<rparr>)) db)"

definition rotate_row :: "EndpointRotation \<Rightarrow> instant \<Rightarrow> endpoint_row \<Rightarrow> endpoint_row" where
  "rotate_row rotation until e =
     e \<lparr> ep_previous := Some (ep_key_id e, ep_secret e, until), ep_key_id := ero_KeyID rotation,
         ep_secret := secret_columns (ero_Secret rotation) \<rparr>"

definition RotateEndpoint :: "fault \<Rightarrow> EndpointRotation \<Rightarrow> 'z delivery_db_scheme \<Rightarrow> goerror \<times> 'z delivery_db_scheme" where
  "RotateEndpoint f rotation db =
     (let k = (ero_TenantID rotation, ero_EndpointID rotation) in
      case ero_PreviousValidUntil rotation of
        None \<Rightarrow> (Some (Sentinel ErrInvalidEndpoint), db)
      | Some until \<Rightarrow>
          if ero_TenantID rotation = '''' \<or> ero_EndpointID rotation = '''' \<or> ero_KeyID rotation = ''''
             \<or> Envelope_Validate (ero_Secret rotation) \<noteq> None \<or> env_Provider (ero_Secret rotation) \<noteq> ''webhook''
          then (Some (Sentinel ErrInvalidEndpoint), db)
          else inTenantExec f (ero_TenantID rotation) (\<lambda>db.
            case endpoint_of db k of
              None \<Rightarrow> Inl (Sentinel ErrInvalidEndpoint)
            | Some e \<Rightarrow>
                if \<not> ep_active e then Inl (Sentinel ErrInvalidEndpoint)
                else if list_ex (\<lambda>(k', e'). fst k' = fst k \<and> k' \<noteq> k \<and> ep_key_id e' = ero_KeyID rotation) (db_endpoints db)
                then Inl unique_violation
                else Inr (db \<lparr> db_endpoints := update_where (\<lambda>k' _. k' = k) (rotate_row rotation until) (db_endpoints db) \<rparr>)) db)"

record EndpointPage =
  eg_Endpoints :: "Endpoint list"
  eg_NextCursor :: string

definition endpoint_view :: "dkey \<times> endpoint_row \<Rightarrow> Endpoint" where
  "endpoint_view row = \<lparr> en_ID = snd (fst row), en_TenantID = fst (fst row), en_Destination = ep_destination (snd row),
     en_KeyID = ep_key_id (snd row), en_Active = ep_active (snd row), en_CreatedAt = ep_created (snd row) \<rparr>"

definition list_endpoints ::
  "(string \<Rightarrow> 'k::linorder) \<Rightarrow> tenant_id \<Rightarrow> string \<Rightarrow> nat \<Rightarrow> 'z delivery_db_scheme \<Rightarrow> Endpoint list" where
  "list_endpoints collate tenantID after limit db =
     map endpoint_view (take limit (sort_key (\<lambda>row. collate (snd (fst row)))
       (filter (\<lambda>row. fst (fst row) = tenantID \<and> collate after < collate (snd (fst row))) (db_endpoints db))))"

definition ListEndpoints ::
  "(string \<Rightarrow> 'k::linorder) \<Rightarrow> fault \<Rightarrow> tenant_id \<Rightarrow> string \<Rightarrow> int \<Rightarrow> 'z delivery_db_scheme
   \<Rightarrow> EndpointPage result \<times> 'z delivery_db_scheme" where
  "ListEndpoints collate f tenantID after limit db =
     (if tenantID = '''' \<or> 256 < length after \<or> limit < 1 \<or> 200 < limit then (Inl (Sentinel ErrInvalidEndpoint), db)
      else inTenant f tenantID (\<lambda>db.
        let endpoints = list_endpoints collate tenantID after (nat limit + 1) db in
        if limit < int (length endpoints)
        then Inr (\<lparr> eg_Endpoints = take (nat limit) endpoints, eg_NextCursor = en_ID (last (take (nat limit) endpoints)) \<rparr>, db)
        else Inr (\<lparr> eg_Endpoints = endpoints, eg_NextCursor = '''' \<rparr>, db)) db)"

definition purge_expired :: "instant \<Rightarrow> tenant_id \<Rightarrow> 'z delivery_db_scheme \<Rightarrow> 'z delivery_db_scheme" where
  "purge_expired now tenantID db =
     db \<lparr> db_endpoints := update_where
       (\<lambda>k e. fst k = tenantID \<and> (case ep_previous e of None \<Rightarrow> False | Some (_, _, until) \<Rightarrow> until \<le> now))
       (\<lambda>e. e \<lparr> ep_previous := None \<rparr>) (db_endpoints db) \<rparr>"

definition PurgeExpiredSecrets :: "fault \<Rightarrow> instant \<Rightarrow> tenant_id \<Rightarrow> 'z delivery_db_scheme \<Rightarrow> goerror \<times> 'z delivery_db_scheme" where
  "PurgeExpiredSecrets f now tenantID db =
     (if tenantID = '''' then (Some (Sentinel ErrInvalidWorker), db)
      else inTenantExec f tenantID (\<lambda>db. Inr (purge_expired now tenantID db)) db)"

section \<open>Revocation and replay\<close>

definition expired :: "instant \<Rightarrow> instant option \<Rightarrow> bool" where
  "expired now expires = (case expires of None \<Rightarrow> False | Some at \<Rightarrow> at \<le> now)"

definition unexpired :: "instant \<Rightarrow> instant option \<Rightarrow> bool" where
  "unexpired now expires = (case expires of None \<Rightarrow> False | Some at \<Rightarrow> now < at)"

definition open_delivery :: "delivery_row \<Rightarrow> bool" where
  "open_delivery d = (wd_state d = DeliveryPending \<or> wd_state d = DeliveryDelivering)"

definition revocable :: "instant \<Rightarrow> dkey \<Rightarrow> dkey \<Rightarrow> delivery_row \<Rightarrow> bool" where
  "revocable now ek k d =
     (fst k = fst ek \<and> wd_endpoint d = snd ek \<and> open_delivery d \<and> (wd_http_started d = None \<or> expired now (wd_claim_expires d)))"

definition on_wire :: "instant \<Rightarrow> dkey \<Rightarrow> dkey \<Rightarrow> delivery_row \<Rightarrow> bool" where
  "on_wire now ek k d =
     (fst k = fst ek \<and> wd_endpoint d = snd ek \<and> wd_state d = DeliveryDelivering \<and> wd_http_started d \<noteq> None
      \<and> unexpired now (wd_claim_expires d))"

definition revoke_delivery :: "instant \<Rightarrow> delivery_row \<Rightarrow> delivery_row" where
  "revoke_delivery now d = d \<lparr> wd_state := DeliveryDead, wd_claimed_by := None, wd_claim_expires := None,
     wd_token := wd_token d + 1, wd_completed := Some now \<rparr>"

definition revoke_endpoint :: "endpoint_row \<Rightarrow> endpoint_row" where
  "revoke_endpoint e = e \<lparr> ep_active := False, ep_generation := (if ep_active e then ep_generation e + 1 else ep_generation e) \<rparr>"

definition finish_revoked :: "instant \<Rightarrow> tenant_id \<Rightarrow> (dkey \<times> delivery_row) list \<Rightarrow> dkey \<Rightarrow> webhook_attempt_row \<Rightarrow> bool" where
  "finish_revoked now tenantID locked k a =
     (fst k = tenantID \<and> wa_finished a = None
      \<and> list_ex (\<lambda>(dk, d). snd dk = wa_delivery a \<and> wd_attempts d = wa_number a) locked)"

text \<open>\<^verbatim>\<open>INSERT INTO webhook_dlq ... ON CONFLICT (tenant_id, delivery_id) DO NOTHING\<close>.\<close>

definition insert_dead_letter ::
  "instant \<Rightarrow> string \<Rightarrow> string \<Rightarrow> dkey \<Rightarrow> delivery_row \<Rightarrow> 'z delivery_db_scheme \<Rightarrow> 'z delivery_db_scheme result" where
  "insert_dead_letter now dlqID safeError dk d db =
     (if list_ex (\<lambda>(k, q). fst k = fst dk \<and> wq_delivery q = snd dk) (db_webhook_dlq db) then Inr db
      else if dlq_of db (fst dk, dlqID) \<noteq> None then Inl unique_violation
      else Inr (db \<lparr> db_webhook_dlq := db_webhook_dlq db @ [((fst dk, dlqID),
             \<lparr> wq_delivery = snd dk, wq_event = wd_event d, wq_body = wd_body d, wq_error = safeError,
               wq_dead = now, wq_replayed = None \<rparr>)] \<rparr>))"

fun insert_dead_letters :: "instant \<Rightarrow> (dkey \<times> delivery_row) list \<Rightarrow> 'z delivery_db_scheme \<Rightarrow> 'z delivery_db_scheme result" where
  "insert_dead_letters now [] db = Inr db"
| "insert_dead_letters now ((dk, d) # rest) db =
     bind_res (insert_dead_letter now (snd dk @ '':revoked'') ''endpoint revoked'' dk d db) (insert_dead_letters now rest)"

definition delete_endpoint :: "instant \<Rightarrow> dkey \<Rightarrow> 'z delivery_db_scheme \<Rightarrow> (bool \<times> 'z delivery_db_scheme) result" where
  "delete_endpoint now ek db =
     (let locked = filter (\<lambda>(k, d). revocable now ek k d) (db_deliveries db) in
      bind_res (insert_dead_letters now locked (db \<lparr>
        db_endpoints := update_where (\<lambda>k _. k = ek) revoke_endpoint (db_endpoints db),
        db_deliveries := update_where (revocable now ek) (revoke_delivery now) (db_deliveries db),
        db_webhook_attempts := update_where (finish_revoked now (fst ek) locked)
          (\<lambda>a. a \<lparr> wa_finished := Some now, wa_error := ''endpoint revoked'' \<rparr>) (db_webhook_attempts db) \<rparr>))
        (\<lambda>db'. Inr (list_ex (\<lambda>(k, d). on_wire now ek k d) (db_deliveries db), db')))"

text \<open>The result says whether a request to the endpoint may still be on the wire.\<close>

definition DeleteEndpoint :: "fault \<Rightarrow> instant \<Rightarrow> tenant_id \<Rightarrow> string \<Rightarrow> 'z delivery_db_scheme \<Rightarrow> bool result \<times> 'z delivery_db_scheme" where
  "DeleteEndpoint f now tenantID endpointID db =
     (if tenantID = '''' \<or> endpointID = '''' then (Inl (Sentinel ErrInvalidEndpoint), db)
      else inTenant f tenantID (\<lambda>db.
        if endpoint_of db (tenantID, endpointID) = None then Inl (Sentinel ErrInvalidEndpoint)
        else delete_endpoint now (tenantID, endpointID) db) db)"

definition endpoint_active :: "'z delivery_db_scheme \<Rightarrow> tenant_id \<Rightarrow> string \<Rightarrow> bool" where
  "endpoint_active db tenantID endpointID =
     (case endpoint_of db (tenantID, endpointID) of None \<Rightarrow> False | Some e \<Rightarrow> ep_active e)"

definition replay_delivery :: "instant \<Rightarrow> delivery_row \<Rightarrow> delivery_row" where
  "replay_delivery now d = d \<lparr> wd_state := DeliveryPending, wd_cycle := 0, wd_available := now, wd_claimed_by := None,
     wd_claim_expires := None, wd_token := wd_token d + 1, wd_completed := None \<rparr>"

definition ReplayDLQ :: "fault \<Rightarrow> instant \<Rightarrow> tenant_id \<Rightarrow> string \<Rightarrow> 'z delivery_db_scheme \<Rightarrow> goerror \<times> 'z delivery_db_scheme" where
  "ReplayDLQ f now tenantID dlqID db =
     (if tenantID = '''' \<or> dlqID = '''' then (Some (Sentinel ErrInvalidEndpoint), db)
      else inTenantExec f tenantID (\<lambda>db.
        case dlq_of db (tenantID, dlqID) of
          None \<Rightarrow> Inl (Sentinel ErrInvalidEndpoint)
        | Some q \<Rightarrow>
            case delivery_of db (tenantID, wq_delivery q) of
              None \<Rightarrow> Inl (Sentinel ErrInvalidEndpoint)
            | Some d \<Rightarrow>
                if wq_replayed q \<noteq> None \<or> \<not> endpoint_active db tenantID (wd_endpoint d) then Inl (Sentinel ErrInvalidEndpoint)
                else Inr (db \<lparr>
                  db_deliveries := update_where (\<lambda>k _. k = (tenantID, wq_delivery q)) (replay_delivery now) (db_deliveries db),
                  db_webhook_dlq := update_where (\<lambda>k _. k = (tenantID, dlqID)) (\<lambda>q. q \<lparr> wq_replayed := Some now \<rparr>) (db_webhook_dlq db) \<rparr>)) db)"

section \<open>Claims\<close>

record WebhookDelivery =
  we_TenantID :: tenant_id
  we_DeliveryID :: string
  we_EndpointID :: string
  we_EventID :: string
  we_Destination :: string
  we_KeyID :: string
  we_CanonicalBody :: string
  we_Attempt :: nat
  we_OwnerID :: string
  we_ClaimToken :: nat
  we_EndpointGeneration :: nat
  we_Secret :: Envelope

definition outbox_due :: "instant \<Rightarrow> tenant_id \<Rightarrow> string \<Rightarrow> outbox_row \<Rightarrow> bool" where
  "outbox_due now tenantID destination r =
     (ob_tenant r = tenantID \<and> ob_destination r = destination \<and> ob_published r = None \<and> ob_available r \<le> now
      \<and> (ob_claimed_by r = None \<or> expired now (ob_claim_expires r)))"

definition locked_outbox ::
  "(string \<Rightarrow> 'k::linorder) \<Rightarrow> instant \<Rightarrow> tenant_id \<Rightarrow> string \<Rightarrow> nat \<Rightarrow> 'z delivery_db_scheme \<Rightarrow> outbox_row list" where
  "locked_outbox collate now tenantID destination limit db =
     take limit (sort_key (\<lambda>r. (ob_available r, collate (ob_id r))) (filter (outbox_due now tenantID destination) (db_outbox db)))"

definition has_delivery :: "'z delivery_db_scheme \<Rightarrow> tenant_id \<Rightarrow> string \<Rightarrow> string \<Rightarrow> bool" where
  "has_delivery db tenantID endpointID eventID =
     list_ex (\<lambda>(k, d). fst k = tenantID \<and> wd_endpoint d = endpointID \<and> wd_event d = eventID) (db_deliveries db)"

text \<open>An outbox row paired with an active endpoint that has no delivery of the event yet.\<close>

definition missing_pairs ::
  "tenant_id \<Rightarrow> outbox_row list \<Rightarrow> 'z delivery_db_scheme \<Rightarrow> (outbox_row \<times> dkey \<times> endpoint_row) list" where
  "missing_pairs tenantID rows db =
     filter (\<lambda>(r, k, e). db_events db (tenantID, ob_event r) \<noteq> None \<and> \<not> has_delivery db tenantID (snd k) (ob_event r))
       (List.product rows (active_endpoints tenantID db))"

definition candidate_pairs ::
  "(string \<Rightarrow> 'k::linorder) \<Rightarrow> tenant_id \<Rightarrow> nat \<Rightarrow> outbox_row list \<Rightarrow> 'z delivery_db_scheme
   \<Rightarrow> (outbox_row \<times> dkey \<times> endpoint_row) list" where
  "candidate_pairs collate tenantID limit rows db =
     take limit (sort_key (\<lambda>(r, k, e). (collate (ob_id r), collate (snd k))) (missing_pairs tenantID rows db))"

definition new_delivery :: "instant \<Rightarrow> string \<Rightarrow> string \<Rightarrow> string \<Rightarrow> nat \<Rightarrow> delivery_row" where
  "new_delivery now endpointID eventID body generation =
     \<lparr> wd_endpoint = endpointID, wd_event = eventID, wd_body = body, wd_state = DeliveryPending, wd_attempts = 0,
       wd_cycle = 0, wd_available = now, wd_claimed_by = None, wd_claim_expires = None, wd_completed = None,
       wd_token = 0, wd_generation = generation, wd_http_started = None \<rparr>"

definition materialized_row ::
  "instant \<Rightarrow> tenant_id \<Rightarrow> 'z delivery_db_scheme \<Rightarrow> outbox_row \<times> dkey \<times> endpoint_row \<Rightarrow> dkey \<times> delivery_row" where
  "materialized_row now tenantID db pair =
     (case pair of (r, k, e) \<Rightarrow>
        ((tenantID, snd k @ '':'' @ ob_event r),
         new_delivery now (snd k) (ob_event r)
           (case db_events db (tenantID, ob_event r) of None \<Rightarrow> '''' | Some ev \<Rightarrow> ev_body ev) (ep_generation e)))"

text \<open>The events every active endpoint has a delivery of, counting the deliveries the statement inserts.\<close>

definition covered :: "tenant_id \<Rightarrow> (dkey \<times> delivery_row) list \<Rightarrow> 'z delivery_db_scheme \<Rightarrow> string \<Rightarrow> bool" where
  "covered tenantID materialized db eventID =
     list_all (\<lambda>(k, e). has_delivery db tenantID (snd k) eventID
       \<or> list_ex (\<lambda>(_, d). wd_endpoint d = snd k \<and> wd_event d = eventID) materialized) (active_endpoints tenantID db)"

definition close_row :: "instant \<Rightarrow> outbox_row \<Rightarrow> outbox_row" where
  "close_row now r = r \<lparr> ob_published := Some now, ob_claimed_by := None, ob_claim_expires := None \<rparr>"

definition close_outbox :: "instant \<Rightarrow> tenant_id \<Rightarrow> string list \<Rightarrow> outbox_row list \<Rightarrow> outbox_row list" where
  "close_outbox now tenantID completed rows =
     map (\<lambda>r. if ob_tenant r = tenantID \<and> ob_destination r = ''webhook'' \<and> ob_event r \<in> set completed then close_row now r else r) rows"

definition claimable :: "instant \<Rightarrow> tenant_id \<Rightarrow> 'z delivery_db_scheme \<Rightarrow> dkey \<times> delivery_row \<Rightarrow> bool" where
  "claimable now tenantID db row =
     (fst (fst row) = tenantID \<and> endpoint_active db tenantID (wd_endpoint (snd row)) \<and> open_delivery (snd row)
      \<and> wd_available (snd row) \<le> now \<and> (wd_claimed_by (snd row) = None \<or> expired now (wd_claim_expires (snd row))))"

definition claim_candidates ::
  "(string \<Rightarrow> 'k::linorder) \<Rightarrow> instant \<Rightarrow> tenant_id \<Rightarrow> nat \<Rightarrow> 'z delivery_db_scheme \<Rightarrow> (dkey \<times> delivery_row) list" where
  "claim_candidates collate now tenantID limit db =
     take limit (sort_key (\<lambda>row. (wd_available (snd row), collate (snd (fst row)))) (filter (claimable now tenantID db) (db_deliveries db)))"

text \<open>A claim lasts 30 seconds; instants count microseconds.\<close>

definition claim_ttl :: int where
  "claim_ttl = 30 * 1000000"

definition generation_of :: "'z delivery_db_scheme \<Rightarrow> dkey \<Rightarrow> nat" where
  "generation_of db k = (case endpoint_of db k of None \<Rightarrow> 0 | Some e \<Rightarrow> ep_generation e)"

definition claim_row :: "instant \<Rightarrow> string \<Rightarrow> nat \<Rightarrow> delivery_row \<Rightarrow> delivery_row" where
  "claim_row now ownerID generation d =
     d \<lparr> wd_state := DeliveryDelivering, wd_claimed_by := Some ownerID, wd_claim_expires := Some (now + claim_ttl),
         wd_token := wd_token d + 1, wd_generation := generation, wd_http_started := None,
         wd_attempts := wd_attempts d + 1, wd_cycle := wd_cycle d + 1 \<rparr>"

definition claimed_row :: "instant \<Rightarrow> string \<Rightarrow> 'z delivery_db_scheme \<Rightarrow> dkey \<times> delivery_row \<Rightarrow> dkey \<times> delivery_row" where
  "claimed_row now ownerID db row =
     (fst row, claim_row now ownerID (generation_of db (fst (fst row), wd_endpoint (snd row))) (snd row))"

definition claimed_attempt :: "instant \<Rightarrow> dkey \<times> delivery_row \<Rightarrow> dkey \<times> webhook_attempt_row" where
  "claimed_attempt now row =
     ((fst (fst row), snd (fst row) @ '':'' @ decimal (wd_attempts (snd row))),
      \<lparr> wa_delivery = snd (fst row), wa_number = wd_attempts (snd row), wa_started = now, wa_finished = None,
        wa_status = None, wa_error = '''' \<rparr>)"

definition attempt_taken :: "'z delivery_db_scheme \<Rightarrow> dkey \<times> webhook_attempt_row \<Rightarrow> bool" where
  "attempt_taken db row =
     list_ex (\<lambda>(k, a). k = fst row \<or> fst k = fst (fst row) \<and> wa_delivery a = wa_delivery (snd row) \<and> wa_number a = wa_number (snd row))
       (db_webhook_attempts db)"

definition claimed_delivery :: "'z delivery_db_scheme \<Rightarrow> dkey \<times> delivery_row \<Rightarrow> WebhookDelivery list" where
  "claimed_delivery db row =
     (case endpoint_of db (fst (fst row), wd_endpoint (snd row)) of
        None \<Rightarrow> []
      | Some e \<Rightarrow> if \<not> ep_active e then [] else [
          \<lparr> we_TenantID = fst (fst row), we_DeliveryID = snd (fst row), we_EndpointID = wd_endpoint (snd row),
            we_EventID = wd_event (snd row), we_Destination = ep_destination e, we_KeyID = ep_key_id e,
            we_CanonicalBody = wd_body (snd row), we_Attempt = wd_cycle (snd row),
            we_OwnerID = (case wd_claimed_by (snd row) of None \<Rightarrow> '''' | Some ow \<Rightarrow> ow), we_ClaimToken = wd_token (snd row),
            we_EndpointGeneration = wd_generation (snd row),
            we_Secret = \<lparr> env_Revision = 0, env_Version = 1, env_Provider = ''webhook'', env_Ciphertext = sec_ciphertext (ep_secret e),
              env_WrappedDEK = sec_wrapped_dek (ep_secret e), env_Nonce = sec_nonce (ep_secret e), env_KeyID = sec_key_id (ep_secret e),
              env_KeyVersion = sec_key_version (ep_secret e) \<rparr> \<rparr>])"

text \<open>
  One execution of \<^verbatim>\<open>claimWebhookDeliveriesSQL\<close>. The candidates are taken from the deliveries before
  the insertion, so a first execution may only insert.
\<close>

definition claim_pass ::
  "(string \<Rightarrow> 'k::linorder) \<Rightarrow> instant \<Rightarrow> tenant_id \<Rightarrow> string \<Rightarrow> nat \<Rightarrow> 'z delivery_db_scheme
   \<Rightarrow> (WebhookDelivery list \<times> 'z delivery_db_scheme) result" where
  "claim_pass collate now tenantID ownerID limit db =
     (let locked = locked_outbox collate now tenantID ''webhook'' limit db;
          materialized = map (materialized_row now tenantID db) (candidate_pairs collate tenantID limit locked db);
          completed = filter (covered tenantID materialized db) (map ob_event locked);
          candidates = claim_candidates collate now tenantID limit db;
          claimed = map (claimed_row now ownerID db) candidates;
          attempts = map (claimed_attempt now) claimed
      in if list_ex (\<lambda>row. delivery_of db (fst row) \<noteq> None) materialized \<or> \<not> distinct (map fst materialized) then Inl unique_violation
         else if list_ex (attempt_taken db) attempts then Inl unique_violation
         else Inr (concat (map (claimed_delivery db) claimed), purge_expired now tenantID (db \<lparr>
           db_outbox := close_outbox now tenantID completed (db_outbox db),
           db_deliveries := map (\<lambda>row. if fst row \<in> set (map fst candidates) then claimed_row now ownerID db row else row) (db_deliveries db)
             @ materialized,
           db_webhook_attempts := db_webhook_attempts db @ attempts \<rparr>)))"

definition Claim ::
  "(string \<Rightarrow> 'k::linorder) \<Rightarrow> fault \<Rightarrow> instant \<Rightarrow> tenant_id \<Rightarrow> string \<Rightarrow> int \<Rightarrow> 'z delivery_db_scheme
   \<Rightarrow> WebhookDelivery list result \<times> 'z delivery_db_scheme" where
  "Claim collate f now tenantID ownerID limit db =
     (if tenantID = '''' \<or> ownerID = '''' \<or> 256 < length ownerID \<or> limit < 1 \<or> 256 < limit
      then (Inl (Sentinel ErrInvalidWorker), db)
      else inTenant f tenantID (\<lambda>db.
        case claim_pass collate now tenantID ownerID (nat limit) db of
          Inl e \<Rightarrow> Inl (Wrap ''claim webhook deliveries'' e)
        | Inr (deliveries, db1) \<Rightarrow>
            if deliveries \<noteq> [] then Inr (deliveries, db1)
            else case claim_pass collate now tenantID ownerID (nat limit) db1 of
                   Inl e \<Rightarrow> Inl (Wrap ''claim webhook deliveries'' e)
                 | Inr (deliveries, db2) \<Rightarrow> Inr (deliveries, db2)) db)"

definition admissible :: "instant \<Rightarrow> WebhookDelivery \<Rightarrow> delivery_row \<Rightarrow> bool" where
  "admissible now delivery d =
     (wd_endpoint d = we_EndpointID delivery \<and> wd_claimed_by d = Some (we_OwnerID delivery) \<and> wd_token d = we_ClaimToken delivery
      \<and> wd_generation d = we_EndpointGeneration delivery \<and> wd_state d = DeliveryDelivering \<and> wd_http_started d = None
      \<and> unexpired now (wd_claim_expires d))"

definition endpoint_admits :: "WebhookDelivery \<Rightarrow> 'z delivery_db_scheme \<Rightarrow> bool" where
  "endpoint_admits delivery db =
     (case endpoint_of db (we_TenantID delivery, we_EndpointID delivery) of
        None \<Rightarrow> False
      | Some e \<Rightarrow> ep_active e \<and> ep_generation e = we_EndpointGeneration delivery)"

text \<open>An UPDATE of one delivery under a condition on its row; the flag is the number of rows being one.\<close>

definition update_delivery ::
  "dkey \<Rightarrow> (delivery_row \<Rightarrow> bool) \<Rightarrow> (delivery_row \<Rightarrow> delivery_row) \<Rightarrow> 'z delivery_db_scheme \<Rightarrow> bool \<times> 'z delivery_db_scheme" where
  "update_delivery dk p g db =
     (case delivery_of db dk of
        None \<Rightarrow> (False, db)
      | Some d \<Rightarrow> if p d then (True, db \<lparr> db_deliveries := update_where (\<lambda>k _. k = dk) g (db_deliveries db) \<rparr>) else (False, db))"

definition AdmitClaim :: "fault \<Rightarrow> instant \<Rightarrow> WebhookDelivery \<Rightarrow> 'z delivery_db_scheme \<Rightarrow> bool result \<times> 'z delivery_db_scheme" where
  "AdmitClaim f now delivery db =
     (if we_TenantID delivery = '''' \<or> we_DeliveryID delivery = '''' \<or> we_EndpointID delivery = '''' \<or> we_OwnerID delivery = ''''
         \<or> 256 < length (we_OwnerID delivery) \<or> we_ClaimToken delivery = 0 \<or> we_EndpointGeneration delivery = 0
      then (Inl (Sentinel ErrInvalidWorker), db)
      else inTenant f (we_TenantID delivery) (\<lambda>db.
        Inr (update_delivery (we_TenantID delivery, we_DeliveryID delivery)
          (\<lambda>d. endpoint_admits delivery db \<and> admissible now delivery d) (\<lambda>d. d \<lparr> wd_http_started := Some now \<rparr>) db)) db)"

definition RenewClaim ::
  "fault \<Rightarrow> instant \<Rightarrow> tenant_id \<Rightarrow> string \<Rightarrow> string \<Rightarrow> nat \<Rightarrow> 'z delivery_db_scheme \<Rightarrow> bool result \<times> 'z delivery_db_scheme" where
  "RenewClaim f now tenantID deliveryID ownerID claimToken db =
     (if tenantID = '''' \<or> deliveryID = '''' \<or> ownerID = '''' \<or> 256 < length ownerID \<or> claimToken = 0
      then (Inl (Sentinel ErrInvalidWorker), db)
      else inTenant f tenantID (\<lambda>db.
        Inr (update_delivery (tenantID, deliveryID)
          (\<lambda>d. wd_claimed_by d = Some ownerID \<and> wd_token d = claimToken \<and> wd_state d = DeliveryDelivering
             \<and> unexpired now (wd_claim_expires d) \<and> wd_http_started d \<noteq> None)
          (\<lambda>d. d \<lparr> wd_claim_expires := Some (now + claim_ttl) \<rparr>) db)) db)"

section \<open>Completion\<close>

record AttemptResult =
  ar_TenantID :: tenant_id
  ar_DeliveryID :: string
  ar_Attempt :: int
  ar_OwnerID :: string
  ar_ClaimToken :: nat
  ar_Succeeded :: bool
  ar_Dead :: bool
  ar_StatusCode :: int
  ar_SafeError :: string
  ar_NextAvailableAt :: "instant option"

definition completable :: "AttemptResult \<Rightarrow> delivery_row \<Rightarrow> bool" where
  "completable r d =
     (wd_state d = DeliveryDelivering \<and> int (wd_cycle d) = ar_Attempt r \<and> wd_claimed_by d = Some (ar_OwnerID r)
      \<and> wd_token d = ar_ClaimToken r)"

definition attempt_of_delivery :: "dkey \<Rightarrow> delivery_row \<Rightarrow> dkey \<Rightarrow> webhook_attempt_row \<Rightarrow> bool" where
  "attempt_of_delivery dk d k a = (fst k = fst dk \<and> wa_delivery a = snd dk \<and> wa_number a = wd_attempts d)"

definition settled_state :: "AttemptResult \<Rightarrow> bool \<Rightarrow> delivery_state" where
  "settled_state r active =
     (if \<not> active then DeliveryDead else if ar_Succeeded r then DeliverySucceeded else if ar_Dead r then DeliveryDead else DeliveryPending)"

definition settle_delivery :: "instant \<Rightarrow> instant \<Rightarrow> AttemptResult \<Rightarrow> bool \<Rightarrow> delivery_row \<Rightarrow> delivery_row" where
  "settle_delivery now nextAt r active d =
     (let closed = \<not> active \<or> ar_Succeeded r \<or> ar_Dead r in
      d \<lparr> wd_state := settled_state r active, wd_available := (if closed then wd_available d else nextAt),
          wd_claimed_by := None, wd_claim_expires := None, wd_completed := (if closed then Some now else None) \<rparr>)"

definition settle_attempt :: "instant \<Rightarrow> AttemptResult \<Rightarrow> bool \<Rightarrow> webhook_attempt_row \<Rightarrow> webhook_attempt_row" where
  "settle_attempt now r active a =
     a \<lparr> wa_finished := Some now, wa_status := (if ar_StatusCode r = 0 then None else Some (ar_StatusCode r)),
         wa_error := (if active then ar_SafeError r else ''endpoint revoked'') \<rparr>"

definition complete_attempt ::
  "instant \<Rightarrow> instant \<Rightarrow> string \<Rightarrow> AttemptResult \<Rightarrow> 'z delivery_db_scheme \<Rightarrow> (bool \<times> 'z delivery_db_scheme) result" where
  "complete_attempt now nextAt newID r db =
     (let dk = (ar_TenantID r, ar_DeliveryID r) in
      case delivery_of db dk of
        None \<Rightarrow> Inr (False, db)
      | Some d \<Rightarrow>
          (case endpoint_of db (fst dk, wd_endpoint d) of
             None \<Rightarrow> Inr (False, db)
           | Some e \<Rightarrow>
               if \<not> completable r d \<or> \<not> list_ex (\<lambda>(k, a). attempt_of_delivery dk d k a) (db_webhook_attempts db) then Inr (False, db)
               else let db1 = db \<lparr>
                      db_webhook_attempts := update_where (attempt_of_delivery dk d) (settle_attempt now r (ep_active e)) (db_webhook_attempts db),
                      db_deliveries := update_where (\<lambda>k _. k = dk) (settle_delivery now nextAt r (ep_active e)) (db_deliveries db) \<rparr>
                    in if ar_Dead r \<or> \<not> ep_active e
                       then bind_res (insert_dead_letter now newID (if ep_active e then ar_SafeError r else ''endpoint revoked'') dk d db1)
                              (\<lambda>db2. Inr (True, db2))
                       else Inr (True, db1)))"

definition CompleteAttempt ::
  "fault \<Rightarrow> instant \<Rightarrow> instant \<Rightarrow> string \<Rightarrow> AttemptResult \<Rightarrow> 'z delivery_db_scheme \<Rightarrow> goerror \<times> 'z delivery_db_scheme" where
  "CompleteAttempt f now wall newID r db =
     (if ar_TenantID r = '''' \<or> ar_DeliveryID r = '''' \<or> ar_Attempt r < 1 \<or> ar_OwnerID r = '''' \<or> 256 < length (ar_OwnerID r)
         \<or> ar_ClaimToken r = 0 \<or> 1024 < length (ar_SafeError r)
      then (Some (Sentinel ErrInvalidWorker), db)
      else inTenantExec f (ar_TenantID r) (\<lambda>db.
        case complete_attempt now (case ar_NextAvailableAt r of None \<Rightarrow> wall | Some at \<Rightarrow> at) newID r db of
          Inl e \<Rightarrow> Inl (Wrap ''complete webhook attempt'' e)
        | Inr (completed, db') \<Rightarrow> if completed then Inr db' else Inl (Opaque ''webhook delivery claim lost'')) db)"

section \<open>The Kafka outbox\<close>

definition DefaultEventsTopic :: string where
  "DefaultEventsTopic = ''sirenaix.messaging.events.v1''"

record KafkaEvent =
  ke_EventID :: string
  ke_TenantID :: tenant_id
  ke_ConnectionID :: connection_id
  ke_ConversationID :: string
  ke_CanonicalBody :: string

definition event_connection :: "event_row \<Rightarrow> connection_id" where
  "event_connection ev = (case ev_connection ev of None \<Rightarrow> '''' | Some c \<Rightarrow> c)"

definition new_kafka_delivery :: "instant \<Rightarrow> tenant_id \<Rightarrow> string \<Rightarrow> event_row \<Rightarrow> kafka_delivery_row" where
  "new_kafka_delivery now tenantID eventID ev =
     \<lparr> kd_event = eventID, kd_topic = DefaultEventsTopic,
       kd_partition_key = tenantID @ '':'' @ event_connection ev @ '':'' @ ev_conversation ev,
       kd_attempts = 0, kd_state = KafkaPending, kd_available = now, kd_published = None \<rparr>"

text \<open>\<^verbatim>\<open>INSERT INTO kafka_event_deliveries ... ON CONFLICT (tenant_id, event_id, topic) DO NOTHING\<close>, one event at a time.\<close>

fun materialize_kafka :: "instant \<Rightarrow> tenant_id \<Rightarrow> outbox_row list \<Rightarrow> 'z delivery_db_scheme \<Rightarrow> 'z delivery_db_scheme result" where
  "materialize_kafka now tenantID [] db = Inr db"
| "materialize_kafka now tenantID (r # rest) db =
     (case db_events db (tenantID, ob_event r) of
        None \<Rightarrow> materialize_kafka now tenantID rest db
      | Some ev \<Rightarrow>
          if list_ex (\<lambda>(k, d). fst k = tenantID \<and> kd_event d = ob_event r \<and> kd_topic d = DefaultEventsTopic) (db_kafka_deliveries db)
          then materialize_kafka now tenantID rest db
          else if map_of (db_kafka_deliveries db) (tenantID, ob_event r @ '':kafka'') \<noteq> None then Inl unique_violation
          else materialize_kafka now tenantID rest (db \<lparr> db_kafka_deliveries := db_kafka_deliveries db
                 @ [((tenantID, ob_event r @ '':kafka''), new_kafka_delivery now tenantID (ob_event r) ev)] \<rparr>))"

definition claim_outbox_row :: "instant \<Rightarrow> string \<Rightarrow> outbox_row \<Rightarrow> outbox_row" where
  "claim_outbox_row now ownerID r =
     r \<lparr> ob_claimed_by := Some ownerID, ob_claim_expires := Some (now + claim_ttl), ob_attempts := ob_attempts r + 1 \<rparr>"

definition publishing_row :: "kafka_delivery_row \<Rightarrow> kafka_delivery_row" where
  "publishing_row d = d \<lparr> kd_state := KafkaPublishing, kd_attempts := kd_attempts d + 1 \<rparr>"

definition in_claim :: "tenant_id \<Rightarrow> outbox_row list \<Rightarrow> dkey \<Rightarrow> kafka_delivery_row \<Rightarrow> bool" where
  "in_claim tenantID locked k d = (fst k = tenantID \<and> kd_topic d = DefaultEventsTopic \<and> kd_event d \<in> set (map ob_event locked))"

definition kafka_event :: "tenant_id \<Rightarrow> 'z delivery_db_scheme \<Rightarrow> string \<Rightarrow> KafkaEvent list" where
  "kafka_event tenantID db eventID =
     (case db_events db (tenantID, eventID) of
        None \<Rightarrow> []
      | Some ev \<Rightarrow> [\<lparr> ke_EventID = eventID, ke_TenantID = tenantID, ke_ConnectionID = event_connection ev,
                     ke_ConversationID = ev_conversation ev, ke_CanonicalBody = ev_body ev \<rparr>])"

definition claim_kafka ::
  "(string \<Rightarrow> 'k::linorder) \<Rightarrow> instant \<Rightarrow> tenant_id \<Rightarrow> string \<Rightarrow> nat \<Rightarrow> 'z delivery_db_scheme \<Rightarrow> KafkaEvent list \<times> 'z delivery_db_scheme" where
  "claim_kafka collate now tenantID ownerID limit db =
     (let locked = locked_outbox collate now tenantID ''kafka'' limit db;
          claimed = map (kd_event \<circ> snd) (filter (\<lambda>(k, d). in_claim tenantID locked k d) (db_kafka_deliveries db))
      in (concat (map (kafka_event tenantID db) (sort_key collate claimed)), db \<lparr>
           db_outbox := map (\<lambda>r. if ob_tenant r = tenantID \<and> ob_id r \<in> set (map ob_id locked) then claim_outbox_row now ownerID r else r) (db_outbox db),
           db_kafka_deliveries := update_where (in_claim tenantID locked) publishing_row (db_kafka_deliveries db) \<rparr>))"

definition ClaimEvents ::
  "(string \<Rightarrow> 'k::linorder) \<Rightarrow> fault \<Rightarrow> instant \<Rightarrow> tenant_id \<Rightarrow> string \<Rightarrow> int \<Rightarrow> 'z delivery_db_scheme
   \<Rightarrow> KafkaEvent list result \<times> 'z delivery_db_scheme" where
  "ClaimEvents collate f now tenantID ownerID limit db =
     (if tenantID = '''' \<or> ownerID = '''' \<or> 256 < length ownerID \<or> limit < 1 \<or> 256 < limit
      then (Inl (Sentinel ErrInvalidOutboxWorker), db)
      else inTenant f tenantID (\<lambda>db.
        case materialize_kafka now tenantID (locked_outbox collate now tenantID ''kafka'' (nat limit) db) db of
          Inl e \<Rightarrow> Inl (Wrap ''materialize Kafka events'' e)
        | Inr db1 \<Rightarrow> Inr (claim_kafka collate now tenantID ownerID (nat limit) db1)) db)"

definition to_publish :: "tenant_id \<Rightarrow> string \<Rightarrow> outbox_row \<Rightarrow> bool" where
  "to_publish tenantID eventID r = (ob_tenant r = tenantID \<and> ob_event r = eventID \<and> ob_destination r = ''kafka'' \<and> ob_published r = None)"

definition mark_published :: "instant \<Rightarrow> tenant_id \<Rightarrow> string \<Rightarrow> 'z delivery_db_scheme \<Rightarrow> 'z delivery_db_scheme" where
  "mark_published now tenantID eventID db =
     (if list_ex (to_publish tenantID eventID) (db_outbox db)
      then db \<lparr> db_outbox := map (\<lambda>r. if to_publish tenantID eventID r then close_row now r else r) (db_outbox db),
                db_kafka_deliveries := update_where (\<lambda>k d. fst k = tenantID \<and> kd_event d = eventID)
                  (\<lambda>d. d \<lparr> kd_state := KafkaPublished, kd_published := Some now \<rparr>) (db_kafka_deliveries db) \<rparr>
      else db)"

definition MarkPublished :: "fault \<Rightarrow> instant \<Rightarrow> tenant_id \<Rightarrow> string \<Rightarrow> 'z delivery_db_scheme \<Rightarrow> goerror \<times> 'z delivery_db_scheme" where
  "MarkPublished f now tenantID eventID db =
     (if tenantID = '''' \<or> eventID = '''' then (Some (Sentinel ErrInvalidOutboxWorker), db)
      else inTenantExec f tenantID (\<lambda>db. Inr (mark_published now tenantID eventID db)) db)"

section \<open>Dead letters of commands\<close>

record CommandDLQRecord =
  cr_Topic :: string
  cr_Partition :: int
  cr_Offset :: int
  cr_AuthorizedTenant :: tenant_id
  cr_CorrelationID :: string
  cr_OriginalPayload :: string
  cr_SafeError :: string

definition StoreCommandDLQ :: "fault \<Rightarrow> instant \<Rightarrow> string \<Rightarrow> CommandDLQRecord \<Rightarrow> 'z delivery_db_scheme \<Rightarrow> goerror \<times> 'z delivery_db_scheme" where
  "StoreCommandDLQ f now newID r db =
     (let tenantID = cr_AuthorizedTenant r in
      if tenantID = '''' \<or> cr_Topic r = '''' \<or> 1048576 < length (cr_OriginalPayload r) \<or> cr_SafeError r = ''''
         \<or> 1024 < length (cr_SafeError r) \<or> 256 < length (cr_CorrelationID r)
      then (Some (Sentinel ErrInvalidConsumer), db)
      else inTenantExec f tenantID (\<lambda>db.
        if list_ex (\<lambda>(k, q). fst k = tenantID \<and> cq_topic q = cr_Topic r \<and> cq_partition q = cr_Partition r \<and> cq_offset q = cr_Offset r) (db_command_dlq db)
        then Inr db
        else if map_of (db_command_dlq db) (tenantID, newID) \<noteq> None then Inl unique_violation
        else if db_tenants db tenantID = None then Inl fk_violation
        else Inr (db \<lparr> db_command_dlq := db_command_dlq db @ [((tenantID, newID),
               \<lparr> cq_topic = cr_Topic r, cq_partition = cr_Partition r, cq_offset = cr_Offset r, cq_payload = cr_OriginalPayload r,
                 cq_error = cr_SafeError r, cq_attempts = 1, cq_correlation = cr_CorrelationID r, cq_dead = now \<rparr>)] \<rparr>)) db)"

end
