(* ===== verification/Delivery_Correct.thy ===== *)
theory Delivery_Correct
  imports Delivery_Store Dispatch_Machine
begin

text \<open>
  Runs of the delivery store and what every step does to the rows of its tables. A run interleaves
  the operations of any number of workers and administrators with steps of the rest of the gateway.
  The effect of a step on one delivery is one of a few moves, so an invariant of deliveries is
  proved once against the moves.
\<close>

section \<open>Runs\<close>

text \<open>An admission lets one HTTP request of a claimed delivery start.\<close>

record admission =
  ad_key :: dkey
  ad_endpoint :: string
  ad_token :: nat

definition admission_of :: "WebhookDelivery \<Rightarrow> admission" where
  "admission_of delivery = \<lparr> ad_key = (we_TenantID delivery, we_DeliveryID delivery), ad_endpoint = we_EndpointID delivery,
     ad_token = we_ClaimToken delivery \<rparr>"

text \<open>The rest of the gateway does not write the delivery tables and publishes no outbox row.\<close>

definition same_deliveries :: "'z delivery_db_scheme \<Rightarrow> 'z delivery_db_scheme \<Rightarrow> bool" where
  "same_deliveries db db' = (db_endpoints db' = db_endpoints db \<and> db_deliveries db' = db_deliveries db
     \<and> db_webhook_attempts db' = db_webhook_attempts db \<and> db_webhook_dlq db' = db_webhook_dlq db)"

definition publishes_none :: "'z delivery_db_scheme \<Rightarrow> 'z delivery_db_scheme \<Rightarrow> bool" where
  "publishes_none db db' = (\<forall>r' \<in> set (db_outbox db'). ob_destination r' = ''webhook'' \<longrightarrow> ob_published r' \<noteq> None \<longrightarrow>
     (\<exists>r \<in> set (db_outbox db). ob_tenant r = ob_tenant r' \<and> ob_event r = ob_event r' \<and> ob_destination r = ''webhook'' \<and> ob_published r \<noteq> None))"

inductive delivery_step ::
  "(string \<Rightarrow> 'k::linorder) \<Rightarrow> 'z delivery_db_scheme \<Rightarrow> admission option \<Rightarrow> 'z delivery_db_scheme \<Rightarrow> bool" for collate where
  w_create: "CreateEndpoint f rcd maxEndpoints db = (e, db') \<Longrightarrow> delivery_step collate db None db'"
| w_rotate: "RotateEndpoint f rotation db = (e, db') \<Longrightarrow> delivery_step collate db None db'"
| w_purge: "PurgeExpiredSecrets f now t db = (e, db') \<Longrightarrow> delivery_step collate db None db'"
| w_delete: "DeleteEndpoint f now t ep db = (r, db') \<Longrightarrow> delivery_step collate db None db'"
| w_replay: "ReplayDLQ f now t q db = (e, db') \<Longrightarrow> delivery_step collate db None db'"
| w_claim: "Claim collate f now t ow limit db = (ds, db') \<Longrightarrow> delivery_step collate db None db'"
| w_admit: "AdmitClaim f now dl db = (b, db') \<Longrightarrow> delivery_step collate db (if b = Inr True then Some (admission_of dl) else None) db'"
| w_renew: "RenewClaim f now t d ow tok db = (b, db') \<Longrightarrow> delivery_step collate db None db'"
| w_complete: "CompleteAttempt f now wall i res db = (e, db') \<Longrightarrow> delivery_step collate db None db'"
| w_events: "ClaimEvents collate f now t ow limit db = (es, db') \<Longrightarrow> delivery_step collate db None db'"
| w_publish: "MarkPublished f now t ev db = (e, db') \<Longrightarrow> delivery_step collate db None db'"
| w_letter: "StoreCommandDLQ f now i cr db = (e, db') \<Longrightarrow> delivery_step collate db None db'"
| w_other: "same_deliveries db db' \<Longrightarrow> publishes_none db db' \<Longrightarrow> delivery_step collate db None db'"

section \<open>Moves of a row\<close>

text \<open>What happens to one delivery, given whether its endpoint is active.\<close>

inductive delivery_move :: "bool \<Rightarrow> delivery_row \<Rightarrow> delivery_row \<Rightarrow> bool" for active where
  m_keep: "delivery_move active d d"
| m_claim: "active \<Longrightarrow> open_delivery d \<Longrightarrow> wd_claimed_by d = None \<or> expired now (wd_claim_expires d)
    \<Longrightarrow> delivery_move active d (claim_row now ow gen d)"
| m_admit: "active \<Longrightarrow> wd_state d = DeliveryDelivering \<Longrightarrow> wd_http_started d = None
    \<Longrightarrow> delivery_move active d (d \<lparr> wd_http_started := Some now \<rparr>)"
| m_renew: "wd_state d = DeliveryDelivering \<Longrightarrow> wd_http_started d \<noteq> None
    \<Longrightarrow> delivery_move active d (d \<lparr> wd_claim_expires := Some at \<rparr>)"
| m_settle: "wd_state d = DeliveryDelivering \<Longrightarrow> completable r d \<Longrightarrow> delivery_move active d (settle_delivery now nextAt r active d)"
| m_revoke: "open_delivery d \<Longrightarrow> wd_http_started d = None \<or> expired now (wd_claim_expires d)
    \<Longrightarrow> delivery_move active d (revoke_delivery now d)"
| m_replay: "active \<Longrightarrow> delivery_move active d (replay_delivery now d)"

definition rows_move :: "'z delivery_db_scheme \<Rightarrow> 'z delivery_db_scheme \<Rightarrow> bool" where
  "rows_move db db' = (\<forall>k d. delivery_of db k = Some d \<longrightarrow>
     (\<exists>d'. delivery_of db' k = Some d' \<and> (delivery_move (endpoint_active db (fst k) (wd_endpoint d)))\<^sup>*\<^sup>* d d'))"

definition endpoints_kept :: "'z delivery_db_scheme \<Rightarrow> 'z delivery_db_scheme \<Rightarrow> bool" where
  "endpoints_kept db db' = (\<forall>k e. endpoint_of db k = Some e \<longrightarrow> (\<exists>e'. endpoint_of db' k = Some e' \<and> (ep_active e' \<longrightarrow> ep_active e)
     \<and> ep_destination e' = ep_destination e))"

lemma rows_move_same: "db_deliveries db' = db_deliveries db \<Longrightarrow> rows_move db db'"
  by (simp add: rows_move_def delivery_of_def)

lemma endpoints_kept_same: "db_endpoints db' = db_endpoints db \<Longrightarrow> endpoints_kept db db'"
  by (simp add: endpoints_kept_def endpoint_of_def)

lemma endpoints_kept_trans: "endpoints_kept a b \<Longrightarrow> endpoints_kept b c \<Longrightarrow> endpoints_kept a c"
  unfolding endpoints_kept_def by metis

lemma delivery_of_update [simp]:
  "delivery_of (db \<lparr> db_deliveries := update_where p g (db_deliveries db) \<rparr>) k = map_option (\<lambda>r. if p k r then g r else r) (delivery_of db k)"
  by (simp add: delivery_of_def)

lemma endpoints_kept_update:
  "(\<And>e. (ep_active (g e) \<longrightarrow> ep_active e) \<and> ep_destination (g e) = ep_destination e)
   \<Longrightarrow> db_endpoints db' = update_where p g (db_endpoints db) \<Longrightarrow> endpoints_kept db db'"
  by (auto simp: endpoints_kept_def endpoint_of_def)

lemma rows_move_update:
  assumes "db_deliveries db' = update_where p g (db_deliveries db)"
    "\<And>k d. delivery_of db k = Some d \<Longrightarrow> p k d \<Longrightarrow> delivery_move (endpoint_active db (fst k) (wd_endpoint d)) d (g d)"
  shows "rows_move db db'"
  using assms by (auto simp: rows_move_def delivery_of_def)

lemma insert_dead_letter_frame:
  "insert_dead_letter now i m dk d db = Inr db' \<Longrightarrow> \<exists>rows. db' = db \<lparr> db_webhook_dlq := db_webhook_dlq db @ rows \<rparr>"
  by (auto simp: insert_dead_letter_def split: if_splits intro: exI [where x = "[]"])

lemma insert_dead_letters_frame:
  "insert_dead_letters now rows db = Inr db' \<Longrightarrow> \<exists>rows. db' = db \<lparr> db_webhook_dlq := db_webhook_dlq db @ rows \<rparr>"
proof (induction rows arbitrary: db)
  case Nil
  then show ?case by (auto intro: exI [where x = "[]"])
next
  case (Cons row rows)
  obtain db1 where i: "insert_dead_letter now (snd (fst row) @ '':revoked'') ''endpoint revoked'' (fst row) (snd row) db = Inr db1"
    "insert_dead_letters now rows db1 = Inr db'" using Cons.prems by (cases row) (auto simp: bind_res_Inr)
  show ?case using insert_dead_letter_frame [OF i(1)] Cons.IH [OF i(2)] by auto
qed

section \<open>What the operations do\<close>

text \<open>The deliveries a pass inserts, and the events it closes.\<close>

definition materialized_of ::
  "(string \<Rightarrow> 'k::linorder) \<Rightarrow> instant \<Rightarrow> tenant_id \<Rightarrow> nat \<Rightarrow> 'z delivery_db_scheme \<Rightarrow> (dkey \<times> delivery_row) list" where
  "materialized_of collate now t limit db =
     map (materialized_row now t db) (candidate_pairs collate t limit (locked_outbox collate now t ''webhook'' limit db) db)"

definition completed_of :: "(string \<Rightarrow> 'k::linorder) \<Rightarrow> instant \<Rightarrow> tenant_id \<Rightarrow> nat \<Rightarrow> 'z delivery_db_scheme \<Rightarrow> string list" where
  "completed_of collate now t limit db =
     filter (covered t (materialized_of collate now t limit db) db) (map ob_event (locked_outbox collate now t ''webhook'' limit db))"

lemma claim_pass_shape:
  assumes "claim_pass collate now t ow limit db = Inr (ds, db')"
  shows "db' = purge_expired now t (db \<lparr>
       db_outbox := close_outbox now t (completed_of collate now t limit db) (db_outbox db),
       db_deliveries := map (\<lambda>row. if fst row \<in> set (map fst (claim_candidates collate now t limit db)) then claimed_row now ow db row else row)
         (db_deliveries db) @ materialized_of collate now t limit db,
       db_webhook_attempts := db_webhook_attempts db
         @ map (claimed_attempt now) (map (claimed_row now ow db) (claim_candidates collate now t limit db)) \<rparr>)"
    "list_all (\<lambda>row. delivery_of db (fst row) = None) (materialized_of collate now t limit db)"
    "distinct (map fst (materialized_of collate now t limit db))"
    "ds = concat (map (claimed_delivery db) (map (claimed_row now ow db) (claim_candidates collate now t limit db)))"
proof -
  show "distinct (map fst (materialized_of collate now t limit db))"
    using assms unfolding claim_pass_def Let_def materialized_of_def by (rule contrapos_pp) (simp del: map_map)
  show "list_all (\<lambda>row. delivery_of db (fst row) = None) (materialized_of collate now t limit db)"
    using assms unfolding claim_pass_def Let_def materialized_of_def by (rule contrapos_pp) (simp add: list_all_iff list_ex_iff del: map_map)
qed (use assms in \<open>simp_all only: claim_pass_def Let_def completed_of_def materialized_of_def sum.inject prod.inject sum.distinct split: if_splits\<close>)

lemma claim_pass_rows:
  assumes "claim_pass collate now t ow limit db = Inr (ds, db')"
  shows "db_endpoints db' = update_where (\<lambda>k e. fst k = t \<and> (case ep_previous e of None \<Rightarrow> False | Some (_, _, until) \<Rightarrow> until \<le> now))
       (\<lambda>e. e \<lparr> ep_previous := None \<rparr>) (db_endpoints db)"
    "db_webhook_dlq db' = db_webhook_dlq db" "db_events db' = db_events db"
    "\<exists>rows. db_deliveries db' = map (\<lambda>row. if fst row \<in> set (map fst (claim_candidates collate now t limit db))
       then claimed_row now ow db row else row) (db_deliveries db) @ rows"
  unfolding claim_pass_shape(1) [OF assms] purge_expired_def by simp_all

lemma claim_pass_kept: "claim_pass collate now t ow limit db = Inr (ds, db') \<Longrightarrow> endpoints_kept db db'"
  by (rule endpoints_kept_update [OF _ claim_pass_rows(1)]) auto

definition delivery_wf :: "'z delivery_db_scheme \<Rightarrow> bool" where
  "delivery_wf db = distinct (map fst (db_deliveries db))"

lemma claimed_row_key [simp]: "fst (claimed_row now ow db row) = fst row"
  by (simp add: claimed_row_def)

lemma map_of_map_rows:
  assumes "\<And>row. fst (g row) = fst row"
  shows "map_of (map g rows) k = map_option (\<lambda>r. snd (g (k, r))) (map_of rows k)"
proof (induction rows)
  case (Cons row rows)
  then show ?case by (cases row) (simp add: assms)
qed simp

lemma candidate_claimable:
  assumes "delivery_wf db" "delivery_of db k = Some d" "k \<in> set (map fst (claim_candidates collate now t limit db))"
  shows "claimable now t db (k, d)"
proof -
  have "\<exists>d'. (k, d') \<in> set (db_deliveries db) \<and> claimable now t db (k, d')"
    using assms(3) by (force simp: claim_candidates_def dest: in_set_takeD)
  then show ?thesis using assms(1,2) unfolding delivery_wf_def delivery_of_def by (metis map_of_is_SomeI option.inject)
qed

lemma claim_pass_wf:
  assumes "claim_pass collate now t ow limit db = Inr (ds, db')" "delivery_wf db"
  shows "delivery_wf db'"
proof -
  let ?new = "materialized_of collate now t limit db"
  note n = claim_pass_shape(2,3) [OF assms(1)]
  have "map fst (db_deliveries db') = map fst (db_deliveries db) @ map fst ?new"
    unfolding claim_pass_shape(1) [OF assms(1)] by (simp add: purge_expired_def comp_def if_distrib)
  moreover have "set (map fst (db_deliveries db)) \<inter> set (map fst ?new) = {}"
    using n(1) by (force simp: list_all_iff delivery_of_def map_of_eq_None_iff)
  ultimately show ?thesis using assms(2) n(2) by (simp add: delivery_wf_def del: map_map)
qed

lemma claim_pass_delivery:
  assumes "claim_pass collate now t ow limit db = Inr (ds, db')" "delivery_wf db" "delivery_of db k = Some d"
  shows "delivery_of db' k = Some (if k \<in> set (map fst (claim_candidates collate now t limit db)) then snd (claimed_row now ow db (k, d)) else d)"
proof -
  obtain rows where "db_deliveries db' = map (\<lambda>row. if fst row \<in> set (map fst (claim_candidates collate now t limit db))
       then claimed_row now ow db row else row) (db_deliveries db) @ rows" using claim_pass_rows(4) [OF assms(1)] by blast
  then show ?thesis using assms(3) by (simp add: delivery_of_def map_add_def map_of_map_rows)
qed

lemma claim_pass_move:
  assumes "claim_pass collate now t ow limit db = Inr (ds, db')" "delivery_wf db" "delivery_of db k = Some d"
  shows "\<exists>d'. delivery_of db' k = Some d' \<and> delivery_move (endpoint_active db (fst k) (wd_endpoint d)) d d'"
proof (cases "k \<in> set (map fst (claim_candidates collate now t limit db))")
  case True
  then have "claimable now t db (k, d)" using candidate_claimable [OF assms(2,3)] by blast
  then have "delivery_move (endpoint_active db (fst k) (wd_endpoint d)) d (snd (claimed_row now ow db (k, d)))"
    by (auto simp: claimable_def claimed_row_def intro: m_claim)
  then show ?thesis using claim_pass_delivery [OF assms] True by (simp del: set_map)
next
  case False
  then show ?thesis using claim_pass_delivery [OF assms] m_keep by (simp del: set_map)
qed

lemma claim_pass_active:
  assumes "claim_pass collate now t ow limit db = Inr (ds, db')"
  shows "endpoint_active db' = endpoint_active db"
  by (auto simp: fun_eq_iff endpoint_active_def endpoint_of_def claim_pass_rows(1) [OF assms] split: option.splits)

lemma move_const:
  "delivery_move a d d' \<Longrightarrow> wd_endpoint d' = wd_endpoint d \<and> wd_event d' = wd_event d \<and> wd_body d' = wd_body d \<and> wd_token d \<le> wd_token d'"
  by (erule delivery_move.cases) (auto simp: claim_row_def settle_delivery_def revoke_delivery_def replay_delivery_def Let_def)

lemma moves_const:
  "(delivery_move a)\<^sup>*\<^sup>* d d' \<Longrightarrow> wd_endpoint d' = wd_endpoint d \<and> wd_event d' = wd_event d \<and> wd_body d' = wd_body d \<and> wd_token d \<le> wd_token d'"
  by (induction rule: rtranclp_induct) (use move_const in \<open>fastforce\<close>)+

lemma Claim_passes:
  assumes "Claim collate f now t ow limit db = (ds, db')"
  obtains "db' = db" | ds1 where "claim_pass collate now t ow (nat limit) db = Inr (ds1, db')"
  | db1 ds2 where "claim_pass collate now t ow (nat limit) db = Inr ([], db1)" "claim_pass collate now t ow (nat limit) db1 = Inr (ds2, db')"
  using assms by (auto simp: Claim_def inTenant_def split: if_splits fault.splits sum.splits)

lemma Claim_kept:
  assumes "Claim collate f now t ow limit db = (ds, db')" "delivery_wf db"
  shows "endpoints_kept db db' \<and> delivery_wf db' \<and> rows_move db db' \<and> db_webhook_dlq db' = db_webhook_dlq db"
  using assms(1)
proof (cases rule: Claim_passes)
  case 1
  then show ?thesis using assms(2) by (simp add: endpoints_kept_same rows_move_same)
next
  case (2 ds1)
  then show ?thesis using claim_pass_kept claim_pass_wf [OF _ assms(2)] claim_pass_rows(2) claim_pass_move [OF _ assms(2)]
    unfolding rows_move_def by (metis r_into_rtranclp)
next
  case (3 db1 ds2)
  have wf: "delivery_wf db1" using claim_pass_wf [OF 3(1) assms(2)] .
  have "rows_move db db'" unfolding rows_move_def
  proof (intro allI impI)
    fix k d assume d: "delivery_of db k = Some d"
    obtain d1 where d1: "delivery_of db1 k = Some d1" "delivery_move (endpoint_active db (fst k) (wd_endpoint d)) d d1"
      using claim_pass_move [OF 3(1) assms(2) d] by blast
    obtain d2 where "delivery_of db' k = Some d2" "delivery_move (endpoint_active db1 (fst k) (wd_endpoint d1)) d1 d2"
      using claim_pass_move [OF 3(2) wf d1(1)] by blast
    then show "\<exists>d'. delivery_of db' k = Some d' \<and> (delivery_move (endpoint_active db (fst k) (wd_endpoint d)))\<^sup>*\<^sup>* d d'"
      using d1(2) move_const [OF d1(2)] claim_pass_active [OF 3(1)] by (auto intro: rtranclp.rtrancl_into_rtrancl)
  qed
  then show ?thesis using endpoints_kept_trans [OF claim_pass_kept [OF 3(1)] claim_pass_kept [OF 3(2)]] claim_pass_wf [OF 3(2) wf]
      claim_pass_rows(2) [OF 3(1)] claim_pass_rows(2) [OF 3(2)] by simp
qed

text \<open>Dead letters are kept, a delivery has at most one, and a dead delivery has one.\<close>

definition has_letter :: "'z delivery_db_scheme \<Rightarrow> dkey \<Rightarrow> bool" where
  "has_letter db dk = list_ex (\<lambda>(k, q). fst k = fst dk \<and> wq_delivery q = snd dk) (db_webhook_dlq db)"

definition letters_kept :: "'z delivery_db_scheme \<Rightarrow> 'z delivery_db_scheme \<Rightarrow> bool" where
  "letters_kept db db' = ((\<forall>dk. has_letter db dk \<longrightarrow> has_letter db' dk)
     \<and> (\<forall>k q'. (k, q') \<in> set (db_webhook_dlq db') \<longrightarrow> \<not> has_letter db (fst k, wq_delivery q')
          \<or> (\<exists>q. (k, q) \<in> set (db_webhook_dlq db) \<and> wq_delivery q' = wq_delivery q \<and> (wq_replayed q \<noteq> None \<longrightarrow> wq_replayed q' \<noteq> None))))"

definition letter_ids :: "'z delivery_db_scheme \<Rightarrow> (tenant_id \<times> string) list" where
  "letter_ids db = map (\<lambda>(k, q). (fst k, wq_delivery q)) (db_webhook_dlq db)"

definition dead_lettered :: "'z delivery_db_scheme \<Rightarrow> bool" where
  "dead_lettered db = (\<forall>k d. delivery_of db k = Some d \<longrightarrow> wd_state d = DeliveryDead \<longrightarrow> has_letter db k)"

definition no_new_dead :: "'z delivery_db_scheme \<Rightarrow> 'z delivery_db_scheme \<Rightarrow> bool" where
  "no_new_dead db db' = (\<forall>k d'. delivery_of db' k = Some d' \<longrightarrow> wd_state d' = DeliveryDead \<longrightarrow>
     (\<exists>d. delivery_of db k = Some d \<and> wd_state d = DeliveryDead))"

definition fresh_rows :: "'z delivery_db_scheme \<Rightarrow> 'z delivery_db_scheme \<Rightarrow> bool" where
  "fresh_rows db db' = (\<forall>k d'. delivery_of db' k = Some d' \<longrightarrow> delivery_of db k = None \<longrightarrow>
     wd_state d' \<noteq> DeliveryDead \<and> (wd_state d' = DeliveryDelivering \<longrightarrow> wd_claimed_by d' \<noteq> None \<and> wd_claim_expires d' \<noteq> None
       \<and> endpoint_active db (fst k) (wd_endpoint d')))"

lemma has_letter_ids: "has_letter db dk \<longleftrightarrow> dk \<in> set (letter_ids db)"
  by (cases dk) (force simp: has_letter_def letter_ids_def list_ex_iff)

lemma has_letter_same: "db_webhook_dlq db' = db_webhook_dlq db \<Longrightarrow> has_letter db' = has_letter db"
  by (simp add: has_letter_def fun_eq_iff)

lemma letters_kept_same:
  assumes "db_webhook_dlq db' = db_webhook_dlq db"
  shows "letters_kept db db'"
  unfolding letters_kept_def has_letter_same [OF assms] assms
proof (intro conjI allI impI disjI2)
  fix k q' assume "(k, q') \<in> set (db_webhook_dlq db)"
  then show "\<exists>q. (k, q) \<in> set (db_webhook_dlq db) \<and> wq_delivery q' = wq_delivery q \<and> (wq_replayed q \<noteq> None \<longrightarrow> wq_replayed q' \<noteq> None)"
    by (intro exI conjI) auto
qed

lemma letters_kept_has: "letters_kept a b \<Longrightarrow> has_letter a dk \<Longrightarrow> has_letter b dk"
  unfolding letters_kept_def by (elim conjE allE [where x = dk]) (rule mp)

lemma letters_kept_back:
  assumes "letters_kept a b" "(k, q') \<in> set (db_webhook_dlq b)" "has_letter a (fst k, wq_delivery q')"
  shows "\<exists>q. (k, q) \<in> set (db_webhook_dlq a) \<and> wq_delivery q' = wq_delivery q \<and> (wq_replayed q \<noteq> None \<longrightarrow> wq_replayed q' \<noteq> None)"
  using conjunct2 [OF assms(1) [unfolded letters_kept_def], THEN spec, THEN spec, THEN mp, OF assms(2)] assms(3) by argo

lemma letters_kept_trans:
  assumes "letters_kept a b" "letters_kept b c"
  shows "letters_kept a c"
  unfolding letters_kept_def
proof (intro conjI allI impI)
  fix dk assume "has_letter a dk"
  then show "has_letter c dk" using letters_kept_has assms by blast
next
  fix k q' assume c: "(k, q') \<in> set (db_webhook_dlq c)"
  show "\<not> has_letter a (fst k, wq_delivery q') \<or> (\<exists>q. (k, q) \<in> set (db_webhook_dlq a) \<and> wq_delivery q' = wq_delivery q
      \<and> (wq_replayed q \<noteq> None \<longrightarrow> wq_replayed q' \<noteq> None))"
  proof (cases "has_letter a (fst k, wq_delivery q')")
    case True
    obtain q where q: "(k, q) \<in> set (db_webhook_dlq b)" "wq_delivery q' = wq_delivery q" "wq_replayed q \<noteq> None \<longrightarrow> wq_replayed q' \<noteq> None"
      using letters_kept_back [OF assms(2) c letters_kept_has [OF assms(1) True]] by blast
    obtain p where "(k, p) \<in> set (db_webhook_dlq a)" "wq_delivery q = wq_delivery p" "wq_replayed p \<noteq> None \<longrightarrow> wq_replayed q \<noteq> None"
      using letters_kept_back [OF assms(1) q(1)] True q(2) by auto
    then show ?thesis using q(2,3) by (intro disjI2 exI [of _ p]) auto
  qed blast
qed

lemma insert_dead_letter_kept:
  assumes "insert_dead_letter now i m dk d db = Inr db'"
  shows "letters_kept db db' \<and> has_letter db' dk \<and> (distinct (letter_ids db) \<longrightarrow> distinct (letter_ids db'))"
proof (cases "has_letter db dk")
  case True
  then have "db' = db" using assms by (simp add: insert_dead_letter_def has_letter_def)
  then show ?thesis using True letters_kept_same [of db db] by simp
next
  case False
  then obtain q where q: "db_webhook_dlq db' = db_webhook_dlq db @ [((fst dk, i), q)]" "wq_delivery q = snd dk"
    using assms by (auto simp: insert_dead_letter_def has_letter_def split: if_splits)
  have ids: "letter_ids db' = letter_ids db @ [dk]" using q by (simp add: letter_ids_def)
  have "letters_kept db db'" unfolding letters_kept_def
  proof (intro conjI allI impI)
    fix k q' assume "(k, q') \<in> set (db_webhook_dlq db')"
    then consider "k = (fst dk, i)" "q' = q" | "(k, q') \<in> set (db_webhook_dlq db)" using q by auto
    then show "\<not> has_letter db (fst k, wq_delivery q') \<or> (\<exists>q. (k, q) \<in> set (db_webhook_dlq db) \<and> wq_delivery q' = wq_delivery q
        \<and> (wq_replayed q \<noteq> None \<longrightarrow> wq_replayed q' \<noteq> None))" using False q(2) by cases auto
  qed (simp add: has_letter_ids ids)
  then show ?thesis using False ids by (auto simp: has_letter_ids)
qed

lemma insert_dead_letters_kept:
  "insert_dead_letters now rows db = Inr db' \<Longrightarrow>
   letters_kept db db' \<and> (\<forall>row \<in> set rows. has_letter db' (fst row)) \<and> (distinct (letter_ids db) \<longrightarrow> distinct (letter_ids db'))"
proof (induction rows arbitrary: db)
  case Nil
  then show ?case using letters_kept_same [of db db] by simp
next
  case (Cons row rows)
  obtain db1 where i: "insert_dead_letter now (snd (fst row) @ '':revoked'') ''endpoint revoked'' (fst row) (snd row) db = Inr db1"
    "insert_dead_letters now rows db1 = Inr db'" using Cons.prems by (cases row) (auto simp: bind_res_Inr)
  note 1 = insert_dead_letter_kept [OF i(1)] and 2 = Cons.IH [OF i(2)]
  have "has_letter db' (fst row)" using 1 2 letters_kept_has by blast
  then show ?case using 1 2 letters_kept_trans by auto
qed

section \<open>The invariant\<close>

definition claims_set :: "'z delivery_db_scheme \<Rightarrow> bool" where
  "claims_set db = (\<forall>k d. delivery_of db k = Some d \<longrightarrow> wd_state d = DeliveryDelivering \<longrightarrow> wd_claimed_by d \<noteq> None \<and> wd_claim_expires d \<noteq> None)"

definition delivery_inv :: "'z delivery_db_scheme \<Rightarrow> bool" where
  "delivery_inv db = (delivery_wf db \<and> distinct (letter_ids db) \<and> dead_lettered db \<and> claims_set db)"

lemma empty_deliveries_inv: "db_deliveries db = [] \<Longrightarrow> db_webhook_dlq db = [] \<Longrightarrow> delivery_inv db"
  by (simp add: delivery_inv_def delivery_wf_def letter_ids_def dead_lettered_def claims_set_def delivery_of_def)

definition delivery_kept :: "'z delivery_db_scheme \<Rightarrow> 'z delivery_db_scheme \<Rightarrow> bool" where
  "delivery_kept db db' = (endpoints_kept db db' \<and> rows_move db db' \<and> fresh_rows db db' \<and> letters_kept db db')"

lemma moves_claims:
  assumes "(delivery_move a)\<^sup>*\<^sup>* d d'" "wd_state d = DeliveryDelivering \<longrightarrow> wd_claimed_by d \<noteq> None \<and> wd_claim_expires d \<noteq> None"
  shows "wd_state d' = DeliveryDelivering \<longrightarrow> wd_claimed_by d' \<noteq> None \<and> wd_claim_expires d' \<noteq> None"
  using assms
proof (induction rule: rtranclp_induct)
  case (step y z)
  from step(2) step(3) [OF step(4)] show ?case
    by (cases rule: delivery_move.cases) (auto simp: claim_row_def settle_delivery_def settled_state_def revoke_delivery_def replay_delivery_def Let_def)
qed

lemma kept_claims:
  assumes "rows_move db db'" "fresh_rows db db'" "claims_set db"
  shows "claims_set db'"
  unfolding claims_set_def
proof (intro allI impI)
  fix k d' assume d': "delivery_of db' k = Some d'" "wd_state d' = DeliveryDelivering"
  show "wd_claimed_by d' \<noteq> None \<and> wd_claim_expires d' \<noteq> None"
  proof (cases "delivery_of db k")
    case None
    then show ?thesis using assms(2) d' unfolding fresh_rows_def by blast
  next
    case (Some d)
    then have "(delivery_move (endpoint_active db (fst k) (wd_endpoint d)))\<^sup>*\<^sup>* d d'" using assms(1) d'(1) unfolding rows_move_def by fastforce
    then show ?thesis using moves_claims assms(3) Some d'(2) unfolding claims_set_def by blast
  qed
qed

lemma keptI:
  assumes "delivery_inv db" "endpoints_kept db db'" "rows_move db db'" "fresh_rows db db'" "letters_kept db db'" "delivery_wf db'"
    "distinct (letter_ids db')" "dead_lettered db'"
  shows "delivery_kept db db' \<and> delivery_inv db'"
  using assms kept_claims by (auto simp: delivery_kept_def delivery_inv_def)

lemma kept_same:
  assumes "delivery_inv db" "endpoints_kept db db'" "db_deliveries db' = db_deliveries db" "db_webhook_dlq db' = db_webhook_dlq db"
  shows "delivery_kept db db' \<and> delivery_inv db'"
proof (rule keptI [OF assms(1,2)])
  show "fresh_rows db db'" using assms(3) by (simp add: fresh_rows_def delivery_of_def)
qed (use assms in \<open>simp_all add: rows_move_same letters_kept_same delivery_inv_def delivery_wf_def letter_ids_def dead_lettered_def
      delivery_of_def has_letter_same [OF assms(4)]\<close>)

lemma kept_refl [simp]: "delivery_kept db db"
  by (simp add: delivery_kept_def endpoints_kept_same rows_move_same letters_kept_same fresh_rows_def)

lemma inv_dead: "delivery_inv db \<Longrightarrow> delivery_of db k = Some d \<Longrightarrow> wd_state d = DeliveryDead \<Longrightarrow> has_letter db k"
  unfolding delivery_inv_def dead_lettered_def by blast

text \<open>An UPDATE of deliveries, with new dead letters for those that die.\<close>

lemma kept_update:
  assumes "delivery_inv db" "endpoints_kept db db'" "db_deliveries db' = update_where p g (db_deliveries db)"
    "\<And>k d. delivery_of db k = Some d \<Longrightarrow> p k d \<Longrightarrow> delivery_move (endpoint_active db (fst k) (wd_endpoint d)) d (g d)"
    "letters_kept db db'" "distinct (letter_ids db')"
    "\<And>k d. delivery_of db k = Some d \<Longrightarrow> p k d \<Longrightarrow> wd_state (g d) = DeliveryDead \<Longrightarrow> has_letter db' k"
  shows "delivery_kept db db' \<and> delivery_inv db'"
proof (rule keptI [OF assms(1,2) _ _ assms(5) _ assms(6)])
  show "rows_move db db'" using assms(3,4) by (rule rows_move_update)
  show "fresh_rows db db'" "delivery_wf db'" using assms(1) by (auto simp: fresh_rows_def delivery_of_def assms(3) delivery_inv_def delivery_wf_def)
  show "dead_lettered db'" unfolding dead_lettered_def
  proof (intro allI impI)
    fix k d' assume d': "delivery_of db' k = Some d'" "wd_state d' = DeliveryDead"
    then obtain d where d: "delivery_of db k = Some d" "d' = (if p k d then g d else d)" by (auto simp: delivery_of_def assms(3))
    show "has_letter db' k"
    proof (cases "p k d")
      case False
      then have "has_letter db k" using d d' inv_dead [OF assms(1)] by metis
      then show ?thesis using assms(5) letters_kept_has by blast
    qed (use assms(7) d d' in auto)
  qed
qed

lemma inTenant_cases:
  assumes "inTenant f t operation db = (r, db')"
  obtains "db' = db" "\<nexists>v. r = Inr v" | v where "operation db = Inr (v, db')" "r = Inr v \<or> (\<exists>e. r = Inl e)"
  using assms by (auto simp: inTenant_def split: if_splits fault.splits sum.splits)

lemma inTenantExec_cases:
  assumes "inTenantExec f t operation db = (r, db')"
  obtains "db' = db" "r \<noteq> None" | "operation db = Inr db'"
  using assms by (auto simp: inTenantExec_def inTenant_def split: if_splits fault.splits sum.splits)

lemma update_delivery_cases:
  assumes "update_delivery dk p g db = (b, db')"
  obtains "\<not> b" "db' = db"
  | d where "b" "delivery_of db dk = Some d" "p d" "db' = db \<lparr> db_deliveries := update_where (\<lambda>k _. k = dk) g (db_deliveries db) \<rparr>"
  using assms by (auto simp: update_delivery_def split: option.splits if_splits)

lemma kept_update_one:
  assumes "delivery_inv db" "update_delivery dk p g db = (b, db')"
    "\<And>d. delivery_of db dk = Some d \<Longrightarrow> p d \<Longrightarrow> delivery_move (endpoint_active db (fst dk) (wd_endpoint d)) d (g d) \<and> wd_state (g d) \<noteq> DeliveryDead"
  shows "delivery_kept db db' \<and> delivery_inv db'"
  using assms(2)
proof (cases rule: update_delivery_cases)
  case 1
  then show ?thesis using assms(1) by simp
next
  case (2 d)
  have "distinct (letter_ids db')" using assms(1) 2(4) by (simp add: delivery_inv_def letter_ids_def)
  moreover have "letters_kept db db'" "endpoints_kept db db'" using 2(4) by (simp_all add: letters_kept_same endpoints_kept_same)
  ultimately show ?thesis
    by (intro kept_update [OF assms(1), where p = "\<lambda>k _. k = dk" and g = g]) (use assms(3) 2 in auto)
qed

lemma Admit_shape:
  assumes "AdmitClaim f now dl db = (r, db')"
  obtains "db' = db" "r \<noteq> Inr True"
  | b where "update_delivery (we_TenantID dl, we_DeliveryID dl) (\<lambda>d. endpoint_admits dl db \<and> admissible now dl d)
      (\<lambda>d. d \<lparr> wd_http_started := Some now \<rparr>) db = (b, db')" "r = Inr True \<longrightarrow> b"
  using assms unfolding AdmitClaim_def by (auto split: if_splits elim!: inTenant_cases)

lemma Admit_kept:
  assumes "AdmitClaim f now dl db = (r, db')" "delivery_inv db"
  shows "delivery_kept db db' \<and> delivery_inv db'"
  using assms(1)
proof (cases rule: Admit_shape)
  case (2 b)
  have a: "endpoint_active db (we_TenantID dl) (we_EndpointID dl)" if "endpoint_admits dl db"
    using that by (auto simp: endpoint_admits_def endpoint_active_def split: option.splits)
  show ?thesis
    by (rule kept_update_one [OF assms(2) 2(1)]) (auto simp: admissible_def a intro!: m_admit)
qed (use assms(2) in simp)

lemma Renew_kept:
  assumes "RenewClaim f now t i ow tok db = (r, db')" "delivery_inv db"
  shows "delivery_kept db db' \<and> delivery_inv db'"
proof (cases "db' = db")
  case False
  then obtain b where "update_delivery (t, i)
      (\<lambda>d. wd_claimed_by d = Some ow \<and> wd_token d = tok \<and> wd_state d = DeliveryDelivering
         \<and> unexpired now (wd_claim_expires d) \<and> wd_http_started d \<noteq> None)
      (\<lambda>d. d \<lparr> wd_claim_expires := Some (now + claim_ttl) \<rparr>) db = (b, db')"
    using assms(1) unfolding RenewClaim_def by (auto split: if_splits elim!: inTenant_cases)
  then show ?thesis by (rule kept_update_one [OF assms(2)]) (auto intro!: m_renew)
qed (use assms(2) in simp)

lemma create_kept:
  assumes "CreateEndpoint f rcd n db = (r, db')" "delivery_inv db"
  shows "delivery_kept db db' \<and> delivery_inv db'"
proof -
  have "\<exists>rows. db' = db \<lparr> db_endpoints := db_endpoints db @ rows \<rparr>"
    using assms(1) unfolding CreateEndpoint_def Let_def
    by (auto split: if_splits elim!: inTenantExec_cases intro: exI [where x = "[]"])
  then show ?thesis using assms(2) by (elim exE) (rule kept_same, auto simp: endpoints_kept_def endpoint_of_def map_add_def split: option.splits)
qed

lemma kept_endpoints:
  assumes "delivery_inv db" "\<And>e. (ep_active (g e) \<longrightarrow> ep_active e) \<and> ep_destination (g e) = ep_destination e"
  shows "delivery_kept db (db \<lparr> db_endpoints := update_where p g (db_endpoints db) \<rparr>)
    \<and> delivery_inv (db \<lparr> db_endpoints := update_where p g (db_endpoints db) \<rparr>)"
  by (rule kept_same [OF assms(1) endpoints_kept_update [where g = g and p = p]]) (use assms(2) in auto)

lemma rotate_kept:
  assumes "RotateEndpoint f rot db = (r, db')" "delivery_inv db"
  shows "delivery_kept db db' \<and> delivery_inv db'"
proof (cases "db' = db")
  case False
  then obtain k until where "db' = db \<lparr> db_endpoints := update_where (\<lambda>k' _. k' = k) (rotate_row rot until) (db_endpoints db) \<rparr>"
    using assms(1) unfolding RotateEndpoint_def Let_def by (auto split: if_splits option.splits elim!: inTenantExec_cases)
  then show ?thesis using kept_endpoints [OF assms(2), of "rotate_row rot until"] by (simp add: rotate_row_def)
qed (use assms(2) in simp)

lemma purge_kept:
  assumes "PurgeExpiredSecrets f now t db = (r, db')" "delivery_inv db"
  shows "delivery_kept db db' \<and> delivery_inv db'"
proof (cases "db' = db")
  case False
  then have "db' = purge_expired now t db"
    using assms(1) unfolding PurgeExpiredSecrets_def by (auto split: if_splits elim!: inTenantExec_cases)
  then show ?thesis using kept_endpoints [OF assms(2), of "\<lambda>e. e \<lparr> ep_previous := None \<rparr>"] by (simp add: purge_expired_def)
qed (use assms(2) in simp)

lemma replayed_state [simp]: "wd_state (replay_delivery now d) = DeliveryPending"
  by (simp add: replay_delivery_def)

lemma replay_kept:
  assumes "ReplayDLQ f now t i db = (r, db')" "delivery_inv db"
  shows "delivery_kept db db' \<and> delivery_inv db'"
proof (cases "db' = db")
  case False
  obtain q d where q: "dlq_of db (t, i) = Some q" "wq_replayed q = None" "delivery_of db (t, wq_delivery q) = Some d"
    "endpoint_active db t (wd_endpoint d)" and db': "db' = db \<lparr>
                  db_deliveries := update_where (\<lambda>k _. k = (t, wq_delivery q)) (replay_delivery now) (db_deliveries db),
                  db_webhook_dlq := update_where (\<lambda>k _. k = (t, i)) (\<lambda>q. q \<lparr> wq_replayed := Some now \<rparr>) (db_webhook_dlq db) \<rparr>"
    using assms(1) False unfolding ReplayDLQ_def by (auto split: if_splits option.splits elim!: inTenantExec_cases)
  have ids: "letter_ids db' = letter_ids db" unfolding db' letter_ids_def by (auto simp: update_where_def)
  have "letters_kept db db'" unfolding letters_kept_def has_letter_ids ids
    by (auto simp: db' set_update_where split: if_splits)
  moreover have "endpoints_kept db db'" "distinct (letter_ids db')" using assms(2) ids by (simp_all add: db' endpoints_kept_same delivery_inv_def)
  ultimately show ?thesis
    by (intro kept_update [OF assms(2), where p = "\<lambda>k _. k = (t, wq_delivery q)" and g = "replay_delivery now"])
      (use q in \<open>auto intro: m_replay simp: db'\<close>)
qed (use assms(2) in simp)

lemma dlq_only_ids:
  "db_webhook_dlq db1 = db_webhook_dlq db \<Longrightarrow> letter_ids db1 = letter_ids db"
  by (simp add: letter_ids_def)

lemma delete_shape:
  assumes "delete_endpoint now ek db = Inr (b, db')"
  obtains "db_deliveries db' = update_where (revocable now ek) (revoke_delivery now) (db_deliveries db)"
    "db_endpoints db' = update_where (\<lambda>k _. k = ek) revoke_endpoint (db_endpoints db)"
    "letters_kept db db'" "distinct (letter_ids db) \<longrightarrow> distinct (letter_ids db')"
    "\<And>k d. delivery_of db k = Some d \<Longrightarrow> revocable now ek k d \<Longrightarrow> has_letter db' k"
    "b = list_ex (\<lambda>(k, d). on_wire now ek k d) (db_deliveries db)" "db_outbox db' = db_outbox db" "db_events db' = db_events db"
proof -
  let ?locked = "filter (\<lambda>(k, d). revocable now ek k d) (db_deliveries db)"
  define db1 where "db1 = db \<lparr> db_endpoints := update_where (\<lambda>k _. k = ek) revoke_endpoint (db_endpoints db),
        db_deliveries := update_where (revocable now ek) (revoke_delivery now) (db_deliveries db),
        db_webhook_attempts := update_where (finish_revoked now (fst ek) ?locked)
          (\<lambda>a. a \<lparr> wa_finished := Some now, wa_error := ''endpoint revoked'' \<rparr>) (db_webhook_attempts db) \<rparr>"
  have i: "insert_dead_letters now ?locked db1 = Inr db'" and b: "b = list_ex (\<lambda>(k, d). on_wire now ek k d) (db_deliveries db)"
    using assms unfolding delete_endpoint_def Let_def db1_def [symmetric] by (auto simp: bind_res_Inr)
  obtain rows where db': "db' = db1 \<lparr> db_webhook_dlq := db_webhook_dlq db1 @ rows \<rparr>" using insert_dead_letters_frame [OF i] by blast
  note k = insert_dead_letters_kept [OF i]
  have dlq: "db_webhook_dlq db1 = db_webhook_dlq db" by (simp add: db1_def)
  have "letters_kept db db'" using k letters_kept_trans [OF letters_kept_same [OF dlq]] by blast
  moreover have "distinct (letter_ids db) \<longrightarrow> distinct (letter_ids db')" using k dlq_only_ids [OF dlq] by simp
  moreover have "has_letter db' k" if "delivery_of db k = Some d" "revocable now ek k d" for k d
    using conjunct1 [OF conjunct2 [OF k], THEN bspec, of "(k, d)"] that by (auto simp: delivery_of_def dest: map_of_SomeD)
  ultimately show ?thesis using that [OF _ _ _ _ _ b] by (simp add: db' db1_def)
qed

lemma DeleteEndpoint_shape:
  assumes "DeleteEndpoint f now t ep db = (r, db')"
  obtains "db' = db" "\<nexists>b. r = Inr b" | b where "delete_endpoint now (t, ep) db = Inr (b, db')" "r = Inr b \<or> (\<exists>e. r = Inl e)" "endpoint_of db (t, ep) \<noteq> None"
  using assms unfolding DeleteEndpoint_def by (auto split: if_splits elim!: inTenant_cases)

lemma Delete_kept:
  assumes "DeleteEndpoint f now t ep db = (r, db')" "delivery_inv db"
  shows "delivery_kept db db' \<and> delivery_inv db'"
  using assms(1)
proof (cases rule: DeleteEndpoint_shape)
  case (2 b)
  from 2(1) show ?thesis
  proof (rule delete_shape)
    assume d: "db_deliveries db' = update_where (revocable now (t, ep)) (revoke_delivery now) (db_deliveries db)"
      "db_endpoints db' = update_where (\<lambda>k _. k = (t, ep)) revoke_endpoint (db_endpoints db)"
      "letters_kept db db'" "distinct (letter_ids db) \<longrightarrow> distinct (letter_ids db')"
      "\<And>k d. delivery_of db k = Some d \<Longrightarrow> revocable now (t, ep) k d \<Longrightarrow> has_letter db' k"
    have "endpoints_kept db db'" by (rule endpoints_kept_update [OF _ d(2)]) (simp add: revoke_endpoint_def)
    then show ?thesis using d assms(2)
      by (intro kept_update [OF assms(2) _ d(1)]) (auto simp: delivery_inv_def revocable_def intro: m_revoke)
  qed
qed (use assms(2) in simp)

lemma complete_shape:
  assumes "complete_attempt now nextAt i r db = Inr (True, db')"
  obtains d e where "delivery_of db (ar_TenantID r, ar_DeliveryID r) = Some d" "endpoint_of db (ar_TenantID r, wd_endpoint d) = Some e"
    "completable r d"
    "db_deliveries db' = update_where (\<lambda>k _. k = (ar_TenantID r, ar_DeliveryID r)) (settle_delivery now nextAt r (ep_active e)) (db_deliveries db)"
    "db_endpoints db' = db_endpoints db" "letters_kept db db'" "distinct (letter_ids db) \<longrightarrow> distinct (letter_ids db')"
    "ar_Dead r \<or> \<not> ep_active e \<Longrightarrow> has_letter db' (ar_TenantID r, ar_DeliveryID r)"
    "\<not> (ar_Dead r \<or> \<not> ep_active e) \<Longrightarrow> db_webhook_dlq db' = db_webhook_dlq db" "db_outbox db' = db_outbox db" "db_events db' = db_events db"
proof -
  let ?dk = "(ar_TenantID r, ar_DeliveryID r)"
  obtain d e where d: "delivery_of db ?dk = Some d" "endpoint_of db (ar_TenantID r, wd_endpoint d) = Some e" "completable r d"
    using assms by (auto simp: complete_attempt_def Let_def split: option.splits if_splits)
  define db1 where "db1 = db \<lparr>
       db_webhook_attempts := update_where (attempt_of_delivery ?dk d) (settle_attempt now r (ep_active e)) (db_webhook_attempts db),
       db_deliveries := update_where (\<lambda>k _. k = ?dk) (settle_delivery now nextAt r (ep_active e)) (db_deliveries db) \<rparr>"
  have c: "(if ar_Dead r \<or> \<not> ep_active e
        then bind_res (insert_dead_letter now i (if ep_active e then ar_SafeError r else ''endpoint revoked'') ?dk d db1) (\<lambda>db2. Inr (True, db2))
        else Inr (True, db1)) = Inr (True, db')"
    using assms unfolding complete_attempt_def Let_def db1_def by (simp add: d split: if_splits)
  have dlq: "db_webhook_dlq db1 = db_webhook_dlq db" by (simp add: db1_def)
  show ?thesis
  proof (cases "ar_Dead r \<or> \<not> ep_active e")
    case True
    then have i: "insert_dead_letter now i (if ep_active e then ar_SafeError r else ''endpoint revoked'') ?dk d db1 = Inr db'"
      using c by (auto simp: bind_res_Inr)
    obtain rows where db': "db' = db1 \<lparr> db_webhook_dlq := db_webhook_dlq db1 @ rows \<rparr>" using insert_dead_letter_frame [OF i] by blast
    note k = insert_dead_letter_kept [OF i]
    show ?thesis
      using that [OF d] k letters_kept_trans [OF letters_kept_same [OF dlq]] dlq_only_ids [OF dlq] True by (simp add: db' db1_def)
  next
    case False
    then have "db' = db1" using c by simp
    then show ?thesis using that [OF d] False letters_kept_same [OF dlq] dlq_only_ids [OF dlq] by (simp add: db1_def)
  qed
qed

lemma Complete_shape:
  assumes "CompleteAttempt f now wall i r db = (e, db')"
  obtains "db' = db" "e \<noteq> None"
  | nextAt where "complete_attempt now nextAt i r db = Inr (True, db')" "nextAt = (case ar_NextAvailableAt r of None \<Rightarrow> wall | Some at \<Rightarrow> at)"
  using assms unfolding CompleteAttempt_def by (auto split: if_splits sum.splits elim!: inTenantExec_cases)

lemma Complete_kept:
  assumes "CompleteAttempt f now wall i r db = (e, db')" "delivery_inv db"
  shows "delivery_kept db db' \<and> delivery_inv db'"
  using assms(1)
proof (cases rule: Complete_shape)
  case (2 nextAt)
  from 2(1) show ?thesis
  proof (rule complete_shape)
    fix d e assume c: "delivery_of db (ar_TenantID r, ar_DeliveryID r) = Some d" "endpoint_of db (ar_TenantID r, wd_endpoint d) = Some e"
      "completable r d"
      "db_deliveries db' = update_where (\<lambda>k _. k = (ar_TenantID r, ar_DeliveryID r)) (settle_delivery now nextAt r (ep_active e)) (db_deliveries db)"
      "db_endpoints db' = db_endpoints db" "letters_kept db db'" "distinct (letter_ids db) \<longrightarrow> distinct (letter_ids db')"
      "ar_Dead r \<or> \<not> ep_active e \<Longrightarrow> has_letter db' (ar_TenantID r, ar_DeliveryID r)"
    have m: "delivery_move (endpoint_active db (ar_TenantID r) (wd_endpoint d)) d (settle_delivery now nextAt r (ep_active e) d)"
      using c(2,3) m_settle [of d r "ep_active e"] by (simp add: endpoint_active_def completable_def)
    have s: "wd_state (settle_delivery now nextAt r (ep_active e) d) = DeliveryDead \<Longrightarrow> ar_Dead r \<or> \<not> ep_active e"
      by (auto simp: settle_delivery_def settled_state_def Let_def split: if_splits)
    show ?thesis
    proof (rule kept_update [OF assms(2) _ c(4) _ c(6)])
      show "endpoints_kept db db'" using c(5) by (rule endpoints_kept_same)
      show "distinct (letter_ids db')" using c(7) assms(2) by (simp add: delivery_inv_def)
    qed (use c m s in auto)
  qed
qed (use assms(2) in simp)

lemma materialized_open: "row \<in> set (materialized_of collate now t limit db) \<Longrightarrow> wd_state (snd row) = DeliveryPending \<and> wd_token (snd row) = 0"
  by (auto simp: materialized_of_def materialized_row_def new_delivery_def)

lemma claim_pass_new:
  assumes "claim_pass collate now t ow limit db = Inr (ds, db')" "delivery_of db k = None" "delivery_of db' k = Some d"
  shows "wd_state d = DeliveryPending"
proof -
  have "map_of (materialized_of collate now t limit db) k = Some d"
    using assms(2,3) unfolding claim_pass_shape(1) [OF assms(1)] by (simp add: delivery_of_def purge_expired_def map_add_def map_of_map_rows)
  then show ?thesis using materialized_open by (metis map_of_SomeD snd_conv)
qed

lemma claim_pass_fresh:
  assumes "claim_pass collate now t ow limit db = Inr (ds, db')" "delivery_wf db" "fresh_rows db0 db" "no_new_dead db0 db"
    "endpoint_active db = endpoint_active db0"
  shows "fresh_rows db0 db' \<and> no_new_dead db0 db'"
proof -
  have c: "(\<exists>d. delivery_of db k = Some d \<and> (d' = d \<or> (\<exists>gen. d' = claim_row now ow gen d) \<and> endpoint_active db (fst k) (wd_endpoint d')))
      \<or> delivery_of db k = None \<and> wd_state d' = DeliveryPending"
    if "delivery_of db' k = Some d'" for k d'
  proof (cases "delivery_of db k")
    case None
    then show ?thesis using claim_pass_new [OF assms(1)] that by blast
  next
    case (Some d)
    show ?thesis
    proof (cases "k \<in> set (map fst (claim_candidates collate now t limit db))")
      case True
      then have "claimable now t db (k, d)" using candidate_claimable [OF assms(2) Some] by blast
      then show ?thesis using claim_pass_delivery [OF assms(1,2) Some] that Some True
        by (auto simp: claimed_row_def claim_row_def claimable_def simp del: set_map)
    next
      case False
      then show ?thesis using claim_pass_delivery [OF assms(1,2) Some] that Some by (auto simp del: set_map)
    qed
  qed
  have "fresh_rows db0 db'" unfolding fresh_rows_def
  proof (intro allI impI)
    fix k d' assume d': "delivery_of db' k = Some d'" and n: "delivery_of db0 k = None"
    show "wd_state d' \<noteq> DeliveryDead \<and> (wd_state d' = DeliveryDelivering \<longrightarrow> wd_claimed_by d' \<noteq> None \<and> wd_claim_expires d' \<noteq> None
        \<and> endpoint_active db0 (fst k) (wd_endpoint d'))"
      using c [OF d'] assms(3) [unfolded fresh_rows_def, rule_format, of k d'] n assms(5) by (auto simp: claim_row_def)
  qed
  moreover have "no_new_dead db0 db'" unfolding no_new_dead_def
  proof (intro allI impI)
    fix k d' assume d': "delivery_of db' k = Some d'" and n: "wd_state d' = DeliveryDead"
    have "delivery_of db k = Some d'" using c [OF d'] n by (auto simp: claim_row_def)
    then show "\<exists>d. delivery_of db0 k = Some d \<and> wd_state d = DeliveryDead" using assms(4) n unfolding no_new_dead_def by blast
  qed
  ultimately show ?thesis ..
qed

lemma Claim_fresh:
  assumes "Claim collate f now t ow limit db = (ds, db')" "delivery_wf db"
  shows "fresh_rows db db' \<and> no_new_dead db db'"
proof -
  have r: "fresh_rows db db" "no_new_dead db db" by (simp_all add: fresh_rows_def no_new_dead_def)
  from assms(1) show ?thesis
  proof (cases rule: Claim_passes)
    case (3 db1 ds2)
    note 1 = claim_pass_fresh [OF 3(1) assms(2) r refl]
    show ?thesis using claim_pass_fresh [OF 3(2) claim_pass_wf [OF 3(1) assms(2)] _ _ claim_pass_active [OF 3(1)]] 1 by blast
  next
    case (2 ds1)
    then show ?thesis using claim_pass_fresh [OF 2 assms(2) r refl] by blast
  qed (use r in simp)
qed

lemma Claim_inv:
  assumes "Claim collate f now t ow limit db = (ds, db')" "delivery_inv db"
  shows "delivery_kept db db' \<and> delivery_inv db'"
proof -
  have wf: "delivery_wf db" using assms(2) by (simp add: delivery_inv_def)
  note k = Claim_kept [OF assms(1) wf] and f = Claim_fresh [OF assms(1) wf]
  have dlq: "db_webhook_dlq db' = db_webhook_dlq db" using k by blast
  have "dead_lettered db'" unfolding dead_lettered_def has_letter_same [OF dlq]
    using f inv_dead [OF assms(2)] unfolding no_new_dead_def by blast
  then show ?thesis using k f letters_kept_same [OF dlq] dlq_only_ids [OF dlq] assms(2)
    by (intro keptI [OF assms(2)]) (auto simp: delivery_inv_def)
qed

lemma materialize_kafka_frame:
  "materialize_kafka now t rows db = Inr db' \<Longrightarrow> \<exists>rows. db' = db \<lparr> db_kafka_deliveries := rows \<rparr>"
proof (induction rows arbitrary: db)
  case Nil
  then show ?case by (intro exI [of _ "db_kafka_deliveries db"]) simp
next
  case (Cons r rows)
  then show ?case by (fastforce split: option.splits if_splits)
qed

lemma ClaimEvents_frame:
  assumes "ClaimEvents collate f now t ow limit db = (es, db')"
  shows "\<exists>rows ks. db' = db \<lparr> db_outbox := rows, db_kafka_deliveries := ks \<rparr>"
proof (cases "db' = db")
  case True
  then show ?thesis by (intro exI [of _ "db_outbox db"] exI [of _ "db_kafka_deliveries db"]) simp
next
  case False
  then obtain db1 where "materialize_kafka now t (locked_outbox collate now t ''kafka'' (nat limit) db) db = Inr db1"
    "db' = snd (claim_kafka collate now t ow (nat limit) db1)"
    using assms unfolding ClaimEvents_def by (auto split: if_splits sum.splits elim!: inTenant_cases)
  then show ?thesis using materialize_kafka_frame by (fastforce simp: claim_kafka_def Let_def)
qed

lemma MarkPublished_frame:
  assumes "MarkPublished f now t ev db = (e, db')"
  shows "\<exists>rows ks. db' = db \<lparr> db_outbox := rows, db_kafka_deliveries := ks \<rparr>"
proof (cases "db' = db")
  case True
  then show ?thesis by (intro exI [of _ "db_outbox db"] exI [of _ "db_kafka_deliveries db"]) simp
next
  case False
  then have "db' = mark_published now t ev db" using assms unfolding MarkPublished_def by (auto split: if_splits elim!: inTenantExec_cases)
  then show ?thesis using False by (auto simp: mark_published_def split: if_splits)
qed

lemma StoreCommandDLQ_frame:
  assumes "StoreCommandDLQ f now i r db = (e, db')"
  shows "\<exists>rows. db' = db \<lparr> db_command_dlq := rows \<rparr>"
proof (cases "db' = db")
  case True
  then show ?thesis by (intro exI [of _ "db_command_dlq db"]) simp
next
  case False
  then show ?thesis using assms unfolding StoreCommandDLQ_def Let_def by (auto split: if_splits elim!: inTenantExec_cases)
qed

lemma delivery_step_kept:
  assumes "delivery_step collate db l db'" "delivery_inv db"
  shows "delivery_kept db db' \<and> delivery_inv db'"
  using assms
proof (cases rule: delivery_step.cases)
  case (w_events f now t ow limit es)
  then show ?thesis using ClaimEvents_frame [OF w_events(2)] assms(2) by (elim exE) (rule kept_same, auto simp: endpoints_kept_same)
next
  case (w_publish f now t ev e)
  then show ?thesis using MarkPublished_frame [OF w_publish(2)] assms(2) by (elim exE) (rule kept_same, auto simp: endpoints_kept_same)
next
  case (w_letter f now i cr e)
  then show ?thesis using StoreCommandDLQ_frame [OF w_letter(2)] assms(2) by (elim exE) (rule kept_same, auto simp: endpoints_kept_same)
next
  case w_other
  then show ?thesis by (intro kept_same assms(2)) (auto simp: same_deliveries_def endpoints_kept_same)
qed (erule create_kept rotate_kept purge_kept Delete_kept replay_kept Claim_inv Admit_kept Renew_kept Complete_kept, rule assms(2))+

end
