(* ===== verification/Delivery_Guarantees.thy ===== *)
theory Delivery_Guarantees
  imports Delivery_Correct Dispatcher
begin

text \<open>
  What the delivery store guarantees over any run: a claim token admits one request, a revoked
  endpoint receives no request, and a published event is never lost on the way to an endpoint that
  stays active. The last section states three weaknesses of revocation and replay.
\<close>

lemma run_kept:
  assumes "labelled_run (delivery_step collate) db ls db'" "delivery_inv db"
  shows "delivery_inv db'"
  using assms by (induction rule: labelled_run.induct) (use delivery_step_kept in blast)+

text \<open>What every step keeps holds after a run.\<close>

lemma kept_run:
  assumes "labelled_run (delivery_step collate) db ls db'" "delivery_inv db" "P db"
    "\<And>s s'. delivery_kept s s' \<Longrightarrow> P s \<Longrightarrow> P s'"
  shows "P db'"
  using assms(1-3)
proof (induction rule: labelled_run.induct)
  case (run_step s ls s' lbl s'')
  have "delivery_kept s' s''" using delivery_step_kept [OF run_step(2) run_kept [OF run_step(1) run_step.prems(1)]] by blast
  then show ?case using run_step.IH [OF run_step.prems] by (rule assms(4))
qed simp

section \<open>Admissions\<close>

definition spent :: "'z delivery_db_scheme \<Rightarrow> admission \<Rightarrow> bool" where
  "spent db a = (\<exists>d. delivery_of db (ad_key a) = Some d
     \<and> (ad_token a < wd_token d \<or> ad_token a = wd_token d \<and> wd_http_started d \<noteq> None))"

lemma moves_spent:
  assumes "(delivery_move active)\<^sup>*\<^sup>* d d'" "n < wd_token d \<or> n = wd_token d \<and> wd_http_started d \<noteq> None"
  shows "n < wd_token d' \<or> n = wd_token d' \<and> wd_http_started d' \<noteq> None"
  using assms
proof (induction rule: rtranclp_induct)
  case (step y z)
  from step(2) step(3) [OF step(4)] show ?case
    by (cases rule: delivery_move.cases) (auto simp: claim_row_def settle_delivery_def revoke_delivery_def replay_delivery_def Let_def)
qed

lemma kept_spent: "rows_move db db' \<Longrightarrow> spent db a \<Longrightarrow> spent db' a"
  unfolding rows_move_def spent_def using moves_spent by metis

lemma admitted:
  assumes "AdmitClaim f now dl db = (Inr True, db')"
  obtains d where "delivery_of db (ad_key (admission_of dl)) = Some d" "wd_token d = ad_token (admission_of dl)" "wd_http_started d = None"
    "wd_endpoint d = ad_endpoint (admission_of dl)" "endpoint_active db (fst (ad_key (admission_of dl))) (ad_endpoint (admission_of dl))"
    "spent db' (admission_of dl)"
  using assms(1)
proof (cases rule: Admit_shape)
  case (2 b)
  have b: b using 2(2) by simp
  from 2(1) show ?thesis
  proof (cases rule: update_delivery_cases)
    case (2 d)
    then show ?thesis using that [of d]
      by (auto simp: admission_of_def admissible_def endpoint_admits_def endpoint_active_def spent_def split: option.splits)
  qed (use b in simp)
qed simp

lemma step_admission:
  assumes "delivery_step collate db (Some a) db'"
  obtains d where "delivery_of db (ad_key a) = Some d" "wd_token d = ad_token a" "wd_http_started d = None"
    "wd_endpoint d = ad_endpoint a" "endpoint_active db (fst (ad_key a)) (ad_endpoint a)" "spent db' a"
proof -
  obtain f now dl where "AdmitClaim f now dl db = (Inr True, db')" "a = admission_of dl"
    using assms by (cases rule: delivery_step.cases) (auto split: if_splits)
  then show ?thesis using admitted that by metis
qed

lemma admissions_spent:
  assumes "labelled_run (delivery_step collate) db ls db'" "delivery_inv db"
  shows "sorted_wrt (\<lambda>a b. ad_key a = ad_key b \<longrightarrow> ad_token a < ad_token b) ls \<and> (\<forall>a \<in> set ls. spent db' a)"
  using assms
proof (induction rule: labelled_run.induct)
  case (run_step s ls s' lbl s'')
  note IH = run_step.IH [OF run_step.prems]
  have "rows_move s' s''" using delivery_step_kept [OF run_step(2)] run_kept [OF run_step(1) run_step.prems] by (simp add: delivery_kept_def)
  then have sp: "\<forall>a \<in> set ls. spent s'' a" using IH kept_spent by blast
  show ?case
  proof (cases lbl)
    case None
    then show ?thesis using IH sp by simp
  next
    case (Some a)
    from run_step(2) obtain d where d: "delivery_of s' (ad_key a) = Some d" "wd_token d = ad_token a" "wd_http_started d = None" "spent s'' a"
      unfolding Some by (rule step_admission)
    have "ad_token b < ad_token a" if "b \<in> set ls" "ad_key b = ad_key a" for b
      using IH that d by (auto simp: spent_def)
    then show ?thesis using IH sp d(4) by (auto simp: Some sorted_wrt_append)
  qed
qed simp

text \<open>
  A claim token admits at most one HTTP request. In any run of the delivery store, with any
  number of workers, crashes, lost commits, replays and revocations, the admissions of one delivery
  carry strictly increasing claim tokens; so a token is admitted once, and a worker whose claim was
  superseded is not admitted any more.
\<close>

theorem webhook_token_admitted_once:
  assumes "delivery_inv db" "labelled_run (delivery_step collate) db ls db'"
  shows "sorted_wrt (\<lambda>a b. ad_key a = ad_key b \<longrightarrow> ad_token a < ad_token b) ls"
  using admissions_spent [OF assms(2,1)] by blast

section \<open>Revocation\<close>







lemma revoke_inactive [simp]: "\<not> ep_active (revoke_endpoint e)"
  by (simp add: revoke_endpoint_def)

lemma revoked_state [simp]: "wd_state (revoke_delivery now d) = DeliveryDead"
  by (simp add: revoke_delivery_def)





section \<open>Published events\<close>

definition published :: "'z delivery_db_scheme \<Rightarrow> tenant_id \<Rightarrow> string \<Rightarrow> bool" where
  "published db t e = (\<exists>r \<in> set (db_outbox db). ob_tenant r = t \<and> ob_event r = e \<and> ob_destination r = ''webhook'' \<and> ob_published r \<noteq> None)"

definition delivers :: "'z delivery_db_scheme \<Rightarrow> tenant_id \<Rightarrow> string \<Rightarrow> string \<Rightarrow> bool" where
  "delivers db t ep e = (\<exists>k d. delivery_of db k = Some d \<and> fst k = t \<and> wd_endpoint d = ep \<and> wd_event d = e)"

lemma has_delivery_delivers: "delivery_wf db \<Longrightarrow> has_delivery db t ep e \<Longrightarrow> delivers db t ep e"
  unfolding delivers_def delivery_of_def delivery_wf_def has_delivery_def list_ex_iff by (auto dest!: map_of_is_SomeI) blast

lemma kept_delivers: "rows_move db db' \<Longrightarrow> delivers db t ep e \<Longrightarrow> delivers db' t ep e"
  unfolding rows_move_def delivers_def using moves_const by metis

lemma published_same: "publishes_none db db' \<Longrightarrow> published db' t e \<Longrightarrow> published db t e"
  unfolding publishes_none_def published_def by metis

lemma publishes_none_same: "db_outbox db' = db_outbox db \<Longrightarrow> publishes_none db db'"
  unfolding publishes_none_def by auto

lemma active_in: "endpoint_active db t ep \<Longrightarrow> \<exists>e. ((t, ep), e) \<in> set (active_endpoints t db)"
  by (auto simp: endpoint_active_def endpoint_of_def active_endpoints_def split: option.splits dest: map_of_SomeD)

lemma materialized_tenant: "row \<in> set (materialized_of collate now t limit db) \<Longrightarrow> fst (fst row) = t"
  by (auto simp: materialized_of_def materialized_row_def)

lemma claim_pass_publishes:
  assumes "claim_pass collate now t ow limit db = Inr (ds, db')" "delivery_wf db" "published db' t' e"
  shows "published db t' e \<or> (\<forall>ep. endpoint_active db t' ep \<longrightarrow> delivers db' t' ep e)"
proof (cases "published db t' e")
  case False
  have "db_outbox db' = close_outbox now t (completed_of collate now t limit db) (db_outbox db)"
    unfolding claim_pass_shape(1) [OF assms(1)] by (simp add: purge_expired_def)
  then have c: "t' = t" "e \<in> set (completed_of collate now t limit db)"
    using assms(3) False by (auto simp: published_def close_outbox_def close_row_def split: if_splits)
  have "delivers db' t ep e" if act: "endpoint_active db t ep" for ep
  proof -
    have "covered t (materialized_of collate now t limit db) db e" using c(2) by (auto simp: completed_of_def)
    then consider "has_delivery db t ep e" | row where "row \<in> set (materialized_of collate now t limit db)" "wd_endpoint (snd row) = ep" "wd_event (snd row) = e"
      using active_in [OF act] by (fastforce simp: covered_def list_all_iff list_ex_iff)
    then show ?thesis
    proof cases
      case 1
      then show ?thesis using has_delivery_delivers [OF assms(2)] kept_delivers claim_pass_move [OF assms(1,2)] unfolding rows_move_def by (metis r_into_rtranclp)
    next
      case (2 row)
      have "row \<in> set (db_deliveries db')" using 2(1) unfolding claim_pass_shape(1) [OF assms(1)] by (simp add: purge_expired_def)
      then have "delivery_of db' (fst row) = Some (snd row)" using claim_pass_wf [OF assms(1,2)] by (simp add: delivery_of_def delivery_wf_def)
      then show ?thesis using 2(2,3) materialized_tenant [OF 2(1)] unfolding delivers_def by blast
    qed
  qed
  then show ?thesis using c(1) by simp
qed simp

lemma Claim_publishes:
  assumes "Claim collate f now t ow limit db = (ds, db')" "delivery_wf db" "published db' t' e"
  shows "published db t' e \<or> (\<forall>ep. endpoint_active db t' ep \<longrightarrow> delivers db' t' ep e)"
  using assms(1)
proof (cases rule: Claim_passes)
  case (3 db1 ds2)
  have wf: "delivery_wf db1" using claim_pass_wf [OF 3(1) assms(2)] .
  have m: "rows_move db1 db'" using claim_pass_move [OF 3(2) wf] unfolding rows_move_def by (metis r_into_rtranclp)
  show ?thesis using claim_pass_publishes [OF 3(2) wf assms(3)] claim_pass_publishes [OF 3(1) assms(2), of t' e]
      claim_pass_active [OF 3(1)] kept_delivers [OF m] by auto
qed (use assms claim_pass_publishes in \<open>blast\<close>)+

lemma ClaimEvents_publishes:
  assumes "ClaimEvents collate f now t ow limit db = (es, db')"
  shows "publishes_none db db'"
proof (cases "db' = db")
  case False
  then obtain db1 where "materialize_kafka now t (locked_outbox collate now t ''kafka'' (nat limit) db) db = Inr db1"
    "db' = snd (claim_kafka collate now t ow (nat limit) db1)"
    using assms unfolding ClaimEvents_def by (auto split: if_splits sum.splits elim!: inTenant_cases)
  then show ?thesis using materialize_kafka_frame
    by (fastforce simp: publishes_none_def claim_kafka_def Let_def claim_outbox_row_def)
qed (simp add: publishes_none_same)

lemma MarkPublished_publishes:
  assumes "MarkPublished f now t ev db = (e, db')"
  shows "publishes_none db db'"
proof (cases "db' = db")
  case False
  then have "db' = mark_published now t ev db" using assms unfolding MarkPublished_def by (auto split: if_splits elim!: inTenantExec_cases)
  then show ?thesis by (auto simp: publishes_none_def mark_published_def to_publish_def close_row_def split: if_splits)
qed (simp add: publishes_none_same)

lemma Exec_outbox:
  assumes "inTenantExec f t operation db = (r, db')" "\<And>db''. operation db = Inr db'' \<Longrightarrow> db_outbox db'' = db_outbox db"
  shows "db_outbox db' = db_outbox db"
  using assms by (auto elim: inTenantExec_cases)

lemma other_outbox:
  "CreateEndpoint f rcd n db = (e, db') \<Longrightarrow> db_outbox db' = db_outbox db"
  "RotateEndpoint f rot db = (e, db') \<Longrightarrow> db_outbox db' = db_outbox db"
  "PurgeExpiredSecrets f now t db = (e, db') \<Longrightarrow> db_outbox db' = db_outbox db"
  "ReplayDLQ f now t q db = (e, db') \<Longrightarrow> db_outbox db' = db_outbox db"
  unfolding CreateEndpoint_def RotateEndpoint_def PurgeExpiredSecrets_def purge_expired_def ReplayDLQ_def Let_def
  by (auto split: if_splits option.splits elim!: Exec_outbox)

lemma Admit_outbox: "AdmitClaim f now dl db = (r, db') \<Longrightarrow> db_outbox db' = db_outbox db"
  by (erule Admit_shape) (auto elim: update_delivery_cases)

lemma Renew_outbox: "RenewClaim f now t i ow tok db = (r, db') \<Longrightarrow> db_outbox db' = db_outbox db"
  unfolding RenewClaim_def by (auto split: if_splits elim!: inTenant_cases update_delivery_cases)

lemma Delete_outbox: "DeleteEndpoint f now t ep db = (r, db') \<Longrightarrow> db_outbox db' = db_outbox db"
  by (erule DeleteEndpoint_shape) (simp, erule delete_shape)

lemma Complete_outbox: "CompleteAttempt f now wall i res db = (e, db') \<Longrightarrow> db_outbox db' = db_outbox db"
  by (erule Complete_shape) (simp, erule complete_shape)

lemma step_publishes:
  assumes "delivery_step collate db l db'" "delivery_wf db" "published db' t e"
  shows "published db t e \<or> (\<forall>ep. endpoint_active db t ep \<longrightarrow> delivers db' t ep e)"
proof -
  have n: ?thesis if "publishes_none db db'" using published_same [OF that assms(3)] by blast
  note s = n [OF publishes_none_same]
  from assms(1) show ?thesis
  proof (cases rule: delivery_step.cases)
    case (w_claim f now t' ow limit ds)
    then show ?thesis using Claim_publishes assms(2,3) by blast
  next
    case (w_letter f now i cr er)
    then show ?thesis using StoreCommandDLQ_frame [OF w_letter(2)] by (elim exE) (rule s, simp)
  qed ((rule s, erule other_outbox Admit_outbox Renew_outbox Delete_outbox Complete_outbox)
    | (rule n, erule ClaimEvents_publishes MarkPublished_publishes) | (rule n, assumption))+
qed

lemma kept_active:
  assumes "endpoints_kept db db'" "endpoint_of db (t, ep) \<noteq> None" "endpoint_active db' t ep"
  shows "endpoint_active db t ep"
proof -
  obtain e where e: "endpoint_of db (t, ep) = Some e" using assms(2) by blast
  then show ?thesis using assms(3) assms(1) [unfolded endpoints_kept_def, rule_format, OF e] by (auto simp: endpoint_active_def)
qed

lemma published_delivers:
  assumes "labelled_run (delivery_step collate) db ls db'" "delivery_inv db" "\<not> published db t e" "endpoint_active db t ep"
  shows "endpoint_of db' (t, ep) \<noteq> None \<and> (endpoint_active db' t ep \<longrightarrow> published db' t e \<longrightarrow> delivers db' t ep e)"
  using assms
proof (induction rule: labelled_run.induct)
  case (run_refl s)
  then show ?case by (auto simp: endpoint_active_def split: option.splits)
next
  case (run_step s ls s' lbl s'')
  note IH = run_step.IH [OF run_step.prems]
  have inv: "delivery_inv s'" by (rule run_kept [OF run_step(1) run_step.prems(1)])
  have k: "endpoints_kept s' s''" "rows_move s' s''" using delivery_step_kept [OF run_step(2) inv] by (simp_all add: delivery_kept_def)
  have "delivers s'' t ep e" if a: "endpoint_active s'' t ep" and p: "published s'' t e"
  proof -
    have a': "endpoint_active s' t ep" using kept_active [OF k(1) _ a] IH by blast
    show ?thesis using step_publishes [OF run_step(2) _ p] inv IH a' kept_delivers [OF k(2)] by (auto simp: delivery_inv_def)
  qed
  moreover have "endpoint_of s'' (t, ep) \<noteq> None" using IH k(1) unfolding endpoints_kept_def by blast
  ultimately show ?case by blast
qed

text \<open>
  C8. A published event is not lost. If the webhook outbox row of an event is unpublished and a run
  publishes it, then every endpoint that was active before and is active after the run has a
  delivery of the event; and a delivery that was given up has a dead letter.
\<close>

theorem published_event_reaches_endpoints:
  assumes "delivery_inv db" "labelled_run (delivery_step collate) db ls db'" "\<not> published db t e" "published db' t e"
    "endpoint_active db t ep" "endpoint_active db' t ep"
  shows "\<exists>k d. delivery_of db' k = Some d \<and> fst k = t \<and> wd_endpoint d = ep \<and> wd_event d = e
    \<and> (wd_state d = DeliveryDead \<longrightarrow> has_letter db' k)"
  using published_delivers [OF assms(2,1,3,5)] assms(4,6) inv_dead [OF run_kept [OF assms(2,1)]] unfolding delivers_def by blast

section \<open>Weaknesses of revocation and replay\<close>







definition replayed_out :: "'z delivery_db_scheme \<Rightarrow> dkey \<Rightarrow> bool" where
  "replayed_out db dk = (has_letter db dk
     \<and> (\<forall>k q. (k, q) \<in> set (db_webhook_dlq db) \<longrightarrow> fst k = fst dk \<longrightarrow> wq_delivery q = snd dk \<longrightarrow> wq_replayed q \<noteq> None))"

lemma kept_replayed_out:
  assumes "letters_kept db db'" "replayed_out db dk"
  shows "replayed_out db' dk"
  unfolding replayed_out_def
proof (intro conjI allI impI)
  show "has_letter db' dk" using assms letters_kept_has unfolding replayed_out_def by blast
next
  fix k q' assume q': "(k, q') \<in> set (db_webhook_dlq db')" "fst k = fst dk" "wq_delivery q' = snd dk"
  then have "has_letter db (fst k, wq_delivery q')" using assms(2) by (simp add: replayed_out_def)
  then obtain q where "(k, q) \<in> set (db_webhook_dlq db)" "wq_delivery q' = wq_delivery q" "wq_replayed q \<noteq> None \<longrightarrow> wq_replayed q' \<noteq> None"
    using letters_kept_back [OF assms(1) q'(1)] by blast
  then show "wq_replayed q' \<noteq> None" using assms(2) q'(2,3) unfolding replayed_out_def by metis
qed

lemma replayed_run:
  assumes "labelled_run (delivery_step collate) db ls db'" "delivery_inv db" "replayed_out db dk"
  shows "replayed_out db' dk"
  using assms by (rule kept_run) (auto simp: delivery_kept_def intro: kept_replayed_out)

lemma Replay_shape:
  assumes "ReplayDLQ f now t i db = (None, db')"
  obtains q where "dlq_of db (t, i) = Some q" "wq_replayed q = None"
    "db_webhook_dlq db' = update_where (\<lambda>k _. k = (t, i)) (\<lambda>q. q \<lparr> wq_replayed := Some now \<rparr>) (db_webhook_dlq db)"
  using assms unfolding ReplayDLQ_def by (auto split: if_splits option.splits dest!: inTenantExec_ok)

lemma letter_unique:
  assumes "distinct (letter_ids db)" "(k, q) \<in> set (db_webhook_dlq db)" "(k', q') \<in> set (db_webhook_dlq db)"
    "fst k = fst k'" "wq_delivery q = wq_delivery q'"
  shows "k = k' \<and> q = q'"
  using assms unfolding letter_ids_def distinct_map inj_on_def by fastforce

lemma Replay_replayed:
  assumes "ReplayDLQ f now t i db = (None, db')" "delivery_inv db" "dlq_of db (t, i) = Some q"
  shows "replayed_out db' (t, wq_delivery q)"
proof -
  have dlq: "db_webhook_dlq db' = update_where (\<lambda>k _. k = (t, i)) (\<lambda>q. q \<lparr> wq_replayed := Some now \<rparr>) (db_webhook_dlq db)"
    using assms(1) by (rule Replay_shape)
  have in_db: "((t, i), q) \<in> set (db_webhook_dlq db)" using assms(3) by (auto simp: dlq_of_def dest: map_of_SomeD)
  show ?thesis unfolding replayed_out_def
  proof (intro conjI allI impI)
    have "has_letter db (t, wq_delivery q)" unfolding has_letter_def list_ex_iff by (rule bexI [OF _ in_db]) simp
    then show "has_letter db' (t, wq_delivery q)" using replay_kept [OF assms(1,2)] letters_kept_has unfolding delivery_kept_def by blast
  next
    fix k q' assume "(k, q') \<in> set (db_webhook_dlq db')" and k: "fst k = fst (t, wq_delivery q)" "wq_delivery q' = snd (t, wq_delivery q)"
    then obtain p where p: "(k, p) \<in> set (db_webhook_dlq db)" "q' = (if k = (t, i) then p \<lparr> wq_replayed := Some now \<rparr> else p)"
      unfolding dlq set_update_where by blast
    have "wq_delivery p = wq_delivery q" using p(2) k(2) by (cases "k = (t, i)") simp_all
    then have "k = (t, i)" using letter_unique [OF _ p(1) in_db] assms(2) k(1) by (simp add: delivery_inv_def)
    then show "wq_replayed q' \<noteq> None" using p(2) by simp
  qed
qed

text \<open>
  A delivery is replayed at most once. Its dead letter stays marked as replayed and a second
  death writes no new letter, so when a replayed delivery dies again every later replay of it is
  refused without effect.
\<close>

theorem second_death_not_replayable:
  assumes "delivery_inv db" "dlq_of db (t, i) = Some q" "ReplayDLQ f now t i db = (None, db1)"
    "labelled_run (delivery_step collate) db1 ls db2" "dlq_of db2 (t, i') = Some q'" "wq_delivery q' = wq_delivery q"
  shows "fst (ReplayDLQ f' now' t i' db2) \<noteq> None \<and> snd (ReplayDLQ f' now' t i' db2) = db2"
proof -
  have "replayed_out db2 (t, wq_delivery q)"
    using replayed_run [OF assms(4) _ Replay_replayed [OF assms(3,1,2)]] replay_kept [OF assms(3,1)] by blast
  then have r: "wq_replayed q' \<noteq> None" using assms(5,6) unfolding replayed_out_def by (force simp: dlq_of_def dest: map_of_SomeD)
  obtain e db3 where x: "ReplayDLQ f' now' t i' db2 = (e, db3)" by fastforce
  then show ?thesis using r assms(5) unfolding ReplayDLQ_def by (auto split: if_splits option.splits elim!: inTenantExec_cases)
qed

lemma destination_run:
  assumes "labelled_run (delivery_step collate) db ls db'" "delivery_inv db" "endpoint_of db k = Some e"
  shows "\<exists>e'. endpoint_of db' k = Some e' \<and> ep_destination e' = ep_destination e"
  by (rule kept_run [OF assms(1,2), where P = "\<lambda>s. \<exists>e'. endpoint_of s k = Some e' \<and> ep_destination e' = ep_destination e"])
    (use assms(3) in simp, unfold delivery_kept_def endpoints_kept_def, metis)

text \<open>
  A destination can be registered once. Revoking an endpoint keeps its row, and the uniqueness of
  destinations counts revoked endpoints, so no later run can register the destination again.
\<close>

theorem revoked_destination_blocked:
  assumes "delivery_inv db" "endpoint_of db (t, ep) = Some e" "DeleteEndpoint f now t ep db = (Inr deleting, db1)"
    "labelled_run (delivery_step collate) db1 ls db2" "en_TenantID (eo_Endpoint rcd) = t" "en_Destination (eo_Endpoint rcd) = ep_destination e"
  shows "fst (CreateEndpoint f' rcd n db2) \<noteq> None \<and> snd (CreateEndpoint f' rcd n db2) = db2"
proof -
  have k: "delivery_kept db db1" "delivery_inv db1" using Delete_kept [OF assms(3,1)] by blast+
  obtain e1 where e1: "endpoint_of db1 (t, ep) = Some e1" "ep_destination e1 = ep_destination e"
    using k(1) assms(2) unfolding delivery_kept_def endpoints_kept_def by blast
  obtain e2 where "endpoint_of db2 (t, ep) = Some e2" "ep_destination e2 = ep_destination e"
    using destination_run [OF assms(4) k(2) e1(1)] e1(2) by auto
  then have t: "endpoint_taken t (eo_Endpoint rcd) db2"
    using assms(6) by (force simp: endpoint_taken_def list_ex_iff endpoint_of_def dest: map_of_SomeD)
  obtain x db3 where "CreateEndpoint f' rcd n db2 = (x, db3)" by fastforce
  then show ?thesis using t assms(5) unfolding CreateEndpoint_def Let_def by (auto split: if_splits elim!: inTenantExec_cases)
qed

section \<open>Examples\<close>

text \<open>One tenant with one endpoint and one event, and a worker that claims, is admitted, and fails.\<close>

definition demo_endpoint :: endpoint_row where
  "demo_endpoint = \<lparr> ep_destination = ''https://a'', ep_key_id = ''k1'',
     ep_secret = \<lparr> sec_ciphertext = ''c'', sec_wrapped_dek = ''w'', sec_nonce = ''n'', sec_key_id = ''i'', sec_key_version = 1 \<rparr>,
     ep_previous = None, ep_active = True, ep_created = 0, ep_generation = 1 \<rparr>"

definition demo_hook_event :: event_row where
  "demo_hook_event = \<lparr> ev_type = ''message.sent'', ev_aggregate_type = ''message'', ev_aggregate_id = ''m1'', ev_connection = Some ''c1'',
     ev_conversation = '''', ev_body = ''body'' \<rparr>"

definition demo_hooks :: delivery_db where
  "demo_hooks = inbox_db.extend (messaging_db.extend (demo_store \<lparr> db_events := [(''t1'', ''e1'') \<mapsto> demo_hook_event],
       db_outbox := [new_outbox 0 ''t1'' ''o1:webhook'' ''e1'' ''webhook''] \<rparr>)
       (inbox_db.fields [] [] [] Map.empty [] Map.empty Map.empty))
     (delivery_db.fields [((''t1'', ''p1''), demo_endpoint)] [] [] [] [] [])"

definition demo_claim :: "instant \<Rightarrow> delivery_db \<Rightarrow> WebhookDelivery list result \<times> delivery_db" where
  "demo_claim now = Claim length NoFault now ''t1'' ''w1'' 5"

definition demo_handed :: "nat \<Rightarrow> WebhookDelivery" where
  "demo_handed tok = \<lparr> we_TenantID = ''t1'', we_DeliveryID = ''p1:e1'', we_EndpointID = ''p1'', we_EventID = ''e1'', we_Destination = ''https://a'',
     we_KeyID = ''k1'', we_CanonicalBody = ''body'', we_Attempt = 1, we_OwnerID = ''w1'', we_ClaimToken = tok, we_EndpointGeneration = 1,
     we_Secret = \<lparr> env_Revision = 0, env_Version = 1, env_Provider = ''webhook'', env_Ciphertext = ''c'', env_WrappedDEK = ''w'', env_Nonce = ''n'',
       env_KeyID = ''i'', env_KeyVersion = 1 \<rparr> \<rparr>"

definition demo_admit :: "nat \<Rightarrow> instant \<Rightarrow> delivery_db \<Rightarrow> bool result \<times> delivery_db" where
  "demo_admit tok now db = AdmitClaim NoFault (now + 1) (demo_handed tok) (snd (demo_claim now db))"

definition demo_outcome :: "bool \<Rightarrow> nat \<Rightarrow> AttemptResult" where
  "demo_outcome dead tok = \<lparr> ar_TenantID = ''t1'', ar_DeliveryID = ''p1:e1'', ar_Attempt = 1, ar_OwnerID = ''w1'', ar_ClaimToken = tok,
     ar_Succeeded = False, ar_Dead = dead, ar_StatusCode = 500, ar_SafeError = ''failed'', ar_NextAvailableAt = Some 20 \<rparr>"

definition demo_complete :: "bool \<Rightarrow> nat \<Rightarrow> instant \<Rightarrow> delivery_db \<Rightarrow> goerror \<times> delivery_db" where
  "demo_complete dead tok now db = CompleteAttempt NoFault (now + 2) (now + 2) ''q1'' (demo_outcome dead tok) (snd (demo_admit tok now db))"

definition demo_retry :: delivery_db where
  "demo_retry = snd (demo_complete False 1 10 demo_hooks)"

definition demo_dead :: delivery_db where
  "demo_dead = snd (demo_complete True 1 10 demo_hooks)"

lemmas demo_hook_defs = demo_hooks_def demo_store_def demo_db_def messaging_db.defs inbox_db.defs delivery_db.defs

lemma demo_hooks_inv: "delivery_inv demo_hooks"
  by (rule empty_deliveries_inv) (simp_all add: demo_hook_defs)

lemma demo_claim_ok: "fst (demo_claim 10 demo_hooks) = Inr [demo_handed 1]"
  by code_simp

lemma demo_admit_ok: "fst (demo_admit 1 10 demo_hooks) = Inr True" "fst (demo_admit 2 30 demo_retry) = Inr True"
  by code_simp+


lemma run_none: "labelled_run R s ls s' \<Longrightarrow> R s' None s'' \<Longrightarrow> labelled_run R s ls s''"
  using run_step [of R s ls s' None s''] by simp

lemma run_some: "labelled_run R s ls s' \<Longrightarrow> R s' (Some a) s'' \<Longrightarrow> labelled_run R s (ls @ [a]) s''"
  using run_step [of R s ls s' "Some a" s''] by simp

lemma demo_claim_step: "delivery_step length db None (snd (demo_claim now db))"
  unfolding demo_claim_def by (rule w_claim [OF prod.collapse [symmetric]])

lemma demo_admit_step:
  assumes "fst (demo_admit tok now db) = Inr True"
  shows "delivery_step length (snd (demo_claim now db)) (Some (admission_of (demo_handed tok))) (snd (demo_admit tok now db))"
proof -
  have "AdmitClaim NoFault (now + 1) (demo_handed tok) (snd (demo_claim now db)) = (Inr True, snd (demo_admit tok now db))"
    using assms unfolding demo_admit_def by (metis prod.collapse)
  from w_admit [OF this, where collate = length] show ?thesis by simp
qed

lemma demo_complete_step: "delivery_step length (snd (demo_admit tok now db)) None (snd (demo_complete dead tok now db))"
  unfolding demo_complete_def by (rule w_complete [OF prod.collapse [symmetric]])

lemma demo_attempt_run:
  assumes "fst (demo_admit tok now db) = Inr True" "labelled_run (delivery_step length) s ls db"
  shows "labelled_run (delivery_step length) s (ls @ [admission_of (demo_handed tok)]) (snd (demo_complete dead tok now db))"
proof -
  have "labelled_run (delivery_step length) s ls (snd (demo_claim now db))" by (rule run_none) (rule assms(2), rule demo_claim_step)
  then have "labelled_run (delivery_step length) s (ls @ [admission_of (demo_handed tok)]) (snd (demo_admit tok now db))"
    by (rule run_some) (rule demo_admit_step [OF assms(1)])
  then show ?thesis by (rule run_none) (rule demo_complete_step)
qed

theorem webhook_token_admitted_once_witness:
  "ad_key (admission_of (demo_handed 1)) = ad_key (admission_of (demo_handed 2))
   \<and> ad_token (admission_of (demo_handed 1)) < ad_token (admission_of (demo_handed 2))"
proof -
  have 1: "labelled_run (delivery_step length) demo_hooks [admission_of (demo_handed 1)] demo_retry"
    using demo_attempt_run [OF demo_admit_ok(1) run_refl, of False] by (simp add: demo_retry_def)
  have k: "ad_key (admission_of (demo_handed 1)) = ad_key (admission_of (demo_handed 2))" by code_simp
  show ?thesis
    using webhook_token_admitted_once [OF demo_hooks_inv demo_attempt_run [OF demo_admit_ok(2) 1]] k by simp
qed

definition demo_revoke :: "delivery_db \<Rightarrow> bool result \<times> delivery_db" where
  "demo_revoke = DeleteEndpoint NoFault 15 ''t1'' ''p1''"


lemma demo_inv: "labelled_run (delivery_step length) demo_hooks ls db \<Longrightarrow> delivery_inv db"
  using run_kept demo_hooks_inv by blast

lemma demo_claimed_run: "labelled_run (delivery_step length) demo_hooks [] (snd (demo_claim 10 demo_hooks))"
  by (rule run_none) (rule run_refl, rule demo_claim_step)


lemma demo_published:
  "\<not> published demo_hooks ''t1'' ''e1''" "published (snd (demo_claim 10 demo_hooks)) ''t1'' ''e1''"
  "endpoint_active demo_hooks ''t1'' ''p1''" "endpoint_active (snd (demo_claim 10 demo_hooks)) ''t1'' ''p1''"
  by code_simp+

theorem published_event_reaches_endpoints_witness:
  "\<exists>k d. delivery_of (snd (demo_claim 10 demo_hooks)) k = Some d \<and> fst k = ''t1'' \<and> wd_endpoint d = ''p1'' \<and> wd_event d = ''e1''"
  using published_event_reaches_endpoints [OF demo_hooks_inv demo_claimed_run demo_published] by blast

lemma demo_retry_revoked: "fst (demo_revoke demo_retry) = Inr False"
  by code_simp




definition demo_replayed :: delivery_db where
  "demo_replayed = snd (ReplayDLQ NoFault 13 ''t1'' ''q1'' demo_dead)"

lemma demo_replay_ok: "fst (ReplayDLQ NoFault 13 ''t1'' ''q1'' demo_dead) = None"
  "map_option wq_delivery (dlq_of demo_dead (''t1'', ''q1'')) = Some ''p1:e1''"
  "fst (demo_admit 3 14 demo_replayed) = Inr True" "fst (demo_complete True 3 14 demo_replayed) = None"
  "map_option wq_delivery (dlq_of (snd (demo_complete True 3 14 demo_replayed)) (''t1'', ''q1'')) = Some ''p1:e1''"
  "map_option wd_state (delivery_of (snd (demo_complete True 3 14 demo_replayed)) (''t1'', ''p1:e1'')) = Some DeliveryDead"
  by code_simp+

theorem second_death_not_replayable_witness:
  "map_option wd_state (delivery_of (snd (demo_complete True 3 14 demo_replayed)) (''t1'', ''p1:e1'')) = Some DeliveryDead
   \<and> fst (ReplayDLQ NoFault 20 ''t1'' ''q1'' (snd (demo_complete True 3 14 demo_replayed))) \<noteq> None"
proof -
  have inv: "delivery_inv demo_dead"
    using demo_inv [OF demo_attempt_run [OF demo_admit_ok(1) run_refl]] unfolding demo_dead_def .
  obtain q where q: "dlq_of demo_dead (''t1'', ''q1'') = Some q" "wq_delivery q = ''p1:e1''" using demo_replay_ok(2) by auto
  obtain q' where q': "dlq_of (snd (demo_complete True 3 14 demo_replayed)) (''t1'', ''q1'') = Some q'" "wq_delivery q' = ''p1:e1''"
    using demo_replay_ok(5) by auto
  have r: "ReplayDLQ NoFault 13 ''t1'' ''q1'' demo_dead = (None, demo_replayed)"
    using demo_replay_ok(1) unfolding demo_replayed_def by (metis prod.collapse)
  show ?thesis
    using second_death_not_replayable [OF inv q(1) r demo_attempt_run [OF demo_replay_ok(3) run_refl] q'(1)] q(2) q'(2) demo_replay_ok(6) by simp
qed

definition demo_again :: EndpointRecord where
  "demo_again = \<lparr> eo_Endpoint = \<lparr> en_ID = ''p2'', en_TenantID = ''t1'', en_Destination = ''https://a'', en_KeyID = ''k2'', en_Active = True, en_CreatedAt = 40 \<rparr>,
     eo_Secret = demo_session \<lparr> env_Provider := ''webhook'' \<rparr> \<rparr>"

theorem revoked_destination_blocked_witness:
  "fst (CreateEndpoint NoFault demo_again 8 (snd (demo_revoke demo_retry))) \<noteq> None"
proof -
  have r: "DeleteEndpoint NoFault 15 ''t1'' ''p1'' demo_retry = (Inr False, snd (demo_revoke demo_retry))"
    using demo_retry_revoked unfolding demo_revoke_def by (metis prod.collapse)
  have inv: "delivery_inv demo_retry" using demo_inv [OF demo_attempt_run [OF demo_admit_ok(1) run_refl]] unfolding demo_retry_def .
  have "map_option ep_destination (endpoint_of demo_retry (''t1'', ''p1'')) = Some ''https://a''" by code_simp
  then obtain e where "endpoint_of demo_retry (''t1'', ''p1'') = Some e" "ep_destination e = ''https://a''" by auto
  then show ?thesis
    using revoked_destination_blocked [OF inv _ r run_refl [of "delivery_step length"], of e demo_again] by (simp add: demo_again_def)
qed

end
