(* ===== verification/Webhook_Signature.thy ===== *)
theory Webhook_Signature
  imports Ingress_Projection
begin

text \<open>
  The signature of a webhook request (\<^verbatim>\<open>webhook/signature.go\<close>). HMAC-SHA256 is a parameter; what the
  signature binds is stated for the absence of a collision between the two messages in question.
\<close>

section \<open>Encodings of the standard library\<close>

text \<open>\<^verbatim>\<open>hex.DecodeString\<close> accepts both cases and refuses odd lengths and other characters.\<close>

definition from_hex :: "char \<Rightarrow> nat option" where
  "from_hex c = (let n = of_char c :: nat in
     if 48 \<le> n \<and> n \<le> 57 then Some (n - 48)
     else if 97 \<le> n \<and> n \<le> 102 then Some (n - 87)
     else if 65 \<le> n \<and> n \<le> 70 then Some (n - 55)
     else None)"

fun hex_DecodeString :: "string \<Rightarrow> string option" where
  "hex_DecodeString [] = Some []"
| "hex_DecodeString [c] = None"
| "hex_DecodeString (a # b # rest) =
     (case (from_hex a, from_hex b, hex_DecodeString rest) of
        (Some x, Some y, Some decoded) \<Rightarrow> Some (char_of (16 * x + y) # decoded)
      | _ \<Rightarrow> None)"

lemma from_hex_digits: "list_all (\<lambda>n. from_hex (hex_digit n) = Some n) [0..<16]"
  by code_simp

lemma from_hex_digit: "n < 16 \<Longrightarrow> from_hex (hex_digit n) = Some n"
  using from_hex_digits by (simp add: list_all_iff)

lemma hex_roundtrip: "hex_DecodeString (stringHex s) = Some s"
proof (induction s)
  case (Cons c s)
  have c: "of_char c < (256 :: nat)" by simp
  then have "(of_char c :: nat) div 16 < 16" by linarith
  then show ?case using Cons by (simp add: stringHex_def from_hex_digit)
qed (simp add: stringHex_def)

definition dec_value :: "string \<Rightarrow> nat" where
  "dec_value = foldl (\<lambda>acc c. acc * 10 + (of_char c - 48)) 0"

lemma decimal_value: "dec_value (decimal n) = n"
proof (induction n rule: decimal.induct)
  case (1 n)
  have "(of_char (char_of (48 + n mod 10) :: char) :: nat) = 48 + n mod 10" by (simp add: of_char_of)
  moreover have "n < 10 \<Longrightarrow> (of_char (char_of (48 + n) :: char) :: nat) = 48 + n" by (simp add: of_char_of)
  ultimately show ?case using 1 by (subst decimal.simps) (auto simp: dec_value_def)
qed

lemma decimal_digits: "c \<in> set (decimal n) \<Longrightarrow> 48 \<le> (of_char c :: nat) \<and> of_char c < (58 :: nat)"
proof (induction n rule: decimal.induct)
  case (1 n)
  have "(of_char (char_of (48 + n mod 10) :: char) :: nat) = 48 + n mod 10" by (simp add: of_char_of)
  moreover have "n < 10 \<Longrightarrow> (of_char (char_of (48 + n) :: char) :: nat) = 48 + n" by (simp add: of_char_of)
  ultimately show ?case using 1 by (subst (asm) (2) decimal.simps) (auto split: if_splits)
qed

lemma decimal_nonempty: "decimal n \<noteq> []"
  by (subst decimal.simps) simp

lemma Itoa_inj: "Itoa i = Itoa j \<Longrightarrow> i = j"
proof -
  assume e: "Itoa i = Itoa j"
  have m: "CHR ''-'' \<notin> set (decimal n)" for n using decimal_digits [of "CHR ''-''" n] by auto
  have s: "CHR ''-'' \<in> set (Itoa n) \<longleftrightarrow> n < 0" for n using m by (simp add: Itoa_def)
  have "(i < 0) = (j < 0)" using s [of i] s [of j] e by simp
  then have "decimal (nat \<bar>i\<bar>) = decimal (nat \<bar>j\<bar>)" using e by (simp add: Itoa_def split: if_splits)
  then have "nat \<bar>i\<bar> = nat \<bar>j\<bar>" by (metis decimal_value)
  then show ?thesis using \<open>(i < 0) = (j < 0)\<close> by linarith
qed

lemma Itoa_no_dot: "CHR ''.'' \<notin> set (Itoa i)"
  using decimal_digits [of "CHR ''.''"] by (auto simp: Itoa_def)

section \<open>Signing\<close>

definition unix_seconds :: "instant \<Rightarrow> int" where
  "unix_seconds t = t div 1000000"

definition signaturePrefix :: string where
  "signaturePrefix = ''v1=''"

definition signed_input :: "instant \<Rightarrow> string \<Rightarrow> string \<Rightarrow> string" where
  "signed_input timestamp eventID body = Itoa (unix_seconds timestamp) @ ''.'' @ eventID @ ''.'' @ body"

definition Sign :: "(string \<Rightarrow> string \<Rightarrow> string) \<Rightarrow> string \<Rightarrow> instant \<Rightarrow> string \<Rightarrow> string \<Rightarrow> string" where
  "Sign hmac secret timestamp eventID body = signaturePrefix @ stringHex (hmac secret (signed_input timestamp eventID body))"

definition Verify :: "(string \<Rightarrow> string \<Rightarrow> string) \<Rightarrow> string \<Rightarrow> instant \<Rightarrow> string \<Rightarrow> string \<Rightarrow> string \<Rightarrow> bool" where
  "Verify hmac secret timestamp eventID body signature =
     (if take (length signaturePrefix) signature \<noteq> signaturePrefix then False
      else case hex_DecodeString (drop (length signaturePrefix) signature) of
        None \<Rightarrow> False
      | Some provided \<Rightarrow>
          if length provided \<noteq> 32 then False
          else case hex_DecodeString (drop (length signaturePrefix) (Sign hmac secret timestamp eventID body)) of
                 None \<Rightarrow> provided = []
               | Some expected \<Rightarrow> provided = expected)"

lemma Verify_Sign:
  assumes "length (hmac secret (signed_input ts i body)) = 32"
  shows "Verify hmac secret ts' i' body' (Sign hmac secret ts i body)
    \<longleftrightarrow> hmac secret (signed_input ts i body) = hmac secret (signed_input ts' i' body')"
  using assms by (simp add: Verify_def Sign_def hex_roundtrip)

lemma split_at_dot:
  "CHR ''.'' \<notin> set xs \<Longrightarrow> CHR ''.'' \<notin> set xs' \<Longrightarrow> xs @ CHR ''.'' # ys = xs' @ CHR ''.'' # ys' \<Longrightarrow> xs = xs' \<and> ys = ys'"
proof (induction xs arbitrary: xs')
  case Nil
  then show ?case by (cases xs') auto
next
  case (Cons a xs)
  then show ?case by (cases xs') auto
qed

lemma signed_input_inj:
  assumes "CHR ''.'' \<notin> set i" "CHR ''.'' \<notin> set i'" "signed_input ts i body = signed_input ts' i' body'"
  shows "unix_seconds ts = unix_seconds ts' \<and> i = i' \<and> body = body'"
proof -
  have "Itoa (unix_seconds ts) @ CHR ''.'' # i @ CHR ''.'' # body = Itoa (unix_seconds ts') @ CHR ''.'' # i' @ CHR ''.'' # body'"
    using assms(3) by (simp add: signed_input_def)
  then have "Itoa (unix_seconds ts) = Itoa (unix_seconds ts')" "i @ CHR ''.'' # body = i' @ CHR ''.'' # body'"
    using split_at_dot [OF Itoa_no_dot Itoa_no_dot] by blast+
  then show ?thesis using split_at_dot [OF assms(1,2)] Itoa_inj by blast
qed

text \<open>
  C26. A webhook signature verifies and binds its request: for event identifiers without a dot, and
  if HMAC does not collide on the two signed messages, the signature of one request verifies for
  another second, event or body only if all three are the same.
\<close>

theorem signature_binds_request:
  assumes "length (hmac secret (signed_input ts i body)) = 32"
    "hmac secret (signed_input ts i body) = hmac secret (signed_input ts' i' body') \<longrightarrow> signed_input ts i body = signed_input ts' i' body'"
    "CHR ''.'' \<notin> set i" "CHR ''.'' \<notin> set i'"
  shows "Verify hmac secret ts' i' body' (Sign hmac secret ts i body) \<longleftrightarrow> unix_seconds ts = unix_seconds ts' \<and> i = i' \<and> body = body'"
  unfolding Verify_Sign [where hmac = hmac and secret = secret, OF assms(1)]
proof
  assume "hmac secret (signed_input ts i body) = hmac secret (signed_input ts' i' body')"
  then show "unix_seconds ts = unix_seconds ts' \<and> i = i' \<and> body = body'" using assms(2) signed_input_inj [OF assms(3,4)] by blast
next
  assume e: "unix_seconds ts = unix_seconds ts' \<and> i = i' \<and> body = body'"
  have "signed_input ts i body = signed_input ts' i' body'" unfolding signed_input_def using e by (elim conjE) (simp only:)
  then show "hmac secret (signed_input ts i body) = hmac secret (signed_input ts' i' body')" by (rule arg_cong)
qed

text \<open>A toy message authentication code that pads or cuts to 32 bytes, to evaluate an example.\<close>

definition demo_hmac :: "string \<Rightarrow> string \<Rightarrow> string" where
  "demo_hmac secret m = take 32 (m @ secret @ replicate 32 CHR ''0'')"

theorem signature_binds_request_witness:
  "Verify demo_hmac ''s'' 7000001 ''e1'' ''body'' (Sign demo_hmac ''s'' 7000000 ''e1'' ''body'')
   \<and> \<not> Verify demo_hmac ''s'' 7000000 ''e1'' ''bodx'' (Sign demo_hmac ''s'' 7000000 ''e1'' ''body'')"
proof -
  have l: "length (demo_hmac ''s'' (signed_input 7000000 ''e1'' ''body'')) = 32" by code_simp
  have c: "demo_hmac ''s'' (signed_input 7000000 ''e1'' ''body'') \<noteq> demo_hmac ''s'' (signed_input 7000000 ''e1'' ''bodx'')" by code_simp
  have s: "signed_input 7000000 ''e1'' ''body'' = signed_input 7000001 ''e1'' ''body''" "unix_seconds 7000000 = unix_seconds 7000001" by code_simp+
  show ?thesis
    using signature_binds_request [where hmac = demo_hmac and secret = "''s''", OF l, of 7000001 "''e1''" "''body''"]
      signature_binds_request [where hmac = demo_hmac and secret = "''s''", OF l, of 7000000 "''e1''" "''bodx''"] c s by simp
qed

end
