(* ===== verification/Webhook_Worker.thy ===== *)
theory Webhook_Worker
  imports Delivery_Guarantees Webhook_Signature
begin

text \<open>
  The webhook worker of \<^verbatim>\<open>webhook/worker.go\<close> over the delivery store. As in the dispatcher, other
  processes and the other attempts of a batch act between the calls of the store: \<open>hk_between n\<close> is
  what they do before the n-th call. The renewals that fall into the HTTP request are a list of ticks.
  The request itself is \<open>hk_deliver\<close>, an arbitrary function of destination, headers and body.
\<close>

section \<open>The worker\<close>

record Worker =
  wk_ownerID :: string
  wk_tenantID :: tenant_id
  wk_maxConcurrent :: int
  wk_maxAttempts :: int
  wk_claimLimit :: int
  wk_renewInterval :: duration

definition maxRetryAfter :: duration where
  "maxRetryAfter = 3600 * second"

definition or_default :: "int \<Rightarrow> int \<Rightarrow> int" where
  "or_default v d = (if v = 0 then d else v)"

definition NewWorker :: "bool \<Rightarrow> Worker \<Rightarrow> Worker result" where
  "NewWorker dependencies config =
     (if \<not> dependencies \<or> wk_ownerID config = '''' \<or> wk_tenantID config = '''' then Inl (Sentinel ErrInvalidWorker)
      else let w = config \<lparr> wk_maxConcurrent := or_default (wk_maxConcurrent config) 4, wk_maxAttempts := or_default (wk_maxAttempts config) 8,
                 wk_claimLimit := or_default (wk_claimLimit config) 32, wk_renewInterval := or_default (wk_renewInterval config) (10 * second) \<rparr>
           in if wk_maxConcurrent w < 1 \<or> 64 < wk_maxConcurrent w \<or> wk_maxAttempts w < 1 \<or> 32 < wk_maxAttempts w
                 \<or> wk_claimLimit w < 1 \<or> 256 < wk_claimLimit w \<or> wk_renewInterval w < millisecond \<or> 15 * second < wk_renewInterval w
              then Inl (Sentinel ErrInvalidWorker) else Inr w)"

text \<open>\<^verbatim>\<open>rand.Int(rand.Reader, maximum + 1)\<close> draws from 0 to maximum, or fails.\<close>

definition fullJitter :: "(int \<Rightarrow> int option) \<Rightarrow> duration \<Rightarrow> duration" where
  "fullJitter rand maximum =
     (if maximum \<le> 0 then 0 else case rand (maximum + 1) of None \<Rightarrow> go_div maximum 2 | Some v \<Rightarrow> v)"

record HTTPResult =
  hr_StatusCode :: int
  hr_RetryAfter :: duration

record HookRequest =
  rq_Destination :: string
  rq_Headers :: "(string \<times> string) list"
  rq_Body :: string

record 'db hook_env =
  hk_wall :: instant
  hk_open :: "Scope \<Rightarrow> Envelope \<Rightarrow> string result"
  hk_hmac :: "string \<Rightarrow> string \<Rightarrow> string"
  hk_jitter :: "duration \<Rightarrow> duration"
  hk_fault :: "nat \<Rightarrow> fault"
  hk_now :: "nat \<Rightarrow> instant"
  hk_between :: "nat \<Rightarrow> 'db \<Rightarrow> 'db"
  hk_ticks :: "'db renew_tick list"
  hk_deliver :: "HookRequest \<Rightarrow> HTTPResult result"
  hk_newID :: string

text \<open>\<^verbatim>\<open>http.Header.Set\<close> writes the canonical form of a key: upper case at the start and after a hyphen.\<close>

definition ascii_upper :: "char \<Rightarrow> char" where
  "ascii_upper c = (if 97 \<le> byte_of c \<and> byte_of c \<le> 122 then char_of (byte_of c - 32) else c)"

definition ascii_lower :: "char \<Rightarrow> char" where
  "ascii_lower c = (if 65 \<le> byte_of c \<and> byte_of c \<le> 90 then char_of (byte_of c + 32) else c)"

fun canonical_key :: "bool \<Rightarrow> string \<Rightarrow> string" where
  "canonical_key upper [] = []"
| "canonical_key upper (c # rest) = (if upper then ascii_upper c else ascii_lower c) # canonical_key (c = CHR ''-'') rest"

definition HeaderVersion :: string where
  "HeaderVersion = ''SirenaIX-Webhook-Version''"

definition HeaderTimestamp :: string where
  "HeaderTimestamp = ''SirenaIX-Webhook-Timestamp''"

definition HeaderEventID :: string where
  "HeaderEventID = ''SirenaIX-Webhook-Event-ID''"

definition HeaderKeyID :: string where
  "HeaderKeyID = ''SirenaIX-Webhook-Key-ID''"

definition HeaderSignature :: string where
  "HeaderSignature = ''SirenaIX-Webhook-Signature''"

definition attempt_headers :: "(string \<Rightarrow> string \<Rightarrow> string) \<Rightarrow> string \<Rightarrow> instant \<Rightarrow> WebhookDelivery \<Rightarrow> (string \<times> string) list" where
  "attempt_headers hmac secret now delivery =
     [(canonical_key True HeaderVersion, ''v1''),
      (canonical_key True HeaderTimestamp, Itoa (unix_seconds now)),
      (canonical_key True HeaderEventID, we_EventID delivery),
      (canonical_key True HeaderKeyID, we_KeyID delivery),
      (canonical_key True HeaderSignature, Sign hmac secret now (we_EventID delivery) (we_CanonicalBody delivery))]"


section \<open>Outcomes\<close>

definition attempt_result :: "WebhookDelivery \<Rightarrow> AttemptResult" where
  "attempt_result delivery =
     \<lparr> ar_TenantID = we_TenantID delivery, ar_DeliveryID = we_DeliveryID delivery, ar_Attempt = int (we_Attempt delivery),
       ar_OwnerID = we_OwnerID delivery, ar_ClaimToken = we_ClaimToken delivery, ar_Succeeded = False, ar_Dead = False,
       ar_StatusCode = 0, ar_SafeError = '''', ar_NextAvailableAt = None \<rparr>"

text \<open>The delay before the next attempt: what the server asked for, or a jittered backoff, each at most one hour.\<close>

definition retry_delay :: "(duration \<Rightarrow> duration) \<Rightarrow> nat \<Rightarrow> duration \<Rightarrow> duration" where
  "retry_delay jitter att retryAfter =
     (let retryAfter = (if retryAfter < 0 then 0 else retryAfter);
          retryAfter = (if maxRetryAfter < retryAfter then maxRetryAfter else retryAfter);
          backoff = second * 2 ^ min (att - 1) 10;
          j = jitter backoff;
          j = (if j < 0 \<or> maxRetryAfter < j then maxRetryAfter else j)
      in max retryAfter j)"

definition failure_result ::
  "Worker \<Rightarrow> (duration \<Rightarrow> duration) \<Rightarrow> WebhookDelivery \<Rightarrow> instant \<Rightarrow> int \<Rightarrow> string \<Rightarrow> duration \<Rightarrow> AttemptResult" where
  "failure_result w jitter delivery now statusCode safeError retryAfter =
     (let dead = wk_maxAttempts w \<le> int (we_Attempt delivery) in
      (attempt_result delivery) \<lparr> ar_Dead := dead, ar_StatusCode := statusCode, ar_SafeError := safeError,
        ar_NextAvailableAt := (if dead then None else Some (now + micros (retry_delay jitter (we_Attempt delivery) retryAfter))) \<rparr>)"

definition complete_call ::
  "'z delivery_db_scheme hook_env \<Rightarrow> nat \<Rightarrow> AttemptResult \<Rightarrow> 'z delivery_db_scheme \<Rightarrow> goerror \<times> 'z delivery_db_scheme" where
  "complete_call env n r db = CompleteAttempt (hk_fault env n) (hk_now env n) (hk_wall env) (hk_newID env) r (hk_between env n db)"

definition completeFailureWithRetryAfter ::
  "Worker \<Rightarrow> 'z delivery_db_scheme hook_env \<Rightarrow> nat \<Rightarrow> WebhookDelivery \<Rightarrow> int \<Rightarrow> string \<Rightarrow> duration \<Rightarrow> 'z delivery_db_scheme
   \<Rightarrow> goerror \<times> 'z delivery_db_scheme" where
  "completeFailureWithRetryAfter w env n delivery statusCode safeError retryAfter db =
     complete_call env n (failure_result w (hk_jitter env) delivery (hk_wall env) statusCode safeError retryAfter) db"

definition completeFailure ::
  "Worker \<Rightarrow> 'z delivery_db_scheme hook_env \<Rightarrow> nat \<Rightarrow> WebhookDelivery \<Rightarrow> int \<Rightarrow> string \<Rightarrow> 'z delivery_db_scheme \<Rightarrow> goerror \<times> 'z delivery_db_scheme" where
  "completeFailure w env n delivery statusCode safeError db = completeFailureWithRetryAfter w env n delivery statusCode safeError 0 db"

section \<open>An attempt\<close>

fun renewClaim :: "WebhookDelivery \<Rightarrow> 'z delivery_db_scheme renew_tick list \<Rightarrow> 'z delivery_db_scheme \<Rightarrow> goerror \<times> 'z delivery_db_scheme" where
  "renewClaim delivery [] db = (None, db)"
| "renewClaim delivery (tick # ticks) db =
     (case RenewClaim (rt_fault tick) (rt_now tick) (we_TenantID delivery) (we_DeliveryID delivery) (we_OwnerID delivery)
             (we_ClaimToken delivery) (rt_before tick db) of
        (Inl e, db') \<Rightarrow> (Some e, db')
      | (Inr False, db') \<Rightarrow> (Some (Sentinel ErrWebhookClaimLost), db')
      | (Inr True, db') \<Rightarrow> renewClaim delivery ticks db')"

definition secret_scope :: "tenant_id \<Rightarrow> string \<Rightarrow> Scope" where
  "secret_scope tenantID endpointID = \<lparr> scope_TenantID = tenantID, scope_ConnectionID = endpointID, scope_Provider = ''webhook'' \<rparr>"

definition attempt_request :: "(string \<Rightarrow> string \<Rightarrow> string) \<Rightarrow> string \<Rightarrow> instant \<Rightarrow> WebhookDelivery \<Rightarrow> HookRequest" where
  "attempt_request hmac secret now delivery =
     \<lparr> rq_Destination = we_Destination delivery, rq_Headers = attempt_headers hmac secret now delivery, rq_Body = we_CanonicalBody delivery \<rparr>"

definition attempt_outcome :: "Worker \<Rightarrow> 'z delivery_db_scheme hook_env \<Rightarrow> WebhookDelivery \<Rightarrow> HTTPResult result \<Rightarrow> AttemptResult" where
  "attempt_outcome w env delivery result =
     (case result of
        Inl _ \<Rightarrow> failure_result w (hk_jitter env) delivery (hk_wall env) 0 ''delivery failed'' 0
      | Inr r \<Rightarrow>
          if 200 \<le> hr_StatusCode r \<and> hr_StatusCode r < 300
          then (attempt_result delivery) \<lparr> ar_Succeeded := True, ar_StatusCode := hr_StatusCode r \<rparr>
          else failure_result w (hk_jitter env) delivery (hk_wall env) (hr_StatusCode r)
                 (''webhook returned HTTP '' @ Itoa (hr_StatusCode r)) (hr_RetryAfter r))"

text \<open>The error, the request that was sent, if any, and the database.\<close>

definition attempt ::
  "Worker \<Rightarrow> 'z delivery_db_scheme hook_env \<Rightarrow> WebhookDelivery \<Rightarrow> 'z delivery_db_scheme
   \<Rightarrow> goerror \<times> HookRequest option \<times> 'z delivery_db_scheme" where
  "attempt w env delivery db =
     (case hk_open env (secret_scope (we_TenantID delivery) (we_EndpointID delivery)) (we_Secret delivery) of
        Inl _ \<Rightarrow> (let (e, db') = completeFailure w env 0 delivery 0 ''secret unavailable'' db in (e, None, db'))
      | Inr secret \<Rightarrow>
          (case AdmitClaim (hk_fault env 0) (hk_now env 0) delivery (hk_between env 0 db) of
             (Inl e, db1) \<Rightarrow> (Some e, None, db1)
           | (Inr False, db1) \<Rightarrow> (Some (Sentinel ErrWebhookClaimLost), None, db1)
           | (Inr True, db1) \<Rightarrow>
               (let request = attempt_request (hk_hmac env) secret (hk_wall env) delivery
                in case renewClaim delivery (hk_ticks env) db1 of
                     (Some renewErr, db2) \<Rightarrow> (Some renewErr, Some request, db2)
                   | (None, db2) \<Rightarrow>
                       (let (e, db3) = complete_call env 1 (attempt_outcome w env delivery (hk_deliver env request)) db2
                        in (e, Some request, db3)))))"

section \<open>Batches\<close>



section \<open>Attempts are runs of the store\<close>


definition hook_run :: "(string \<Rightarrow> 'k::linorder) \<Rightarrow> admission list \<Rightarrow> 'z delivery_db_scheme \<Rightarrow> 'z delivery_db_scheme \<Rightarrow> bool" where
  "hook_run collate as db db' \<longleftrightarrow> (\<exists>ls. labelled_run (delivery_step collate) db ls db' \<and> subseq as ls)"






lemma hook_run_forget: "hook_run collate as a b \<Longrightarrow> hook_run collate [] a b"
  unfolding hook_run_def by auto





lemma attempt_cases:
  assumes "attempt w env delivery db = (e, posted, db')"
  obtains (Sealed) x where "posted = None" "hk_open env (secret_scope (we_TenantID delivery) (we_EndpointID delivery)) (we_Secret delivery) = Inl x"
      "completeFailure w env 0 delivery 0 ''secret unavailable'' db = (e, db')"
  | (Refused) r where "posted = None" "AdmitClaim (hk_fault env 0) (hk_now env 0) delivery (hk_between env 0 db) = (r, db')" "r \<noteq> Inr True" "e \<noteq> None"
  | (Lost) secret db1 x where "hk_open env (secret_scope (we_TenantID delivery) (we_EndpointID delivery)) (we_Secret delivery) = Inr secret"
      "AdmitClaim (hk_fault env 0) (hk_now env 0) delivery (hk_between env 0 db) = (Inr True, db1)"
      "posted = Some (attempt_request (hk_hmac env) secret (hk_wall env) delivery)" "renewClaim delivery (hk_ticks env) db1 = (Some x, db')" "e = Some x"
  | (Answered) secret db1 db2 where "hk_open env (secret_scope (we_TenantID delivery) (we_EndpointID delivery)) (we_Secret delivery) = Inr secret"
      "AdmitClaim (hk_fault env 0) (hk_now env 0) delivery (hk_between env 0 db) = (Inr True, db1)"
      "posted = Some (attempt_request (hk_hmac env) secret (hk_wall env) delivery)" "renewClaim delivery (hk_ticks env) db1 = (None, db2)"
      "complete_call env 1 (attempt_outcome w env delivery (hk_deliver env (attempt_request (hk_hmac env) secret (hk_wall env) delivery))) db2 = (e, db')"
proof (cases "hk_open env (secret_scope (we_TenantID delivery) (we_EndpointID delivery)) (we_Secret delivery)")
  case (Inl x)
  then show ?thesis using assms Sealed unfolding attempt_def by (auto split: prod.splits)
next
  case (Inr secret)
  obtain r db1 where r: "AdmitClaim (hk_fault env 0) (hk_now env 0) delivery (hk_between env 0 db) = (r, db1)" by fastforce
  show ?thesis
  proof (cases "r = Inr True")
    case False
    then show ?thesis using assms r Inr Refused unfolding attempt_def by (auto split: sum.splits bool.splits)
  next
    case True
    obtain re db2 where re: "renewClaim delivery (hk_ticks env) db1 = (re, db2)" by fastforce
    show ?thesis
    proof (cases re)
      case None
      then show ?thesis using assms r Inr True re Answered unfolding attempt_def Let_def by (auto split: prod.splits)
    next
      case (Some x)
      then show ?thesis using assms r Inr True re Lost unfolding attempt_def Let_def by auto
    qed
  qed
qed







section \<open>What an attempt records\<close>

lemma retry_delay_bounds: "0 \<le> retry_delay jitter att ra \<and> retry_delay jitter att ra \<le> maxRetryAfter \<and> min ra maxRetryAfter \<le> retry_delay jitter att ra"
  by (auto simp: retry_delay_def Let_def maxRetryAfter_def)

lemma failure_flags [simp]:
  "ar_Succeeded (failure_result w jitter delivery now code safe ra) = False"
  "ar_Dead (failure_result w jitter delivery now code safe ra) = (wk_maxAttempts w \<le> int (we_Attempt delivery))"
  "ar_TenantID (failure_result w jitter delivery now code safe ra) = we_TenantID delivery"
  "ar_DeliveryID (failure_result w jitter delivery now code safe ra) = we_DeliveryID delivery"
  by (simp_all add: failure_result_def attempt_result_def Let_def)

definition answered_ok :: "HTTPResult result \<Rightarrow> bool" where
  "answered_ok result = (case result of Inl _ \<Rightarrow> False | Inr r \<Rightarrow> 200 \<le> hr_StatusCode r \<and> hr_StatusCode r < 300)"

lemma outcome_key [simp]:
  "ar_TenantID (attempt_outcome w env delivery result) = we_TenantID delivery"
  "ar_DeliveryID (attempt_outcome w env delivery result) = we_DeliveryID delivery"
  "ar_Succeeded (attempt_outcome w env delivery result) = answered_ok result"
  "ar_Dead (attempt_outcome w env delivery result) = (\<not> answered_ok result \<and> wk_maxAttempts w \<le> int (we_Attempt delivery))"
  by (auto simp: attempt_outcome_def answered_ok_def attempt_result_def split: sum.splits)

lemma micros_mono: "0 \<le> a \<Longrightarrow> a \<le> b \<Longrightarrow> 0 \<le> micros a \<and> micros a \<le> micros b"
  by (simp add: micros_def zdiv_mono1 pos_imp_zdiv_nonneg_iff)

lemma outcome_next:
  assumes "\<not> answered_ok result" "int (we_Attempt delivery) < wk_maxAttempts w"
  shows "\<exists>at. ar_NextAvailableAt (attempt_outcome w env delivery result) = Some at \<and> hk_wall env \<le> at \<and> at \<le> hk_wall env + micros maxRetryAfter"
proof -
  have "0 \<le> micros (retry_delay (hk_jitter env) (we_Attempt delivery) ra) \<and> micros (retry_delay (hk_jitter env) (we_Attempt delivery) ra) \<le> micros maxRetryAfter" for ra
    using retry_delay_bounds [of "hk_jitter env" "we_Attempt delivery" ra] micros_mono by blast
  then show ?thesis using assms by (auto simp: attempt_outcome_def answered_ok_def failure_result_def Let_def split: sum.splits)
qed

text \<open>
  C12. An attempt that returns without error has recorded its outcome. If the endpoint is still
  active, a response between 200 and 299 makes the delivery succeeded; any other response, or a
  failed request, makes it dead with a dead letter when the attempts of its cycle are used up, and
  otherwise pending, to be tried again between now and one hour from now.
\<close>

theorem attempt_records_outcome:
  assumes "attempt w env delivery db = (None, Some request, db')" "k = (we_TenantID delivery, we_DeliveryID delivery)"
  shows "\<exists>d. delivery_of db' k = Some d \<and> wd_claimed_by d = None \<and> (endpoint_active db' (fst k) (wd_endpoint d) \<longrightarrow>
    (if answered_ok (hk_deliver env request) then wd_state d = DeliverySucceeded
     else if wk_maxAttempts w \<le> int (we_Attempt delivery) then wd_state d = DeliveryDead \<and> has_letter db' k
     else wd_state d = DeliveryPending \<and> hk_wall env \<le> wd_available d \<and> wd_available d \<le> hk_wall env + micros maxRetryAfter))"
  using assms(1)
proof (cases rule: attempt_cases)
  case (Answered secret db1 db2)
  let ?result = "hk_deliver env request"
  let ?r = "attempt_outcome w env delivery ?result"
  have q: "attempt_request (hk_hmac env) secret (hk_wall env) delivery = request" using Answered(3) by simp
  have c: "CompleteAttempt (hk_fault env 1) (hk_now env 1) (hk_wall env) (hk_newID env) ?r (hk_between env 1 db2) = (None, db')"
    using Answered(5) unfolding q complete_call_def .
  obtain nextAt where n: "complete_attempt (hk_now env 1) nextAt (hk_newID env) ?r (hk_between env 1 db2) = Inr (True, db')"
    "nextAt = (case ar_NextAvailableAt ?r of None \<Rightarrow> hk_wall env | Some at \<Rightarrow> at)" using c by (rule Complete_shape) simp
  obtain d e where d: "delivery_of (hk_between env 1 db2) k = Some d" "endpoint_of (hk_between env 1 db2) (fst k, wd_endpoint d) = Some e"
    and u: "db_deliveries db' = update_where (\<lambda>k' _. k' = k) (settle_delivery (hk_now env 1) nextAt ?r (ep_active e)) (db_deliveries (hk_between env 1 db2))"
    and p: "db_endpoints db' = db_endpoints (hk_between env 1 db2)" and l: "ar_Dead ?r \<Longrightarrow> has_letter db' k"
    using n(1) by (rule complete_shape) (use assms(2) in simp)
  let ?d = "settle_delivery (hk_now env 1) nextAt ?r (ep_active e) d"
  have "delivery_of db' k = Some ?d" using u d(1) by (simp add: delivery_of_def)
  moreover have "wd_endpoint ?d = wd_endpoint d" "wd_claimed_by ?d = None" by (simp_all add: settle_delivery_def Let_def)
  moreover have "ep_active e" if "endpoint_active db' (fst k) (wd_endpoint d)"
    using that d(2) p by (simp add: endpoint_active_def endpoint_of_def)
  moreover have "hk_wall env \<le> nextAt \<and> nextAt \<le> hk_wall env + micros maxRetryAfter"
    if "\<not> answered_ok ?result" "\<not> wk_maxAttempts w \<le> int (we_Attempt delivery)"
    using outcome_next [OF that(1), of delivery w env] that(2) n(2) by auto
  ultimately show ?thesis using l by (auto simp: settle_delivery_def settled_state_def Let_def)
qed auto

section \<open>An example\<close>

definition demo_worker :: Worker where
  "demo_worker = \<lparr> wk_ownerID = ''w1'', wk_tenantID = ''t1'', wk_maxConcurrent = 4, wk_maxAttempts = 8, wk_claimLimit = 5, wk_renewInterval = 10 * second \<rparr>"

definition demo_hook_env :: "int \<Rightarrow> delivery_db hook_env" where
  "demo_hook_env code = \<lparr> hk_wall = 11, hk_open = (\<lambda>_ _. Inr ''secret''), hk_hmac = demo_hmac, hk_jitter = (\<lambda>d. d), hk_fault = (\<lambda>_. NoFault),
     hk_now = (\<lambda>n. 11 + int n), hk_between = (\<lambda>_ db. db), hk_ticks = [],
     hk_deliver = (\<lambda>_. Inr \<lparr> hr_StatusCode = code, hr_RetryAfter = 0 \<rparr>), hk_newID = ''q1'' \<rparr>"





definition demo_attempted :: "goerror \<times> HookRequest option \<times> delivery_db" where
  "demo_attempted = attempt demo_worker (demo_hook_env 500) (demo_handed 1) (snd (demo_claim 10 demo_hooks))"

lemma demo_attempted_ok: "fst demo_attempted = None" "fst (snd demo_attempted) \<noteq> None"
  "map_option wd_endpoint (delivery_of (snd (snd demo_attempted)) (''t1'', ''p1:e1'')) = Some ''p1''"
  "endpoint_active (snd (snd demo_attempted)) ''t1'' ''p1''"
  by code_simp+

theorem attempt_records_outcome_witness:
  "\<exists>d. delivery_of (snd (snd demo_attempted)) (''t1'', ''p1:e1'') = Some d \<and> wd_state d = DeliveryPending
     \<and> 11 \<le> wd_available d \<and> wd_available d \<le> 11 + micros maxRetryAfter"
proof -
  obtain rq where "attempt demo_worker (demo_hook_env 500) (demo_handed 1) (snd (demo_claim 10 demo_hooks)) = (None, Some rq, snd (snd demo_attempted))"
    using demo_attempted_ok(1,2) unfolding demo_attempted_def by (metis not_None_eq prod.collapse)
  from attempt_records_outcome [OF this refl] show ?thesis using demo_attempted_ok(3,4)
    by (auto simp: demo_handed_def demo_worker_def demo_hook_env_def answered_ok_def)
qed

end
