(* ===== verification/Webhook_Endpoints.thy ===== *)
theory Webhook_Endpoints
  imports Webhook_Worker Messaging_Service Session_Vault
begin

text \<open>
  The endpoint service of \<^verbatim>\<open>webhook/endpoints.go\<close> and the delivery over HTTP of \<^verbatim>\<open>webhook/http.go\<close>.
  Parsing of URLs and HTTP dates, the destination guard and the HTTP client are parameters.
\<close>

section \<open>Retry-After\<close>

text \<open>\<^verbatim>\<open>strconv.ParseInt(s, 10, 64)\<close>.\<close>

definition is_digit :: "char \<Rightarrow> bool" where
  "is_digit c = (48 \<le> byte_of c \<and> byte_of c \<le> 57)"

definition ParseInt64 :: "string \<Rightarrow> int option" where
  "ParseInt64 s =
     (let (neg, digits) = (case s of c # rest \<Rightarrow> if c = CHR ''-'' then (True, rest) else if c = CHR ''+'' then (False, rest) else (False, s)
                           | [] \<Rightarrow> (False, s))
      in if digits = [] \<or> \<not> list_all is_digit digits then None
         else let v = (if neg then - int (dec_value digits) else int (dec_value digits))
              in if - (2 ^ 63) \<le> v \<and> v < 2 ^ 63 then Some v else None)"

definition parseRetryAfter :: "(string \<Rightarrow> instant option) \<Rightarrow> string \<Rightarrow> instant \<Rightarrow> duration" where
  "parseRetryAfter parseTime value now =
     (let value = TrimSpace value in
      if value = '''' then 0
      else case ParseInt64 value of
        Some seconds \<Rightarrow>
          if seconds \<le> 0 then 0
          else if go_div maxRetryAfter second \<le> seconds then maxRetryAfter
          else wrap64 (seconds * second)
      | None \<Rightarrow>
          (case parseTime value of
             None \<Rightarrow> 0
           | Some at \<Rightarrow> if at \<le> now then 0 else min ((at - now) * 1000) maxRetryAfter))"

lemma parseRetryAfter_bounds: "0 \<le> parseRetryAfter parseTime value now \<and> parseRetryAfter parseTime value now \<le> maxRetryAfter"
proof -
  have "wrap64 (s * second) = s * second" if "0 < s" "s < 3600" for s :: int
    using that by (intro wrap64_id) simp_all
  then show ?thesis
    by (auto simp: parseRetryAfter_def Let_def maxRetryAfter_def split: option.splits)
qed

section \<open>Delivery over HTTP\<close>

record HTTPResponse =
  hp_StatusCode :: int
  hp_RetryAfter :: string

definition Deliver ::
  "(string \<Rightarrow> bool) \<Rightarrow> (HookRequest \<Rightarrow> HTTPResponse result) \<Rightarrow> (string \<Rightarrow> instant option) \<Rightarrow> instant \<Rightarrow> HookRequest \<Rightarrow> HTTPResult result" where
  "Deliver clientFor exchange parseTime now request =
     (if \<not> clientFor (rq_Destination request) then Inl (Sentinel ErrUnsafeDestination)
      else bind_res (exchange (request \<lparr> rq_Headers := rq_Headers request
             @ [(''Content-Type'', ''application/json''), (''User-Agent'', ''SirenaIX-Webhook/1'')] \<rparr>)) (\<lambda>response.
        Inr \<lparr> hr_StatusCode = hp_StatusCode response, hr_RetryAfter = parseRetryAfter parseTime (hp_RetryAfter response) now \<rparr>))"

section \<open>Endpoints\<close>

definition DefaultMaxEndpointsPerTenant :: int where
  "DefaultMaxEndpointsPerTenant = 32"

record EndpointService =
  es_rotationGrace :: duration
  es_maxEndpoints :: int

definition NewEndpointService :: "bool \<Rightarrow> EndpointService \<Rightarrow> EndpointService result" where
  "NewEndpointService dependencies config =
     (if \<not> dependencies then Inl (Sentinel ErrInvalidEndpoint)
      else let s = \<lparr> es_rotationGrace = or_default (es_rotationGrace config) (24 * 3600 * second),
                     es_maxEndpoints = or_default (es_maxEndpoints config) DefaultMaxEndpointsPerTenant \<rparr>
           in if es_rotationGrace s < 0 \<or> 7 * 24 * 3600 * second < es_rotationGrace s
                 \<or> es_maxEndpoints s < 1 \<or> MaxEndpointsPerTenant < es_maxEndpoints s
              then Inl (Sentinel ErrInvalidEndpoint) else Inr s)"

record parsed_url =
  pu_Scheme :: string
  pu_Hostname :: string
  pu_HasUser :: bool
  pu_Fragment :: string

record endpoint_call =
  sn_fault :: fault
  sn_now :: instant
  sn_newID :: "nat \<Rightarrow> string"
  sn_random :: string
  sn_seal :: "Scope \<Rightarrow> string \<Rightarrow> Envelope result"
  sn_clientFor :: "string \<Rightarrow> bool"
  sn_parse :: "string \<Rightarrow> parsed_url option"

definition validDestinationSyntax :: "(string \<Rightarrow> parsed_url option) \<Rightarrow> string \<Rightarrow> bool" where
  "validDestinationSyntax parse destination =
     (if TrimSpace destination \<noteq> destination \<or> 2048 < length destination then False
      else case parse destination of
        None \<Rightarrow> False
      | Some u \<Rightarrow> pu_Scheme u = ''https'' \<and> pu_Hostname u \<noteq> '''' \<and> \<not> pu_HasUser u \<and> pu_Fragment u = '''')"

definition secretSize :: nat where
  "secretSize = 32"

definition generateSecret :: "endpoint_call \<Rightarrow> tenant_id \<Rightarrow> string \<Rightarrow> (Envelope \<times> string) result" where
  "generateSecret call tenantID endpointID =
     (case ReadFull secretSize (sn_random call) of
        None \<Rightarrow> Inl (Opaque ''unexpected EOF'')
      | Some secret \<Rightarrow>
          bind_res (sn_seal call (secret_scope tenantID endpointID) secret) (\<lambda>envelope. Inr (envelope, b64_encode secret)))"

record CreatedEndpoint =
  ct_Endpoint :: Endpoint
  ct_Secret :: string

definition Endpoint_Create ::
  "EndpointService \<Rightarrow> endpoint_call \<Rightarrow> tenant_id \<Rightarrow> string \<Rightarrow> 'z delivery_db_scheme \<Rightarrow> CreatedEndpoint result \<times> 'z delivery_db_scheme" where
  "Endpoint_Create s call tenantID destination db =
     (if tenantID = '''' \<or> \<not> validDestinationSyntax (sn_parse call) destination then (Inl (Sentinel ErrInvalidEndpoint), db)
      else if \<not> sn_clientFor call destination then (Inl (Sentinel ErrUnsafeDestination), db)
      else let endpointID = sn_newID call 0; keyID = sn_newID call 1 in
        if endpointID = '''' \<or> keyID = '''' \<or> endpointID = keyID then (Inl (Sentinel ErrInvalidEndpoint), db)
        else case generateSecret call tenantID endpointID of
          Inl e \<Rightarrow> (Inl e, db)
        | Inr (envelope, encoded) \<Rightarrow>
            (let endpoint = \<lparr> en_ID = endpointID, en_TenantID = tenantID, en_Destination = destination, en_KeyID = keyID,
                   en_Active = True, en_CreatedAt = sn_now call \<rparr>
             in case CreateEndpoint (sn_fault call) \<lparr> eo_Endpoint = endpoint, eo_Secret = envelope \<rparr> (es_maxEndpoints s) db of
                  (Some e, db') \<Rightarrow> (Inl e, db')
                | (None, db') \<Rightarrow> (Inr \<lparr> ct_Endpoint = endpoint, ct_Secret = encoded \<rparr>, db')))"

definition Endpoint_Rotate ::
  "EndpointService \<Rightarrow> endpoint_call \<Rightarrow> tenant_id \<Rightarrow> string \<Rightarrow> 'z delivery_db_scheme \<Rightarrow> string result \<times> 'z delivery_db_scheme" where
  "Endpoint_Rotate s call tenantID endpointID db =
     (if tenantID = '''' \<or> endpointID = '''' \<or> sn_newID call 0 = '''' then (Inl (Sentinel ErrInvalidEndpoint), db)
      else case generateSecret call tenantID endpointID of
        Inl e \<Rightarrow> (Inl e, db)
      | Inr (envelope, encoded) \<Rightarrow>
          (case RotateEndpoint (sn_fault call) \<lparr> ero_TenantID = tenantID, ero_EndpointID = endpointID, ero_KeyID = sn_newID call 0,
                  ero_Secret = envelope, ero_PreviousValidUntil = Some (sn_now call + micros (es_rotationGrace s)) \<rparr> db of
             (Some e, db') \<Rightarrow> (Inl e, db')
           | (None, db') \<Rightarrow> (Inr encoded, db')))"

definition Endpoint_List ::
  "(string \<Rightarrow> 'k::linorder) \<Rightarrow> fault \<Rightarrow> tenant_id \<Rightarrow> string \<Rightarrow> int \<Rightarrow> 'z delivery_db_scheme \<Rightarrow> EndpointPage result \<times> 'z delivery_db_scheme" where
  "Endpoint_List collate f tenantID after limit db =
     (if tenantID = '''' \<or> limit < 1 \<or> 200 < limit \<or> 256 < length after then (Inl (Sentinel ErrInvalidEndpoint), db)
      else case ListEndpoints collate f tenantID after limit db of
        (Inl e, db') \<Rightarrow> (Inl e, db')
      | (Inr page, db') \<Rightarrow>
          if list_ex (\<lambda>endpoint. en_TenantID endpoint \<noteq> tenantID) (eg_Endpoints page)
          then (Inl (Opaque ''webhook store returned a cross-tenant endpoint''), db') else (Inr page, db'))"

definition Endpoint_Delete :: "fault \<Rightarrow> instant \<Rightarrow> tenant_id \<Rightarrow> string \<Rightarrow> 'z delivery_db_scheme \<Rightarrow> bool result \<times> 'z delivery_db_scheme" where
  "Endpoint_Delete f now tenantID endpointID db =
     (if tenantID = '''' \<or> endpointID = '''' then (Inl (Sentinel ErrInvalidEndpoint), db) else DeleteEndpoint f now tenantID endpointID db)"

definition Endpoint_Replay :: "fault \<Rightarrow> instant \<Rightarrow> tenant_id \<Rightarrow> string \<Rightarrow> 'z delivery_db_scheme \<Rightarrow> goerror \<times> 'z delivery_db_scheme" where
  "Endpoint_Replay f now tenantID dlqID db =
     (if tenantID = '''' \<or> dlqID = '''' then (Some (Sentinel ErrInvalidEndpoint), db) else ReplayDLQ f now tenantID dlqID db)"

section \<open>The secret of an endpoint\<close>

lemma Claim_hands_secret:
  assumes "Claim collate f now t ow limit db = (Inr ds, db')" "dl \<in> set ds"
  shows "\<exists>e. endpoint_of db (we_TenantID dl, we_EndpointID dl) = Some e
    \<and> we_Secret dl = \<lparr> env_Revision = 0, env_Version = 1, env_Provider = ''webhook'', env_Ciphertext = sec_ciphertext (ep_secret e),
          env_WrappedDEK = sec_wrapped_dek (ep_secret e), env_Nonce = sec_nonce (ep_secret e), env_KeyID = sec_key_id (ep_secret e),
          env_KeyVersion = sec_key_version (ep_secret e) \<rparr>"
proof -
  have pass: "\<exists>e. endpoint_of s (we_TenantID dl, we_EndpointID dl) = Some e
      \<and> we_Secret dl = \<lparr> env_Revision = 0, env_Version = 1, env_Provider = ''webhook'', env_Ciphertext = sec_ciphertext (ep_secret e),
          env_WrappedDEK = sec_wrapped_dek (ep_secret e), env_Nonce = sec_nonce (ep_secret e), env_KeyID = sec_key_id (ep_secret e),
          env_KeyVersion = sec_key_version (ep_secret e) \<rparr>"
    if "claim_pass collate now t ow (nat limit) s = Inr (ds, s')" for s s'
    using assms(2) unfolding claim_pass_shape(4) [OF that] by (auto simp: claimed_delivery_def split: option.splits if_splits dest!: sym [of "Some _"])
  have "(\<exists>s'. claim_pass collate now t ow (nat limit) db = Inr (ds, s'))
      \<or> (\<exists>db1 s'. claim_pass collate now t ow (nat limit) db = Inr ([], db1) \<and> claim_pass collate now t ow (nat limit) db1 = Inr (ds, s'))"
    using assms(1) by (auto simp: Claim_def inTenant_def split: if_splits fault.splits sum.splits)
  then show ?thesis
  proof (elim disjE exE conjE)
    fix db1 s' assume c: "claim_pass collate now t ow (nat limit) db = Inr ([], db1)" "claim_pass collate now t ow (nat limit) db1 = Inr (ds, s')"
    show ?thesis using pass [OF c(2)] by (auto simp: endpoint_of_def claim_pass_rows(1) [OF c(1)])
  qed (rule pass)
qed

lemma Endpoint_Create_row:
  assumes "Endpoint_Create s call t destination db = (Inr created, db')"
  obtains secret envelope e where "ReadFull secretSize (sn_random call) = Some secret" "sn_seal call (secret_scope t (en_ID (ct_Endpoint created))) secret = Inr envelope"
    "ct_Secret created = b64_encode secret" "endpoint_of db' (t, en_ID (ct_Endpoint created)) = Some e" "ep_secret e = secret_columns envelope"
proof -
  define i where "i = sn_newID call 0"
  obtain envelope encoded where g: "generateSecret call t i = Inr (envelope, encoded)"
    using assms unfolding Endpoint_Create_def Let_def i_def by (auto split: if_splits sum.splits)
  obtain rcd where c: "CreateEndpoint (sn_fault call) rcd (es_maxEndpoints s) db = (None, db')" "eo_Endpoint rcd = ct_Endpoint created"
    "eo_Secret rcd = envelope" "en_TenantID (ct_Endpoint created) = t" "en_ID (ct_Endpoint created) = i" "ct_Secret created = encoded"
    using assms g unfolding Endpoint_Create_def Let_def i_def by (auto split: if_splits prod.splits option.splits)
  have "endpoint_of db (t, i) = None" "db_endpoints db' = db_endpoints db @ [((t, i), new_endpoint rcd)]"
    using c unfolding CreateEndpoint_def Let_def
    by (force split: if_splits dest!: inTenantExec_ok simp: endpoint_taken_def list_ex_iff endpoint_of_def map_of_eq_None_iff)+
  then have e: "endpoint_of db' (t, i) = Some (new_endpoint rcd)" by (simp add: endpoint_of_def map_add_def)
  obtain secret where "ReadFull secretSize (sn_random call) = Some secret" "sn_seal call (secret_scope t i) secret = Inr envelope" "encoded = b64_encode secret"
    using g by (auto simp: generateSecret_def bind_res_Inr split: option.splits)
  then show ?thesis using that e c by (auto simp: new_endpoint_def)
qed

text \<open>
  C25. A delivery is signed with the secret the tenant was given. The worker that claims a delivery to
  an endpoint opens, under the scope of that tenant and endpoint, exactly the secret whose encoding
  the creation of the endpoint returned, as long as the endpoint row still holds that secret; for
  every block cipher and every key wrapper that unwraps what it wrapped.
\<close>

theorem webhook_secret_roundtrip:
  assumes "key_wrapper w" "sn_seal call = (\<lambda>scope p. Manager_Seal g w scope p rnd)"
    "Endpoint_Create s call t destination db = (Inr created, db1)"
    "map_option ep_secret (endpoint_of db2 (t, en_ID (ct_Endpoint created))) = map_option ep_secret (endpoint_of db1 (t, en_ID (ct_Endpoint created)))"
    "Claim collate f now t ow limit db2 = (Inr ds, db3)" "dl \<in> set ds" "we_TenantID dl = t" "we_EndpointID dl = en_ID (ct_Endpoint created)"
  shows "\<exists>secret. ReadFull secretSize (sn_random call) = Some secret \<and> ct_Secret created = b64_encode secret
    \<and> Manager_Open g w (secret_scope (we_TenantID dl) (we_EndpointID dl)) (we_Secret dl) = Inr secret"
proof -
  obtain secret envelope e where r: "ReadFull secretSize (sn_random call) = Some secret" and c: "Manager_Seal g w (secret_scope t (en_ID (ct_Endpoint created))) secret rnd = Inr envelope"
    "ct_Secret created = b64_encode secret" "endpoint_of db1 (t, en_ID (ct_Endpoint created)) = Some e" "ep_secret e = secret_columns envelope"
    using assms(3) by (rule Endpoint_Create_row) (simp add: assms(2))
  have "env_Revision envelope = 0 \<and> env_Version envelope = 1 \<and> env_Provider envelope = ''webhook''"
    using c(1) by (auto simp: Manager_Seal_def Let_def secret_scope_def split: if_splits option.splits sum.splits)
  then have "envelope \<lparr> env_Revision := 0 \<rparr> = envelope" "we_Secret dl = envelope"
    using Claim_hands_secret [OF assms(5,6)] assms(4,7,8) c(3,4) by (auto simp: secret_columns_def)
  then show ?thesis using key_wrapper.open_Seal [OF assms(1) c(1), of 0] c(2) r assms(7,8) by simp
qed

definition demo_endpoint_call :: endpoint_call where
  "demo_endpoint_call = \<lparr> sn_fault = NoFault, sn_now = 5, sn_newID = (\<lambda>i. if i = 0 then ''p2'' else ''k2''), sn_random = replicate 32 (CHR ''s''),
     sn_seal = (\<lambda>scope p. Manager_Seal demo_suite (awskms (demo_kms 2)) scope p demo_random), sn_clientFor = (\<lambda>_. True),
     sn_parse = (\<lambda>_. Some \<lparr> pu_Scheme = ''https'', pu_Hostname = ''b'', pu_HasUser = False, pu_Fragment = '''' \<rparr>) \<rparr>"

definition demo_service :: EndpointService where
  "demo_service = \<lparr> es_rotationGrace = 0, es_maxEndpoints = 32 \<rparr>"

definition demo_record :: "Envelope \<Rightarrow> EndpointRecord" where
  "demo_record envelope = \<lparr> eo_Endpoint = \<lparr> en_ID = ''p2'', en_TenantID = ''t1'', en_Destination = ''https://b'', en_KeyID = ''k2'',
     en_Active = True, en_CreatedAt = 5 \<rparr>, eo_Secret = envelope \<rparr>"

definition demo_unhooked :: delivery_db where
  "demo_unhooked = demo_hooks \<lparr> db_endpoints := [] \<rparr>"

definition demo_registered :: "Envelope \<Rightarrow> delivery_db" where
  "demo_registered envelope = demo_unhooked \<lparr> db_endpoints := [((''t1'', ''p2''), new_endpoint (demo_record envelope))] \<rparr>"

lemma demo_secret_sealed:
  "\<exists>envelope. Manager_Seal demo_suite (awskms (demo_kms 2)) (secret_scope ''t1'' ''p2'') (replicate 32 (CHR ''s'')) demo_random = Inr envelope
     \<and> Envelope_Validate envelope = None \<and> env_Provider envelope = ''webhook''"
  by (simp add: demo_vault_defs secret_scope_def)

lemma demo_create:
  "\<exists>created envelope. Endpoint_Create demo_service demo_endpoint_call ''t1'' ''https://b'' demo_unhooked = (Inr created, demo_registered envelope)
     \<and> en_ID (ct_Endpoint created) = ''p2''"
proof -
  obtain envelope where e: "Manager_Seal demo_suite (awskms (demo_kms 2)) (secret_scope ''t1'' ''p2'') (replicate 32 (CHR ''s'')) demo_random = Inr envelope"
    "Envelope_Validate envelope = None" "env_Provider envelope = ''webhook''"
    using demo_secret_sealed by blast
  have "TrimSpace ''https://b'' = ''https://b''" by code_simp
  then have v: "validDestinationSyntax (sn_parse demo_endpoint_call) ''https://b''" by (simp add: validDestinationSyntax_def demo_endpoint_call_def)
  have g: "generateSecret demo_endpoint_call ''t1'' ''p2'' = Inr (envelope, b64_encode (replicate 32 (CHR ''s'')))"
    using e(1) by (simp add: generateSecret_def ReadFull_def secretSize_def demo_endpoint_call_def bind_res_def del: replicate.simps b64_encode.simps)
  have "CreateEndpoint NoFault (demo_record envelope) 32 demo_unhooked = (None, demo_registered envelope)"
    using e(2,3) by (simp add: CreateEndpoint_def Let_def demo_record_def demo_registered_def inTenantExec_def active_endpoints_def endpoint_taken_def
        MaxEndpointsPerTenant_def demo_unhooked_def demo_hook_defs)
  then show ?thesis
    using v g by (intro exI [of _ "\<lparr> ct_Endpoint = eo_Endpoint (demo_record envelope), ct_Secret = b64_encode (replicate 32 (CHR ''s'')) \<rparr>"]
        exI [of _ envelope]) (simp add: Endpoint_Create_def Let_def demo_service_def demo_record_def demo_endpoint_call_def del: b64_encode.simps)
qed

lemma demo_registered_claimed:
  "case fst (demo_claim 10 (demo_registered envelope)) of Inr [dl] \<Rightarrow> we_TenantID dl = ''t1'' \<and> we_EndpointID dl = ''p2'' | _ \<Rightarrow> False"
  by code_simp

theorem webhook_secret_roundtrip_witness:
  "\<exists>created db1 dl db3 secret. Endpoint_Create demo_service demo_endpoint_call ''t1'' ''https://b'' demo_unhooked = (Inr created, db1)
     \<and> demo_claim 10 db1 = (Inr [dl], db3) \<and> ct_Secret created = b64_encode secret
     \<and> Manager_Open demo_suite (awskms (demo_kms 2)) (secret_scope (we_TenantID dl) (we_EndpointID dl)) (we_Secret dl) = Inr secret"
proof -
  obtain created envelope where c: "Endpoint_Create demo_service demo_endpoint_call ''t1'' ''https://b'' demo_unhooked = (Inr created, demo_registered envelope)"
    "en_ID (ct_Endpoint created) = ''p2''"
    using demo_create by blast
  obtain dl db3 where d: "demo_claim 10 (demo_registered envelope) = (Inr [dl], db3)" "we_TenantID dl = ''t1''" "we_EndpointID dl = ''p2''"
    using demo_registered_claimed [of envelope] by (cases "demo_claim 10 (demo_registered envelope)") (auto split: sum.splits list.splits)
  have "\<exists>secret. ReadFull secretSize (sn_random demo_endpoint_call) = Some secret \<and> ct_Secret created = b64_encode secret
    \<and> Manager_Open demo_suite (awskms (demo_kms 2)) (secret_scope (we_TenantID dl) (we_EndpointID dl)) (we_Secret dl) = Inr secret"
    using demo_kms_wrapper _ c(1) refl d(1) [unfolded demo_claim_def]
    by (rule webhook_secret_roundtrip) (simp_all add: demo_endpoint_call_def c(2) d)
  then show ?thesis using c(1) d(1) by blast
qed

end
