(* ===== verification/Spec2Isabelle.thy ===== *)
theory Spec2Isabelle
  imports Domain_Types Event_Contract Tenant_Admin Lease_Store Session_Vault Actor_Operations Actor_Sessions Actor_Health Actor_Registry Messaging_Service Dispatch_Outcome Inbox_Guarantees Webhook_Endpoints
begin

text \<open>
  A verification library of the messaging gateway, a service that connects many tenants to a
  messaging provider. All paths are below \<^verbatim>\<open>src/internal/gateway\<close>.

  \<^bold>\<open>The program.\<close> A connection of a tenant is paired with a phone, and its provider session is stored
  encrypted. One replica at a time runs an actor for the connection: it holds the lease of the
  connection, restores a provider client from the stored session and runs one provider generation
  after the other. Clients submit messages over HTTP or Kafka; the messages of one ordering key form
  a lane, and a dispatcher claims the oldest message of a lane and sends it through the actor. What
  the provider reports is committed to a durable inbox, projected to messages, conversations and
  events, and only then acknowledged. Events leave the gateway over webhooks and Kafka through
  outbox tables. All durable state is in PostgreSQL and is written by several replicas at once, so
  every write is fenced: by the fencing token of the lease, the token of the lane, the claim token
  and the generation of an endpoint, or the revision of a session.

  \<^bold>\<open>How the code is represented.\<close> A Go \<^verbatim>\<open>string\<close> or \<^verbatim>\<open>[]byte\<close> is a \<open>string\<close>; an error is a value of
  \<open>err\<close>, with \<^verbatim>\<open>errors.Is\<close>, \<^verbatim>\<open>errors.Join\<close> and wrapping as in Go; a fallible call returns \<open>err + 'a\<close>.
  Durations are integers of nanoseconds and instants integers of microseconds; where Go's \<^verbatim>\<open>int64\<close>
  can overflow, the wrap-around is written out or excluded by a lemma. The database is a record of
  tables, extended component by component: \<open>gateway_db\<close> (\<open>Repository\<close>), \<open>messaging_db\<close>
  (\<open>Message_Store\<close>), \<open>inbox_db\<close> (\<open>Inbox_Store\<close>) and \<open>delivery_db\<close> (\<open>Delivery_Store\<close>). A repository
  method is one atomic step with one clock reading, since it is one transaction that first locks the
  rows it decides on; the argument \<open>fault\<close> makes it roll back, or commit and lose the
  acknowledgement. The clock is never assumed to be monotone between methods. Code that calls several
  methods takes what the other processes do in between as an argument, and the theorems hold for
  every such interference that consists of steps of the gateway. Row-level security is the tenant
  part of every key. Unique indexes and \<^verbatim>\<open>CHECK\<close> constraints on which a modelled branch depends are
  written out; any other violation is a fault.

  \<^bold>\<open>Foundations.\<close>
  \<^item> \<open>Gateway_Prelude\<close>: names of types, integer arithmetic of Go, errors, results and shared lemmas.
  \<^item> \<open>Go_Strings\<close>: the functions of \<^verbatim>\<open>utf8\<close>, \<^verbatim>\<open>unicode\<close>, \<^verbatim>\<open>strings\<close> and \<^verbatim>\<open>encoding/binary\<close> the code calls.
  \<^item> \<open>Sorted_Limits\<close>: when the limit of a query may be pushed below a sorted union.
  \<^item> \<open>Domain_Types\<close> (\<^verbatim>\<open>domain/*.go\<close>): states, identifiers, phone numbers, contacts. Parsing of phone
    numbers is canonical; the derived state of a message never falls once it was sent.
  \<^item> \<open>Event_Contract\<close> (\<^verbatim>\<open>eventcontract/envelope.go\<close>): validation and canonical form of events, which
    is idempotent.

  \<^bold>\<open>Sessions.\<close>
  \<^item> \<open>Aead_GCM\<close>: \<^verbatim>\<open>cipher.NewGCM\<close> over any block function and any GHASH. The locale \<open>aead\<close> states that
    opening undoes sealing and is interpreted on it.
  \<^item> \<open>Session_Envelope\<close> (\<^verbatim>\<open>session/envelope.go\<close>, \<^verbatim>\<open>session/localkey\<close>, \<^verbatim>\<open>session/awskms\<close>): \<open>Manager_Seal\<close>,
    \<open>Manager_Open\<close>, \<open>Manager_Rewrap\<close> and both key wrappers. The locale \<open>key_wrapper\<close> is the contract
    of a wrapper; the round trips are proved in it and reach the code through the local wrapper. A KMS
    key identifier of more than 256 bytes is accepted by the wrapper and refused by every seal.
  \<^item> \<open>Session_Vault\<close> (\<^verbatim>\<open>session/vault.go\<close>): save, load, fenced swap and rotation over the database. A
    rotation makes at most five attempts, which is the bound of the code.

  \<^bold>\<open>Connections, leases and tenants\<close> (\<^verbatim>\<open>store/postgres\<close>).
  \<^item> \<open>Repository\<close> (\<^verbatim>\<open>db.go\<close>, \<^verbatim>\<open>types.go\<close>, migrations 0001, 0004, 0006, 0016): tables and transactions.
  \<^item> \<open>Connection_Store\<close> (\<^verbatim>\<open>connections.go\<close>): pairing, sessions, reauthorisation, lines. A paired
    session is committed with its state or not at all, with a fingerprint that no other connection of
    the tenant has; a superseded attempt writes nothing; a reauthorisation happens once. A transition
    to a paired state does not ask for a fingerprint, and the \<^verbatim>\<open>CHECK\<close> constraint lets \<^verbatim>\<open>NULL\<close> pass.
  \<^item> \<open>Tenant_Admin\<close> (\<^verbatim>\<open>tenant_admin.go\<close>): suspension fences every lease, and resuming restores every state.
  \<^item> \<open>Lease_Store\<close> (\<^verbatim>\<open>connection_actor.go\<close>): leases, health, fenced session writes. \<open>store_step\<close> lists
    the writers of leases. The locale \<open>fencing\<close> derives from the law of a single step that tokens
    never fall and never have two owners; it is interpreted on \<open>store_step\<close>. A generation whose
    token was superseded writes nothing.

  \<^bold>\<open>Connection actors\<close> (\<^verbatim>\<open>connectionactor\<close>).
  \<^item> \<open>Actor_Backoff\<close> (\<^verbatim>\<open>backoff.go\<close>): the jittered delay stays below the capped exponential without
    overflow. The locale \<open>jitter_source\<close> is interpreted on the code's source of randomness.
  \<^item> \<open>Connection_Actor\<close> (\<^verbatim>\<open>actor.go\<close>, \<^verbatim>\<open>vault_sessions.go\<close>): a run of an actor as a function of a
    schedule, the list of the channel events and select cases in the order they happen. A run is over
    when its schedule is, so there is no fuel; theorems quantify over all schedules.
  \<^item> \<open>Actor_Correct\<close>, \<open>Actor_Operations\<close>, \<open>Actor_Sessions\<close>, \<open>Actor_Health\<close>: when a generation is
    followed by another, operations are serial and answered once, generations resume the newest
    session, health records are accepted. The locale \<open>teardown_invariant\<close> carries an invariant
    through the teardown of a generation and is interpreted on the invariant of each of them.
  \<^item> \<open>Actor_Registry\<close> (\<^verbatim>\<open>pool.go\<close>, \<^verbatim>\<open>manager.go\<close>): the two registries of runs as step relations. The
    locale \<open>run_registry\<close> (one live run per connection) is interpreted on both.

  \<^bold>\<open>Messages\<close> (\<^verbatim>\<open>messaging\<close>, \<^verbatim>\<open>store/postgres/messages.go\<close>, \<^verbatim>\<open>store/postgres/dispatch.go\<close>).
  \<^item> \<open>Message_Store\<close>, \<open>Messaging_Service\<close> (\<^verbatim>\<open>service.go\<close>): creation with idempotency, audit and
    events; reading and listing; the digest of a request.
  \<^item> \<open>Dispatch_Store\<close>: claim, begin, renew, complete, release and the recovery of stale attempts.
  \<^item> \<open>Dispatch_Machine\<close>: the abstract machine of dispatches, which starts the provider I/O of a
    message at most once. The locale \<open>dispatch_contract\<close> says what it means to implement it.
  \<^item> \<open>Dispatch_Correct\<close>: every method of the message store is a move of the machine on the view
    \<open>dispatch_view\<close>, so the locale is interpreted on the store.
  \<^item> \<open>Dispatcher\<close> (\<^verbatim>\<open>dispatch.go\<close>), \<open>Dispatch_Outcome\<close>: a dispatch with its renewal goroutine. No
    message is sent twice; claims are exclusive and in order; the outcome of the send is recorded. When
    provider evidence overtakes the completion, the attempt is stranded.

  \<^bold>\<open>Inbox\<close> (\<^verbatim>\<open>ingress/service.go\<close>, \<^verbatim>\<open>store/postgres/messages.go\<close>).
  \<^item> \<open>Ingress_Projection\<close>, \<open>Inbox_Store\<close>, \<open>Ingress_Service\<close>: projections and their validation,
    \<open>CommitEnvelope\<close>, and the listing, coordination and recording of acknowledgements.
  \<^item> \<open>Inbox_Correct\<close>, \<open>Inbox_Guarantees\<close>: a response is projected once; a conflicting or withheld
    response is never acknowledged; an eligible one is durably pending; the listing of both tables
    equals its reference; at most 256 poisoned rows of 32 MiB and 256 rejections are kept per
    connection, the limits of the code.

  \<^bold>\<open>Delivery\<close> (\<^verbatim>\<open>store/postgres/delivery.go\<close>, \<^verbatim>\<open>webhook\<close>).
  \<^item> \<open>Delivery_Store\<close>, \<open>Delivery_Correct\<close>, \<open>Delivery_Guarantees\<close>: endpoints, deliveries, dead letters
    and the Kafka outbox. A deleted endpoint receives nothing more; a published event reaches every
    endpoint that stays active, or leaves a dead letter; a claim token admits one request. Revocation
    strands a delivery that waits for a retry.
  \<^item> \<open>Webhook_Signature\<close> (\<^verbatim>\<open>signature.go\<close>), \<open>Webhook_Worker\<close> (\<^verbatim>\<open>worker.go\<close>): batches and attempts.
    Every request was admitted under a fresh claim token and carries the stored body with a signature
    that verifies; the outcome is recorded.
  \<^item> \<open>Webhook_Endpoints\<close> (\<^verbatim>\<open>endpoints.go\<close>, \<^verbatim>\<open>http.go\<close>): the secret a worker signs with is the one the
    creation of the endpoint returned.

  \<^bold>\<open>Parameters.\<close> SHA-256, HMAC, the block cipher and GHASH, JSON and protobuf encoding, the time
  format, URL and HTTP date parsing, the collation of text columns, the KMS service, the provider, the
  HTTP exchange and the destination guard are arguments of the definitions that use them, as are
  random bytes and fresh identifiers. A theorem that needs a law of one of them (no collision of two
  named messages, the length of a digest) has it as a hypothesis, and its witness instantiates it.

  \<^bold>\<open>Recursion.\<close> Every definition is total. Loops over rows, schedules, ticks and batches recurse on
  the list they consume; the retry loops recurse on the number of attempts the code allows.

  \<^bold>\<open>Not modelled.\<close> The Kafka consumer, outbox worker and client (\<^verbatim>\<open>kafka\<close>), whose transactions are modelled in the
  message and delivery stores; the in-memory pairing service (\<^verbatim>\<open>pairing\<close>), whose transactions are
  modelled in the connection store; contacts (\<^verbatim>\<open>contacts\<close>, \<^verbatim>\<open>contactsync\<close>), media (\<^verbatim>\<open>media\<close>) and
  history backfill, which are mostly network and file I/O; the provider adapter (\<^verbatim>\<open>provider\<close>) and
  the protocol client (\<^verbatim>\<open>pkg/libgm\<close>), which are the environment of actor, dispatcher and inbox; the
  HTTP API, authentication, process composition and operations endpoints (\<^verbatim>\<open>httpapi\<close>, \<^verbatim>\<open>auth\<close>,
  \<^verbatim>\<open>app\<close>, \<^verbatim>\<open>ops\<close>), which wire and decode; the migration runner and the read-only metadata listings;
  the Matrix bridge (\<^verbatim>\<open>pkg/connector\<close>), which the gateway does not call. Label slugs, the paged
  listings of connections and lines and \<^verbatim>\<open>ListQueuedDispatchLanes\<close> are left out of otherwise modelled
  files. Blocking on row locks, deadlocks and the memory model of goroutines are below the model.
\<close>

end
